(* ===== verification/Prelude.thy ===== *)
theory Prelude
  imports Complex_Main "HOL-Library.List_Lexorder" "HOL-Library.Char_ord"
begin

text \<open>
  What every component of the rostering model shares: the result type of fallible code
  (a Python exception is the left summand), loops that stop at the first exception, the
  statements of SQL that the services use (find the first matching row, update the rows that
  match, insert or update on a key conflict) and the laws of these operations.
  The locale \<open>keyed_table\<close> is the interface of a table with a primary key; the
  theory \<open>Database\<close> interprets it on every canonical table of the program.
\<close>

named_theorems res_simps \<open>unfolding of the result monad\<close>
named_theorems tbl_simps \<open>laws of the table operations\<close>

section \<open>Exceptions\<close>

text \<open>
  The exceptions the modelled code raises: the ones of Python and of the database driver, then
  those the services declare.
\<close>

datatype exn =
    KeyError string
  | ValueError
  | TypeError
  | AttributeError
  | AssertionError
  | StatisticsError
  | ForeignKeyViolation string
  | NotNullViolation string
  | UniqueViolation string
  | CheckViolation string
  | StringDataRightTruncation
  | RevertSyncJobNotFound
  | RevertRefused
  | RetrySyncJobNotFound
  | RetryRefused
  | QuarantineNotFound
  | QuarantineAlreadyResolved
  | QuarantineRefused
  | BulkLoadError
  | ConnectorAuthorizationNotFound
  | LeaAlreadyExists
  | LeaNotFound
  | InvalidStatusTransition string string
  | IdempotencyConflict
  | IdempotencyInFlight
  | LockLost
  | SecretNotFound
  | HTTPException nat string
  | PartnerError string

section \<open>Fallible code\<close>

fun res_bind :: "'e + 'a \<Rightarrow> ('a \<Rightarrow> 'e + 'b) \<Rightarrow> 'e + 'b" where
  "res_bind (Inl e) f = Inl e"
| "res_bind (Inr a) f = f a"

definition ensure :: "bool \<Rightarrow> 'e \<Rightarrow> 'e + unit" where
  "ensure b e = (if b then Inr () else Inl e)"

fun fold_res :: "('a \<Rightarrow> 's \<Rightarrow> 'e + 's) \<Rightarrow> 'a list \<Rightarrow> 's \<Rightarrow> 'e + 's" where
  "fold_res f [] s = Inr s"
| "fold_res f (x # xs) s = res_bind (f x s) (fold_res f xs)"

fun map_res :: "('a \<Rightarrow> 'e + 'b) \<Rightarrow> 'a list \<Rightarrow> 'e + 'b list" where
  "map_res f [] = Inr []"
| "map_res f (x # xs) = res_bind (f x) (\<lambda>y. res_bind (map_res f xs) (\<lambda>ys. Inr (y # ys)))"

lemma res_bind_Inr_iff [res_simps]:
  "res_bind m f = Inr b \<longleftrightarrow> (\<exists>a. m = Inr a \<and> f a = Inr b)"
  by (cases m) auto

lemma res_bind_Inl_iff [res_simps]:
  "res_bind m f = Inl e \<longleftrightarrow> m = Inl e \<or> (\<exists>a. m = Inr a \<and> f a = Inl e)"
  by (cases m) auto

lemma ensure_Inr_iff [res_simps]: "ensure b e = Inr u \<longleftrightarrow> b"
  by (simp add: ensure_def)

lemma ensure_Inl_iff [res_simps]: "ensure b e = Inl e' \<longleftrightarrow> \<not> b \<and> e' = e"
  by (auto simp: ensure_def)

lemma fold_res_append:
  "fold_res f (xs @ ys) s = res_bind (fold_res f xs s) (fold_res f ys)"
proof (induction xs arbitrary: s)
  case (Cons x xs)
  then show ?case by (cases "f x s") simp_all
qed simp

text \<open>
  A transaction: the statements of the block run on the database one after the other; when the
  block raises, the database is what it was before.
\<close>

definition transaction :: "('s \<Rightarrow> 'e + ('a \<times> 's)) \<Rightarrow> 's \<Rightarrow> 's \<times> ('e + 'a)" where
  "transaction body s = (case body s of Inl e \<Rightarrow> (s, Inl e) | Inr (a, t) \<Rightarrow> (t, Inr a))"

lemma transaction_Inl: "transaction body s = (t, Inl e) \<longleftrightarrow> body s = Inl e \<and> t = s"
  by (auto simp: transaction_def split: sum.splits)

lemma transaction_Inr: "transaction body s = (t, Inr a) \<longleftrightarrow> body s = Inr (a, t)"
  by (auto simp: transaction_def split: sum.splits)

lemma result_split: "\<not> isl (snd x) \<Longrightarrow> x = (fst x, Inr (projr (snd x)))"
  by (metis prod.collapse sum.collapse(2))

text \<open>The loop rule: what every iteration keeps, the loop keeps.\<close>

lemma fold_res_invariant:
  assumes "fold_res f xs s = Inr t" and "P s"
    and "\<And>x s t. x \<in> set xs \<Longrightarrow> P s \<Longrightarrow> f x s = Inr t \<Longrightarrow> P t"
  shows "P t"
  using assms
proof (induction xs arbitrary: s)
  case (Cons x xs)
  from Cons.prems(1) obtain u where "f x s = Inr u" and "fold_res f xs u = Inr t"
    by (auto simp: res_simps)
  with Cons show ?case by (metis list.set_intros)
qed simp

text \<open>A loop whose iterations never raise under an invariant they keep does not raise.\<close>

lemma fold_res_total:
  assumes "P s" and "\<And>x s. x \<in> set xs \<Longrightarrow> P s \<Longrightarrow> \<exists>t. f x s = Inr t \<and> P t"
  shows "\<exists>t. fold_res f xs s = Inr t \<and> P t"
  using assms
proof (induction xs arbitrary: s)
  case (Cons x xs)
  then obtain u where "f x s = Inr u" "P u" by (meson list.set_intros(1))
  with Cons show ?case by simp
qed simp

lemma map_res_length: "map_res f xs = Inr ys \<Longrightarrow> length ys = length xs"
  by (induction xs arbitrary: ys) (auto simp: res_simps)

section \<open>Statements on tables\<close>

text \<open>
  A table is the list of its rows in insertion order. \<open>SELECT ... LIMIT 1\<close> and
  \<open>.first()\<close> read the first matching row; \<open>UPDATE ... WHERE\<close> changes every
  matching row; \<open>INSERT ... ON CONFLICT (key) DO UPDATE\<close> changes the row with the
  key of the new one, and appends the new row when there is none.
\<close>

definition update_where :: "('r \<Rightarrow> bool) \<Rightarrow> ('r \<Rightarrow> 'r) \<Rightarrow> 'r list \<Rightarrow> 'r list" where
  "update_where P f tbl = map (\<lambda>r. if P r then f r else r) tbl"

definition upsert :: "('r \<Rightarrow> 'k) \<Rightarrow> ('r \<Rightarrow> 'r \<Rightarrow> 'r) \<Rightarrow> 'r \<Rightarrow> 'r list \<Rightarrow> 'r list" where
  "upsert key merge new tbl =
     (if key new \<in> key ` set tbl
      then update_where (\<lambda>r. key r = key new) (\<lambda>old. merge old new) tbl
      else tbl @ [new])"

definition insert_if_absent :: "('r \<Rightarrow> 'k) \<Rightarrow> 'r \<Rightarrow> 'r list \<Rightarrow> 'r list" where
  "insert_if_absent key new tbl = (if key new \<in> key ` set tbl then tbl else tbl @ [new])"

definition lookup_by :: "('r \<Rightarrow> 'k) \<Rightarrow> 'k \<Rightarrow> 'r list \<Rightarrow> 'r option" where
  "lookup_by key k tbl = find (\<lambda>r. key r = k) tbl"

definition count_where :: "('r \<Rightarrow> bool) \<Rightarrow> 'r list \<Rightarrow> nat" where
  "count_where P tbl = length (filter P tbl)"

lemma length_update_where [tbl_simps, simp]: "length (update_where P f tbl) = length tbl"
  by (simp add: update_where_def)

lemma set_update_where:
  "set (update_where P f tbl) = (\<lambda>r. if P r then f r else r) ` set tbl"
  by (simp add: update_where_def)

lemma map_update_where:
  assumes "\<And>r. r \<in> set tbl \<Longrightarrow> P r \<Longrightarrow> g (f r) = g r"
  shows "map g (update_where P f tbl) = map g tbl"
  using assms by (simp add: update_where_def)

lemma update_where_none: "(\<And>r. r \<in> set tbl \<Longrightarrow> \<not> P r) \<Longrightarrow> update_where P f tbl = tbl"
  by (simp add: update_where_def map_idI)

lemma filter_update_where:
  assumes "\<And>r. r \<in> set tbl \<Longrightarrow> P r \<Longrightarrow> \<not> Q (f r) \<and> \<not> Q r"
  shows "filter Q (update_where P f tbl) = filter Q tbl"
  using assms by (induction tbl) (auto simp: update_where_def)

lemma filter_upsert:
  assumes "\<And>r. r \<in> set tbl \<Longrightarrow> key r = key new \<Longrightarrow> \<not> Q r \<and> \<not> Q (merge r new)" and "\<not> Q new"
  shows "filter Q (upsert key merge new tbl) = filter Q tbl"
  unfolding upsert_def using assms by (auto intro!: filter_update_where)

lemma upsert_replace_mem: "new \<in> set (upsert key (\<lambda>_ new. new) new tbl)"
  by (auto simp: upsert_def set_update_where)

lemma lookup_by_Some_iff_distinct:
  assumes "distinct (map key tbl)"
  shows "lookup_by key k tbl = Some r \<longleftrightarrow> r \<in> set tbl \<and> key r = k"
  using assms by (induction tbl) (auto simp: lookup_by_def)

lemma lookup_by_SomeD: "lookup_by key k tbl = Some r \<Longrightarrow> r \<in> set tbl \<and> key r = k"
  unfolding lookup_by_def by (metis (mono_tags, lifting) find_Some_iff nth_mem)

lemma lookup_by_None_iff: "lookup_by key k tbl = None \<longleftrightarrow> k \<notin> key ` set tbl"
  unfolding lookup_by_def by (auto simp: find_None_iff)

lemma lookup_by_append:
  "lookup_by key k (xs @ ys) =
     (case lookup_by key k xs of None \<Rightarrow> lookup_by key k ys | Some r \<Rightarrow> Some r)"
  by (induction xs) (auto simp: lookup_by_def)

lemma lookup_update_where:
  assumes "\<And>r. key (f r) = key r"
  shows "lookup_by key k (update_where (\<lambda>r. key r = k) f tbl) = map_option f (lookup_by key k tbl)"
  by (induction tbl) (auto simp: lookup_by_def update_where_def assms)

lemma find_cong_set: "(\<And>x. x \<in> set xs \<Longrightarrow> P x = Q x) \<Longrightarrow> find P xs = find Q xs"
  by (induction xs) auto

text \<open>
  The interface of a table with a primary key. The client gives the key of a row and the
  merge of \<open>DO UPDATE SET\<close> (the old row, then the row \<open>EXCLUDED\<close>); the
  law is that the merge keeps the key. Everything else follows.
\<close>

locale keyed_table =
  fixes key :: "'r \<Rightarrow> 'k" and merge :: "'r \<Rightarrow> 'r \<Rightarrow> 'r"
  assumes key_merge: "key new = key old \<Longrightarrow> key (merge old new) = key old"
begin

lemma map_key_merge:
  "map key (update_where (\<lambda>r. key r = key new) (\<lambda>old. merge old new) tbl) = map key tbl"
  by (rule map_update_where) (metis key_merge)

lemma map_key_upsert:
  "map key (upsert key merge new tbl) =
     (if key new \<in> key ` set tbl then map key tbl else map key tbl @ [key new])"
  by (simp add: upsert_def map_key_merge)

lemma keys_upsert: "key ` set (upsert key merge new tbl) = insert (key new) (key ` set tbl)"
  using arg_cong [OF map_key_upsert, of set] by (auto split: if_splits)

lemma distinct_upsert:
  "distinct (map key tbl) \<Longrightarrow> distinct (map key (upsert key merge new tbl))"
  by (auto simp: map_key_upsert)

lemma lookup_merge:
  "lookup_by key k (update_where (\<lambda>r. key r = key new) (\<lambda>old. merge old new) tbl) =
     map_option (\<lambda>old. if k = key new then merge old new else old) (lookup_by key k tbl)"
  by (induction tbl) (auto simp: lookup_by_def update_where_def key_merge)

lemma lookup_upsert_same:
  "lookup_by key (key new) (upsert key merge new tbl) =
     Some (case lookup_by key (key new) tbl of None \<Rightarrow> new | Some old \<Rightarrow> merge old new)"
proof (cases "lookup_by key (key new) tbl")
  case None
  then have "key new \<notin> key ` set tbl" by (simp add: lookup_by_None_iff)
  with None show ?thesis by (simp add: upsert_def lookup_by_append) (simp add: lookup_by_def)
next
  case (Some old)
  then have "key new \<in> key ` set tbl" by (metis lookup_by_None_iff option.distinct(1))
  with Some show ?thesis by (simp add: upsert_def lookup_merge)
qed

lemma lookup_upsert_other:
  "k \<noteq> key new \<Longrightarrow> lookup_by key k (upsert key merge new tbl) = lookup_by key k tbl"
  by (cases "lookup_by key k tbl")
     (auto simp: upsert_def lookup_merge lookup_by_append, simp_all add: lookup_by_def)

lemma upsert_memD:
  assumes "r \<in> set (upsert key merge new tbl)"
  shows "r = new \<or> r \<in> set tbl \<or> (\<exists>old \<in> set tbl. key old = key new \<and> r = merge old new)"
  using assms unfolding upsert_def by (auto simp: set_update_where split: if_splits)

lemma upsert_other_mem:
  assumes "key r \<noteq> key new"
  shows "r \<in> set (upsert key merge new tbl) \<longleftrightarrow> r \<in> set tbl"
  using assms unfolding upsert_def by (auto simp: set_update_where key_merge split: if_splits)

end

end
