(* ===== verification/PyStd.thy ===== *)
theory PyStd
  imports Prelude
begin

text \<open>
  The part of Python the rostering code computes with: JSON values and dictionaries
  (\<open>dict.get\<close>, \<open>d[k]\<close>, dictionary equality, truthiness, \<open>str\<close>),
  decimal numerals (\<open>int\<close>, \<open>str\<close>), \<open>str.partition\<close>, sorting of
  identifiers, \<open>statistics.median\<close> and calendar dates with \<open>isoformat\<close>
  and \<open>fromisoformat\<close>. A timestamp is an \<open>int\<close>, microseconds of UTC; a
  UUID is an opaque \<open>nat\<close>; a string is a list of characters, so the order of
  strings is the order of their character codes.
\<close>

type_synonym timestamp = int
type_synonym uuid = nat

section \<open>JSON values and dictionaries\<close>

datatype json =
    JNull
  | JBool bool
  | JInt int
  | JFloat rat
  | JStr string
  | JArr "json list"
  | JObj "(string \<times> json) list"

type_synonym dict = "(string \<times> json) list"

text \<open>\<open>d.get(k)\<close>, \<open>d.get(k, default)\<close> and \<open>d[k]\<close>.\<close>

definition dict_get :: "dict \<Rightarrow> string \<Rightarrow> json" where
  "dict_get d k = (case map_of d k of None \<Rightarrow> JNull | Some v \<Rightarrow> v)"

definition dict_get_default :: "dict \<Rightarrow> string \<Rightarrow> json \<Rightarrow> json" where
  "dict_get_default d k v = (case map_of d k of None \<Rightarrow> v | Some w \<Rightarrow> w)"

definition dict_item :: "dict \<Rightarrow> string \<Rightarrow> exn + json" where
  "dict_item d k = (case map_of d k of None \<Rightarrow> Inl (KeyError k) | Some v \<Rightarrow> Inr v)"

text \<open>Assignment \<open>d[k] = v\<close> and the union \<open>d | e\<close>, where \<open>e\<close> wins.\<close>

definition dict_set :: "dict \<Rightarrow> string \<Rightarrow> json \<Rightarrow> dict" where
  "dict_set d k v = upsert fst (\<lambda>_ new. new) (k, v) d"

definition dict_union :: "dict \<Rightarrow> dict \<Rightarrow> dict" where
  "dict_union d e = fold (\<lambda>(k, v) acc. dict_set acc k v) e d"

interpretation dict_table: keyed_table fst "\<lambda>_ new. new"
  by unfold_locales simp

lemma map_of_eq_lookup: "map_of d k = map_option snd (lookup_by fst k d)"
  by (induction d) (auto simp: lookup_by_def)

lemma dict_get_set [simp]: "dict_get (dict_set d k v) k' = (if k' = k then v else dict_get d k')"
  using dict_table.lookup_upsert_same [of "(k, v)" d]
    dict_table.lookup_upsert_other [of k' "(k, v)" d]
  by (auto simp: dict_get_def dict_set_def map_of_eq_lookup split: option.splits)

text \<open>
  Dictionary equality: the same keys with equal values, in any order; lists are equal element
  by element; \<open>True\<close> and \<open>1\<close> are equal numbers.
\<close>

fun json_num :: "json \<Rightarrow> rat option" where
  "json_num (JBool b) = Some (if b then 1 else 0)"
| "json_num (JInt i) = Some (of_int i)"
| "json_num (JFloat r) = Some r"
| "json_num _ = None"

function json_eq :: "json \<Rightarrow> json \<Rightarrow> bool" where
  "json_eq a b =
     (case (a, b) of
        (JNull, JNull) \<Rightarrow> True
      | (JStr s, JStr t) \<Rightarrow> s = t
      | (JArr xs, JArr ys) \<Rightarrow>
          length xs = length ys \<and> (\<forall>(x, y) \<in> set (zip xs ys). json_eq x y)
      | (JObj d, JObj e) \<Rightarrow>
          set (map fst d) = set (map fst e) \<and>
          (\<forall>(k, v) \<in> set d. case map_of e k of None \<Rightarrow> False | Some w \<Rightarrow> json_eq v w)
      | _ \<Rightarrow> json_num a \<noteq> None \<and> json_num a = json_num b)"
  by pat_completeness auto
termination
proof (relation "measure (\<lambda>(a, b). size a)", goal_cases)
  case (2 a b x y xs ys p u v)
  then have "u \<in> set xs" and "a = JArr xs" by (auto dest: set_zip_leftD)
  then show ?case by (simp add: size_list_estimation' less_Suc_eq_le)
next
  case (3 a b x y d e p k v w)
  then have "(k, v) \<in> set d" and "a = JObj d" by auto
  moreover from this have "size v \<le> size_list (size_prod (\<lambda>_. 0) size) d"
    by (intro size_list_estimation') auto
  ultimately show ?case by simp
qed simp

declare json_eq.simps [simp del]

lemma json_eq_simps [simp]:
  "json_eq JNull b \<longleftrightarrow> b = JNull"
  "json_eq (JStr s) b \<longleftrightarrow> b = JStr s"
  "json_eq b JNull \<longleftrightarrow> b = JNull"
  "json_eq b (JStr s) \<longleftrightarrow> b = JStr s"
  by (auto simp: json_eq.simps split: json.split)

lemma json_eq_JObj:
  "json_eq (JObj d) (JObj e) \<longleftrightarrow>
     set (map fst d) = set (map fst e) \<and>
     (\<forall>(k, v) \<in> set d. case map_of e k of None \<Rightarrow> False | Some w \<Rightarrow> json_eq v w)"
  by (simp add: json_eq.simps [of "JObj d"])

definition dict_eq :: "dict \<Rightarrow> dict \<Rightarrow> bool" where
  "dict_eq d e = json_eq (JObj d) (JObj e)"

lemma dict_eqI:
  assumes "fst ` set d = fst ` set e"
    and "\<And>k v. (k, v) \<in> set d \<Longrightarrow> \<exists>w. map_of e k = Some w \<and> json_eq v w"
  shows "dict_eq d e"
  using assms by (fastforce simp: dict_eq_def json_eq_JObj)

lemma dict_eqD:
  assumes "dict_eq d e" and "(k, v) \<in> set d"
  obtains w where "map_of e k = Some w" and "json_eq v w"
  using assms by (auto simp: dict_eq_def json_eq_JObj split: option.splits)

lemma dict_eq_keys: "dict_eq d e \<Longrightarrow> fst ` set d = fst ` set e"
  by (simp add: dict_eq_def json_eq_JObj)

text \<open>
  A Python dictionary has no two entries of one key, at any depth; such a value is equal to
  itself.
\<close>

fun json_wf :: "json \<Rightarrow> bool" where
  "json_wf (JArr xs) = list_all json_wf xs"
| "json_wf (JObj d) = (distinct (map fst d) \<and> list_all (\<lambda>(_, v). json_wf v) d)"
| "json_wf _ = True"

lemma json_eq_refl: "json_wf v \<Longrightarrow> json_eq v v"
proof (induction v rule: json_wf.induct)
  case (1 xs)
  then have "\<forall>(x, y) \<in> set (zip xs xs). json_eq x y"
    by (auto simp: list_all_iff zip_same_conv_map)
  then show ?case by (simp add: json_eq.simps [of "JArr xs"])
next
  case (2 d)
  have "map_of d k = Some v \<and> json_eq v v" if "(k, v) \<in> set d" for k v
    using 2 that by (auto simp: list_all_iff)
  then show ?case by (fastforce simp: json_eq_JObj)
qed (simp_all add: json_eq.simps)

definition truthy :: "json \<Rightarrow> bool" where
  "truthy v = (case v of
      JNull \<Rightarrow> False | JBool b \<Rightarrow> b | JInt i \<Rightarrow> i \<noteq> 0 | JFloat r \<Rightarrow> r \<noteq> 0
    | JStr s \<Rightarrow> s \<noteq> [] | JArr xs \<Rightarrow> xs \<noteq> [] | JObj d \<Rightarrow> d \<noteq> [])"

text \<open>An optional string as a JSON value.\<close>

definition json_of_opt :: "string option \<Rightarrow> json" where
  "json_of_opt so = (case so of None \<Rightarrow> JNull | Some s \<Rightarrow> JStr s)"

section \<open>Numerals and strings\<close>

definition digit_char :: "nat \<Rightarrow> char" where
  "digit_char d = char_of (48 + d)"

definition char_digit :: "char \<Rightarrow> nat option" where
  "char_digit c = (let n = of_char c :: nat in if 48 \<le> n \<and> n \<le> 57 then Some (n - 48) else None)"

fun string_of_nat :: "nat \<Rightarrow> string" where
  "string_of_nat n =
     (if n < 10 then [digit_char n] else string_of_nat (n div 10) @ [digit_char (n mod 10)])"

declare string_of_nat.simps [simp del]

definition string_of_int :: "int \<Rightarrow> string" where
  "string_of_int z =
     (let digits = string_of_nat (nat \<bar>z\<bar>) in if 0 \<le> z then digits else CHR ''-'' # digits)"

fun digits_value :: "nat \<Rightarrow> string \<Rightarrow> nat option" where
  "digits_value acc [] = Some acc"
| "digits_value acc (c # cs) =
     (case char_digit c of None \<Rightarrow> None | Some d \<Rightarrow> digits_value (10 * acc + d) cs)"

definition nat_of_string :: "string \<Rightarrow> exn + nat" where
  "nat_of_string s =
     (if s = [] then Inl ValueError
      else case digits_value 0 s of None \<Rightarrow> Inl ValueError | Some n \<Rightarrow> Inr n)"

lemma char_digit_digit_char [simp]: "d < 10 \<Longrightarrow> char_digit (digit_char d) = Some d"
  by (simp add: char_digit_def digit_char_def of_char_of)

lemma digits_value_append:
  "digits_value acc (xs @ ys) =
     (case digits_value acc xs of None \<Rightarrow> None | Some m \<Rightarrow> digits_value m ys)"
  by (induction xs arbitrary: acc) (auto split: option.splits)

lemma digits_value_string_of_nat: "digits_value 0 (string_of_nat n) = Some n"
proof (induction n rule: string_of_nat.induct)
  case (1 n)
  show ?case
  proof (cases "n < 10")
    case True
    then show ?thesis by (simp add: string_of_nat.simps)
  next
    case False
    with 1 have "digits_value 0 (string_of_nat (n div 10)) = Some (n div 10)" by simp
    with False show ?thesis
      by (subst string_of_nat.simps) (simp add: digits_value_append)
  qed
qed

lemma string_of_nat_nonempty [simp]: "string_of_nat n \<noteq> []"
  by (subst string_of_nat.simps) simp

text \<open>\<open>int(str(n))\<close> gives \<open>n\<close> back.\<close>

lemma nat_of_string_of_nat [simp]: "nat_of_string (string_of_nat n) = Inr n"
  by (simp add: nat_of_string_def digits_value_string_of_nat)

text \<open>\<open>s.partition(sep)\<close> for a one-character separator: (head, found, tail).\<close>

definition str_partition :: "char \<Rightarrow> string \<Rightarrow> string \<times> bool \<times> string" where
  "str_partition c s =
     (let h = takeWhile (\<lambda>x. x \<noteq> c) s; t = dropWhile (\<lambda>x. x \<noteq> c) s
      in (h, t \<noteq> [], tl t))"

lemma str_partition_join:
  "c \<notin> set h \<Longrightarrow> str_partition c (h @ c # t) = (h, True, t)"
  by (induction h) (auto simp: str_partition_def Let_def)

definition join_with :: "string \<Rightarrow> string list \<Rightarrow> string" where
  "join_with sep xs = concat (map (\<lambda>(i, x). if i = 0 then x else sep @ x) (enumerate 0 xs))"

text \<open>\<open>str.lower\<close>, one character up to U+00FF at a time.\<close>

definition py_lower_char :: "char \<Rightarrow> char" where
  "py_lower_char c =
     (let n = of_char c :: nat in
      if 65 \<le> n \<and> n \<le> 90 \<or> 192 \<le> n \<and> n \<le> 222 \<and> n \<noteq> 215 then char_of (n + 32) else c)"

lemma py_lower_char_idem: "py_lower_char (py_lower_char c) = py_lower_char c"
  by (auto simp: py_lower_char_def Let_def of_char_of)

section \<open>The string of a value\<close>

text \<open>
  \<open>repr\<close> of a string: single quotes unless the string holds a single quote and no
  double quote; the quote, the backslash and control characters are escaped.
\<close>

definition hex_char :: "nat \<Rightarrow> char" where
  "hex_char d = (if d < 10 then digit_char d else char_of (87 + d))"

definition repr_char :: "char \<Rightarrow> char \<Rightarrow> string" where
  "repr_char q c =
     (let n = of_char c :: nat in
      if c = q \<or> n = 92 then [char_of (92 :: nat), c]
      else if n = 10 then [char_of (92 :: nat), CHR ''n'']
      else if n = 13 then [char_of (92 :: nat), CHR ''r'']
      else if n = 9 then [char_of (92 :: nat), CHR ''t'']
      else if n < 32 \<or> n = 127 then
        [char_of (92 :: nat), CHR ''x'', hex_char (n div 16), hex_char (n mod 16)]
      else [c])"

definition py_repr_str :: "string \<Rightarrow> string" where
  "py_repr_str s =
     (let sq = char_of (39 :: nat); dq = char_of (34 :: nat);
          q = (if sq \<in> set s \<and> dq \<notin> set s then dq else sq)
      in q # concat (map (repr_char q) s) @ [q])"

text \<open>
  \<open>repr\<close> of a value that \<open>json.loads\<close> can return. The decimal text of a
  float is a function of the caller, \<open>ft\<close>.
\<close>

fun py_repr :: "(rat \<Rightarrow> string) \<Rightarrow> json \<Rightarrow> string" where
  "py_repr ft JNull = ''None''"
| "py_repr ft (JBool b) = (if b then ''True'' else ''False'')"
| "py_repr ft (JInt i) = string_of_int i"
| "py_repr ft (JFloat r) = ft r"
| "py_repr ft (JStr s) = py_repr_str s"
| "py_repr ft (JArr xs) = ''['' @ join_with '', '' (map (py_repr ft) xs) @ '']''"
| "py_repr ft (JObj d) =
     ''{'' @ join_with '', '' (map (\<lambda>(k, v). py_repr_str k @ '': '' @ py_repr ft v) d) @ ''}''"

definition py_str :: "(rat \<Rightarrow> string) \<Rightarrow> json \<Rightarrow> string" where
  "py_str ft v = (case v of JStr s \<Rightarrow> s | _ \<Rightarrow> py_repr ft v)"

lemma py_str_JStr [simp]: "py_str ft (JStr s) = s"
  by (simp add: py_str_def)

text \<open>
  \<open>str\<close> of a UUID. UUIDs are opaque; the development relies on nothing but that two
  different ones have different texts.
\<close>

definition uuid_str :: "uuid \<Rightarrow> string" where
  "uuid_str u = string_of_nat u"

lemma string_of_nat_inject [simp]: "string_of_nat m = string_of_nat n \<longleftrightarrow> m = n"
  by (metis Inr_inject nat_of_string_of_nat)

lemma uuid_str_inject [simp]: "uuid_str u = uuid_str v \<longleftrightarrow> u = v"
  by (simp add: uuid_str_def)

text \<open>\<open>len\<close> of a value: lists, dictionaries and strings have a length.\<close>

definition json_len :: "json \<Rightarrow> exn + nat" where
  "json_len v = (case v of
      JStr s \<Rightarrow> Inr (length s) | JArr xs \<Rightarrow> Inr (length xs) | JObj d \<Rightarrow> Inr (length d)
    | _ \<Rightarrow> Inl TypeError)"

text \<open>\<open>a or b\<close>, and \<open>s or t\<close> for an optional string.\<close>

definition json_or :: "json \<Rightarrow> json \<Rightarrow> json" where
  "json_or a b = (if truthy a then a else b)"

definition opt_or :: "string option \<Rightarrow> string \<Rightarrow> string" where
  "opt_or so t = (case so of None \<Rightarrow> t | Some s \<Rightarrow> if s = [] then t else s)"

section \<open>Sorting and the median\<close>

text \<open>\<open>sorted(s)\<close> of a set given by the list of what was added to it.\<close>

definition sorted_ids :: "string list \<Rightarrow> string list" where
  "sorted_ids xs = sort (remdups xs)"

lemma set_sorted_ids [simp]: "set (sorted_ids xs) = set xs"
  by (simp add: sorted_ids_def)

lemma distinct_sorted_ids [simp]: "distinct (sorted_ids xs)"
  by (simp add: sorted_ids_def)

lemma sorted_sorted_ids [simp]: "sorted (sorted_ids xs)"
  by (simp add: sorted_ids_def)

definition median :: "int list \<Rightarrow> exn + rat" where
  "median xs =
     (let ys = sort xs; n = length ys in
      if n = 0 then Inl StatisticsError
      else if odd n then Inr (of_int (ys ! (n div 2)))
      else Inr ((of_int (ys ! (n div 2 - 1)) + of_int (ys ! (n div 2))) / 2))"

lemma median_total:
  assumes "xs \<noteq> []"
  shows "\<exists>m. median xs = Inr m"
proof -
  from assms have n: "length (sort xs) \<noteq> 0" by simp
  show ?thesis
    unfolding median_def Let_def if_not_P [OF n]
    by (rule exI) (rule if_distrib [symmetric])
qed

lemma median_bounds:
  assumes "median xs = Inr m" and "\<And>x. x \<in> set xs \<Longrightarrow> lo \<le> x \<and> x \<le> hi"
  shows "of_int lo \<le> m \<and> m \<le> of_int hi"
proof -
  let ?ys = "sort xs"
  let ?n = "length xs"
  have mem: "lo \<le> ?ys ! i \<and> ?ys ! i \<le> hi" if "i < ?n" for i
    using assms(2) that by (metis length_sort nth_mem set_sort)
  from assms(1) have n: "?n \<noteq> 0" by (auto simp: median_def Let_def)
  then have "?n div 2 < ?n" and "?n div 2 - 1 < ?n" by arith+
  with mem have
    "of_int lo \<le> (of_int (?ys ! (?n div 2)) :: rat) \<and> of_int (?ys ! (?n div 2)) \<le> (of_int hi :: rat)"
    "of_int lo \<le> (of_int (?ys ! (?n div 2 - 1)) :: rat) \<and>
     of_int (?ys ! (?n div 2 - 1)) \<le> (of_int hi :: rat)"
    by simp_all
  with assms(1) n show ?thesis
    by (auto simp: median_def Let_def field_simps split: if_splits)
qed

end
