(* ===== verification/PyJson.thy ===== *)
theory PyJson
  imports PyStd
begin

text \<open>
  \<open>json.dumps(v, sort_keys=True, separators=...)\<close>, which the rostering code hashes: the
  entries of every dictionary sorted by key, strings quoted and escaped to ASCII. The two
  separators are arguments; the decimal text of a float is a function of the caller. The laws
  say that the text determines the value, up to the order of dictionary entries: every printer
  is read back from the front of a text, whatever follows.
\<close>

section \<open>The printer\<close>

definition esc_char :: "char \<Rightarrow> string" where
  "esc_char c =
     (let n = of_char c :: nat; bs = CHR 0x5C in
      if n = 34 \<or> n = 92 then [bs, c]
      else if n = 10 then [bs, CHR ''n'']
      else if n = 13 then [bs, CHR ''r'']
      else if n = 9 then [bs, CHR ''t'']
      else if n = 12 then [bs, CHR ''f'']
      else if n = 8 then [bs, CHR ''b'']
      else if 32 \<le> n \<and> n \<le> 126 then [c]
      else [bs, CHR ''u'', CHR ''0'', CHR ''0'', hex_char (n div 16), hex_char (n mod 16)])"

definition json_quote :: "string \<Rightarrow> string" where
  "json_quote s = CHR 0x22 # concat (map esc_char s) @ [CHR 0x22]"

fun sorted_keys :: "json \<Rightarrow> json" where
  "sorted_keys (JArr xs) = JArr (map sorted_keys xs)"
| "sorted_keys (JObj d) = JObj (sort_key fst (map (\<lambda>(k, v). (k, sorted_keys v)) d))"
| "sorted_keys v = v"

fun json_text :: "(rat \<Rightarrow> string) \<Rightarrow> string \<Rightarrow> string \<Rightarrow> json \<Rightarrow> string" where
  "json_text ft isep ksep JNull = ''null''"
| "json_text ft isep ksep (JBool b) = (if b then ''true'' else ''false'')"
| "json_text ft isep ksep (JInt i) = string_of_int i"
| "json_text ft isep ksep (JFloat r) = ft r"
| "json_text ft isep ksep (JStr s) = json_quote s"
| "json_text ft isep ksep (JArr xs) =
     ''['' @ join_with isep (map (json_text ft isep ksep) xs) @ '']''"
| "json_text ft isep ksep (JObj d) =
     ''{'' @ join_with isep (map (\<lambda>(k, v). json_quote k @ ksep @ json_text ft isep ksep v) d) @ ''}''"

definition dumps_sorted :: "(rat \<Rightarrow> string) \<Rightarrow> string \<Rightarrow> string \<Rightarrow> json \<Rightarrow> string" where
  "dumps_sorted ft isep ksep v = json_text ft isep ksep (sorted_keys v)"

section \<open>Reading characters and strings back\<close>

definition hex_value :: "char \<Rightarrow> nat" where
  "hex_value c = (let n = of_char c :: nat in if n < 58 then n - 48 else n - 87)"

lemma hex_value_hex_char [simp]: "d < 16 \<Longrightarrow> hex_value (hex_char d) = d"
  by (simp add: hex_value_def hex_char_def digit_char_def of_char_of Let_def)

definition unesc :: "string \<Rightarrow> char \<times> string" where
  "unesc s =
     (if of_char (hd s) \<noteq> (92 :: nat) then (hd s, tl s)
      else
        let k = hd (tl s); rest = tl (tl s) in
        if k = CHR ''n'' then (char_of (10 :: nat), rest)
        else if k = CHR ''r'' then (char_of (13 :: nat), rest)
        else if k = CHR ''t'' then (char_of (9 :: nat), rest)
        else if k = CHR ''f'' then (char_of (12 :: nat), rest)
        else if k = CHR ''b'' then (char_of (8 :: nat), rest)
        else if k = CHR ''u'' then
          (char_of (16 * hex_value (rest ! 2) + hex_value (rest ! 3)), drop 4 rest)
        else (k, rest))"

lemma char_codes:
  "char_of (34 :: nat) = CHR 0x22" "char_of (92 :: nat) = CHR 0x5C"
  "char_of (10 :: nat) = CHR 0x0A" "char_of (13 :: nat) = CHR 0x0D"
  "char_of (9 :: nat) = CHR 0x09" "char_of (12 :: nat) = CHR 0x0C" "char_of (8 :: nat) = CHR 0x08"
  by code_simp+

lemma of_char_eq_char: "(of_char c :: nat) = n \<longleftrightarrow> c = char_of n" if "n < 256"
  using that by (metis char_of_char of_char_of mod_less)

lemma unesc_esc_char [simp]: "unesc (esc_char c @ xs) = (c, xs)"
proof -
  have lt: "(of_char c :: nat) < 256" by (metis char_of_char of_char_of mod_less_divisor zero_less_numeral)
  consider (quoted) "of_char c = (34 :: nat) \<or> of_char c = (92 :: nat)"
    | (ctl) "of_char c \<in> {10 :: nat, 13, 9, 12, 8}"
    | (plain) "32 \<le> (of_char c :: nat)" "(of_char c :: nat) \<le> 126"
        "of_char c \<noteq> (34 :: nat)" "of_char c \<noteq> (92 :: nat)"
    | (hex) "(of_char c :: nat) \<notin> {10, 13, 9, 12, 8, 34, 92}"
        "\<not> (32 \<le> (of_char c :: nat) \<and> (of_char c :: nat) \<le> 126)"
    by fastforce
  then show ?thesis
  proof cases
    case quoted
    then show ?thesis by (auto simp: esc_char_def unesc_def of_char_of of_char_eq_char char_codes)
  next
    case ctl
    then show ?thesis by (auto simp: esc_char_def unesc_def of_char_of of_char_eq_char char_codes)
  next
    case plain
    then show ?thesis by (auto simp: esc_char_def unesc_def)
  next
    case hex
    have "(of_char c :: nat) div 16 < 16" using lt by (simp add: less_mult_imp_div_less)
    with hex show ?thesis by (simp add: esc_char_def unesc_def of_char_of Let_def)
  qed
qed

lemma hd_esc_char: "esc_char c = x # xs \<Longrightarrow> x \<noteq> CHR 0x22"
proof -
  assume "esc_char c = x # xs"
  moreover have "(of_char (CHR 0x22 :: char) :: nat) = 34" by code_simp
  ultimately show ?thesis by (auto simp: esc_char_def Let_def split: if_splits)
qed

lemma esc_char_nonempty [simp]: "esc_char c \<noteq> []"
  by (simp add: esc_char_def Let_def)

lemma esc_chars_unique:
  "concat (map esc_char s) @ CHR 0x22 # xs = concat (map esc_char t) @ CHR 0x22 # ys \<Longrightarrow>
   s = t \<and> xs = ys"
proof (induction s arbitrary: t)
  case Nil
  then show ?case
  proof (cases t)
    case (Cons c t')
    with Nil show ?thesis by (cases "esc_char c") (auto dest: hd_esc_char)
  qed simp
next
  case (Cons c s)
  show ?case
  proof (cases t)
    case Nil
    with Cons.prems show ?thesis by (cases "esc_char c") (auto dest: hd_esc_char)
  next
    case t: (Cons d t')
    with Cons.prems have
      eq: "esc_char c @ concat (map esc_char s) @ CHR 0x22 # xs =
        esc_char d @ concat (map esc_char t') @ CHR 0x22 # ys" by simp
    from arg_cong [OF eq, of unesc] Cons.IH [of t'] t show ?thesis by simp
  qed
qed

lemma json_quote_unique: "json_quote s @ xs = json_quote t @ ys \<longleftrightarrow> s = t \<and> xs = ys"
  using esc_chars_unique [of s xs t ys] by (auto simp: json_quote_def)

section \<open>Reading numbers back\<close>

text \<open>
  A number ends at the first character no number contains. Of the text of floats the laws need
  that it is made of such characters, starts with a digit or a sign, and is different for
  different floats and never the text of an integer.
\<close>

definition number_char :: "char \<Rightarrow> bool" where
  "number_char c \<longleftrightarrow> c \<in> set ''0123456789+-.eE''"

definition ends_number :: "string \<Rightarrow> bool" where
  "ends_number s \<longleftrightarrow> s = [] \<or> \<not> number_char (hd s)"

definition float_text :: "(rat \<Rightarrow> string) \<Rightarrow> bool" where
  "float_text ft \<longleftrightarrow> inj ft \<and> (\<forall>r i. ft r \<noteq> string_of_int i) \<and>
     (\<forall>r. ft r \<noteq> [] \<and> list_all number_char (ft r))"

lemma number_unique:
  assumes "list_all number_char a" "list_all number_char b" "ends_number xs" "ends_number ys"
    and "a @ xs = b @ ys"
  shows "a = b \<and> xs = ys"
proof -
  have "takeWhile number_char (n @ zs) = n" if "list_all number_char n" "ends_number zs" for n zs
    using that by (cases zs) (auto simp: takeWhile_append2 list_all_iff ends_number_def)
  with assms show ?thesis by (metis append_eq_append_conv)
qed

lemma number_char_digit: "d < 10 \<Longrightarrow> number_char (digit_char d)"
proof -
  have "\<forall>d \<in> set [0..<10]. number_char (digit_char d)" by code_simp
  then show "d < 10 \<Longrightarrow> number_char (digit_char d)" by simp
qed

lemma number_chars_nat: "list_all number_char (string_of_nat n)"
proof (induction n rule: string_of_nat.induct)
  case (1 n)
  then show ?case by (subst string_of_nat.simps) (auto simp: number_char_digit)
qed

lemma number_chars_int: "list_all number_char (string_of_int i)"
  by (simp add: string_of_int_def Let_def number_chars_nat) (simp add: number_char_def)

lemma digit_not_minus: "d < 10 \<Longrightarrow> digit_char d \<noteq> CHR ''-''"
proof -
  have "\<forall>d \<in> set [0..<10]. digit_char d \<noteq> CHR ''-''" by code_simp
  then show "d < 10 \<Longrightarrow> digit_char d \<noteq> CHR ''-''" by simp
qed

lemma hd_string_of_nat: "hd (string_of_nat n) \<noteq> CHR ''-''"
proof (induction n rule: string_of_nat.induct)
  case (1 n)
  then show ?case by (subst string_of_nat.simps) (auto simp: digit_not_minus)
qed

lemma string_of_int_inject [simp]: "string_of_int i = string_of_int j \<longleftrightarrow> i = j"
proof
  assume eq: "string_of_int i = string_of_int j"
  have sign: "hd (string_of_int k) = CHR ''-'' \<longleftrightarrow> k < 0" for k
    by (auto simp: string_of_int_def Let_def hd_string_of_nat)
  from eq have "i < 0 \<longleftrightarrow> j < 0" using sign [of i] sign [of j] by simp
  with eq show "i = j" by (auto simp: string_of_int_def Let_def split: if_splits)
qed simp

lemma string_of_int_nonempty [simp]: "string_of_int i \<noteq> []"
  by (simp add: string_of_int_def Let_def)

section \<open>Reading values back\<close>

lemma join_with_Cons: "join_with sep (x # xs) = x @ concat (map (\<lambda>y. sep @ y) xs)"
proof -
  have "map (\<lambda>(i, x). if i = 0 then x else sep @ x) (enumerate (Suc n) xs) = map (\<lambda>y. sep @ y) xs" for n
    by (induction xs arbitrary: n) auto
  then show ?thesis by (simp add: join_with_def)
qed

lemma join_with_Nil [simp]: "join_with sep [] = []"
  by (simp add: join_with_def)

text \<open>
  A printer is readable on a set of values when its text is found back in front of whatever
  follows. The lists of two printers joined by a comma and closed by a bracket are.
\<close>

definition readable :: "('a \<Rightarrow> string) \<Rightarrow> 'a \<Rightarrow> bool" where
  "readable f a \<longleftrightarrow>
     (\<forall>b xs ys. f a @ xs = f b @ ys \<longrightarrow> ends_number xs \<longrightarrow> ends_number ys \<longrightarrow> a = b \<and> xs = ys)"

lemma readableI:
  "(\<And>b xs ys. f a @ xs = f b @ ys \<Longrightarrow> ends_number xs \<Longrightarrow> ends_number ys \<Longrightarrow> a = b \<and> xs = ys) \<Longrightarrow>
   readable f a"
  unfolding readable_def by blast

lemma readableD:
  "readable f a \<Longrightarrow> f a @ xs = f b @ ys \<Longrightarrow> ends_number xs \<Longrightarrow> ends_number ys \<Longrightarrow> a = b \<and> xs = ys"
  unfolding readable_def by blast

definition closes :: "char \<Rightarrow> bool" where
  "closes c \<longleftrightarrow> c = CHR '']'' \<or> c = CHR ''}''"

lemma closes_char [simp]: "closes (CHR '']'')" "closes (CHR ''}'')"
  by (simp_all add: closes_def)

definition rest_text :: "string \<Rightarrow> ('a \<Rightarrow> string) \<Rightarrow> 'a list \<Rightarrow> string" where
  "rest_text isep f ys = concat (map (\<lambda>y. (CHR '','' # isep) @ f y) ys)"

lemma rest_text_simps [simp]:
  "rest_text isep f [] = []"
  "rest_text isep f (y # ys) = CHR '','' # isep @ f y @ rest_text isep f ys"
  by (simp_all add: rest_text_def)

lemma join_rest_text: "join_with (CHR '','' # isep) (f x # map f xs) = f x @ rest_text isep f xs"
  by (simp add: join_with_Cons rest_text_def comp_def)

lemma rest_ends_number: "closes c \<Longrightarrow> ends_number (rest_text isep f ys @ c # zs)"
  by (cases ys) (auto simp: ends_number_def number_char_def closes_def)

lemma readable_rest:
  assumes "readable f a" and "closes c"
    and "f a @ rest_text isep f as @ c # xs = f b @ rest_text isep f bs @ c # ys"
  shows "a = b \<and> rest_text isep f as @ c # xs = rest_text isep f bs @ c # ys"
  by (rule readableD [OF assms(1,3)]) (rule rest_ends_number [OF assms(2)])+

lemma rest_unique:
  assumes "\<forall>a \<in> set as. readable f a" and "closes c"
    and "rest_text isep f as @ c # xs = rest_text isep f bs @ c # ys"
  shows "as = bs \<and> xs = ys"
  using assms(1,3)
proof (induction as arbitrary: bs)
  case Nil
  with assms(2) show ?case by (cases bs) (auto simp: closes_def)
next
  case (Cons a as)
  show ?case
  proof (cases bs)
    case Nil
    with Cons.prems assms(2) show ?thesis by (auto simp: closes_def)
  next
    case bs: (Cons b bs')
    with Cons.prems have "readable f a"
      "f a @ rest_text isep f as @ c # xs = f b @ rest_text isep f bs' @ c # ys" by simp_all
    from readable_rest [OF this(1) assms(2) this(2)] Cons.IH [of bs'] Cons.prems(1) bs
    show ?thesis by simp
  qed
qed

lemma joined_unique:
  assumes "\<forall>a \<in> set as. readable f a" and "closes c"
    and head: "\<And>b. f b \<noteq> [] \<and> hd (f b) \<noteq> c"
    and eq: "join_with (CHR '','' # isep) (map f as) @ c # xs =
         join_with (CHR '','' # isep) (map f bs) @ c # ys"
  shows "as = bs \<and> xs = ys"
proof (cases as)
  case as: Nil
  show ?thesis
  proof (cases bs)
    case (Cons b bs')
    with as eq have "c # xs = f b @ rest_text isep f bs' @ c # ys" by (simp add: join_rest_text)
    with head [of b] show ?thesis by (metis hd_append2 list.sel(1))
  qed (use as eq in simp)
next
  case as: (Cons a as')
  show ?thesis
  proof (cases bs)
    case Nil
    with as eq have "f a @ rest_text isep f as' @ c # xs = c # ys" by (simp add: join_rest_text)
    with head [of a] show ?thesis by (metis hd_append2 list.sel(1))
  next
    case bs: (Cons b bs')
    from eq have "f a @ rest_text isep f as' @ c # xs = f b @ rest_text isep f bs' @ c # ys"
      by (simp add: as bs join_rest_text)
    from readable_rest [OF _ assms(2) this] rest_unique [OF _ assms(2)] assms(1) as bs
    show ?thesis by (metis list.set_intros)
  qed
qed

definition member_text :: "(rat \<Rightarrow> string) \<Rightarrow> string \<Rightarrow> string \<Rightarrow> string \<times> json \<Rightarrow> string" where
  "member_text ft isep ksep = (\<lambda>(k, v). json_quote k @ ksep @ json_text ft isep ksep v)"

lemma json_text_JObj:
  "json_text ft isep ksep (JObj d) = CHR ''{'' # join_with isep (map (member_text ft isep ksep) d) @ ''}''"
  by (simp add: member_text_def)

datatype text_kind = KNull | KTrue | KFalse | KNumber | KString | KArray | KObject | KNone

definition kind_of_char :: "char \<Rightarrow> text_kind" where
  "kind_of_char c =
     (if c = CHR ''n'' then KNull else if c = CHR ''t'' then KTrue else if c = CHR ''f'' then KFalse
      else if c = CHR 0x22 then KString else if c = CHR ''['' then KArray
      else if c = CHR ''{'' then KObject else if number_char c then KNumber else KNone)"

fun kind_of :: "json \<Rightarrow> text_kind" where
  "kind_of JNull = KNull" | "kind_of (JBool b) = (if b then KTrue else KFalse)"
| "kind_of (JInt i) = KNumber" | "kind_of (JFloat r) = KNumber" | "kind_of (JStr s) = KString"
| "kind_of (JArr xs) = KArray" | "kind_of (JObj d) = KObject"

lemma kind_of_number:
  "number_char c \<Longrightarrow> kind_of_char c = KNumber"
  by (auto simp: kind_of_char_def number_char_def)

lemma json_text_nonempty: "float_text ft \<Longrightarrow> json_text ft isep ksep v \<noteq> []"
  by (cases v) (auto simp: float_text_def json_quote_def)

lemma kind_of_text:
  assumes "float_text ft"
  shows "kind_of_char (hd (json_text ft isep ksep v)) = kind_of v"
proof (cases v)
  case (JInt i)
  then show ?thesis using number_chars_int [of i]
    by (cases "string_of_int i") (auto simp: kind_of_number)
next
  case (JFloat r)
  moreover from assms have "ft r \<noteq> []" "list_all number_char (ft r)"
    by (simp_all add: float_text_def)
  ultimately show ?thesis by (cases "ft r") (simp_all add: kind_of_number)
qed (auto simp: kind_of_char_def json_quote_def)

lemma not_bracket: "kind_of_char (CHR '']'') \<noteq> kind_of v"
proof -
  have "kind_of_char (CHR '']'') = KNone" by code_simp
  then show ?thesis by (cases v) auto
qed

lemma same_kind:
  assumes "float_text ft" and "json_text ft isep ksep a @ xs = json_text ft isep ksep b @ ys"
  shows "kind_of a = kind_of b"
  using assms json_text_nonempty kind_of_text by (metis hd_append2)

text \<open>
  The text of a value is found back in front of whatever follows it, for separators that start
  with a comma and a colon.
\<close>

lemma json_text_readable:
  assumes "float_text ft" and "isep = CHR '','' # isep'"
  shows "readable (json_text ft isep ksep) a"
proof (induction a)
  case (JArr as)
  show ?case
    proof (rule readableI)
    fix b xs ys
    assume eq: "json_text ft isep ksep (JArr as) @ xs = json_text ft isep ksep b @ ys"
    from same_kind [OF assms(1) eq] obtain bs where b: "b = JArr bs"
      by (cases b) (auto split: if_splits)
    have head: "json_text ft isep ksep v \<noteq> [] \<and> hd (json_text ft isep ksep v) \<noteq> CHR '']''" for v
      using json_text_nonempty [OF assms(1)] kind_of_text [OF assms(1), of isep ksep v] not_bracket [of v]
      by auto
    have "as = bs \<and> xs = ys"
      by (rule joined_unique [of as "json_text ft isep ksep" "CHR '']''" isep'])
        (use JArr eq head in \<open>auto simp: b assms(2)\<close>)
    with b show "JArr as = b \<and> xs = ys" by simp
  qed
next
  case (JObj as)
  have member: "readable (member_text ft isep ksep) (k, v)" if "(k, v) \<in> set as" for k v
    proof (rule readableI)
    fix b xs ys
    assume eq: "member_text ft isep ksep (k, v) @ xs = member_text ft isep ksep b @ ys"
      and ends: "ends_number xs" "ends_number ys"
    obtain k' v' where b: "b = (k', v')" by (cases b)
    from eq have "k = k'" and "json_text ft isep ksep v @ xs = json_text ft isep ksep v' @ ys"
      by (simp_all add: member_text_def b json_quote_unique)
    moreover have "readable (json_text ft isep ksep) v" by (rule JObj [OF that]) simp
    ultimately show "(k, v) = b \<and> xs = ys" using ends readableD b by metis
  qed
  show ?case
    proof (rule readableI)
    fix b xs ys
    assume eq: "json_text ft isep ksep (JObj as) @ xs = json_text ft isep ksep b @ ys"
    from same_kind [OF assms(1) eq] obtain bs where b: "b = JObj bs"
      by (cases b) (auto split: if_splits)
    have head: "member_text ft isep ksep m \<noteq> [] \<and> hd (member_text ft isep ksep m) \<noteq> CHR ''}''" for m
      by (cases m) (simp add: member_text_def json_quote_def)
    have "as = bs \<and> xs = ys"
      by (rule joined_unique [of as "member_text ft isep ksep" "CHR ''}''" isep'])
        (use member eq head in \<open>auto simp: b assms(2) json_text_JObj simp del: json_text.simps\<close>)
    with b show "JObj as = b \<and> xs = ys" by simp
  qed
next
  case (JInt i)
  show ?case
    proof (rule readableI)
    fix b xs ys
    assume eq: "json_text ft isep ksep (JInt i) @ xs = json_text ft isep ksep b @ ys"
      and ends: "ends_number xs" "ends_number ys"
    from same_kind [OF assms(1) eq] consider (i) j where "b = JInt j" | (f) r where "b = JFloat r"
      by (cases b) (auto split: if_splits)
    then show "JInt i = b \<and> xs = ys"
    proof cases
      case i
      with number_unique [OF number_chars_int number_chars_int ends] eq show ?thesis by simp
    next
      case f
      with assms(1) number_unique [OF number_chars_int _ ends, of "ft r" i] eq
      have "string_of_int i = ft r" by (simp add: float_text_def)
      with assms(1) show ?thesis unfolding float_text_def by metis
    qed
  qed
next
  case (JFloat r)
  show ?case
    proof (rule readableI)
    fix b xs ys
    assume eq: "json_text ft isep ksep (JFloat r) @ xs = json_text ft isep ksep b @ ys"
      and ends: "ends_number xs" "ends_number ys"
    have r: "list_all number_char (ft r)" for r using assms(1) by (simp add: float_text_def)
    from same_kind [OF assms(1) eq] consider (i) j where "b = JInt j" | (f) q where "b = JFloat q"
      by (cases b) (auto split: if_splits)
    then show "JFloat r = b \<and> xs = ys"
    proof cases
      case i
      with assms(1) number_unique [OF r number_chars_int ends, of r j] eq show ?thesis
        by (auto simp: float_text_def)
    next
      case f
      with assms(1) number_unique [OF r r ends, of r q] eq show ?thesis
        by (auto simp: float_text_def inj_def)
    qed
  qed
next
  case (JStr s)
  show ?case
    proof (rule readableI)
    fix b xs ys
    assume eq: "json_text ft isep ksep (JStr s) @ xs = json_text ft isep ksep b @ ys"
    from same_kind [OF assms(1) eq] obtain t where "b = JStr t"
      by (cases b) (auto split: if_splits)
    with eq show "JStr s = b \<and> xs = ys" by (simp add: json_quote_unique)
  qed
next
  case (JBool p)
  show ?case
    proof (rule readableI)
    fix b xs ys
    assume eq: "json_text ft isep ksep (JBool p) @ xs = json_text ft isep ksep b @ ys"
    from same_kind [OF assms(1) eq] have "b = JBool p" by (cases b; cases p) (auto split: if_splits)
    with eq show "JBool p = b \<and> xs = ys" by simp
  qed
next
  case JNull
  show ?case
    proof (rule readableI)
    fix b xs ys
    assume eq: "json_text ft isep ksep JNull @ xs = json_text ft isep ksep b @ ys"
    from same_kind [OF assms(1) eq] have "b = JNull" by (cases b) (auto split: if_splits)
    with eq show "JNull = b \<and> xs = ys" by simp
  qed
qed

text \<open>Two values have the same text exactly when they are the same but for the order of entries.\<close>

lemma dumps_sorted_inject:
  assumes "float_text ft"
  shows "dumps_sorted ft (CHR '','' # isep) ksep a = dumps_sorted ft (CHR '','' # isep) ksep b \<longleftrightarrow>
    sorted_keys a = sorted_keys b"
proof
  assume "dumps_sorted ft (CHR '','' # isep) ksep a = dumps_sorted ft (CHR '','' # isep) ksep b"
  then have "json_text ft (CHR '','' # isep) ksep (sorted_keys a) @ [] =
      json_text ft (CHR '','' # isep) ksep (sorted_keys b) @ []"
    by (simp add: dumps_sorted_def)
  from readableD [OF json_text_readable [OF assms refl] this]
  show "sorted_keys a = sorted_keys b" by (simp add: ends_number_def)
qed (simp add: dumps_sorted_def)

text \<open>A printer of floats with the laws: the numerator, the letter \<open>e\<close> and the denominator.\<close>

definition fraction_text :: "rat \<Rightarrow> string" where
  "fraction_text r = (let (n, d) = quotient_of r in string_of_int n @ CHR ''e'' # string_of_int d)"

lemma int_text_no_e: "CHR ''e'' \<notin> set (string_of_int i)"
proof -
  have "\<forall>d \<in> set [0..<10]. digit_char d \<noteq> CHR ''e''" by code_simp
  then have digit: "d < 10 \<Longrightarrow> digit_char d \<noteq> CHR ''e''" for d by simp
  have "CHR ''e'' \<notin> set (string_of_nat n)" for n
  proof (induction n rule: string_of_nat.induct)
    case (1 n)
    show ?case
    proof (cases "n < 10")
      case True
      with digit [of n] show ?thesis by (subst string_of_nat.simps) auto
    next
      case False
      with 1 digit [of "n mod 10"] show ?thesis by (subst string_of_nat.simps) auto
    qed
  qed
  then show ?thesis by (simp add: string_of_int_def Let_def)
qed

lemma float_text_fraction: "float_text fraction_text"
proof -
  have split: "a = a' \<and> b = b'"
    if "string_of_int a @ CHR ''e'' # string_of_int b = string_of_int a' @ CHR ''e'' # string_of_int b'" for a b a' b'
    using that append_Cons_eq_iff [of "CHR ''e''" "string_of_int a" "string_of_int b" "string_of_int a'" "string_of_int b'"]
      int_text_no_e by simp
  have "inj fraction_text"
  proof (rule injI)
    fix r q assume "fraction_text r = fraction_text q"
    with split have "quotient_of r = quotient_of q"
      by (cases "quotient_of r"; cases "quotient_of q") (simp add: fraction_text_def)
    then show "r = q" by (rule quotient_of_inject)
  qed
  moreover have "fraction_text r \<noteq> string_of_int i" for r i
  proof
    assume "fraction_text r = string_of_int i"
    moreover have "CHR ''e'' \<in> set (fraction_text r)"
      by (cases "quotient_of r") (simp add: fraction_text_def)
    ultimately show False using int_text_no_e [of i] by simp
  qed
  moreover have "list_all number_char (fraction_text r)" for r
    by (cases "quotient_of r") (simp add: fraction_text_def number_chars_int, simp add: number_char_def)
  moreover have "fraction_text r \<noteq> []" for r
    by (cases "quotient_of r") (simp add: fraction_text_def)
  ultimately show ?thesis by (simp add: float_text_def)
qed

end
