(* ===== verification/ServiceBus.thy ===== *)
theory ServiceBus
  imports PyJson "HOL-Library.AList" "HOL-Library.Multiset"
begin

text \<open>
  The broker that serializes the work of a LEA (\<open>infrastructure/azure_mocks/service_bus.py\<close>) and
  the retry loop around its sends (\<open>core/retry.py\<close>). A queue keeps its sessions in the order
  of their first message, as the \<open>defaultdict\<close> does; reading a missing session creates it. The
  two critical sections of \<open>receive_messages\<close> are two operations, between which other threads
  run.
\<close>

section \<open>Queues\<close>

record message =
  ms_body :: string
  ms_session_id :: string
  ms_message_id :: string
  ms_enqueued_at :: timestamp
  ms_properties :: dict

record session_queue =
  sq_sessions :: "(string \<times> message list) list"
  sq_in_flight :: "(string \<times> message list) list"
  sq_locks :: "(string \<times> bool) list"

definition empty_queue :: session_queue where
  "empty_queue = \<lparr>sq_sessions = [], sq_in_flight = [], sq_locks = []\<rparr>"

datatype bus_error = SessionLocked string | NoSessionAvailable | ConnectError

text \<open>\<open>d[k]\<close> of a \<open>defaultdict\<close> of lists, and the locks map, where a missing key is not locked.\<close>

definition entries :: "(string \<times> 'a list) list \<Rightarrow> string \<Rightarrow> 'a list" where
  "entries d k = (case map_of d k of None \<Rightarrow> [] | Some xs \<Rightarrow> xs)"

definition locked :: "session_queue \<Rightarrow> string \<Rightarrow> bool" where
  "locked q s = (case map_of (sq_locks q) s of None \<Rightarrow> False | Some b \<Rightarrow> b)"

definition pending :: "session_queue \<Rightarrow> string \<Rightarrow> message list" where
  "pending q s = entries (sq_sessions q) s"

definition in_flight :: "session_queue \<Rightarrow> string \<Rightarrow> message list" where
  "in_flight q s = entries (sq_in_flight q) s"

section \<open>Operations\<close>

definition send_message :: "message \<Rightarrow> session_queue \<Rightarrow> session_queue" where
  "send_message m q =
     q\<lparr>sq_sessions := AList.update (ms_session_id m) (pending q (ms_session_id m) @ [m]) (sq_sessions q)\<rparr>"

definition peek_session :: "session_queue \<Rightarrow> string \<Rightarrow> nat" where
  "peek_session q s = length (pending q s)"

definition lock_session :: "string \<Rightarrow> session_queue \<Rightarrow> session_queue" where
  "lock_session s q = q\<lparr>sq_locks := AList.update s True (sq_locks q)\<rparr>"

definition claim_session :: "string option \<Rightarrow> session_queue \<Rightarrow> bus_error + (string \<times> session_queue)" where
  "claim_session sid q =
     (case sid of
        Some s \<Rightarrow> if locked q s then Inl (SessionLocked s) else Inr (s, lock_session s q)
      | None \<Rightarrow>
          (case find (\<lambda>(s, messages). messages \<noteq> [] \<and> \<not> locked q s) (sq_sessions q) of
             None \<Rightarrow> Inl NoSessionAvailable
           | Some (s, _) \<Rightarrow> Inr (s, lock_session s q)))"

text \<open>The first critical section of \<open>receive_messages\<close> takes messages, the second records them.\<close>

definition take_messages :: "string \<Rightarrow> nat \<Rightarrow> session_queue \<Rightarrow> message list \<times> session_queue" where
  "take_messages s max_count q =
     (take max_count (pending q s),
      q\<lparr>sq_sessions := AList.update s (drop max_count (pending q s)) (sq_sessions q)\<rparr>)"

definition mark_in_flight :: "string \<Rightarrow> message list \<Rightarrow> session_queue \<Rightarrow> session_queue" where
  "mark_in_flight s messages q =
     q\<lparr>sq_in_flight := AList.update s (in_flight q s @ messages) (sq_in_flight q)\<rparr>"

definition receive_messages :: "string \<Rightarrow> nat \<Rightarrow> session_queue \<Rightarrow> message list \<times> session_queue" where
  "receive_messages s max_count q =
     (let (out, q1) = take_messages s max_count q in (out, mark_in_flight s out q1))"

definition complete_message :: "string \<Rightarrow> message \<Rightarrow> session_queue \<Rightarrow> session_queue" where
  "complete_message s m q =
     q\<lparr>sq_in_flight := AList.update s (remove1 m (in_flight q s)) (sq_in_flight q)\<rparr>"

definition abandon_message :: "string \<Rightarrow> message \<Rightarrow> session_queue \<Rightarrow> session_queue" where
  "abandon_message s m q =
     (if m \<in> set (in_flight q s) then
        q\<lparr>sq_in_flight := AList.update s (remove1 m (in_flight q s)) (sq_in_flight q),
          sq_sessions := AList.update s (m # pending q s) (sq_sessions q)\<rparr>
      else q\<lparr>sq_in_flight := AList.update s (in_flight q s) (sq_in_flight q)\<rparr>)"

text \<open>The end of the context: what is in flight goes back to the head of the session, in order.\<close>

definition release_session :: "string \<Rightarrow> session_queue \<Rightarrow> session_queue" where
  "release_session s q =
     (let back = in_flight q s in
      q\<lparr>sq_in_flight := AList.delete s (sq_in_flight q),
        sq_sessions := (if back = [] then sq_sessions q
                        else AList.update s (fold (#) (rev back) (pending q s)) (sq_sessions q)),
        sq_locks := AList.update s False (sq_locks q)\<rparr>)"

section \<open>The retry loop\<close>

text \<open>
  The loop of \<open>with_retry\<close>. \<open>again e n\<close> is what the retrying object of tenacity decides after
  attempt \<open>n\<close> raised \<open>e\<close>: one more attempt, or to reraise. An attempt that does not raise ends the
  loop: the body has set its result and returns it. The loop of a policy that never gives up may
  not end.
\<close>

partial_function (option) with_retry_from ::
  "('e \<Rightarrow> nat \<Rightarrow> bool) \<Rightarrow> ('s \<Rightarrow> 's \<times> ('e + 'a)) \<Rightarrow> nat \<Rightarrow> 's \<Rightarrow> ('s \<times> ('e + 'a)) option" where
  "with_retry_from again operation n s =
     (case operation s of
        (t, Inr result) \<Rightarrow> Some (t, Inr result)
      | (t, Inl e) \<Rightarrow>
          if again e n then with_retry_from again operation (Suc n) t else Some (t, Inl e))"

definition with_retry ::
  "('e \<Rightarrow> nat \<Rightarrow> bool) \<Rightarrow> ('s \<Rightarrow> 's \<times> ('e + 'a)) \<Rightarrow> 's \<Rightarrow> ('s \<times> ('e + 'a)) option" where
  "with_retry again operation = with_retry_from again operation 1"

definition RETRYABLE_STATUSES :: "int set" where
  "RETRYABLE_STATUSES = {429, 500, 502, 503, 504}"

text \<open>
  \<open>RETRY_STOP\<close> and the exceptions of \<open>RETRY_CONDITION\<close>: \<open>transient\<close> says which exceptions are
  transport errors or timeouts.
\<close>

definition RETRY_STOP :: nat where "RETRY_STOP = 5"

definition default_policy :: "('e \<Rightarrow> bool) \<Rightarrow> 'e \<Rightarrow> nat \<Rightarrow> bool" where
  "default_policy transient e n \<longleftrightarrow> transient e \<and> n < RETRY_STOP"

section \<open>The client\<close>

record bus_client =
  bc_queues :: "string \<Rightarrow> session_queue"
  bc_failures :: int

definition inject_transient_failures :: "int \<Rightarrow> bus_client \<Rightarrow> bus_client" where
  "inject_transient_failures n c = c\<lparr>bc_failures := max 0 n\<rparr>"

definition attempt_send :: "string \<Rightarrow> message \<Rightarrow> bus_client \<Rightarrow> bus_client \<times> (bus_error + message)" where
  "attempt_send queue m c =
     (if 0 < bc_failures c then (c\<lparr>bc_failures := bc_failures c - 1\<rparr>, Inl ConnectError)
      else (c\<lparr>bc_queues := (bc_queues c)(queue := send_message m (bc_queues c queue))\<rparr>, Inr m))"

definition send_message_with_retry ::
  "string \<Rightarrow> message \<Rightarrow> bus_client \<Rightarrow> (bus_client \<times> (bus_error + message)) option" where
  "send_message_with_retry queue m =
     with_retry (default_policy (\<lambda>e. e = ConnectError)) (attempt_send queue m)"

end
