(* ===== verification/PyDate.thy ===== *)
theory PyDate
  imports PyStd
begin

text \<open>
  \<open>datetime.date\<close>: the proleptic Gregorian calendar with years 1 to 9999, its order,
  \<open>isoformat\<close> and \<open>fromisoformat\<close> (the extended, the basic and the week
  forms that Python 3.11 and later accept). The theorem of this theory is that
  \<open>fromisoformat\<close> reads back what \<open>isoformat\<close> writes: snapshot payloads
  carry dates as ISO strings, and revert and quarantine release read them back.
\<close>

record date =
  d_year :: nat
  d_month :: nat
  d_day :: nat

definition is_leap :: "nat \<Rightarrow> bool" where
  "is_leap y \<longleftrightarrow> y mod 4 = 0 \<and> (y mod 100 \<noteq> 0 \<or> y mod 400 = 0)"

definition days_in_month :: "nat \<Rightarrow> nat \<Rightarrow> nat" where
  "days_in_month y m =
     (if m = 2 then (if is_leap y then 29 else 28)
      else if m \<in> {4, 6, 9, 11} then 30 else 31)"

definition valid_date :: "date \<Rightarrow> bool" where
  "valid_date d \<longleftrightarrow> 1 \<le> d_year d \<and> d_year d \<le> 9999 \<and> 1 \<le> d_month d \<and> d_month d \<le> 12 \<and>
     1 \<le> d_day d \<and> d_day d \<le> days_in_month (d_year d) (d_month d)"

text \<open>The constructor \<open>date(y, m, d)\<close> raises on a day that does not exist.\<close>

definition make_date :: "nat \<Rightarrow> nat \<Rightarrow> nat \<Rightarrow> exn + date" where
  "make_date y m d =
     (let x = \<lparr>d_year = y, d_month = m, d_day = d\<rparr> in if valid_date x then Inr x else Inl ValueError)"

definition date_less :: "date \<Rightarrow> date \<Rightarrow> bool" where
  "date_less a b \<longleftrightarrow>
     d_year a < d_year b \<or> d_year a = d_year b \<and>
       (d_month a < d_month b \<or> d_month a = d_month b \<and> d_day a < d_day b)"

section \<open>Writing a date\<close>

fun pad_digits :: "nat \<Rightarrow> nat \<Rightarrow> string" where
  "pad_digits 0 n = []"
| "pad_digits (Suc w) n = pad_digits w (n div 10) @ [digit_char (n mod 10)]"

definition isoformat :: "date \<Rightarrow> string" where
  "isoformat d =
     pad_digits 4 (d_year d) @ ''-'' @ pad_digits 2 (d_month d) @ ''-'' @ pad_digits 2 (d_day d)"

section \<open>Reading a date\<close>

definition read_digits :: "nat \<Rightarrow> string \<Rightarrow> exn + (nat \<times> string)" where
  "read_digits w s =
     (if length (take w s) < w then Inl ValueError
      else case digits_value 0 (take w s) of
          None \<Rightarrow> Inl ValueError
        | Some n \<Rightarrow> Inr (n, drop w s))"

text \<open>The day after, and the first Monday of the ISO year, for the week form.\<close>

definition next_day :: "nat \<times> nat \<times> nat \<Rightarrow> nat \<times> nat \<times> nat" where
  "next_day = (\<lambda>(y, m, d).
     if d < days_in_month y m then (y, m, d + 1)
     else if m < 12 then (y, m + 1, 1) else (y + 1, 1, 1))"

definition days_before_year :: "nat \<Rightarrow> nat" where
  "days_before_year y = (let p = y - 1 in p * 365 + p div 4 - p div 100 + p div 400)"

text \<open>
  The weekday of the first of January (Monday is 0), and the distance of the Monday of ISO
  week 1 from it: negative when that Monday lies in the year before.
\<close>

definition first_weekday :: "nat \<Rightarrow> nat" where
  "first_weekday y = (days_before_year y + 1 + 6) mod 7"

definition week_one_offset :: "nat \<Rightarrow> int" where
  "week_one_offset y =
     (if first_weekday y > 3 then 7 - int (first_weekday y) else - int (first_weekday y))"

definition iso_week_date :: "nat \<Rightarrow> nat \<Rightarrow> nat \<Rightarrow> exn + date" where
  "iso_week_date y w d =
     (if y < 1 \<or> y > 9999 then Inl ValueError
      else if w < 1 \<or> w > 53 then Inl ValueError
      else if w = 53 \<and> \<not> (first_weekday y = 3 \<or> first_weekday y = 2 \<and> is_leap y)
        then Inl ValueError
      else if d < 1 \<or> d > 7 then Inl ValueError
      else
        (let k = week_one_offset y + int ((w - 1) * 7 + (d - 1)) in
         if 0 \<le> k then
           (case (next_day ^^ nat k) (y, 1, 1) of (yy, mm, dd) \<Rightarrow> make_date yy mm dd)
         else make_date (y - 1) 12 (nat (32 + k))))"

definition read_sep :: "bool \<Rightarrow> string \<Rightarrow> exn + string" where
  "read_sep has_sep s =
     (if (take 1 s = ''-'') = has_sep then Inr (if has_sep then drop 1 s else s)
      else Inl ValueError)"

definition fromisoformat :: "string \<Rightarrow> exn + date" where
  "fromisoformat s =
     (if length s \<notin> {7, 8, 10} then Inl ValueError
      else res_bind (read_digits 4 s) (\<lambda>(y, r).
        (let has_sep = (take 1 r = ''-''); r1 = (if has_sep then drop 1 r else r) in
         if take 1 r1 = ''W'' then
           res_bind (read_digits 2 (drop 1 r1)) (\<lambda>(w, r2).
             if r2 = [] then iso_week_date y w 1
             else res_bind (read_sep has_sep r2) (\<lambda>r3.
               res_bind (read_digits 1 r3) (\<lambda>(d, _). iso_week_date y w d)))
         else
           res_bind (read_digits 2 r1) (\<lambda>(m, r2).
             res_bind (read_sep has_sep r2) (\<lambda>r3.
               res_bind (read_digits 2 r3) (\<lambda>(d, _). make_date y m d))))))"

section \<open>Round trip\<close>

lemma length_pad_digits [simp]: "length (pad_digits w n) = w"
  by (induction w arbitrary: n) auto

lemma digits_value_pad_digits: "n < 10 ^ w \<Longrightarrow> digits_value 0 (pad_digits w n) = Some n"
proof (induction w arbitrary: n)
  case (Suc w)
  then have "n div 10 < 10 ^ w" by auto
  with Suc.IH show ?case by (simp add: digits_value_append)
qed simp

lemma read_pad_digits [simp]:
  "n < 10 ^ w \<Longrightarrow> read_digits w (pad_digits w n @ s) = Inr (n, s)"
  by (simp add: read_digits_def digits_value_pad_digits)

lemma read_pad_digits_end [simp]:
  "n < 10 ^ w \<Longrightarrow> read_digits w (pad_digits w n) = Inr (n, [])"
  using read_pad_digits [of n w "[]"] by simp

lemma digit_char_neq:
  "d < 10 \<Longrightarrow> digit_char d \<noteq> CHR ''W''" "d < 10 \<Longrightarrow> digit_char d \<noteq> CHR ''-''"
  using char_digit_digit_char [of d] by (auto simp: char_digit_def)

lemma pad_digits_2: "pad_digits 2 n = [digit_char ((n div 10) mod 10), digit_char (n mod 10)]"
  by (simp add: numeral_2_eq_2)

lemma valid_date_bounds:
  assumes "valid_date d"
  shows "d_year d < 10 ^ 4" "d_month d < 10 ^ 2" "d_day d < 10 ^ 2"
  using assms by (auto simp: valid_date_def days_in_month_def split: if_splits)

lemma fromisoformat_extended:
  assumes "y < 10 ^ 4" "m < 10 ^ 2" "d < 10 ^ 2"
  shows "fromisoformat (pad_digits 4 y @ ''-'' @ pad_digits 2 m @ ''-'' @ pad_digits 2 d) =
    make_date y m d"
proof -
  have "take 1 (pad_digits 2 m @ ''-'' @ pad_digits 2 d) \<noteq> ''W''"
    by (simp add: pad_digits_2 digit_char_neq)
  moreover have "drop 1 (''-'' @ s) = s" "take 1 (''-'' @ s) = ''-''" for s :: string
    by simp_all
  ultimately show ?thesis
    using assms unfolding fromisoformat_def by (simp add: read_sep_def)
qed

text \<open>\<open>date.fromisoformat(d.isoformat()) == d\<close>.\<close>

lemma fromisoformat_isoformat: "valid_date d \<Longrightarrow> fromisoformat (isoformat d) = Inr d"
  using valid_date_bounds [of d]
  by (simp only: isoformat_def fromisoformat_extended) (simp add: make_date_def Let_def valid_date_def)

end
