(* ===== verification/Canonical.thy ===== *)
theory Canonical
  imports PyDate
begin

text \<open>
  The canonical model and the event envelope: \<open>core/types.py\<close>,
  \<open>canonical/entities.py\<close>, \<open>events/envelope.py\<close>, the page types of
  \<open>connectors/protocol.py\<close> and the issue type of \<open>validation/_issues.py\<close>.
  The NewType identifiers of the source are strings at run time and are strings here. A date
  field holds a \<open>date\<close> or, when a connector is wrong, some other value: the dataclasses
  do not check their field types, which is why Layer 3 does.
\<close>

type_synonym lea_id = string
type_synonym student_id = string
type_synonym school_id = string
type_synonym enrollment_id = string
type_synonym event_id = string

record cursor =
  cur_value :: string
  cur_observed_at :: "timestamp option"

section \<open>Canonical entities\<close>

datatype entity_type = LEA | STUDENT | ENROLLMENT

datatype lea_type =
  TRADITIONAL_DISTRICT | CHARTER_LEA | CHARTER_CMO | BOCES | STATE_AGENCY

datatype date_field = DDate date | DOther json

record lea =
  le_id :: lea_id
  le_name :: string
  le_type :: lea_type
  le_state :: string
  le_nces :: "string option"

record student =
  st_id :: student_id
  st_lea_id :: lea_id
  st_given_name :: string
  st_family_name :: string
  st_grade :: "string option"
  st_preferred :: "string option"
  st_school :: "school_id option"
  st_external_ids :: dict

record enrollment =
  en_id :: enrollment_id
  en_lea_id :: lea_id
  en_student_id :: student_id
  en_class_id :: string
  en_begin :: date_field
  en_end :: "date_field option"

datatype entity = ELea lea | EStudent student | EEnrollment enrollment

text \<open>The values of the two string enums.\<close>

fun entity_type_value :: "entity_type \<Rightarrow> string" where
  "entity_type_value LEA = ''lea''"
| "entity_type_value STUDENT = ''student''"
| "entity_type_value ENROLLMENT = ''enrollment''"

fun lea_type_value :: "lea_type \<Rightarrow> string" where
  "lea_type_value TRADITIONAL_DISTRICT = ''traditional_district''"
| "lea_type_value CHARTER_LEA = ''charter_lea''"
| "lea_type_value CHARTER_CMO = ''charter_cmo''"
| "lea_type_value BOCES = ''boces''"
| "lea_type_value STATE_AGENCY = ''state_agency''"

text \<open>
  \<open>getattr(entity, "id")\<close> and \<open>getattr(entity, "student_id")\<close>: every entity
  has the first attribute, only an enrollment has the second.
\<close>

fun entity_id :: "entity \<Rightarrow> string" where
  "entity_id (ELea l) = le_id l"
| "entity_id (EStudent s) = st_id s"
| "entity_id (EEnrollment e) = en_id e"

fun entity_student_id :: "entity \<Rightarrow> exn + string" where
  "entity_student_id (EEnrollment e) = Inr (en_student_id e)"
| "entity_student_id _ = Inl AttributeError"

fun type_name :: "entity \<Rightarrow> string" where
  "type_name (ELea _) = ''Lea''"
| "type_name (EStudent _) = ''Student''"
| "type_name (EEnrollment _) = ''Enrollment''"

section \<open>The event envelope\<close>

datatype operation = CREATED | UPDATED | DELETED

record normalized_event =
  ev_id :: event_id
  ev_lea_id :: lea_id
  ev_entity_type :: entity_type
  ev_operation :: operation
  ev_entity :: entity
  ev_source_connector :: string
  ev_source_event_id :: string
  ev_occurred_at :: timestamp
  ev_received_at :: timestamp

text \<open>The entity has the class its \<open>entity_type\<close> claims.\<close>

fun type_matches :: "entity_type \<Rightarrow> entity \<Rightarrow> bool" where
  "type_matches LEA (ELea _) = True"
| "type_matches STUDENT (EStudent _) = True"
| "type_matches ENROLLMENT (EEnrollment _) = True"
| "type_matches _ _ = False"

section \<open>Pages\<close>

record layer1_result =
  l1_ok :: bool
  l1_http_status :: int
  l1_content_type :: string
  l1_body_well_formed :: bool
  l1_error :: "string option"

record event_page =
  pg_events :: "normalized_event list"
  pg_next_cursor :: cursor
  pg_has_more :: bool
  pg_retrieved_at :: timestamp
  pg_layer_1 :: layer1_result

section \<open>Validation issues\<close>

datatype severity = ERROR | WARNING | QUARANTINE

fun severity_value :: "severity \<Rightarrow> string" where
  "severity_value ERROR = ''error''"
| "severity_value WARNING = ''warning''"
| "severity_value QUARANTINE = ''quarantine''"

record issue =
  is_layer :: nat
  is_code :: string
  is_severity :: severity
  is_detail :: dict
  is_event_id :: "event_id option"

definition mk_issue :: "nat \<Rightarrow> string \<Rightarrow> severity \<Rightarrow> event_id option \<Rightarrow> dict \<Rightarrow> issue" where
  "mk_issue n code sev eid d =
     \<lparr>is_layer = n, is_code = code, is_severity = sev, is_detail = d, is_event_id = eid\<rparr>"

lemma mk_issue_sel [simp]:
  "is_layer (mk_issue n c s e d) = n" "is_code (mk_issue n c s e d) = c"
  "is_severity (mk_issue n c s e d) = s" "is_event_id (mk_issue n c s e d) = e"
  "is_detail (mk_issue n c s e d) = d"
  by (simp_all add: mk_issue_def)

lemma type_matches_cases:
  assumes "type_matches t x"
  obtains l where "t = LEA" "x = ELea l"
    | s where "t = STUDENT" "x = EStudent s"
    | e where "t = ENROLLMENT" "x = EEnrollment e"
  using assms by (cases t; cases x) auto

end
