(* ===== verification/EdlinkClient.thy ===== *)
theory EdlinkClient
  imports Canonical
begin

text \<open>
  The EdLink client, \<open>connectors/edlink/client.py\<close>: it reads an LEA's fixture files and
  pages through them, events by the id of the last event of the page, resources by offset.
  \<open>files\<close> gives the parsed JSON content of a fixture file, when there is one;
  \<open>parse_ts\<close> is \<open>datetime.fromisoformat\<close>, which the client only passes on. The ids
  and types of events are strings, as EdLink documents them. The locale \<open>pager\<close> is the
  interface of a paged read: what a client that follows the tokens gets.
\<close>

record edlink_event =
  xe_id :: string
  xe_date :: timestamp
  xe_type :: string
  xe_data :: dict
  xe_target :: string
  xe_target_id :: string
  xe_integration_id :: string
  xe_materialization_id :: string

record events_response =
  xr_events :: "edlink_event list"
  xr_has_more :: bool
  xr_layer_1 :: layer1_result
  xr_next_token :: "string option"

record resources_response =
  xs_resources :: "dict list"
  xs_has_more :: bool
  xs_next_token :: "string option"
  xs_layer_1 :: layer1_result

type_synonym file_system = "string \<Rightarrow> json option"

definition layer1_200 :: layer1_result where
  "layer1_200 = \<lparr>l1_ok = True, l1_http_status = 200, l1_content_type = ''application/json'',
     l1_body_well_formed = True, l1_error = None\<rparr>"

section \<open>Parsing\<close>

definition as_dict :: "json \<Rightarrow> exn + dict" where
  "as_dict v = (case v of JObj d \<Rightarrow> Inr d | _ \<Rightarrow> Inl AttributeError)"

definition as_string :: "json \<Rightarrow> exn + string" where
  "as_string v = (case v of JStr s \<Rightarrow> Inr s | _ \<Rightarrow> Inl TypeError)"

definition as_list :: "json \<Rightarrow> exn + json list" where
  "as_list v = (case v of JArr xs \<Rightarrow> Inr xs | _ \<Rightarrow> Inl TypeError)"

definition parse_event ::
  "(rat \<Rightarrow> string) \<Rightarrow> (string \<Rightarrow> exn + timestamp) \<Rightarrow> json \<Rightarrow> exn + edlink_event" where
  "parse_event ft parse_ts v =
     res_bind (as_dict v) (\<lambda>evt.
     let raw_date = dict_get_default evt ''date'' (dict_get evt ''created_date'') in
     if raw_date = JNull then Inl (KeyError ''date'')
     else
       res_bind (res_bind (dict_item evt ''id'') as_string) (\<lambda>i.
       res_bind (res_bind (as_string raw_date) parse_ts) (\<lambda>when.
       res_bind (res_bind (dict_item evt ''type'') as_string) (\<lambda>t.
       res_bind (res_bind (dict_item evt ''data'') as_dict) (\<lambda>d.
         Inr \<lparr>xe_id = i, xe_date = when, xe_type = t, xe_data = d,
              xe_target = py_str ft (dict_get_default evt ''target'' (JStr [])),
              xe_target_id = py_str ft (dict_get_default evt ''target_id'' (JStr [])),
              xe_integration_id = py_str ft (dict_get_default evt ''integration_id'' (JStr [])),
              xe_materialization_id =
                py_str ft (dict_get_default evt ''materialization_id'' (JStr []))\<rparr>)))))"

definition load_lea_events ::
  "(rat \<Rightarrow> string) \<Rightarrow> (string \<Rightarrow> exn + timestamp) \<Rightarrow> file_system \<Rightarrow> lea_id \<Rightarrow> exn + edlink_event list" where
  "load_lea_events ft parse_ts files l =
     (case files (l @ ''.events.json'') of
        None \<Rightarrow> Inr []
      | Some raw \<Rightarrow>
          res_bind (as_dict raw) (\<lambda>d.
          res_bind (as_list (dict_get_default d ''events'' (JArr []))) (\<lambda>evts.
            map_res (parse_event ft parse_ts) evts)))"

section \<open>Pages of events\<close>

fun index_after :: "string \<Rightarrow> edlink_event list \<Rightarrow> nat" where
  "index_after a [] = 0"
| "index_after a (e # es) = (if xe_id e = a then 1 else Suc (index_after a es))"

text \<open>An unknown cursor gives the end of the list.\<close>

definition slice_start :: "edlink_event list \<Rightarrow> string option \<Rightarrow> nat" where
  "slice_start evts after =
     (case after of None \<Rightarrow> 0 | Some a \<Rightarrow> if a = [] then 0 else index_after a evts)"

definition events_page :: "edlink_event list \<Rightarrow> nat \<Rightarrow> nat \<Rightarrow> events_response" where
  "events_page evts start limit =
     (let page = take limit (drop start evts) in
      \<lparr>xr_events = page, xr_has_more = (start + limit < length evts), xr_layer_1 = layer1_200,
       xr_next_token = (if page = [] then None else Some (xe_id (last page)))\<rparr>)"

definition get_events ::
  "(rat \<Rightarrow> string) \<Rightarrow> (string \<Rightarrow> exn + timestamp) \<Rightarrow> file_system \<Rightarrow> lea_id \<Rightarrow> string option \<Rightarrow> nat \<Rightarrow>
   exn + events_response" where
  "get_events ft parse_ts files l after limit =
     res_bind (load_lea_events ft parse_ts files l) (\<lambda>evts.
       Inr (events_page evts (slice_start evts after) limit))"

definition get_latest_event ::
  "(rat \<Rightarrow> string) \<Rightarrow> (string \<Rightarrow> exn + timestamp) \<Rightarrow> file_system \<Rightarrow> lea_id \<Rightarrow> exn + edlink_event option" where
  "get_latest_event ft parse_ts files l =
     res_bind (load_lea_events ft parse_ts files l) (\<lambda>evts.
       Inr (if evts = [] then None else Some (last evts)))"

section \<open>Pages of resources\<close>

text \<open>
  The entries of a resource type; anything but a list counts as empty. The walk reads an entry
  as a dictionary, an entry that is not one raises there.
\<close>

definition resource_entries :: "file_system \<Rightarrow> lea_id \<Rightarrow> string \<Rightarrow> exn + json list" where
  "resource_entries files l resource =
     (case files (l @ ''.resources.json'') of
        None \<Rightarrow> Inr []
      | Some raw \<Rightarrow>
          res_bind (as_dict raw) (\<lambda>d.
            Inr (case dict_get d resource of JArr xs \<Rightarrow> xs | _ \<Rightarrow> [])))"

text \<open>\<open>int(next_token) if next_token else 0\<close>, for the decimal tokens the client issues.\<close>

definition token_offset :: "string option \<Rightarrow> exn + nat" where
  "token_offset tok =
     (case tok of None \<Rightarrow> Inr 0 | Some s \<Rightarrow> if s = [] then Inr 0 else nat_of_string s)"

definition get_resources ::
  "file_system \<Rightarrow> lea_id \<Rightarrow> string \<Rightarrow> nat \<Rightarrow> string option \<Rightarrow> exn + (json list \<times> bool \<times> string option)" where
  "get_resources files l resource first tok =
     res_bind (resource_entries files l resource) (\<lambda>entries.
     res_bind (token_offset tok) (\<lambda>start.
       let page = take first (drop start entries); stop = start + length page;
           has_more = stop < length entries in
       Inr (page, has_more, if has_more then Some (string_of_nat stop) else None)))"

section \<open>Following the tokens\<close>

text \<open>
  The loop of a client: ask for a page, keep its rows, stop when there is no more, else go on with
  the token of the response. It returns \<open>None\<close> when it does not end.
\<close>

partial_function (option) follow ::
  "(string option \<Rightarrow> exn + ('r list \<times> bool \<times> string option)) \<Rightarrow> string option \<Rightarrow> 'r list \<Rightarrow>
   (exn + 'r list) option" where
  "follow get tok acc =
     (case get tok of
        Inl e \<Rightarrow> Some (Inl e)
      | Inr (page, has_more, next_tok) \<Rightarrow>
          if has_more then follow get next_tok (acc @ page) else Some (Inr (acc @ page)))"

text \<open>
  The interface: the server holds \<open>rows\<close>; a token stands for the number of rows already
  served, \<open>off\<close>; a page holds the rows from there on, it is not empty when there are more,
  its token stands for the end of the page, and no more means the end of the rows. \<open>valid\<close>
  holds of the tokens the server issues, when it can serve at all.
\<close>

locale pager =
  fixes get :: "string option \<Rightarrow> exn + ('r list \<times> bool \<times> string option)"
    and rows :: "'r list" and off :: "string option \<Rightarrow> nat" and valid :: "string option \<Rightarrow> bool"
  assumes start: "off None = 0"
    and page: "valid tok \<Longrightarrow> \<exists>pg has_more next_tok. get tok = Inr (pg, has_more, next_tok) \<and>
        pg = take (length pg) (drop (off tok) rows) \<and>
        (if has_more then pg \<noteq> [] \<and> valid next_tok \<and> off next_tok = off tok + length pg \<and>
           off next_tok < length rows
         else length rows \<le> off tok + length pg)"
begin

lemma page_split:
  "pg = take (length pg) (drop n rows) \<Longrightarrow> drop n rows = pg @ drop (n + length pg) rows"
  using append_take_drop_id [of "length pg" "drop n rows"] by (simp add: add.commute)

text \<open>
  A client that turns the rows of each page into rows of its own, \<open>proj\<close>, which may raise:
  from any issued token its loop ends, with the projection of all the rows from there on, each
  once and in order, or with the first exception of the projection.
\<close>

lemma follow_from:
  assumes proj: "proj [] = Inr []"
      "\<And>xs ys. proj (xs @ ys) = res_bind (proj xs) (\<lambda>as. res_bind (proj ys) (\<lambda>bs. Inr (as @ bs)))"
    and client: "\<And>tok pg has_more nxt. valid tok \<Longrightarrow> get tok = Inr (pg, has_more, nxt) \<Longrightarrow>
      \<exists>nxt'. client tok = res_bind (proj pg) (\<lambda>as. Inr (as, has_more, nxt')) \<and> (has_more \<longrightarrow> nxt' = nxt)"
    and "valid tok"
  shows "follow client tok acc = Some (res_bind (proj (drop (off tok) rows)) (\<lambda>as. Inr (acc @ as)))"
  using assms(4)
proof (induction "length rows - off tok" arbitrary: tok acc rule: less_induct)
  case less
  from page [OF less.prems] obtain pg has_more nxt where g: "get tok = Inr (pg, has_more, nxt)"
    and pg: "pg = take (length pg) (drop (off tok) rows)"
    and nxt: "if has_more then pg \<noteq> [] \<and> valid nxt \<and> off nxt = off tok + length pg \<and> off nxt < length rows
      else length rows \<le> off tok + length pg" by blast
  from client [OF less.prems g] obtain nxt' where
    c: "client tok = res_bind (proj pg) (\<lambda>as. Inr (as, has_more, nxt'))" "has_more \<longrightarrow> nxt' = nxt" by blast
  note split = proj(2) [of pg "drop (off tok + length pg) rows", folded page_split [OF pg]]
  show ?case
  proof (cases "proj pg")
    case (Inl e)
    with c split show ?thesis by (subst follow.simps) simp
  next
    case (Inr as)
    show ?thesis
    proof (cases has_more)
      case True
      then have n: "pg \<noteq> []" "valid nxt" "off nxt = off tok + length pg" "off nxt < length rows"
        using nxt by simp_all
      then have "length rows - off nxt < length rows - off tok" by (cases pg) auto
      from less.hyps [OF this n(2), of "acc @ as"] True c Inr split n(3) show ?thesis
        by (subst follow.simps, cases "proj (drop (off nxt) rows)") simp_all
    next
      case False
      with nxt have "proj (drop (off tok + length pg) rows) = Inr []" by (simp add: proj(1))
      with False c Inr split show ?thesis by (subst follow.simps) simp
    qed
  qed
qed

lemma follow_all:
  assumes "proj [] = Inr []"
      "\<And>xs ys. proj (xs @ ys) = res_bind (proj xs) (\<lambda>as. res_bind (proj ys) (\<lambda>bs. Inr (as @ bs)))"
    and "\<And>tok pg has_more nxt. valid tok \<Longrightarrow> get tok = Inr (pg, has_more, nxt) \<Longrightarrow>
      \<exists>nxt'. client tok = res_bind (proj pg) (\<lambda>as. Inr (as, has_more, nxt')) \<and> (has_more \<longrightarrow> nxt' = nxt)"
    and "valid None"
  shows "follow client None [] = Some (proj rows)"
  using follow_from [where acc = "[]", OF assms] by (cases "proj rows") (simp_all add: start)

end

section \<open>Both endpoints are pagers\<close>

lemma token_offset_string [simp]: "token_offset (Some (string_of_nat n)) = Inr n"
  by (simp add: token_offset_def)

definition resource_token :: "file_system \<Rightarrow> lea_id \<Rightarrow> string \<Rightarrow> nat \<Rightarrow> string option \<Rightarrow> bool" where
  "resource_token files l resource first tok \<longleftrightarrow> 0 < first \<and>
     (\<exists>entries n. resource_entries files l resource = Inr entries \<and> token_offset tok = Inr n \<and>
        n \<le> length entries)"

interpretation resource_pages: pager "get_resources files l resource first"
  "projr (resource_entries files l resource)" "\<lambda>tok. projr (token_offset tok)"
  "resource_token files l resource first" for files l resource first
proof
  show "projr (token_offset None) = 0" by (simp add: token_offset_def)
  fix tok assume "resource_token files l resource first tok"
  then obtain entries n where e: "resource_entries files l resource = Inr entries" "0 < first"
    and n: "token_offset tok = Inr n" "n \<le> length entries" by (auto simp: resource_token_def)
  let ?page = "take first (drop n entries)"
  let ?stop = "n + length ?page"
  have get: "get_resources files l resource first tok =
      Inr (?page, ?stop < length entries,
           if ?stop < length entries then Some (string_of_nat ?stop) else None)"
    by (simp add: get_resources_def e n Let_def)
  show "\<exists>pg has_more next_tok. get_resources files l resource first tok = Inr (pg, has_more, next_tok) \<and>
      pg = take (length pg) (drop (projr (token_offset tok)) (projr (resource_entries files l resource))) \<and>
      (if has_more then pg \<noteq> [] \<and> resource_token files l resource first next_tok \<and>
         projr (token_offset next_tok) = projr (token_offset tok) + length pg \<and>
         projr (token_offset next_tok) < length (projr (resource_entries files l resource))
       else length (projr (resource_entries files l resource)) \<le> projr (token_offset tok) + length pg)"
    by (intro exI [of _ ?page] exI [of _ "?stop < length entries"]
        exI [of _ "if ?stop < length entries then Some (string_of_nat ?stop) else None"])
      (use e n get in \<open>auto simp: resource_token_def\<close>)
qed

text \<open>
  A feed the client can page through: no two events share an id and no id is empty. The token of
  the events endpoint is the id of the last event served.
\<close>

definition feed_ok :: "edlink_event list \<Rightarrow> bool" where
  "feed_ok evts \<longleftrightarrow> distinct (map xe_id evts) \<and> [] \<notin> xe_id ` set evts"

definition event_token :: "edlink_event list \<Rightarrow> nat \<Rightarrow> string option \<Rightarrow> bool" where
  "event_token evts limit tok \<longleftrightarrow> 0 < limit \<and> feed_ok evts \<and>
     (case tok of None \<Rightarrow> True | Some a \<Rightarrow> a \<in> xe_id ` set evts)"

lemma feed_okD: "feed_ok evts \<Longrightarrow> e \<in> set evts \<Longrightarrow> xe_id e \<noteq> []"
  by (metis feed_ok_def imageI)

lemma event_token_nonempty: "event_token evts limit tok \<Longrightarrow> tok \<noteq> Some []"
  by (force simp: event_token_def dest: feed_okD)

lemma index_after_nth:
  assumes "distinct (map xe_id evts)" and "i < length evts"
  shows "index_after (xe_id (evts ! i)) evts = Suc i"
  using assms
proof (induction evts arbitrary: i)
  case (Cons e es)
  then show ?case by (cases i) (auto simp: nth_Cons' dest: nth_mem)
qed simp

lemma slice_start_nth:
  assumes "feed_ok evts" and "i < length evts"
  shows "slice_start evts (Some (xe_id (evts ! i))) = Suc i"
proof -
  have "xe_id (evts ! i) \<noteq> []" using feed_okD [OF assms(1) nth_mem [OF assms(2)]] .
  with assms index_after_nth [of evts i] show ?thesis by (simp add: slice_start_def feed_ok_def)
qed

lemma slice_start_last:
  assumes "feed_ok evts" and "take limit (drop n evts) \<noteq> []"
  shows "slice_start evts (Some (xe_id (last (take limit (drop n evts))))) =
    n + length (take limit (drop n evts))"
proof -
  let ?pg = "take limit (drop n evts)"
  have len: "length ?pg \<noteq> 0" using assms(2) by simp
  then have i: "length ?pg - 1 < length ?pg" by (intro diff_less zero_less_one) (rule neq0_conv [THEN iffD1])
  have "last ?pg = ?pg ! (length ?pg - 1)" using assms(2) by (rule last_conv_nth)
  also have "\<dots> = drop n evts ! (length ?pg - 1)"
    by (rule nth_take) (use i in \<open>simp only: length_take min_less_iff_conj\<close>)
  also have "\<dots> = evts ! (n + (length ?pg - 1))"
    by (rule nth_drop) (use len in auto)
  finally have "last ?pg = evts ! (n + (length ?pg - 1))" .
  moreover have "n + (length ?pg - 1) < length evts" using len by (simp add: min_def split: if_splits)
  ultimately show ?thesis using slice_start_nth [OF assms(1)] len by simp
qed

interpretation event_pages: pager
  "\<lambda>after. let r = events_page evts (slice_start evts after) limit in
     Inr (xr_events r, xr_has_more r, xr_next_token r)"
  evts "slice_start evts" "event_token evts limit" for evts limit
proof
  show "slice_start evts None = 0" by (simp add: slice_start_def)
  fix tok assume tok: "event_token evts limit tok"
  then have limit: "0 < limit" and ok: "feed_ok evts" by (simp_all add: event_token_def)
  let ?n = "slice_start evts tok"
  let ?pg = "take limit (drop ?n evts)"
  have "?pg \<noteq> [] \<and> event_token evts limit (Some (xe_id (last ?pg))) \<and>
      slice_start evts (Some (xe_id (last ?pg))) = ?n + length ?pg \<and> ?n + length ?pg < length evts"
    if "?n + limit < length evts"
  proof -
    have ne: "?pg \<noteq> []" using that limit by simp
    then have "last ?pg \<in> set evts" by (meson in_set_dropD in_set_takeD last_in_set)
    with ne that limit ok show ?thesis by (simp add: slice_start_last event_token_def)
  qed
  moreover have "length evts \<le> ?n + length ?pg" if "\<not> ?n + limit < length evts"
    using that by simp
  ultimately show "\<exists>pg has_more next_tok.
      (let r = events_page evts ?n limit in Inr (xr_events r, xr_has_more r, xr_next_token r)) =
        Inr (pg, has_more, next_tok) \<and> pg = take (length pg) (drop ?n evts) \<and>
      (if has_more then pg \<noteq> [] \<and> event_token evts limit next_tok \<and>
         slice_start evts next_tok = ?n + length pg \<and> slice_start evts next_tok < length evts
       else length evts \<le> ?n + length pg)"
    by (intro exI [of _ ?pg] exI [of _ "?n + limit < length evts"]
        exI [of _ "if ?pg = [] then None else Some (xe_id (last ?pg))"])
      (auto simp: events_page_def Let_def)
qed

end
