(* ===== verification/Database.thy ===== *)
theory Database
  imports Canonical "HOL-Library.Sublist"
begin

text \<open>
  The Postgres tables (\<open>infrastructure/db/models.py\<close> and the migrations) and the
  statements several services share. A table is the list of its rows in insertion order; the
  three snapshot tables are one function of the entity type, as the services pick the table by
  the type. The constraints a statement can violate are part of it: a statement returns the
  database after it, or the driver's exception. \<open>db_next_id\<close> stands for
  \<open>gen_random_uuid()\<close>: it gives the ids of the rows whose id is a server default, or a
  \<open>uuid4()\<close> that no caller sees.
\<close>

section \<open>Rows\<close>

record lea_row =
  lr_id :: lea_id
  lr_name :: string
  lr_type :: string
  lr_state :: string
  lr_nces :: "string option"
  lr_status :: string
  lr_timezone :: string
  lr_integration :: "string option"
  lr_deleted_at :: "timestamp option"

record student_row =
  sr_id :: student_id
  sr_lea_id :: lea_id
  sr_given_name :: string
  sr_family_name :: string
  sr_grade :: "string option"
  sr_preferred :: "string option"
  sr_school :: "string option"
  sr_external_ids :: json
  sr_deleted_at :: "timestamp option"

record enrollment_row =
  er_id :: enrollment_id
  er_lea_id :: lea_id
  er_student_id :: student_id
  er_class_id :: string
  er_begin :: date
  er_end :: "date option"
  er_deleted_at :: "timestamp option"

record school_row =
  so_id :: string
  so_lea_id :: lea_id
  so_name :: string
  so_code :: "string option"
  so_parent :: "string option"
  so_deleted_at :: "timestamp option"

record session_row =
  ac_id :: string
  ac_lea_id :: lea_id
  ac_title :: string
  ac_type :: "string option"
  ac_school_year :: "string option"
  ac_start :: "date option"
  ac_end :: "date option"
  ac_deleted_at :: "timestamp option"

record class_row =
  cl_id :: string
  cl_lea_id :: lea_id
  cl_title :: string
  cl_course_code :: "string option"
  cl_school :: "string option"
  cl_term :: "string option"
  cl_deleted_at :: "timestamp option"

record snapshot =
  sn_id :: uuid
  sn_key :: string
  sn_lea_id :: lea_id
  sn_generation :: uuid
  sn_superseded_by :: "uuid option"
  sn_superseded_at :: "timestamp option"
  sn_deleted_upstream :: bool
  sn_source_event_id :: "string option"
  sn_source_event_at :: "timestamp option"
  sn_created_at :: timestamp
  sn_payload :: dict

record sync_job =
  sj_id :: uuid
  sj_lea_id :: lea_id
  sj_partner :: string
  sj_status :: string
  sj_started_at :: timestamp
  sj_completed_at :: "timestamp option"
  sj_event_count :: int
  sj_error_count :: int
  sj_warning_count :: int
  sj_cursor_before :: "string option"
  sj_cursor_after :: "string option"
  sj_error_summary :: "string option"

record validation_result =
  vr_sync_job_id :: uuid
  vr_layer :: nat
  vr_code :: string
  vr_payload_reference :: "string option"
  vr_detail :: dict
  vr_created_at :: timestamp

record revert_action =
  ra_id :: uuid
  ra_sync_job_id :: uuid
  ra_generation_id :: uuid
  ra_operator :: string
  ra_reason :: string
  ra_reverted_at :: timestamp
  ra_snapshots_restored :: int

record retry_action =
  ry_id :: uuid
  ry_sync_job_id :: uuid
  ry_lea_id :: lea_id
  ry_partner :: string
  ry_operator :: string
  ry_reason :: string
  ry_retried_at :: timestamp
  ry_cursor_rewound_to :: "string option"
  ry_forced :: bool

record quarantine_row =
  qr_id :: uuid
  qr_sync_job_id :: uuid
  qr_lea_id :: lea_id
  qr_entity_type :: string
  qr_entity_id :: string
  qr_reason :: string
  qr_raw_payload :: json
  qr_created_at :: timestamp
  qr_resolved_at :: "timestamp option"
  qr_resolution_status :: "string option"
  qr_resolution_operator :: "string option"

record cursor_row =
  cs_lea_id :: lea_id
  cs_partner :: string
  cs_last_event_id :: "string option"
  cs_last_event_at :: "timestamp option"
  cs_last_poll_at :: "timestamp option"
  cs_cold_start_required :: bool
  cs_updated_at :: timestamp

record operator_row =
  op_id :: uuid
  op_subject :: string
  op_display_name :: string
  op_email :: string
  op_status :: string
  op_created_at :: timestamp
  op_last_seen_at :: "timestamp option"

record role_row =
  ol_id :: uuid
  ol_operator_id :: uuid
  ol_role :: string
  ol_granted_at :: timestamp
  ol_granted_by :: uuid
  ol_revoked_at :: "timestamp option"
  ol_revoked_by :: "uuid option"
  ol_reason :: string

record grant_row =
  og_id :: uuid
  og_operator_id :: uuid
  og_lea_id :: lea_id
  og_granted_at :: timestamp
  og_granted_by :: uuid
  og_revoked_at :: "timestamp option"
  og_revoked_by :: "uuid option"
  og_reason :: string

record authorization_row =
  au_id :: uuid
  au_lea_id :: lea_id
  au_partner :: string
  au_status :: string
  au_authorized_at :: "timestamp option"
  au_authorized_by :: "uuid option"
  au_revoked_at :: "timestamp option"
  au_revoked_by :: "uuid option"
  au_poll_interval :: int
  au_notes :: "string option"
  au_integration_status :: string
  au_sharing_scope :: "string option"
  au_status_observed_at :: "timestamp option"

record audit_row =
  al_id :: uuid
  al_operator_id :: uuid
  al_action :: string
  al_target_kind :: string
  al_target_id :: string
  al_lea_id :: "lea_id option"
  al_reason :: string
  al_detail :: dict
  al_created_at :: timestamp

record reconciliation_row =
  rr_id :: uuid
  rr_lea_id :: lea_id
  rr_partner :: string
  rr_started_at :: timestamp
  rr_completed_at :: "timestamp option"
  rr_status :: string
  rr_canonical_root_hash :: string
  rr_partner_root_hash :: "string option"
  rr_drift_summary :: "dict list"
  rr_error_message :: "string option"

record idempotency_row =
  ik_operator_id :: uuid
  ik_route :: string
  ik_key :: string
  ik_request_hash :: string
  ik_response_status :: "int option"
  ik_response_body :: "dict option"
  ik_created_at :: timestamp
  ik_completed_at :: "timestamp option"

record db =
  db_leas :: "lea_row list"
  db_students :: "student_row list"
  db_enrollments :: "enrollment_row list"
  db_schools :: "school_row list"
  db_sessions :: "session_row list"
  db_classes :: "class_row list"
  db_snapshots :: "entity_type \<Rightarrow> snapshot list"
  db_sync_jobs :: "sync_job list"
  db_validation_results :: "validation_result list"
  db_revert_actions :: "revert_action list"
  db_retry_actions :: "retry_action list"
  db_quarantine :: "quarantine_row list"
  db_cursors :: "cursor_row list"
  db_operators :: "operator_row list"
  db_roles :: "role_row list"
  db_grants :: "grant_row list"
  db_authorizations :: "authorization_row list"
  db_audit_log :: "audit_row list"
  db_reconciliation_runs :: "reconciliation_row list"
  db_idempotency :: "idempotency_row list"
  db_next_id :: uuid

definition empty_db :: db where
  "empty_db =
     \<lparr>db_leas = [], db_students = [], db_enrollments = [], db_schools = [], db_sessions = [],
      db_classes = [], db_snapshots = (\<lambda>_. []),
      db_sync_jobs = [], db_validation_results = [], db_revert_actions = [],
      db_retry_actions = [], db_quarantine = [], db_cursors = [], db_operators = [], db_roles = [],
      db_grants = [],
      db_authorizations = [], db_audit_log = [], db_reconciliation_runs = [],
      db_idempotency = [], db_next_id = 0\<rparr>"

section \<open>Canonical tables\<close>

definition lea_exists :: "db \<Rightarrow> lea_id \<Rightarrow> bool" where
  "lea_exists db l \<longleftrightarrow> l \<in> lr_id ` set (db_leas db)"

definition student_in_lea :: "db \<Rightarrow> lea_id \<Rightarrow> student_id \<Rightarrow> bool" where
  "student_in_lea db l i \<longleftrightarrow> (\<exists>s \<in> set (db_students db). sr_lea_id s = l \<and> sr_id s = i)"

text \<open>
  The foreign keys of a written student row: its LEA exists, and a row that moves to another
  LEA leaves no enrollment behind that references (old LEA, id). The foreign key of a written
  enrollment row is the composite one, (LEA, student).
\<close>

definition student_move_blocked :: "db \<Rightarrow> student_row \<Rightarrow> bool" where
  "student_move_blocked db row \<longleftrightarrow>
     (\<exists>old \<in> set (db_students db). sr_id old = sr_id row \<and> sr_lea_id old \<noteq> sr_lea_id row \<and>
        (\<exists>e \<in> set (db_enrollments db). er_lea_id e = sr_lea_id old \<and> er_student_id e = sr_id old))"

definition write_student ::
  "(student_row \<Rightarrow> student_row \<Rightarrow> student_row) \<Rightarrow> student_row \<Rightarrow> db \<Rightarrow> exn + db" where
  "write_student merge row db =
     (if \<not> lea_exists db (sr_lea_id row) then Inl (ForeignKeyViolation ''students_lea_id_fkey'')
      else if student_move_blocked db row then
        Inl (ForeignKeyViolation ''fk_enrollments_lea_student'')
      else Inr (db\<lparr>db_students := upsert sr_id merge row (db_students db)\<rparr>))"

definition write_enrollment ::
  "(enrollment_row \<Rightarrow> enrollment_row \<Rightarrow> enrollment_row) \<Rightarrow> enrollment_row \<Rightarrow> db \<Rightarrow> exn + db" where
  "write_enrollment merge row db =
     (if \<not> lea_exists db (er_lea_id row) then Inl (ForeignKeyViolation ''enrollments_lea_id_fkey'')
      else if \<not> student_in_lea db (er_lea_id row) (er_student_id row) then
        Inl (ForeignKeyViolation ''fk_enrollments_lea_student'')
      else Inr (db\<lparr>db_enrollments := upsert er_id merge row (db_enrollments db)\<rparr>))"

text \<open>The placeholder LEA row, \<open>ON CONFLICT (id) DO NOTHING\<close>.\<close>

definition new_lea_row :: "lea_id \<Rightarrow> string \<Rightarrow> string \<Rightarrow> string \<Rightarrow> string option \<Rightarrow> timestamp option \<Rightarrow> lea_row" where
  "new_lea_row i name t st nces del =
     \<lparr>lr_id = i, lr_name = name, lr_type = t, lr_state = st, lr_nces = nces,
      lr_status = ''onboarding'', lr_timezone = ''America/New_York'', lr_integration = None,
      lr_deleted_at = del\<rparr>"

definition ensure_lea_exists :: "lea_id \<Rightarrow> db \<Rightarrow> db" where
  "ensure_lea_exists l db =
     db\<lparr>db_leas := insert_if_absent lr_id
          (new_lea_row l (''LEA '' @ l) (lea_type_value TRADITIONAL_DISTRICT) ''XX'' None None)
          (db_leas db)\<rparr>"

section \<open>Snapshot tables\<close>

text \<open>
  A snapshot is live while no generation superseded it. The core of a row is everything but
  the two supersession columns, which are the only ones an UPDATE may change.
\<close>

definition live :: "snapshot \<Rightarrow> bool" where
  "live sn \<longleftrightarrow> sn_superseded_by sn = None"

definition core :: "snapshot \<Rightarrow> snapshot" where
  "core sn = sn\<lparr>sn_superseded_by := None, sn_superseded_at := None\<rparr>"

definition for_key :: "lea_id \<Rightarrow> string \<Rightarrow> snapshot \<Rightarrow> bool" where
  "for_key l k sn \<longleftrightarrow> sn_lea_id sn = l \<and> sn_key sn = k"

definition job_ids :: "db \<Rightarrow> uuid set" where
  "job_ids db = sj_id ` set (db_sync_jobs db)"

definition set_snapshots :: "entity_type \<Rightarrow> snapshot list \<Rightarrow> db \<Rightarrow> db" where
  "set_snapshots t rows db = db\<lparr>db_snapshots := (db_snapshots db)(t := rows)\<rparr>"

text \<open>\<open>UPDATE ... SET superseded_by_generation_id WHERE\<close>: the generation is a sync job.\<close>

definition supersede_row :: "uuid option \<Rightarrow> timestamp option \<Rightarrow> snapshot \<Rightarrow> snapshot" where
  "supersede_row gen ts sn = sn\<lparr>sn_superseded_by := gen, sn_superseded_at := ts\<rparr>"

definition supersede_where ::
  "entity_type \<Rightarrow> (snapshot \<Rightarrow> bool) \<Rightarrow> uuid option \<Rightarrow> timestamp option \<Rightarrow> db \<Rightarrow> exn + db" where
  "supersede_where t P gen ts db =
     (if (\<exists>sn \<in> set (db_snapshots db t). P sn) \<and> gen \<noteq> None \<and> the gen \<notin> job_ids db then
        Inl (ForeignKeyViolation ''superseded_by_generation_id_fkey'')
      else Inr (set_snapshots t
        (update_where P (supersede_row gen ts) (db_snapshots db t)) db))"

definition insert_snapshot_row :: "entity_type \<Rightarrow> snapshot \<Rightarrow> db \<Rightarrow> exn + db" where
  "insert_snapshot_row t sn db =
     (if sn_generation sn \<notin> job_ids db then Inl (ForeignKeyViolation ''generation_id_fkey'')
      else Inr ((set_snapshots t (db_snapshots db t @ [sn\<lparr>sn_id := db_next_id db\<rparr>]) db)
                 \<lparr>db_next_id := Suc (db_next_id db)\<rparr>))"

section \<open>Jobs, cursors and audit tables\<close>

definition insert_sync_job :: "sync_job \<Rightarrow> db \<Rightarrow> exn + db" where
  "insert_sync_job j db =
     (if sj_id j \<in> job_ids db then Inl (UniqueViolation ''sync_jobs_pkey'')
      else Inr (db\<lparr>db_sync_jobs := db_sync_jobs db @ [j]\<rparr>))"

definition update_sync_job :: "uuid \<Rightarrow> (sync_job \<Rightarrow> sync_job) \<Rightarrow> db \<Rightarrow> db" where
  "update_sync_job i f db =
     db\<lparr>db_sync_jobs := update_where (\<lambda>j. sj_id j = i) f (db_sync_jobs db)\<rparr>"

definition cursor_key :: "cursor_row \<Rightarrow> lea_id \<times> string" where
  "cursor_key c = (cs_lea_id c, cs_partner c)"

definition write_cursor :: "(cursor_row \<Rightarrow> cursor_row \<Rightarrow> cursor_row) \<Rightarrow> cursor_row \<Rightarrow> db \<Rightarrow> db" where
  "write_cursor merge row db = db\<lparr>db_cursors := upsert cursor_key merge row (db_cursors db)\<rparr>"

definition cursor_of :: "db \<Rightarrow> lea_id \<Rightarrow> string \<Rightarrow> cursor_row option" where
  "cursor_of db l p = lookup_by cursor_key (l, p) (db_cursors db)"

text \<open>
  \<open>INSERT INTO audit_log\<close>, as \<open>connector_authz.py\<close> and \<open>lea_admin.py\<close> write it: the
  operator and the LEA, when there is one, are foreign keys.
\<close>

definition write_audit_log ::
  "uuid \<Rightarrow> string \<Rightarrow> string \<Rightarrow> string \<Rightarrow> lea_id option \<Rightarrow> string \<Rightarrow> dict \<Rightarrow> timestamp \<Rightarrow> db \<Rightarrow> exn + db" where
  "write_audit_log operator action kind target l reason detail now db =
     (if operator \<notin> op_id ` set (db_operators db) then
        Inl (ForeignKeyViolation ''audit_log_operator_id_fkey'')
      else if l \<noteq> None \<and> \<not> lea_exists db (the l) then
        Inl (ForeignKeyViolation ''audit_log_lea_id_fkey'')
      else Inr (db\<lparr>db_audit_log := db_audit_log db @
        [\<lparr>al_id = db_next_id db, al_operator_id = operator, al_action = action, al_target_kind = kind,
          al_target_id = target, al_lea_id = l, al_reason = reason, al_detail = detail,
          al_created_at = now\<rparr>], db_next_id := Suc (db_next_id db)\<rparr>))"

section \<open>The tables with a primary key\<close>

text \<open>The two forms of \<open>DO UPDATE SET\<close> most writers use: every column from EXCLUDED.\<close>

interpretation student_table: keyed_table sr_id "\<lambda>_ new. new"
  by unfold_locales simp

interpretation enrollment_table: keyed_table er_id "\<lambda>_ new. new"
  by unfold_locales simp

interpretation cursor_table: keyed_table cursor_key "\<lambda>_ new. new"
  by unfold_locales simp

lemma insert_if_absent_keys:
  "key ` set (insert_if_absent key new tbl) = insert (key new) (key ` set tbl)"
  by (auto simp: insert_if_absent_def)

lemma distinct_insert_if_absent:
  "distinct (map key tbl) \<Longrightarrow> distinct (map key (insert_if_absent key new tbl))"
  by (auto simp: insert_if_absent_def)

lemma ensure_lea_exists_sel [simp]:
  "db_students (ensure_lea_exists l db) = db_students db"
  "db_enrollments (ensure_lea_exists l db) = db_enrollments db"
  "db_snapshots (ensure_lea_exists l db) = db_snapshots db"
  "db_sync_jobs (ensure_lea_exists l db) = db_sync_jobs db"
  "db_quarantine (ensure_lea_exists l db) = db_quarantine db"
  "db_cursors (ensure_lea_exists l db) = db_cursors db"
  "db_validation_results (ensure_lea_exists l db) = db_validation_results db"
  "db_next_id (ensure_lea_exists l db) = db_next_id db"
  by (simp_all add: ensure_lea_exists_def)

lemma lea_exists_ensure [simp]: "lea_exists (ensure_lea_exists l db) l"
  by (simp add: lea_exists_def ensure_lea_exists_def insert_if_absent_keys new_lea_row_def)

section \<open>Invariants of the snapshot tables\<close>

text \<open>
  At most one live snapshot per (LEA, natural key); the ids of the snapshots of a table are
  distinct and were all handed out before; and the tables are append-only: the cores of the
  rows of one database are a prefix of those of a later one.
\<close>

definition row_key :: "snapshot \<Rightarrow> lea_id \<times> string" where
  "row_key sn = (sn_lea_id sn, sn_key sn)"

definition one_live :: "snapshot list \<Rightarrow> bool" where
  "one_live rows \<longleftrightarrow> distinct (map row_key (filter live rows))"

definition ids_fresh :: "db \<Rightarrow> entity_type \<Rightarrow> bool" where
  "ids_fresh db t \<longleftrightarrow> distinct (map sn_id (db_snapshots db t)) \<and>
     (\<forall>sn \<in> set (db_snapshots db t). sn_id sn < db_next_id db)"

definition append_only :: "db \<Rightarrow> db \<Rightarrow> bool" where
  "append_only a b \<longleftrightarrow>
     (\<forall>t \<in> {LEA, STUDENT, ENROLLMENT}.
        prefix (map core (db_snapshots a t)) (map core (db_snapshots b t)))"

definition snapshots_ok :: "db \<Rightarrow> bool" where
  "snapshots_ok db \<longleftrightarrow>
     (\<forall>t \<in> {LEA, STUDENT, ENROLLMENT}. one_live (db_snapshots db t) \<and> ids_fresh db t)"

lemma all_types: "t \<in> {LEA, STUDENT, ENROLLMENT}"
  by (cases t) simp_all

lemma append_onlyI:
  "(\<And>t. prefix (map core (db_snapshots a t)) (map core (db_snapshots b t))) \<Longrightarrow> append_only a b"
  by (simp add: append_only_def)

lemma append_onlyD:
  "append_only a b \<Longrightarrow> prefix (map core (db_snapshots a t)) (map core (db_snapshots b t))"
  using all_types [of t] by (auto simp: append_only_def)

lemma append_only_refl [simp, intro]: "append_only a a"
  by (rule append_onlyI) simp

lemma append_only_same: "db_snapshots b = db_snapshots a \<Longrightarrow> append_only a b"
  by (rule append_onlyI) simp

lemma append_only_trans [trans]: "append_only a b \<Longrightarrow> append_only b c \<Longrightarrow> append_only a c"
  by (rule append_onlyI) (meson append_onlyD prefix_order.trans)

lemma snapshots_okI:
  "(\<And>t. one_live (db_snapshots db t)) \<Longrightarrow> (\<And>t. ids_fresh db t) \<Longrightarrow> snapshots_ok db"
  by (simp add: snapshots_ok_def)

lemma snapshots_okD:
  assumes "snapshots_ok db"
  shows "one_live (db_snapshots db t)" and "ids_fresh db t"
  using assms all_types [of t] by (auto simp: snapshots_ok_def)

lemma snapshots_ok_same:
  "snapshots_ok a \<Longrightarrow> db_snapshots b = db_snapshots a \<Longrightarrow> db_next_id a \<le> db_next_id b \<Longrightarrow> snapshots_ok b"
  by (auto simp: snapshots_ok_def ids_fresh_def intro: order_less_le_trans)

lemma supersede_row_sel [simp]:
  "sn_id (supersede_row gen ts sn) = sn_id sn"
  "sn_key (supersede_row gen ts sn) = sn_key sn"
  "sn_lea_id (supersede_row gen ts sn) = sn_lea_id sn"
  "sn_generation (supersede_row gen ts sn) = sn_generation sn"
  "sn_superseded_by (supersede_row gen ts sn) = gen"
  "sn_source_event_id (supersede_row gen ts sn) = sn_source_event_id sn"
  "sn_payload (supersede_row gen ts sn) = sn_payload sn"
  "sn_deleted_upstream (supersede_row gen ts sn) = sn_deleted_upstream sn"
  "core (supersede_row gen ts sn) = core sn"
  "row_key (supersede_row gen ts sn) = row_key sn"
  "for_key l k (supersede_row gen ts sn) = for_key l k sn"
  by (simp_all add: supersede_row_def core_def row_key_def for_key_def)

lemma live_supersede_row [simp]: "live (supersede_row gen ts sn) \<longleftrightarrow> gen = None"
  by (simp add: live_def)

lemma core_sel [simp]:
  "sn_id (core sn) = sn_id sn" "sn_key (core sn) = sn_key sn" "sn_lea_id (core sn) = sn_lea_id sn"
  "sn_generation (core sn) = sn_generation sn" "sn_payload (core sn) = sn_payload sn"
  "sn_source_event_id (core sn) = sn_source_event_id sn"
  "sn_deleted_upstream (core sn) = sn_deleted_upstream sn"
  by (simp_all add: core_def)

lemma for_key_iff: "for_key l k sn \<longleftrightarrow> row_key sn = (l, k)"
  by (auto simp: for_key_def row_key_def)

lemma map_core_update [simp]:
  "map core (update_where P (supersede_row gen ts) rows) = map core rows"
  by (simp add: update_where_def)

lemma map_id_update [simp]:
  "map sn_id (update_where P (supersede_row gen ts) rows) = map sn_id rows"
  by (simp add: update_where_def)

text \<open>Superseding the live rows of a key and appending a live row keeps one live row per key.\<close>

definition supersede_live :: "lea_id \<Rightarrow> string \<Rightarrow> uuid \<Rightarrow> timestamp \<Rightarrow> snapshot list \<Rightarrow> snapshot list" where
  "supersede_live l k gen ts rows =
     update_where (\<lambda>sn. for_key l k sn \<and> live sn) (supersede_row (Some gen) (Some ts)) rows"

lemma filter_live_supersede_live:
  "filter live (supersede_live l k gen ts rows) =
     filter (\<lambda>sn. live sn \<and> \<not> for_key l k sn) rows"
  by (induction rows) (auto simp: supersede_live_def update_where_def)

lemma one_live_replace:
  assumes "one_live rows" and "live row" and "for_key l k row"
  shows "one_live (supersede_live l k gen ts rows @ [row])"
proof -
  have "distinct (map row_key (filter (\<lambda>sn. live sn \<and> \<not> for_key l k sn) rows))"
    using assms(1) unfolding one_live_def
    by (induction rows) (auto split: if_splits)
  moreover have "row_key row \<notin> row_key ` set (filter (\<lambda>sn. live sn \<and> \<not> for_key l k sn) rows)"
    using assms(3) by (auto simp: for_key_iff)
  ultimately show ?thesis
    using assms(2) by (simp add: one_live_def filter_live_supersede_live)
qed

lemma one_live_unique:
  assumes "one_live rows" "a \<in> set rows" "b \<in> set rows" "live a" "live b" "row_key a = row_key b"
  shows "a = b"
  using assms by (auto simp: one_live_def distinct_map inj_on_def)

section \<open>The abstract store\<close>

text \<open>
  What the snapshot tables promise to a reader: for every (LEA, type, key) at most one current
  value, given by the live row: its source event id, its payload and whether it is a deletion.
\<close>

type_synonym snapshot_value = "string option \<times> dict \<times> bool"

definition snapshot_value :: "snapshot \<Rightarrow> snapshot_value" where
  "snapshot_value sn = (sn_source_event_id sn, sn_payload sn, sn_deleted_upstream sn)"

definition live_row :: "db \<Rightarrow> lea_id \<Rightarrow> entity_type \<Rightarrow> string \<Rightarrow> snapshot option" where
  "live_row db l t k = find (\<lambda>sn. for_key l k sn \<and> live sn) (db_snapshots db t)"

definition store :: "db \<Rightarrow> (lea_id \<times> entity_type \<times> string) \<Rightarrow> snapshot_value option" where
  "store db = (\<lambda>(l, t, k). map_option snapshot_value (live_row db l t k))"

lemma snapshot_value_supersede [simp]:
  "snapshot_value (supersede_row gen ts sn) = snapshot_value sn"
  by (simp add: snapshot_value_def)

lemma store_same: "db_snapshots b = db_snapshots a \<Longrightarrow> store b = store a"
  by (simp add: store_def live_row_def)

lemma find_append: "find P (xs @ ys) = (case find P xs of None \<Rightarrow> find P ys | Some x \<Rightarrow> Some x)"
  by (induction xs) auto

lemma find_supersede_live:
  "find (\<lambda>sn. for_key l' k' sn \<and> live sn) (supersede_live l k gen ts rows) =
     (if (l', k') = (l, k) then None else find (\<lambda>sn. for_key l' k' sn \<and> live sn) rows)"
  by (induction rows) (auto simp: supersede_live_def update_where_def for_key_iff)

lemma find_live_replace:
  assumes "live row" and "for_key l k row"
  shows "find (\<lambda>sn. for_key l' k' sn \<and> live sn) (supersede_live l k gen ts rows @ [row]) =
    (if (l', k') = (l, k) then Some row else find (\<lambda>sn. for_key l' k' sn \<and> live sn) rows)"
  unfolding find_append find_supersede_live
  using assms by (auto simp: for_key_iff split: option.splits)

lemma filter_live_replace:
  assumes "live row" and "for_key l k row"
  shows "filter (\<lambda>sn. for_key l' k' sn \<and> live sn) (supersede_live l k gen ts rows @ [row]) =
    (if (l', k') = (l, k) then [row] else filter (\<lambda>sn. for_key l' k' sn \<and> live sn) rows)"
proof -
  have "filter (\<lambda>sn. for_key l' k' sn \<and> live sn) (supersede_live l k gen ts rows) =
      (if (l', k') = (l, k) then [] else filter (\<lambda>sn. for_key l' k' sn \<and> live sn) rows)"
    by (induction rows) (auto simp: supersede_live_def update_where_def for_key_iff)
  with assms show ?thesis by (auto simp: for_key_iff)
qed

lemma find_filter: "find P xs = (case filter P xs of [] \<Rightarrow> None | x # _ \<Rightarrow> Some x)"
  by (induction xs) auto

lemma one_live_filter:
  assumes "one_live rows"
  shows "filter (\<lambda>sn. for_key l k sn \<and> live sn) rows =
    (case find (\<lambda>sn. for_key l k sn \<and> live sn) rows of None \<Rightarrow> [] | Some sn \<Rightarrow> [sn])"
proof -
  let ?xs = "filter (\<lambda>sn. for_key l k sn \<and> live sn) rows"
  have "?xs = filter (for_key l k) (filter live rows)" by (simp add: conj_commute)
  moreover have "distinct (map row_key (filter (for_key l k) (filter live rows)))"
    using assms unfolding one_live_def by (rule distinct_map_filter)
  ultimately have "distinct (map row_key ?xs)" by simp
  moreover have "\<forall>x \<in> set ?xs. row_key x = (l, k)" by (auto simp: for_key_iff)
  ultimately show ?thesis
    by (cases ?xs; cases "tl ?xs") (auto simp: find_filter)
qed

section \<open>The contract of a snapshot writer\<close>

text \<open>
  The sync worker and the bulk load write the new state of an entity in the same way: they
  supersede the live rows of its natural key and append a live row with a fresh id. The
  locale states this effect once, for any operation \<open>put\<close> with the type, the LEA, the key and
  the value it writes; \<open>wok\<close> says when the appended row carries that key. The invariants, the
  frame of the other keys and the update of the abstract store follow from it.
\<close>

locale snapshot_writer =
  fixes put :: "'e \<Rightarrow> db \<Rightarrow> exn + db"
    and wok :: "'e \<Rightarrow> bool"
    and wtype :: "'e \<Rightarrow> entity_type" and wlea :: "'e \<Rightarrow> lea_id" and wkey :: "'e \<Rightarrow> string"
    and wval :: "'e \<Rightarrow> snapshot_value"
  assumes put_snapshots: "put e db = Inr db' \<Longrightarrow>
      \<exists>gen ts row. live row \<and> (wok e \<longrightarrow> for_key (wlea e) (wkey e) row) \<and>
        sn_id row = db_next_id db \<and> snapshot_value row = wval e \<and>
        db_snapshots db' = (db_snapshots db)(wtype e :=
          supersede_live (wlea e) (wkey e) gen ts (db_snapshots db (wtype e)) @ [row])"
    and put_next_id: "put e db = Inr db' \<Longrightarrow> db_next_id db' = Suc (db_next_id db)"
begin

lemma put_append_only:
  assumes "put e db = Inr db'"
  shows "append_only db db'"
  using put_snapshots [OF assms] by (auto simp: append_only_def supersede_live_def)

lemma put_ids_fresh:
  assumes w: "put e db = Inr db'" and fr: "ids_fresh db t"
  shows "ids_fresh db' t"
proof -
  from put_snapshots [OF w] obtain gen ts row where row: "sn_id row = db_next_id db"
    and sn: "db_snapshots db' = (db_snapshots db)(wtype e :=
      supersede_live (wlea e) (wkey e) gen ts (db_snapshots db (wtype e)) @ [row])" by blast
  have fresh: "\<And>x. x \<in> set (db_snapshots db t) \<Longrightarrow> sn_id x < db_next_id db"
    and dist: "distinct (map sn_id (db_snapshots db t))"
    using fr by (auto simp: ids_fresh_def)
  have ids: "map sn_id (db_snapshots db' t) =
      map sn_id (db_snapshots db t) @ (if t = wtype e then [db_next_id db] else [])"
    by (simp add: sn row supersede_live_def)
  have "db_next_id db \<notin> sn_id ` set (db_snapshots db t)" by (auto dest: fresh)
  with dist have "distinct (map sn_id (db_snapshots db' t))"
    unfolding ids by (cases "t = wtype e") simp_all
  moreover have "\<forall>i \<in> set (map sn_id (db_snapshots db' t)). i < db_next_id db'"
    unfolding ids put_next_id [OF w] using fresh by (auto intro: less_SucI)
  ultimately show ?thesis by (simp add: ids_fresh_def)
qed

lemma put_ok:
  assumes w: "put e db = Inr db'" and e: "wok e" and ok: "snapshots_ok db"
  shows "snapshots_ok db'"
proof (rule snapshots_okI)
  fix t
  from put_snapshots [OF w] e show "one_live (db_snapshots db' t)"
    using snapshots_okD(1) [OF ok] by (auto simp: one_live_replace)
  show "ids_fresh db' t" using put_ids_fresh [OF w] snapshots_okD(2) [OF ok] .
qed

lemma put_store:
  assumes "put e db = Inr db'" and "wok e"
  shows "store db' = (store db)((wlea e, wtype e, wkey e) \<mapsto> wval e)"
  using put_snapshots [OF assms(1)] assms(2)
  by (auto simp: store_def live_row_def find_live_replace fun_eq_iff)

lemma put_live:
  assumes "put e db = Inr db'" and "wok e"
  shows "\<exists>row. snapshot_value row = wval e \<and>
    filter (\<lambda>sn. for_key l k sn \<and> live sn) (db_snapshots db' t) =
      (if (t, l, k) = (wtype e, wlea e, wkey e) then [row]
       else filter (\<lambda>sn. for_key l k sn \<and> live sn) (db_snapshots db t))"
proof -
  from put_snapshots [OF assms(1)] assms(2) obtain gen ts row where
    row: "live row" "for_key (wlea e) (wkey e) row" "snapshot_value row = wval e"
    and sn: "db_snapshots db' = (db_snapshots db)(wtype e :=
      supersede_live (wlea e) (wkey e) gen ts (db_snapshots db (wtype e)) @ [row])" by blast
  show ?thesis
    by (rule exI [of _ row]) (use row(3) in \<open>simp add: sn filter_live_replace [OF row(1,2)] del: filter_append\<close>)
qed

text \<open>Rows of other keys are the same rows as before.\<close>

lemma put_other_key:
  assumes "put e db = Inr db'" and "wok e" and "(t, l, k) \<noteq> (wtype e, wlea e, wkey e)"
  shows "filter (for_key l k) (db_snapshots db' t) = filter (for_key l k) (db_snapshots db t)"
proof -
  have "filter (for_key l k) (supersede_live l' k' gen ts rows @ [row]) = filter (for_key l k) rows"
    if "(l, k) \<noteq> (l', k')" "for_key l' k' row" for l' k' gen ts row rows
    using that unfolding supersede_live_def
    by (subst filter_append, subst filter_update_where) (auto simp: for_key_iff)
  with put_snapshots [OF assms(1)] assms(2,3) show ?thesis by auto
qed

text \<open>Rows of other LEAs, too.\<close>

lemma put_other_lea:
  assumes "put e db = Inr db'" and "wok e"
  shows "filter (\<lambda>sn. sn_lea_id sn \<noteq> wlea e) (db_snapshots db' t) =
    filter (\<lambda>sn. sn_lea_id sn \<noteq> wlea e) (db_snapshots db t)"
proof -
  have "filter (\<lambda>sn. sn_lea_id sn \<noteq> l) (supersede_live l k gen ts rows @ [row]) =
      filter (\<lambda>sn. sn_lea_id sn \<noteq> l) rows" if "for_key l k row" for l k gen ts row rows
    using that unfolding supersede_live_def
    by (subst filter_append, subst filter_update_where) (auto simp: for_key_def)
  with put_snapshots [OF assms(1)] assms(2) show ?thesis by auto
qed

end

end
