(* ===== verification/Samples.thy ===== *)
theory Samples
  imports Canonical
begin

text \<open>
  Concrete values for the witnesses of the properties: a student, an enrollment of that
  student, an enrollment of a student nobody knows, a student with a grade outside the
  OneRoster enumeration, and pages of events over them. They model no code.
\<close>

definition s_student :: "string \<Rightarrow> string \<Rightarrow> student" where
  "s_student i g =
     \<lparr>st_id = i, st_lea_id = ''lea-1'', st_given_name = ''Alex'', st_family_name = ''Morgan'',
      st_grade = Some g, st_preferred = None, st_school = None, st_external_ids = []\<rparr>"

definition s_enrollment :: "string \<Rightarrow> string \<Rightarrow> enrollment" where
  "s_enrollment i sid =
     \<lparr>en_id = i, en_lea_id = ''lea-1'', en_student_id = sid, en_class_id = ''cls-A'',
      en_begin = DDate \<lparr>d_year = 2026, d_month = 1, d_day = 5\<rparr>, en_end = None\<rparr>"

definition s_event :: "string \<Rightarrow> entity_type \<Rightarrow> operation \<Rightarrow> entity \<Rightarrow> normalized_event" where
  "s_event i t op x =
     \<lparr>ev_id = i, ev_lea_id = ''lea-1'', ev_entity_type = t, ev_operation = op, ev_entity = x,
      ev_source_connector = ''edlink'', ev_source_event_id = i, ev_occurred_at = 10,
      ev_received_at = 20\<rparr>"

definition s_ev_student :: normalized_event where
  "s_ev_student = s_event ''evt_1'' STUDENT CREATED (EStudent (s_student ''stu-1'' ''05''))"

definition s_ev_enrollment :: normalized_event where
  "s_ev_enrollment = s_event ''evt_2'' ENROLLMENT CREATED (EEnrollment (s_enrollment ''enr-1'' ''stu-1''))"

definition s_ev_orphan :: normalized_event where
  "s_ev_orphan = s_event ''evt_3'' ENROLLMENT CREATED (EEnrollment (s_enrollment ''enr-2'' ''stu-9''))"

definition s_ev_bad_grade :: normalized_event where
  "s_ev_bad_grade = s_event ''evt_4'' STUDENT CREATED (EStudent (s_student ''stu-2'' ''AD''))"

definition s_layer1 :: "bool \<Rightarrow> layer1_result" where
  "s_layer1 ok =
     \<lparr>l1_ok = ok, l1_http_status = (if ok then 200 else 503), l1_content_type = ''application/json'',
      l1_body_well_formed = ok, l1_error = None\<rparr>"

definition s_page :: "normalized_event list \<Rightarrow> event_page" where
  "s_page evs =
     \<lparr>pg_events = evs, pg_next_cursor = \<lparr>cur_value = ''evt_4'', cur_observed_at = Some 10\<rparr>,
      pg_has_more = False, pg_retrieved_at = 30, pg_layer_1 = s_layer1 True\<rparr>"

definition s_page4 :: event_page where
  "s_page4 = s_page [s_ev_student, s_ev_enrollment, s_ev_orphan, s_ev_bad_grade]"

lemmas sample_defs = s_page4_def
  s_student_def s_enrollment_def s_event_def s_ev_student_def s_ev_enrollment_def s_ev_orphan_def
  s_ev_bad_grade_def s_layer1_def s_page_def

end
