(* ===== verification/Validation.thy ===== *)
theory Validation
  imports Canonical Samples
begin

text \<open>
  The five-layer validation pipeline, \<open>services/validation\<close>. Every layer is a
  function from an event (Layers 2 and 3), the surviving events (Layer 4) or the page
  (Layer 5) to the issues it yields; \<open>run_pipeline\<close> composes them as the source
  does. The locale \<open>event_layer\<close> is the contract of a per-event layer; both
  per-event layers are interpretations of it. Shares and multipliers are exact rationals;
  the source computes them in floating point, which gives the same comparisons while the
  counts stay below \<open>2 ^ 50\<close>.
\<close>

section \<open>Layer 2: schema\<close>

definition check_student :: "normalized_event \<Rightarrow> student \<Rightarrow> issue list" where
  "check_student ev s =
     (if st_id s = [] then [mk_issue 2 ''STUDENT_MISSING_ID'' ERROR (Some (ev_id ev)) []] else []) @
     (if st_given_name s = [] then
        [mk_issue 2 ''STUDENT_MISSING_GIVEN_NAME'' ERROR (Some (ev_id ev))
           [(''student_id'', JStr (st_id s))]] else []) @
     (if st_family_name s = [] then
        [mk_issue 2 ''STUDENT_MISSING_FAMILY_NAME'' ERROR (Some (ev_id ev))
           [(''student_id'', JStr (st_id s))]] else []) @
     (if st_lea_id s \<noteq> ev_lea_id ev then
        [mk_issue 2 ''STUDENT_LEA_ID_MISMATCH'' ERROR (Some (ev_id ev))
           [(''student_id'', JStr (st_id s)),
            (''entity_lea_id'', JStr (st_lea_id s)),
            (''envelope_lea_id'', JStr (ev_lea_id ev))]] else [])"

definition check_enrollment :: "normalized_event \<Rightarrow> enrollment \<Rightarrow> issue list" where
  "check_enrollment ev e =
     (if en_id e = [] then
        [mk_issue 2 ''ENROLLMENT_MISSING_ID'' ERROR (Some (ev_id ev)) []] else []) @
     (if en_student_id e = [] then
        [mk_issue 2 ''ENROLLMENT_MISSING_STUDENT_ID'' ERROR (Some (ev_id ev))
           [(''enrollment_id'', JStr (en_id e))]] else []) @
     (if en_class_id e = [] then
        [mk_issue 2 ''ENROLLMENT_MISSING_CLASS_ID'' ERROR (Some (ev_id ev))
           [(''enrollment_id'', JStr (en_id e))]] else []) @
     (if en_lea_id e \<noteq> ev_lea_id ev then
        [mk_issue 2 ''ENROLLMENT_LEA_ID_MISMATCH'' ERROR (Some (ev_id ev))
           [(''enrollment_id'', JStr (en_id e)),
            (''entity_lea_id'', JStr (en_lea_id e)),
            (''envelope_lea_id'', JStr (ev_lea_id ev))]] else [])"

definition type_mismatch :: "normalized_event \<Rightarrow> string \<Rightarrow> issue" where
  "type_mismatch ev expected =
     mk_issue 2 ''ENTITY_TYPE_MISMATCH'' ERROR (Some (ev_id ev))
       [(''expected'', JStr expected), (''actual'', JStr (type_name (ev_entity ev)))]"

definition check_envelope :: "normalized_event \<Rightarrow> issue list" where
  "check_envelope ev =
     (if ev_lea_id ev = [] then
        [mk_issue 2 ''MISSING_LEA_ID'' ERROR (Some (ev_id ev)) []] else []) @
     (if ev_source_event_id ev = [] then
        [mk_issue 2 ''MISSING_SOURCE_EVENT_ID'' ERROR (Some (ev_id ev)) []] else [])"

text \<open>
  A student or enrollment of the wrong class ends the check; an LEA of the wrong class does not.
\<close>

definition check_schema :: "normalized_event \<Rightarrow> issue list" where
  "check_schema ev =
     (case ev_entity_type ev of
        STUDENT \<Rightarrow>
          (case ev_entity ev of
             EStudent s \<Rightarrow> check_student ev s @ check_envelope ev
           | _ \<Rightarrow> [type_mismatch ev ''Student''])
      | ENROLLMENT \<Rightarrow>
          (case ev_entity ev of
             EEnrollment e \<Rightarrow> check_enrollment ev e @ check_envelope ev
           | _ \<Rightarrow> [type_mismatch ev ''Enrollment''])
      | LEA \<Rightarrow>
          (case ev_entity ev of
             ELea l \<Rightarrow> check_envelope ev
           | _ \<Rightarrow> type_mismatch ev ''Lea'' # check_envelope ev))"

section \<open>Layer 3: parse time\<close>

definition ONEROSTER_GRADES :: "string list" where
  "ONEROSTER_GRADES =
     [''IT'', ''PR'', ''PK'', ''TK'', ''KG'',
      ''01'', ''02'', ''03'', ''04'', ''05'', ''06'',
      ''07'', ''08'', ''09'', ''10'', ''11'', ''12'',
      ''13'', ''PS'', ''UG'', ''Other'']"

definition check_student_parse :: "normalized_event \<Rightarrow> student \<Rightarrow> issue list" where
  "check_student_parse ev s =
     (case st_grade s of
        None \<Rightarrow> []
      | Some g \<Rightarrow>
          if g \<in> set ONEROSTER_GRADES then []
          else [mk_issue 3 ''STUDENT_GRADE_NOT_ONEROSTER'' WARNING (Some (ev_id ev))
                  [(''student_id'', JStr (st_id s)), (''grade'', JStr g),
                   (''expected'', JStr ''OneRoster 1.2 grade enum'')]])"

definition check_enrollment_parse :: "normalized_event \<Rightarrow> enrollment \<Rightarrow> issue list" where
  "check_enrollment_parse ev e =
     (case en_begin e of
        DOther _ \<Rightarrow>
          [mk_issue 3 ''ENROLLMENT_BEGIN_DATE_NOT_DATE'' ERROR (Some (ev_id ev))
             [(''enrollment_id'', JStr (en_id e))]]
      | DDate b \<Rightarrow>
          (case en_end e of
             None \<Rightarrow> []
           | Some (DOther _) \<Rightarrow>
               [mk_issue 3 ''ENROLLMENT_END_DATE_NOT_DATE'' ERROR (Some (ev_id ev))
                  [(''enrollment_id'', JStr (en_id e))]]
           | Some (DDate f) \<Rightarrow>
               if date_less f b then
                 [mk_issue 3 ''ENROLLMENT_END_BEFORE_BEGIN'' ERROR (Some (ev_id ev))
                    [(''enrollment_id'', JStr (en_id e)),
                     (''begin_date'', JStr (isoformat b)),
                     (''end_date'', JStr (isoformat f))]]
               else []))"

definition check_parse :: "normalized_event \<Rightarrow> issue list" where
  "check_parse ev =
     (case (ev_entity_type ev, ev_entity ev) of
        (STUDENT, EStudent s) \<Rightarrow> check_student_parse ev s
      | (ENROLLMENT, EEnrollment e) \<Rightarrow> check_enrollment_parse ev e
      | _ \<Rightarrow> [])"

section \<open>The read-side state of the LEA\<close>

record lea_state =
  ls_lea_id :: lea_id
  ls_known_students :: "student_id list"
  ls_live_count :: int
  ls_event_counts :: "int list"
  ls_deletion_counts :: "int list"

section \<open>Layer 4: referential\<close>

text \<open>
  The loop carries the students known so far, the issues and the quarantined event ids.
  \<open>ls_known_students\<close> is the source's set, given by a list.
\<close>

definition orphan_issue :: "normalized_event \<Rightarrow> string \<Rightarrow> issue" where
  "orphan_issue ev ref =
     mk_issue 4 ''ENROLLMENT_ORPHAN_STUDENT'' QUARANTINE (Some (ev_id ev))
       [(''enrollment_id'', JStr (entity_id (ev_entity ev))),
        (''student_id'', JStr ref), (''lea_id'', JStr (ev_lea_id ev))]"

definition referential_step ::
  "normalized_event \<Rightarrow> string list \<times> issue list \<times> event_id list \<Rightarrow>
   exn + (string list \<times> issue list \<times> event_id list)" where
  "referential_step ev = (\<lambda>(known, issues, quar).
     case ev_entity_type ev of
       STUDENT \<Rightarrow> Inr (entity_id (ev_entity ev) # known, issues, quar)
     | ENROLLMENT \<Rightarrow>
         res_bind (entity_student_id (ev_entity ev)) (\<lambda>ref.
           if ref \<in> set known then Inr (known, issues, quar)
           else Inr (known, issues @ [orphan_issue ev ref], ev_id ev # quar))
     | LEA \<Rightarrow> Inr (known, issues, quar))"

definition check_referential ::
  "normalized_event list \<Rightarrow> lea_state \<Rightarrow> exn + (issue list \<times> event_id list)" where
  "check_referential evs st =
     res_bind (fold_res referential_step evs (ls_known_students st, [], []))
       (\<lambda>(_, issues, quar). Inr (issues, quar))"

section \<open>Layer 5: thresholds\<close>

record threshold_config =
  volume_spike_multiplier :: rat
  deletion_share_threshold :: rat
  deletion_burst_multiplier :: rat
  population_shift_threshold :: rat
  min_history_for_thresholds :: nat

definition DEFAULT_CONFIG :: threshold_config where
  "DEFAULT_CONFIG =
     \<lparr>volume_spike_multiplier = 3, deletion_share_threshold = 3 / 10,
      deletion_burst_multiplier = 2, population_shift_threshold = 1 / 4,
      min_history_for_thresholds = 3\<rparr>"

definition count_events :: "(normalized_event \<Rightarrow> bool) \<Rightarrow> event_page \<Rightarrow> int" where
  "count_events P page = int (count_where P (pg_events page))"

definition is_deletion :: "normalized_event \<Rightarrow> bool" where
  "is_deletion ev \<longleftrightarrow> ev_operation ev = DELETED"

definition is_student_op :: "operation \<Rightarrow> normalized_event \<Rightarrow> bool" where
  "is_student_op op ev \<longleftrightarrow> ev_entity_type ev = STUDENT \<and> ev_operation ev = op"

definition threshold_issue :: "string \<Rightarrow> dict \<Rightarrow> issue" where
  "threshold_issue code d = mk_issue 5 code WARNING None d"

definition page_observation :: "event_page \<Rightarrow> lea_state \<Rightarrow> issue" where
  "page_observation page st =
     threshold_issue ''THRESHOLD_PAGE_OBSERVATION''
       [(''lea_id'', JStr (ls_lea_id st)),
        (''page_event_count'', JInt (int (length (pg_events page)))),
        (''student_events'', JInt (count_events (\<lambda>e. ev_entity_type e = STUDENT) page)),
        (''enrollment_events'', JInt (count_events (\<lambda>e. ev_entity_type e = ENROLLMENT) page)),
        (''deletion_events'', JInt (count_events is_deletion page)),
        (''known_students_in_lea'', JInt (int (length (remdups (ls_known_students st))))),
        (''live_student_count'', JInt (ls_live_count st)),
        (''history_size'', JInt (int (length (ls_event_counts st))))]"

definition baseline_insufficient :: "lea_state \<Rightarrow> threshold_config \<Rightarrow> issue" where
  "baseline_insufficient st cfg =
     threshold_issue ''THRESHOLD_BASELINE_INSUFFICIENT''
       [(''lea_id'', JStr (ls_lea_id st)),
        (''history_size'', JInt (int (length (ls_event_counts st)))),
        (''min_required'', JInt (int (min_history_for_thresholds cfg))),
        (''note'', JStr ''Spike thresholds suppressed until enough history is available.'')]"

definition volume_spike :: "event_page \<Rightarrow> lea_state \<Rightarrow> threshold_config \<Rightarrow> rat \<Rightarrow> issue list" where
  "volume_spike page st cfg baseline =
     (let n = int (length (pg_events page)); limit = baseline * volume_spike_multiplier cfg in
      if of_int n > limit then
        [threshold_issue ''THRESHOLD_EVENT_VOLUME_SPIKE''
           [(''lea_id'', JStr (ls_lea_id st)),
            (''page_event_count'', JInt n),
            (''baseline_median'', JFloat baseline),
            (''multiplier_applied'', JFloat (volume_spike_multiplier cfg)),
            (''spike_limit'', JFloat limit)]]
      else [])"

definition deletion_burst :: "event_page \<Rightarrow> lea_state \<Rightarrow> threshold_config \<Rightarrow> rat \<Rightarrow> issue list" where
  "deletion_burst page st cfg baseline =
     (let n = int (length (pg_events page)); dels = count_events is_deletion page;
          share = (if n > 0 then of_int dels / of_int n else 0);
          limit = baseline * deletion_burst_multiplier cfg in
      if share \<ge> deletion_share_threshold cfg \<and> of_int dels > limit then
        [threshold_issue ''THRESHOLD_DELETION_BURST''
           [(''lea_id'', JStr (ls_lea_id st)),
            (''deletion_events'', JInt dels),
            (''deletion_share'', JFloat share),
            (''deletion_share_threshold'', JFloat (deletion_share_threshold cfg)),
            (''baseline_median_deletions'', JFloat baseline),
            (''multiplier_applied'', JFloat (deletion_burst_multiplier cfg)),
            (''deletion_spike_limit'', JFloat limit)]]
      else [])"

definition population_shift :: "event_page \<Rightarrow> lea_state \<Rightarrow> threshold_config \<Rightarrow> issue list" where
  "population_shift page st cfg =
     (if ls_live_count st > 0 then
        (let projected = ls_live_count st + count_events (is_student_op CREATED) page
               - count_events (is_student_op DELETED) page;
             drop_fraction = of_int (ls_live_count st - projected) / of_int (ls_live_count st) in
         if drop_fraction \<ge> population_shift_threshold cfg then
           [threshold_issue ''THRESHOLD_POPULATION_SHIFT''
              [(''lea_id'', JStr (ls_lea_id st)),
               (''live_student_count'', JInt (ls_live_count st)),
               (''projected_live_student_count'', JInt projected),
               (''drop_fraction'', JFloat drop_fraction),
               (''population_shift_threshold'', JFloat (population_shift_threshold cfg))]]
         else [])
      else [])"

definition baseline_of :: "int list \<Rightarrow> exn + rat" where
  "baseline_of counts = res_bind (median counts) (\<lambda>m. Inr (max 1 m))"

definition check_thresholds ::
  "event_page \<Rightarrow> lea_state \<Rightarrow> threshold_config \<Rightarrow> exn + issue list" where
  "check_thresholds page st cfg =
     (if length (ls_event_counts st) < min_history_for_thresholds cfg then
        Inr [page_observation page st, baseline_insufficient st cfg]
      else
        res_bind (baseline_of (ls_event_counts st)) (\<lambda>baseline_events.
          res_bind (if ls_deletion_counts st \<noteq> [] then baseline_of (ls_deletion_counts st)
                    else Inr 1) (\<lambda>baseline_deletions.
            Inr (page_observation page st #
                 volume_spike page st cfg baseline_events @
                 deletion_burst page st cfg baseline_deletions @
                 population_shift page st cfg))))"

section \<open>The pipeline\<close>

record validation_report =
  rp_issues :: "issue list"
  rp_ok_ids :: "event_id list"
  rp_quarantined_ids :: "event_id list"
  rp_page_blocked :: bool

definition error_count :: "validation_report \<Rightarrow> int" where
  "error_count rp = int (count_where (\<lambda>i. is_severity i = ERROR) (rp_issues rp))"

definition warning_count :: "validation_report \<Rightarrow> int" where
  "warning_count rp = int (count_where (\<lambda>i. is_severity i = WARNING) (rp_issues rp))"

definition layer1_issue :: "layer1_result \<Rightarrow> issue" where
  "layer1_issue r =
     mk_issue 1 ''HTTP_INTEGRITY_FAILED'' ERROR None
       [(''http_status'', JInt (l1_http_status r)),
        (''content_type'', JStr (l1_content_type r)),
        (''body_well_formed'', JBool (l1_body_well_formed r)),
        (''error'', json_of_opt (l1_error r))]"

text \<open>
  One pass of a per-event layer over the page: \<open>skip\<close> says whether the pass skips the
  events already rejected (Layer 3 does, Layer 2 does not). Every issue, whatever its
  severity, adds the event to the rejected set, which grows while the pass runs.
\<close>

definition layer_step ::
  "bool \<Rightarrow> (normalized_event \<Rightarrow> issue list) \<Rightarrow> normalized_event \<Rightarrow>
   issue list \<times> event_id list \<Rightarrow> issue list \<times> event_id list" where
  "layer_step skip check ev = (\<lambda>(issues, rejected).
     if skip \<and> ev_id ev \<in> set rejected then (issues, rejected)
     else (issues @ check ev, if check ev = [] then rejected else ev_id ev # rejected))"

definition layers_2_3 :: "normalized_event list \<Rightarrow> issue list \<times> event_id list" where
  "layers_2_3 evs =
     fold (layer_step True check_parse) evs (fold (layer_step False check_schema) evs ([], []))"

definition surviving :: "normalized_event list \<Rightarrow> normalized_event list" where
  "surviving evs = filter (\<lambda>e. ev_id e \<notin> set (snd (layers_2_3 evs))) evs"

definition make_report ::
  "event_page \<Rightarrow> issue list \<Rightarrow> event_id list \<Rightarrow> event_id list \<Rightarrow> validation_report" where
  "make_report page issues rejected quar =
     \<lparr>rp_issues = issues,
      rp_ok_ids = map ev_id (filter (\<lambda>e. ev_id e \<notin> set rejected \<and> ev_id e \<notin> set quar)
                    (pg_events page)),
      rp_quarantined_ids = sorted_ids quar,
      rp_page_blocked =
        ((\<exists>i \<in> set issues. is_severity i = ERROR \<and> is_event_id i = None) \<or>
         \<not> l1_ok (pg_layer_1 page))\<rparr>"

definition run_pipeline :: "event_page \<Rightarrow> lea_state \<Rightarrow> exn + validation_report" where
  "run_pipeline page st =
     (if l1_ok (pg_layer_1 page) then
        (case layers_2_3 (pg_events page) of (issues23, rejected) \<Rightarrow>
           res_bind (check_referential (surviving (pg_events page)) st) (\<lambda>(issues4, quar).
             res_bind (check_thresholds page st DEFAULT_CONFIG) (\<lambda>issues5.
               Inr (make_report page (issues23 @ issues4 @ issues5) rejected quar))))
      else Inr (make_report page [layer1_issue (pg_layer_1 page)] [] []))"

section \<open>The contract of a per-event layer\<close>

text \<open>
  A per-event layer reports issues about the event it was given, under its own layer number.
  From that alone: a pass never adds a page-level issue, and the events it rejects are the
  ones it has something to say about, whether or not the pass skips rejected events.
\<close>

locale event_layer =
  fixes check :: "normalized_event \<Rightarrow> issue list" and layer :: nat
  assumes issue_about: "i \<in> set (check ev) \<Longrightarrow> is_event_id i = Some (ev_id ev)"
    and issue_layer: "i \<in> set (check ev) \<Longrightarrow> is_layer i = layer"
begin

lemma pass_issues:
  assumes "i \<in> set (fst (fold (layer_step skip check) evs acc))"
  shows "i \<in> set (fst acc) \<or> (\<exists>ev \<in> set evs. i \<in> set (check ev))"
  using assms
proof (induction evs arbitrary: acc)
  case (Cons ev evs)
  then have "i \<in> set (fst (layer_step skip check ev acc)) \<or> (\<exists>ev \<in> set evs. i \<in> set (check ev))"
    by simp
  then show ?case by (cases acc) (auto simp: layer_step_def split: if_splits)
qed simp

lemma pass_event_level:
  assumes "\<And>i. i \<in> set (fst acc) \<Longrightarrow> is_event_id i \<noteq> None"
    and "i \<in> set (fst (fold (layer_step skip check) evs acc))"
  shows "is_event_id i \<noteq> None"
  using pass_issues [OF assms(2)] assms(1) by (auto dest: issue_about)

lemma pass_keeps: "i \<in> set (fst acc) \<Longrightarrow> i \<in> set (fst (fold (layer_step skip check) evs acc))"
  by (induction evs arbitrary: acc) (auto simp: layer_step_def split_beta)

lemma pass_reports:
  assumes "ev \<in> set evs" and "i \<in> set (check ev)"
  shows "i \<in> set (fst (fold (layer_step False check) evs acc))"
  using assms
proof (induction evs arbitrary: acc)
  case (Cons e evs)
  show ?case
  proof (cases "ev = e")
    case True
    with Cons.prems have "i \<in> set (fst (layer_step False check e acc))"
      by (simp add: layer_step_def split_beta)
    then show ?thesis by (simp add: pass_keeps)
  next
    case False
    with Cons show ?thesis by simp
  qed
qed simp

lemma pass_rejected:
  "set (snd (fold (layer_step skip check) evs acc)) =
     set (snd acc) \<union> {ev_id ev | ev. ev \<in> set evs \<and> check ev \<noteq> []}"
proof (induction evs arbitrary: acc)
  case (Cons ev evs)
  have "set (snd (layer_step skip check ev acc)) =
      set (snd acc) \<union> (if check ev = [] then {} else {ev_id ev})"
    by (cases acc) (auto simp: layer_step_def)
  with Cons show ?case by (auto split: if_splits)
qed simp

end

lemma check_schema_about: "i \<in> set (check_schema ev) \<Longrightarrow> is_event_id i = Some (ev_id ev)"
  by (auto simp: check_schema_def check_student_def check_enrollment_def check_envelope_def
      type_mismatch_def split: entity_type.splits entity.splits if_splits)

lemma check_schema_layer: "i \<in> set (check_schema ev) \<Longrightarrow> is_layer i = 2"
  by (auto simp: check_schema_def check_student_def check_enrollment_def check_envelope_def
      type_mismatch_def split: entity_type.splits entity.splits if_splits)

lemma check_enrollment_parse_issue:
  "i \<in> set (check_enrollment_parse ev e) \<Longrightarrow> is_event_id i = Some (ev_id ev) \<and> is_layer i = 3"
  unfolding check_enrollment_parse_def
  by (cases "en_begin e"; cases "en_end e"; cases "the (en_end e)") (auto split: if_splits)

lemma check_student_parse_issue:
  "i \<in> set (check_student_parse ev s) \<Longrightarrow> is_event_id i = Some (ev_id ev) \<and> is_layer i = 3"
  unfolding check_student_parse_def by (cases "st_grade s") (auto split: if_splits)

lemma check_parse_issue:
  "i \<in> set (check_parse ev) \<Longrightarrow> is_event_id i = Some (ev_id ev) \<and> is_layer i = 3"
  unfolding check_parse_def
  by (cases "ev_entity_type ev"; cases "ev_entity ev")
     (simp_all add: check_student_parse_issue check_enrollment_parse_issue)

interpretation schema_layer: event_layer check_schema 2
  by unfold_locales (fact check_schema_about, fact check_schema_layer)

interpretation parse_layer: event_layer check_parse 3
  by unfold_locales (simp_all add: check_parse_issue)

section \<open>What Layers 2 and 3 reject\<close>

definition rejects :: "normalized_event \<Rightarrow> bool" where
  "rejects ev \<longleftrightarrow> check_schema ev \<noteq> [] \<or> check_parse ev \<noteq> []"

lemma rejected_ids:
  "set (snd (layers_2_3 evs)) = {ev_id ev | ev. ev \<in> set evs \<and> rejects ev}"
  by (auto simp: layers_2_3_def schema_layer.pass_rejected parse_layer.pass_rejected rejects_def)

lemma layers_2_3_event_level: "i \<in> set (fst (layers_2_3 evs)) \<Longrightarrow> is_event_id i \<noteq> None"
  unfolding layers_2_3_def
  by (rule parse_layer.pass_event_level [OF schema_layer.pass_event_level]) auto

lemma check_schema_error: "i \<in> set (check_schema ev) \<Longrightarrow> is_severity i = ERROR"
  by (auto simp: check_schema_def check_student_def check_enrollment_def check_envelope_def
      type_mismatch_def split: entity_type.splits entity.splits if_splits)

lemma layer_2_issues:
  "i \<in> set (fst (layers_2_3 evs)) \<and> is_layer i = 2 \<longleftrightarrow> (\<exists>ev \<in> set evs. i \<in> set (check_schema ev))"
proof
  assume i: "i \<in> set (fst (layers_2_3 evs)) \<and> is_layer i = 2"
  then have "i \<in> set (fst (fold (layer_step False check_schema) evs ([], [])))"
    unfolding layers_2_3_def by (auto dest!: parse_layer.pass_issues dest: parse_layer.issue_layer)
  from schema_layer.pass_issues [OF this] show "\<exists>ev \<in> set evs. i \<in> set (check_schema ev)" by simp
next
  assume "\<exists>ev \<in> set evs. i \<in> set (check_schema ev)"
  then show "i \<in> set (fst (layers_2_3 evs)) \<and> is_layer i = 2"
    unfolding layers_2_3_def
    by (auto intro: parse_layer.pass_keeps schema_layer.pass_reports dest: schema_layer.issue_layer)
qed

lemma mem_surviving_iff:
  "ev \<in> set (surviving evs) \<longleftrightarrow> ev \<in> set evs \<and> ev_id ev \<notin> ev_id ` {e \<in> set evs. rejects e}"
  by (auto simp: surviving_def rejected_ids)

lemma surviving_accepted: "ev \<in> set (surviving evs) \<Longrightarrow> ev \<in> set evs \<and> \<not> rejects ev"
  by (auto simp: mem_surviving_iff)

text \<open>What passing Layers 2 and 3 means for the event.\<close>

lemma accepted_schema:
  assumes "check_schema ev = []"
  shows "type_matches (ev_entity_type ev) (ev_entity ev)" and "ev_lea_id ev \<noteq> []"
    and "ev_source_event_id ev \<noteq> []"
    and "ev_entity ev = EStudent s \<Longrightarrow>
      st_lea_id s = ev_lea_id ev \<and> st_id s \<noteq> [] \<and> st_given_name s \<noteq> [] \<and> st_family_name s \<noteq> []"
    and "ev_entity ev = EEnrollment e \<Longrightarrow>
      en_lea_id e = ev_lea_id ev \<and> en_id e \<noteq> [] \<and> en_student_id e \<noteq> [] \<and> en_class_id e \<noteq> []"
  using assms
  by (auto simp: check_schema_def check_student_def check_enrollment_def check_envelope_def
      split: entity_type.splits entity.splits if_splits)

lemma accepted_dates:
  assumes "check_parse ev = []" "ev_entity_type ev = ENROLLMENT" "ev_entity ev = EEnrollment e"
  shows "\<exists>b. en_begin e = DDate b \<and> (\<forall>f. en_end e = Some f \<longrightarrow> (\<exists>d. f = DDate d \<and> \<not> date_less d b))"
  using assms
  by (auto simp: check_parse_def check_enrollment_parse_def
      split: date_field.splits option.splits if_splits)

section \<open>Layer 4 against its specification\<close>

text \<open>
  The specification: an event is an orphan when it is an enrollment whose student is neither
  known to the LEA nor the subject of a student event before it. \<open>orphans\<close> lists the
  orphans of a page, in page order.
\<close>

definition students_in :: "normalized_event list \<Rightarrow> string set" where
  "students_in evs = {entity_id (ev_entity e) | e. e \<in> set evs \<and> ev_entity_type e = STUDENT}"

definition orphan_after :: "string set \<Rightarrow> normalized_event list \<Rightarrow> normalized_event \<Rightarrow> bool" where
  "orphan_after known pre ev \<longleftrightarrow> ev_entity_type ev = ENROLLMENT \<and>
     (\<exists>e. ev_entity ev = EEnrollment e \<and> en_student_id e \<notin> known \<union> students_in pre)"

fun orphans :: "string set \<Rightarrow> normalized_event list \<Rightarrow> normalized_event list" where
  "orphans known [] = []"
| "orphans known (ev # evs) =
     (if orphan_after known [] ev then [ev] else []) @ orphans (known \<union> students_in [ev]) evs"

lemma students_in_simps [simp]:
  "students_in [] = {}"
  "students_in (ev # evs) =
     (if ev_entity_type ev = STUDENT then {entity_id (ev_entity ev)} else {}) \<union> students_in evs"
  by (auto simp: students_in_def)

lemma orphan_after_Cons:
  "orphan_after known (ev # pre) x = orphan_after (known \<union> students_in [ev]) pre x"
  by (auto simp: orphan_after_def)

lemma mem_orphans_iff:
  "ev \<in> set (orphans known evs) \<longleftrightarrow>
     (\<exists>pre post. evs = pre @ ev # post \<and> orphan_after known pre ev)"
proof (induction evs arbitrary: known)
  case (Cons x evs)
  have "(\<exists>pre post. x # evs = pre @ ev # post \<and> orphan_after known pre ev) \<longleftrightarrow>
      x = ev \<and> orphan_after known [] ev \<or>
      (\<exists>pre post. evs = pre @ ev # post \<and> orphan_after known (x # pre) ev)"
    by (auto simp: Cons_eq_append_conv)
  with Cons.IH [of "known \<union> students_in [x]"] show ?case
    by (auto simp: orphan_after_Cons)
qed simp

definition issue_of_orphan :: "normalized_event \<Rightarrow> issue" where
  "issue_of_orphan ev =
     orphan_issue ev (case ev_entity ev of EEnrollment e \<Rightarrow> en_student_id e | _ \<Rightarrow> [])"

lemma referential_fold:
  assumes "\<And>ev. ev \<in> set evs \<Longrightarrow> type_matches (ev_entity_type ev) (ev_entity ev)"
  shows "\<exists>known'. fold_res referential_step evs (known, issues, quar) =
      Inr (known', issues @ map issue_of_orphan (orphans (set known) evs),
           rev (map ev_id (orphans (set known) evs)) @ quar)"
  using assms
proof (induction evs arbitrary: known issues quar)
  case (Cons ev evs)
  have rest: "\<And>ev. ev \<in> set evs \<Longrightarrow> type_matches (ev_entity_type ev) (ev_entity ev)"
    using Cons.prems by simp
  note IH = Cons.IH [OF rest]
  have "type_matches (ev_entity_type ev) (ev_entity ev)" using Cons.prems by simp
  then show ?case
  proof (cases rule: type_matches_cases)
    case (1 l)
    with IH [of known issues quar] show ?thesis
      by (simp add: referential_step_def orphan_after_def)
  next
    case (2 s)
    with IH [of "st_id s # known" issues quar] show ?thesis
      by (simp add: referential_step_def orphan_after_def)
  next
    case (3 e)
    with IH [of known issues quar]
      IH [of known "issues @ [orphan_issue ev (en_student_id e)]" "ev_id ev # quar"]
    show ?thesis
      by (simp add: referential_step_def orphan_after_def issue_of_orphan_def)
  qed
qed simp

lemma check_referential_spec:
  assumes "\<And>ev. ev \<in> set evs \<Longrightarrow> type_matches (ev_entity_type ev) (ev_entity ev)"
  shows "check_referential evs st =
    Inr (map issue_of_orphan (orphans (set (ls_known_students st)) evs),
         rev (map ev_id (orphans (set (ls_known_students st)) evs)))"
proof -
  obtain known' where
    "fold_res referential_step evs (ls_known_students st, [], []) =
      Inr (known', map issue_of_orphan (orphans (set (ls_known_students st)) evs),
           rev (map ev_id (orphans (set (ls_known_students st)) evs)))"
    using referential_fold [OF assms, of evs "ls_known_students st" "[]" "[]"] by auto
  then show ?thesis by (simp add: check_referential_def)
qed

section \<open>Layer 5 never blocks and never raises\<close>

lemma baseline_total: "counts \<noteq> [] \<Longrightarrow> \<exists>b. baseline_of counts = Inr b"
  using median_total [of counts] by (auto simp: baseline_of_def)

lemma check_thresholds_total:
  assumes "min_history_for_thresholds cfg > 0"
  shows "\<exists>issues. check_thresholds page st cfg = Inr issues"
proof (cases "length (ls_event_counts st) < min_history_for_thresholds cfg")
  case False
  with assms have "ls_event_counts st \<noteq> []" by auto
  then obtain b where b: "baseline_of (ls_event_counts st) = Inr b" using baseline_total by blast
  show ?thesis
  proof (cases "ls_deletion_counts st = []")
    case True
    with False b show ?thesis by (simp add: check_thresholds_def)
  next
    case nonempty: False
    then obtain d where "baseline_of (ls_deletion_counts st) = Inr d" using baseline_total by blast
    with False b nonempty show ?thesis by (simp add: check_thresholds_def)
  qed
qed (simp add: check_thresholds_def)

definition advisory :: "issue \<Rightarrow> bool" where
  "advisory i \<longleftrightarrow> is_severity i = WARNING \<and> is_layer i = 5 \<and> is_event_id i = None"

lemma advisory_threshold_issue [simp]: "advisory (threshold_issue c d)"
  by (simp add: advisory_def threshold_issue_def)

lemma advisory_parts [simp]:
  "advisory (page_observation page st)" "advisory (baseline_insufficient st cfg)"
  "list_all advisory (volume_spike page st cfg b)"
  "list_all advisory (deletion_burst page st cfg b)"
  "list_all advisory (population_shift page st cfg)"
  by (simp_all add: page_observation_def baseline_insufficient_def volume_spike_def
      deletion_burst_def population_shift_def Let_def)

lemma check_thresholds_advisory:
  assumes "check_thresholds page st cfg = Inr issues"
  shows "list_all advisory issues"
  using assms by (auto simp: check_thresholds_def res_simps split: if_splits)

section \<open>The outcome of a run\<close>

definition page_orphans :: "event_page \<Rightarrow> lea_state \<Rightarrow> normalized_event list" where
  "page_orphans page st = orphans (set (ls_known_students st)) (surviving (pg_events page))"

lemma page_orphansD:
  assumes "ev \<in> set (page_orphans page st)"
  shows "ev \<in> set (surviving (pg_events page))" and "ev_entity_type ev = ENROLLMENT"
  using assms unfolding page_orphans_def mem_orphans_iff
  by (metis in_set_conv_decomp, metis orphan_after_def)

lemma page_orphan_not_rejected:
  "x \<in> set (page_orphans page st) \<Longrightarrow> ev_id x \<notin> ev_id ` {e \<in> set (pg_events page). rejects e}"
  by (drule page_orphansD(1)) (simp only: mem_surviving_iff not_False_eq_True simp_thms)

lemma run_pipeline_layer1_ok:
  assumes "l1_ok (pg_layer_1 page)"
  obtains issues5 where "check_thresholds page st DEFAULT_CONFIG = Inr issues5"
    and "run_pipeline page st = Inr (make_report page
      (fst (layers_2_3 (pg_events page)) @ map issue_of_orphan (page_orphans page st) @ issues5)
      (snd (layers_2_3 (pg_events page))) (rev (map ev_id (page_orphans page st))))"
proof -
  obtain issues5 where i5: "check_thresholds page st DEFAULT_CONFIG = Inr issues5"
    using check_thresholds_total [of DEFAULT_CONFIG page st] by (auto simp: DEFAULT_CONFIG_def)
  have "check_referential (surviving (pg_events page)) st =
      Inr (map issue_of_orphan (page_orphans page st), rev (map ev_id (page_orphans page st)))"
    unfolding page_orphans_def
    by (rule check_referential_spec)
       (metis rejects_def surviving_accepted accepted_schema(1))
  with assms i5 that show ?thesis by (simp add: run_pipeline_def split: prod.split)
qed

lemma ok_ids_iff:
  assumes "l1_ok (pg_layer_1 page)" and "run_pipeline page st = Inr rp"
  shows "eid \<in> set (rp_ok_ids rp) \<longleftrightarrow>
    eid \<in> ev_id ` set (pg_events page) \<and>
    eid \<notin> ev_id ` {ev \<in> set (pg_events page). rejects ev} \<and>
    eid \<notin> ev_id ` set (page_orphans page st)"
  by (rule run_pipeline_layer1_ok [OF assms(1), of st])
     (use assms(2) in \<open>auto simp: make_report_def rejected_ids image_iff\<close>)

lemma quarantined_ids_set:
  assumes "l1_ok (pg_layer_1 page)" and "run_pipeline page st = Inr rp"
  shows "set (rp_quarantined_ids rp) = ev_id ` set (page_orphans page st)"
  by (rule run_pipeline_layer1_ok [OF assms(1), of st])
     (use assms(2) in \<open>auto simp: make_report_def\<close>)

lemma report_layer_2:
  assumes "l1_ok (pg_layer_1 page)" and "run_pipeline page st = Inr rp"
  shows "i \<in> set (rp_issues rp) \<and> is_layer i = 2 \<longleftrightarrow>
    (\<exists>ev \<in> set (pg_events page). i \<in> set (check_schema ev))"
proof -
  obtain issues5 where i5: "check_thresholds page st DEFAULT_CONFIG = Inr issues5"
    and rp: "rp_issues rp = fst (layers_2_3 (pg_events page)) @
      map issue_of_orphan (page_orphans page st) @ issues5"
    by (rule run_pipeline_layer1_ok [OF assms(1), of st])
       (use assms(2) in \<open>auto simp: make_report_def\<close>)
  have "is_layer i \<noteq> 2" if "i \<in> set issues5"
    using check_thresholds_advisory [OF i5] that by (auto simp: list_all_iff advisory_def)
  then show ?thesis
    unfolding layer_2_issues [symmetric] rp by (auto simp: issue_of_orphan_def orphan_issue_def)
qed

lemma blocked_layer1_failed:
  "\<not> l1_ok (pg_layer_1 page) \<Longrightarrow>
     run_pipeline page st = Inr (make_report page [layer1_issue (pg_layer_1 page)] [] [])"
  by (simp add: run_pipeline_def)

lemma run_pipeline_issue_event_level:
  assumes "l1_ok (pg_layer_1 page)" "run_pipeline page st = Inr rp" "i \<in> set (rp_issues rp)"
    and "is_severity i = ERROR"
  shows "is_event_id i \<noteq> None"
proof -
  obtain issues5 where i5: "check_thresholds page st DEFAULT_CONFIG = Inr issues5"
    and rp: "rp_issues rp = fst (layers_2_3 (pg_events page)) @
      map issue_of_orphan (page_orphans page st) @ issues5"
    by (rule run_pipeline_layer1_ok [OF assms(1), of st])
       (use assms(2) in \<open>auto simp: make_report_def\<close>)
  from assms(3) rp consider "i \<in> set (fst (layers_2_3 (pg_events page)))"
    | ev where "i = issue_of_orphan ev" | "i \<in> set issues5" by auto
  then show ?thesis
  proof cases
    case 1
    then show ?thesis by (rule layers_2_3_event_level)
  next
    case 2
    then show ?thesis by (simp add: issue_of_orphan_def orphan_issue_def)
  next
    case 3
    with check_thresholds_advisory [OF i5] assms(4) show ?thesis
      by (auto simp: list_all_iff advisory_def)
  qed
qed

section \<open>Properties\<close>

text \<open>
  The pipeline returns a report for every page and every state of the LEA: no layer
  raises (Layer 4 reads attributes that only some entities have, Layer 5 takes medians). The
  page is blocked exactly when Layer 1 failed: neither a schema error nor a threshold stops it.
\<close>

theorem pipeline_total_blocked:
  "\<exists>rp. run_pipeline page st = Inr rp \<and> rp_page_blocked rp = (\<not> l1_ok (pg_layer_1 page))"
proof (cases "l1_ok (pg_layer_1 page)")
  case True
  obtain rp where rp: "run_pipeline page st = Inr rp"
    by (rule run_pipeline_layer1_ok [OF True, of st]) blast
  have "rp_page_blocked rp = (\<exists>i \<in> set (rp_issues rp). is_severity i = ERROR \<and> is_event_id i = None)"
    by (rule run_pipeline_layer1_ok [OF True, of st]) (use True rp in \<open>auto simp: make_report_def\<close>)
  with rp True run_pipeline_issue_event_level [OF True rp] show ?thesis by auto
next
  case False
  then show ?thesis by (simp add: blocked_layer1_failed make_report_def)
qed

text \<open>
  C35. On a page whose response was sound, the events are split three ways by their ids: the
  events to write, the events to quarantine, and the events that Layer 2 or Layer 3 had an
  issue with. No id is in two parts, and every event of the page is in one.
\<close>

definition rejected_page_ids :: "event_page \<Rightarrow> event_id set" where
  "rejected_page_ids page = ev_id ` {ev \<in> set (pg_events page). rejects ev}"

theorem pipeline_partition:
  assumes "l1_ok (pg_layer_1 page)" and "run_pipeline page st = Inr rp"
  shows "ev_id ` set (pg_events page) =
      set (rp_ok_ids rp) \<union> set (rp_quarantined_ids rp) \<union> rejected_page_ids page \<and>
    set (rp_ok_ids rp) \<inter> set (rp_quarantined_ids rp) = {} \<and>
    set (rp_ok_ids rp) \<inter> rejected_page_ids page = {} \<and>
    set (rp_quarantined_ids rp) \<inter> rejected_page_ids page = {}"
proof -
  have "ev_id ` set (page_orphans page st) \<subseteq> ev_id ` set (pg_events page) - rejected_page_ids page"
    by (auto simp: rejected_page_ids_def dest!: page_orphansD(1) simp: mem_surviving_iff)
  moreover have "rejected_page_ids page \<subseteq> ev_id ` set (pg_events page)"
    by (auto simp: rejected_page_ids_def)
  ultimately show ?thesis
    using ok_ids_iff [OF assms] quarantined_ids_set [OF assms]
    by (auto simp: rejected_page_ids_def)
qed

text \<open>
  What is written is well formed: an event whose id is in the report's ok list has an
  entity of the class it claims, a non-empty LEA id and source event id, an entity of the
  LEA of its envelope, and, for an enrollment, dates that are dates, the end not before the
  begin.
\<close>

theorem ok_events_wellformed:
  assumes "l1_ok (pg_layer_1 page)" and "run_pipeline page st = Inr rp"
    and "ev \<in> set (pg_events page)" and "ev_id ev \<in> set (rp_ok_ids rp)"
  shows "type_matches (ev_entity_type ev) (ev_entity ev) \<and>
    ev_lea_id ev \<noteq> [] \<and> ev_source_event_id ev \<noteq> [] \<and>
    (\<forall>s. ev_entity ev = EStudent s \<longrightarrow> st_lea_id s = ev_lea_id ev) \<and>
    (\<forall>e. ev_entity ev = EEnrollment e \<longrightarrow> en_lea_id e = ev_lea_id ev \<and>
       (\<exists>b. en_begin e = DDate b \<and>
          (\<forall>f. en_end e = Some f \<longrightarrow> (\<exists>d. f = DDate d \<and> \<not> date_less d b))))"
proof -
  from ok_ids_iff [OF assms(1,2)] assms(3,4) have "\<not> rejects ev" by blast
  then have schema: "check_schema ev = []" and parse: "check_parse ev = []"
    by (simp_all add: rejects_def)
  show ?thesis
    using accepted_schema [OF schema] accepted_dates [OF parse]
    by (cases "ev_entity ev"; cases "ev_entity_type ev") auto
qed

text \<open>
  Layer 4 quarantines exactly the orphans: when the event ids of the page are distinct,
  an event is quarantined if and only if Layers 2 and 3 accept it and it is an enrollment
  whose student is neither known to the LEA nor the subject of an accepted student event
  before it on the page.
\<close>

theorem quarantined_iff_orphan:
  assumes "l1_ok (pg_layer_1 page)" and "run_pipeline page st = Inr rp"
    and "distinct (map ev_id (pg_events page))" and "pg_events page = pre @ ev # post"
  shows "ev_id ev \<in> set (rp_quarantined_ids rp) \<longleftrightarrow>
    \<not> rejects ev \<and>
    orphan_after (set (ls_known_students st)) (filter (\<lambda>e. \<not> rejects e) pre) ev"
proof -
  let ?evs = "pg_events page" and ?K = "set (ls_known_students st)"
  have inj: "inj_on ev_id (set ?evs)" using assms(3) by (simp add: distinct_map)
  have surv: "surviving xs = filter (\<lambda>e. \<not> rejects e) xs" if "distinct (map ev_id xs)" for xs
    unfolding surviving_def rejected_ids
    by (rule filter_cong [OF refl]) (use that in \<open>auto simp: distinct_map inj_on_def\<close>)
  have "set (page_orphans page st) \<subseteq> set ?evs"
    by (auto dest!: page_orphansD(1) surviving_accepted)
  then have "ev_id ev \<in> set (rp_quarantined_ids rp) \<longleftrightarrow> ev \<in> set (page_orphans page st)"
    unfolding quarantined_ids_set [OF assms(1,2)]
    by (intro inj_on_image_mem_iff [OF inj]) (simp_all add: assms(4))
  also have "\<dots> \<longleftrightarrow> (\<exists>a b. filter (\<lambda>e. \<not> rejects e) ?evs = a @ ev # b \<and> orphan_after ?K a ev)"
    unfolding page_orphans_def mem_orphans_iff surv [OF assms(3)] ..
  also have "\<dots> \<longleftrightarrow> \<not> rejects ev \<and> orphan_after ?K (filter (\<lambda>e. \<not> rejects e) pre) ev"
  proof -
    have "distinct ?evs" using assms(3) by (simp add: distinct_map)
    then have "ev \<notin> set pre" "ev \<notin> set post" using assms(4) by auto
    then show ?thesis unfolding assms(4)
      by (cases "rejects ev")
         (force dest: arg_cong [where f = set], simp add: append_Cons_eq_iff)
  qed
  finally show ?thesis .
qed

text \<open>
  The spike thresholds of Layer 5. With fewer than three successful jobs in the history
  nothing fires. From three jobs on, the volume alarm fires exactly when the page holds more
  than three times the larger of one and the median of the recent event counts, and the
  population alarm exactly when the page would remove at least a quarter of the live students.
\<close>

definition fires :: "string \<Rightarrow> issue list \<Rightarrow> bool" where
  "fires code issues \<longleftrightarrow> (\<exists>i \<in> set issues. is_code i = code)"

lemma fires_simps [simp]:
  "fires c [] = False" "fires c (i # is) = (is_code i = c \<or> fires c is)"
  "fires c (xs @ ys) = (fires c xs \<or> fires c ys)"
  by (auto simp: fires_def)

lemma fires_parts [simp]:
  "fires ''THRESHOLD_EVENT_VOLUME_SPIKE'' (volume_spike page st cfg b) \<longleftrightarrow>
     of_int (int (length (pg_events page))) > b * volume_spike_multiplier cfg"
  "\<not> fires ''THRESHOLD_EVENT_VOLUME_SPIKE'' (deletion_burst page st cfg b)"
  "\<not> fires ''THRESHOLD_EVENT_VOLUME_SPIKE'' (population_shift page st cfg)"
  "\<not> fires ''THRESHOLD_POPULATION_SHIFT'' (volume_spike page st cfg b)"
  "\<not> fires ''THRESHOLD_POPULATION_SHIFT'' (deletion_burst page st cfg b)"
  by (simp_all add: volume_spike_def deletion_burst_def population_shift_def threshold_issue_def
      Let_def)

lemma fires_population_shift:
  "fires ''THRESHOLD_POPULATION_SHIFT'' (population_shift page st DEFAULT_CONFIG) \<longleftrightarrow>
     ls_live_count st > 0 \<and>
     4 * (count_events (is_student_op DELETED) page - count_events (is_student_op CREATED) page)
       \<ge> ls_live_count st"
proof -
  have "(1 / 4 :: rat) \<le> of_int d / of_int n \<longleftrightarrow> n \<le> 4 * d" if "0 < n" for d n :: int
  proof -
    have "(1 / 4 :: rat) \<le> of_int d / of_int n \<longleftrightarrow> (of_int n :: rat) \<le> of_int (4 * d)"
      using that by (simp add: field_simps)
    then show ?thesis by (simp only: of_int_le_iff)
  qed
  then show ?thesis
    by (auto simp: population_shift_def DEFAULT_CONFIG_def threshold_issue_def Let_def
        algebra_simps)
qed

theorem threshold_alarms:
  assumes "check_thresholds page st DEFAULT_CONFIG = Inr issues"
  shows "if length (ls_event_counts st) < 3
    then \<not> fires ''THRESHOLD_EVENT_VOLUME_SPIKE'' issues \<and>
         \<not> fires ''THRESHOLD_POPULATION_SHIFT'' issues
    else \<exists>m. median (ls_event_counts st) = Inr m \<and>
         (fires ''THRESHOLD_EVENT_VOLUME_SPIKE'' issues \<longleftrightarrow>
            of_int (int (length (pg_events page))) > 3 * max 1 m) \<and>
         (fires ''THRESHOLD_POPULATION_SHIFT'' issues \<longleftrightarrow>
            ls_live_count st > 0 \<and>
            4 * (count_events (is_student_op DELETED) page -
                 count_events (is_student_op CREATED) page) \<ge> ls_live_count st)"
proof (cases "length (ls_event_counts st) < 3")
  case True
  with assms show ?thesis
    by (simp add: check_thresholds_def DEFAULT_CONFIG_def)
       (auto simp: page_observation_def baseline_insufficient_def threshold_issue_def)
next
  case False
  then have "min_history_for_thresholds DEFAULT_CONFIG \<le> length (ls_event_counts st)"
    by (simp add: DEFAULT_CONFIG_def)
  with assms obtain m d where m: "median (ls_event_counts st) = Inr m"
    and issues: "issues = page_observation page st #
        volume_spike page st DEFAULT_CONFIG (max 1 m) @
        deletion_burst page st DEFAULT_CONFIG d @ population_shift page st DEFAULT_CONFIG"
    by (auto simp: check_thresholds_def baseline_of_def res_simps split: if_splits)
  have "volume_spike_multiplier DEFAULT_CONFIG = 3" by (simp add: DEFAULT_CONFIG_def)
  with m issues False fires_population_shift [of page st] show ?thesis
    by (auto simp: page_observation_def threshold_issue_def mult.commute)
qed

text \<open>
  C36. Layer 3 also drops what it only warns about: a student event with a grade outside the
  OneRoster enumeration that is otherwise accepted raises a single issue of severity WARNING,
  and is neither written nor quarantined.
\<close>

theorem unknown_grade_dropped:
  assumes "l1_ok (pg_layer_1 page)" and "run_pipeline page st = Inr rp"
    and "ev \<in> set (pg_events page)" and "check_schema ev = []"
    and "ev_entity_type ev = STUDENT" and "ev_entity ev = EStudent s"
    and "st_grade s = Some g" and "g \<notin> set ONEROSTER_GRADES"
  shows "(\<exists>i. check_parse ev = [i] \<and> is_severity i = WARNING) \<and>
    ev_id ev \<notin> set (rp_ok_ids rp) \<and> ev_id ev \<notin> set (rp_quarantined_ids rp)"
proof -
  have parse: "\<exists>i. check_parse ev = [i] \<and> is_severity i = WARNING"
    using assms(5-8) by (simp add: check_parse_def check_student_parse_def)
  then have "rejects ev" by (auto simp: rejects_def)
  with assms(3) have rej: "ev_id ev \<in> ev_id ` {e \<in> set (pg_events page). rejects e}" by auto
  then have "ev_id ev \<notin> ev_id ` set (page_orphans page st)"
    by (auto dest!: page_orphan_not_rejected simp del: mem_Collect_eq)
  with rej have "ev_id ev \<notin> set (rp_ok_ids rp)" "ev_id ev \<notin> set (rp_quarantined_ids rp)"
    unfolding ok_ids_iff [OF assms(1,2)] quarantined_ids_set [OF assms(1,2)] by simp_all
  with parse show ?thesis by blast
qed

section \<open>Witnesses\<close>

definition s_state :: lea_state where
  "s_state = \<lparr>ls_lea_id = ''lea-1'', ls_known_students = [], ls_live_count = 4,
     ls_event_counts = [1, 1, 2], ls_deletion_counts = []\<rparr>"

definition s_report :: validation_report where
  "s_report = (case run_pipeline s_page4 s_state of Inr rp \<Rightarrow> rp | Inl _ \<Rightarrow>
     \<lparr>rp_issues = [], rp_ok_ids = [], rp_quarantined_ids = [], rp_page_blocked = True\<rparr>)"

lemma s_page4_sound: "l1_ok (pg_layer_1 s_page4)"
  by code_simp

lemma s_run: "run_pipeline s_page4 s_state = Inr s_report"
proof -
  have "\<exists>rp. run_pipeline s_page4 s_state = Inr rp"
    by (rule run_pipeline_layer1_ok [OF s_page4_sound, of s_state]) blast
  then show ?thesis by (auto simp: s_report_def)
qed

theorem pipeline_partition_witness:
  "set (rp_ok_ids s_report) = {''evt_1'', ''evt_2''} \<and>
   set (rp_ok_ids s_report) \<inter> set (rp_quarantined_ids s_report) = {} \<and>
   rp_quarantined_ids s_report = [''evt_3''] \<and> ''evt_4'' \<in> rejected_page_ids s_page4"
proof -
  have "rp_ok_ids s_report = [''evt_1'', ''evt_2'']" "rp_quarantined_ids s_report = [''evt_3'']"
    by code_simp+
  moreover have "''evt_4'' \<in> ev_id ` set (pg_events s_page4)" by code_simp
  ultimately show ?thesis
    using pipeline_partition [OF s_page4_sound s_run] by auto
qed

theorem ok_events_wellformed_witness: "type_matches STUDENT (ev_entity s_ev_student)"
proof -
  have "s_ev_student \<in> set (pg_events s_page4)" "ev_id s_ev_student \<in> set (rp_ok_ids s_report)"
    by code_simp+
  from ok_events_wellformed [OF s_page4_sound s_run this] show ?thesis
    by (simp add: s_ev_student_def s_event_def)
qed

theorem quarantined_iff_orphan_witness:
  "ev_id s_ev_orphan \<in> set (rp_quarantined_ids s_report) \<and>
   orphan_after {} (filter (\<lambda>e. \<not> rejects e) [s_ev_student, s_ev_enrollment]) s_ev_orphan"
proof -
  have "distinct (map ev_id (pg_events s_page4))"
    and split: "pg_events s_page4 = [s_ev_student, s_ev_enrollment] @ s_ev_orphan # [s_ev_bad_grade]"
    and mem: "ev_id s_ev_orphan \<in> set (rp_quarantined_ids s_report)"
    by code_simp (simp add: s_page4_def s_page_def, code_simp)
  from quarantined_iff_orphan [OF s_page4_sound s_run this(1,2)] mem show ?thesis
    by (simp add: s_state_def)
qed

theorem threshold_alarms_witness:
  "\<exists>issues. check_thresholds s_page4 s_state DEFAULT_CONFIG = Inr issues \<and>
     fires ''THRESHOLD_EVENT_VOLUME_SPIKE'' issues"
proof -
  obtain issues where i: "check_thresholds s_page4 s_state DEFAULT_CONFIG = Inr issues"
    using check_thresholds_total [of DEFAULT_CONFIG s_page4 s_state]
    by (auto simp: DEFAULT_CONFIG_def)
  have "\<not> length (ls_event_counts s_state) < 3" "median (ls_event_counts s_state) = Inr 1"
    "length (pg_events s_page4) = 4"
    by code_simp+
  with threshold_alarms [OF i] i show ?thesis by auto
qed

theorem unknown_grade_dropped_witness:
  "\<exists>i. check_parse s_ev_bad_grade = [i] \<and> is_severity i = WARNING \<and>
     ev_id s_ev_bad_grade \<notin> set (rp_ok_ids s_report)"
proof -
  have "s_ev_bad_grade \<in> set (pg_events s_page4)" "check_schema s_ev_bad_grade = []"
    "ev_entity_type s_ev_bad_grade = STUDENT"
    "ev_entity s_ev_bad_grade = EStudent (s_student ''stu-2'' ''AD'')"
    "st_grade (s_student ''stu-2'' ''AD'') = Some ''AD''" "''AD'' \<notin> set ONEROSTER_GRADES"
    by code_simp+
  from unknown_grade_dropped [OF s_page4_sound s_run this] show ?thesis by blast
qed

end
