(* ===== verification/Alerts.thy ===== *)
theory Alerts
  imports Validation Database "HOL-Library.Product_Lexorder"
begin

text \<open>
  The alert service, \<open>services/alerts.py\<close>. An evaluator returns the records it emits; the
  telemetry stream is that list, since \<open>_emit\<close> sends the record it returns. The thresholds
  are the keyword arguments of the constructor, the time is \<open>NOW()\<close> of the statement, in
  microseconds. \<open>fmt\<close> is the text of a timestamp.
\<close>

record alert_record =
  ar_code :: string
  ar_severity :: string
  ar_dedup_key :: string
  ar_properties :: "(string \<times> string) list"
  ar_measurements :: "(string \<times> rat) list"

definition CURSOR_LAG_THRESHOLD_DAYS :: int where
  "CURSOR_LAG_THRESHOLD_DAYS = 20"

definition QUARANTINE_GROWTH_THRESHOLD :: nat where
  "QUARANTINE_GROWTH_THRESHOLD = 25"

definition IDEMPOTENCY_TABLE_SIZE_THRESHOLD :: int where
  "IDEMPOTENCY_TABLE_SIZE_THRESHOLD = 100000"

definition hours_us :: "int \<Rightarrow> int" where
  "hours_us h = h * 3600000000"

definition days_us :: "int \<Rightarrow> int" where
  "days_us d = d * 86400000000"

definition emit :: "string \<Rightarrow> string \<Rightarrow> string \<Rightarrow> (string \<times> string) list \<Rightarrow> (string \<times> rat) list \<Rightarrow> alert_record" where
  "emit code sev key props meas =
     \<lparr>ar_code = code, ar_severity = sev, ar_dedup_key = key,
      ar_properties = props @ [(''alert_code'', code), (''alert_severity'', sev), (''dedup_key'', key)],
      ar_measurements = meas\<rparr>"

lemma emit_sel [simp]:
  "ar_code (emit c s k p m) = c" "ar_severity (emit c s k p m) = s"
  "ar_dedup_key (emit c s k p m) = k" "ar_measurements (emit c s k p m) = m"
  by (simp_all add: emit_def)

section \<open>After a page\<close>

definition layer_2_errors :: "validation_report \<Rightarrow> issue list" where
  "layer_2_errors rp = filter (\<lambda>i. is_layer i = 2 \<and> is_severity i = ERROR) (rp_issues rp)"

definition sync_failure_alert ::
  "uuid \<Rightarrow> lea_id \<Rightarrow> string \<Rightarrow> validation_report \<Rightarrow> string option \<Rightarrow> alert_record" where
  "sync_failure_alert job l partner rp summary =
     emit ''alert.sync_failure'' ''critical'' (''alert.sync_failure:'' @ uuid_str job)
       [(''sync_job_id'', uuid_str job), (''lea_id'', l), (''partner'', partner),
        (''error_summary'', opt_or summary [])]
       [(''error_count'', of_int (error_count rp))]"

definition schema_drift_alert ::
  "uuid \<Rightarrow> lea_id \<Rightarrow> string \<Rightarrow> issue list \<Rightarrow> alert_record" where
  "schema_drift_alert job l partner errors =
     (let sample = hd errors in
      emit ''alert.schema_drift'' ''warning''
        (''alert.schema_drift:'' @ l @ '':'' @ partner @ '':'' @ is_code sample)
        [(''sync_job_id'', uuid_str job), (''lea_id'', l), (''partner'', partner),
         (''sample_code'', is_code sample), (''sample_event_id'', opt_or (is_event_id sample) [])]
        [(''layer_2_error_count'', of_nat (length errors))])"

definition evaluate_sync_outcome ::
  "uuid \<Rightarrow> lea_id \<Rightarrow> string \<Rightarrow> string \<Rightarrow> validation_report \<Rightarrow> string option \<Rightarrow> alert_record list" where
  "evaluate_sync_outcome job l partner status rp summary =
     (if status = ''failed'' then [sync_failure_alert job l partner rp summary] else []) @
     (if layer_2_errors rp \<noteq> [] then [schema_drift_alert job l partner (layer_2_errors rp)] else [])"

section \<open>Scans of the tables\<close>

definition recent_unresolved :: "timestamp \<Rightarrow> int \<Rightarrow> quarantine_row \<Rightarrow> bool" where
  "recent_unresolved now hours q \<longleftrightarrow> qr_resolved_at q = None \<and> qr_created_at q \<ge> now - hours_us hours"

definition quarantine_count :: "timestamp \<Rightarrow> int \<Rightarrow> quarantine_row list \<Rightarrow> lea_id \<Rightarrow> nat" where
  "quarantine_count now hours rows l =
     count_where (\<lambda>q. recent_unresolved now hours q \<and> qr_lea_id q = l) rows"

definition evaluate_quarantine_growth ::
  "nat \<Rightarrow> int \<Rightarrow> timestamp \<Rightarrow> db \<Rightarrow> alert_record list" where
  "evaluate_quarantine_growth threshold hours now db =
     (let rows = db_quarantine db;
          leas = remdups (map qr_lea_id (filter (recent_unresolved now hours) rows)) in
      map (\<lambda>l. emit ''alert.quarantine_growth'' ''warning'' (''alert.quarantine_growth:'' @ l)
             [(''lea_id'', l), (''window_hours'', string_of_int hours),
              (''threshold'', string_of_nat threshold)]
             [(''unresolved_count'', of_nat (quarantine_count now hours rows l))])
        (filter (\<lambda>l. quarantine_count now hours rows l > threshold) leas))"

definition evaluate_cursor_lag ::
  "(timestamp \<Rightarrow> string) \<Rightarrow> int \<Rightarrow> timestamp \<Rightarrow> db \<Rightarrow> alert_record list" where
  "evaluate_cursor_lag fmt days moment db =
     map (\<lambda>c. let t = the (cs_last_event_at c) in
            emit ''alert.cursor_lag_20_day'' ''warning''
              (''alert.cursor_lag_20_day:'' @ cs_lea_id c @ '':'' @ cs_partner c)
              [(''lea_id'', cs_lea_id c), (''partner'', cs_partner c),
               (''last_event_id'', opt_or (cs_last_event_id c) []), (''last_event_at'', fmt t),
               (''threshold_days'', string_of_int days)]
              [(''days_behind'', of_int (moment - t) / of_int (days_us 1))])
       (sort_key (\<lambda>c. the (cs_last_event_at c))
         (filter (\<lambda>c. case cs_last_event_at c of None \<Rightarrow> False | Some t \<Rightarrow> t < moment - days_us days)
           (db_cursors db)))"

text \<open>
  \<open>SELECT DISTINCT ON (lea_id, partner) ... ORDER BY lea_id, partner, completed_at DESC\<close>: of
  each pair the row completed last.
\<close>

definition rr_key :: "reconciliation_row \<Rightarrow> lea_id \<times> string" where
  "rr_key r = (rr_lea_id r, rr_partner r)"

definition in_window :: "timestamp \<Rightarrow> int \<Rightarrow> reconciliation_row \<Rightarrow> bool" where
  "in_window now hours r \<longleftrightarrow>
     (case rr_completed_at r of None \<Rightarrow> False | Some t \<Rightarrow> t \<ge> now - hours_us hours)"

definition latest_run :: "reconciliation_row list \<Rightarrow> lea_id \<times> string \<Rightarrow> reconciliation_row" where
  "latest_run rows k =
     hd (sort_key (\<lambda>r. - the (rr_completed_at r)) (filter (\<lambda>r. rr_key r = k) rows))"

definition latest_runs :: "timestamp \<Rightarrow> int \<Rightarrow> db \<Rightarrow> reconciliation_row list" where
  "latest_runs now hours db =
     (let rows = filter (in_window now hours) (db_reconciliation_runs db)
      in map (latest_run rows) (sort (remdups (map rr_key rows))))"

definition summed_len :: "string \<Rightarrow> dict list \<Rightarrow> exn + nat" where
  "summed_len k ds =
     res_bind (map_res (\<lambda>d. json_len (json_or (dict_get_default d k (JArr [])) (JArr []))) ds)
       (\<lambda>ns. Inr (sum_list ns))"

definition drift_alert ::
  "(timestamp \<Rightarrow> string) \<Rightarrow> (rat \<Rightarrow> string) \<Rightarrow> reconciliation_row \<Rightarrow> exn + alert_record" where
  "drift_alert fmt ft r =
     (let ds = rr_drift_summary r;
          types = map (\<lambda>d. py_str ft (dict_get_default d ''entity_type'' (JStr []))) ds in
      res_bind (summed_len ''canonical_only_ids'' ds) (\<lambda>canonical_only.
        res_bind (summed_len ''partner_only_ids'' ds) (\<lambda>partner_only.
          Inr (emit ''alert.reconciliation_drift'' ''warning''
            (''alert.reconciliation_drift:'' @ rr_lea_id r @ '':'' @ rr_partner r)
            [(''run_id'', uuid_str (rr_id r)), (''lea_id'', rr_lea_id r),
             (''partner'', rr_partner r),
             (''completed_at'', fmt (the (rr_completed_at r))),
             (''entity_types'', join_with '','' types),
             (''canonical_root_hash'', rr_canonical_root_hash r),
             (''partner_root_hash'', opt_or (rr_partner_root_hash r) [])]
            [(''entity_types_drifted'', of_nat (length types)),
             (''canonical_only_count'', of_nat canonical_only),
             (''partner_only_count'', of_nat partner_only)]))))"

definition evaluate_reconciliation_drift ::
  "(timestamp \<Rightarrow> string) \<Rightarrow> (rat \<Rightarrow> string) \<Rightarrow> int \<Rightarrow> timestamp \<Rightarrow> db \<Rightarrow> exn + alert_record list" where
  "evaluate_reconciliation_drift fmt ft hours now db =
     map_res (drift_alert fmt ft)
       (filter (\<lambda>r. rr_status r = ''drift_detected'') (latest_runs now hours db))"

definition evaluate_idempotency_table_size :: "int \<Rightarrow> int \<Rightarrow> alert_record list" where
  "evaluate_idempotency_table_size threshold n =
     (if n \<le> threshold then []
      else [emit ''alert.idempotency_table_growth'' ''warning'' ''alert.idempotency_table_growth''
              [(''threshold'', string_of_int threshold)] [(''row_count'', of_int n)]])"

definition fire_integration_degraded :: "lea_id \<Rightarrow> string \<Rightarrow> string \<Rightarrow> alert_record" where
  "fire_integration_degraded l partner status =
     emit ''alert.integration_degraded'' ''critical''
       (''alert.integration_degraded:'' @ l @ '':'' @ partner)
       [(''lea_id'', l), (''partner'', partner), (''integration_status'', status)] []"

section \<open>Lemmas\<close>

lemma layer_2_errors_iff:
  assumes "l1_ok (pg_layer_1 page)" and "run_pipeline page st = Inr rp"
  shows "layer_2_errors rp \<noteq> [] \<longleftrightarrow> (\<exists>ev \<in> set (pg_events page). check_schema ev \<noteq> [])"
proof -
  have "layer_2_errors rp \<noteq> [] \<longleftrightarrow>
      (\<exists>i. (i \<in> set (rp_issues rp) \<and> is_layer i = 2) \<and> is_severity i = ERROR)"
    by (auto simp: layer_2_errors_def filter_empty_conv)
  also have "\<dots> \<longleftrightarrow> (\<exists>ev \<in> set (pg_events page). \<exists>i. i \<in> set (check_schema ev))"
    unfolding report_layer_2 [OF assms] using check_schema_error by blast
  also have "\<dots> \<longleftrightarrow> (\<exists>ev \<in> set (pg_events page). check_schema ev \<noteq> [])"
    by (auto simp: ex_in_conv)
  finally show ?thesis .
qed

lemma latest_run_mem:
  assumes "k \<in> rr_key ` set rows"
  shows "latest_run rows k \<in> set rows \<and> rr_key (latest_run rows k) = k \<and>
    (\<forall>r \<in> set rows. rr_key r = k \<longrightarrow>
       the (rr_completed_at r) \<le> the (rr_completed_at (latest_run rows k)))"
proof -
  let ?ys = "sort_key (\<lambda>r. - the (rr_completed_at r)) (filter (\<lambda>r. rr_key r = k) rows)"
  have set: "set ?ys = {r \<in> set rows. rr_key r = k}" by auto
  from assms obtain r where "r \<in> set ?ys" unfolding set by blast
  then have "?ys \<noteq> []" by (cases ?ys) simp_all
  then obtain z zs where ys: "?ys = z # zs" by (cases ?ys) auto
  have "sorted (map (\<lambda>r. - the (rr_completed_at r)) ?ys)" by simp
  then have "\<forall>r \<in> set ?ys. the (rr_completed_at r) \<le> the (rr_completed_at z)"
    unfolding ys by auto
  moreover have "latest_run rows k = z" by (simp add: latest_run_def ys)
  moreover have "z \<in> set ?ys" by (simp add: ys)
  ultimately show ?thesis unfolding set by blast
qed

lemma map_res_mem:
  assumes "map_res f xs = Inr ys"
  shows "y \<in> set ys \<longleftrightarrow> (\<exists>x \<in> set xs. f x = Inr y)"
  using assms by (induction xs arbitrary: ys) (auto simp: res_simps)

lemma map_res_total:
  assumes "map_res f xs = Inr ys" and "x \<in> set xs"
  shows "\<exists>y. f x = Inr y \<and> y \<in> set ys"
  using assms by (induction xs arbitrary: ys) (auto simp: res_simps)

lemma drift_alert_run_id:
  "drift_alert fmt ft r = Inr a \<Longrightarrow>
     (''run_id'', u) \<in> set (ar_properties a) \<longleftrightarrow> u = uuid_str (rr_id r)"
  by (auto simp: drift_alert_def Let_def res_simps emit_def)

lemma page_alert_codes [simp]:
  "ar_code (sync_failure_alert job l p rp summary) = ''alert.sync_failure''"
  "ar_dedup_key (sync_failure_alert job l p rp summary) = ''alert.sync_failure:'' @ uuid_str job"
  "ar_code (schema_drift_alert job l p errors) = ''alert.schema_drift''"
  by (simp_all add: sync_failure_alert_def schema_drift_alert_def Let_def)

lemma mem_latest_runs:
  "z \<in> set (latest_runs now hours db) \<longleftrightarrow>
     z \<in> set (db_reconciliation_runs db) \<and> in_window now hours z \<and>
     z = latest_run (filter (in_window now hours) (db_reconciliation_runs db)) (rr_key z)"
proof -
  let ?rows = "filter (in_window now hours) (db_reconciliation_runs db)"
  have "z \<in> set (latest_runs now hours db) \<longleftrightarrow> (\<exists>k \<in> rr_key ` set ?rows. z = latest_run ?rows k)"
    by (auto simp: latest_runs_def Let_def)
  also have "\<dots> \<longleftrightarrow> z \<in> set ?rows \<and> z = latest_run ?rows (rr_key z)"
  proof
    assume "\<exists>k \<in> rr_key ` set ?rows. z = latest_run ?rows k"
    then obtain k where "k \<in> rr_key ` set ?rows" and z: "z = latest_run ?rows k" ..
    from latest_run_mem [OF this(1)] show "z \<in> set ?rows \<and> z = latest_run ?rows (rr_key z)"
      unfolding z by simp
  qed blast
  finally show ?thesis by simp
qed

section \<open>Properties\<close>

text \<open>
  After a page, schema drift is signalled exactly when the response was sound and some
  event of the page violates the schema, also when the page as a whole succeeded; and the
  failure alarm, whose deduplication key determines the job, exactly when the job failed.
\<close>

theorem page_alerts_exact:
  assumes "run_pipeline page st = Inr rp"
  shows "(\<exists>a \<in> set (evaluate_sync_outcome job l p status rp summary). ar_code a = ''alert.schema_drift'')
      = (l1_ok (pg_layer_1 page) \<and> (\<exists>ev \<in> set (pg_events page). check_schema ev \<noteq> [])) \<and>
    (\<exists>a \<in> set (evaluate_sync_outcome job l p status rp summary).
       ar_code a = ''alert.sync_failure'' \<and>
       ar_dedup_key a = ''alert.sync_failure:'' @ uuid_str job') = (status = ''failed'' \<and> job = job')"
proof -
  have "layer_2_errors rp \<noteq> [] \<longleftrightarrow>
      l1_ok (pg_layer_1 page) \<and> (\<exists>ev \<in> set (pg_events page). check_schema ev \<noteq> [])"
  proof (cases "l1_ok (pg_layer_1 page)")
    case True
    then show ?thesis using layer_2_errors_iff [OF _ assms] by simp
  next
    case False
    with assms show ?thesis
      by (auto simp: blocked_layer1_failed make_report_def layer_2_errors_def layer1_issue_def)
  qed
  moreover have "(\<exists>a \<in> set (evaluate_sync_outcome job l p status rp summary).
      ar_code a = ''alert.schema_drift'') = (layer_2_errors rp \<noteq> [])"
    by (cases "layer_2_errors rp = []"; cases "status = ''failed''") (simp_all add: evaluate_sync_outcome_def)
  moreover have "(\<exists>a \<in> set (evaluate_sync_outcome job l p status rp summary).
      ar_code a = ''alert.sync_failure'' \<and>
      ar_dedup_key a = ''alert.sync_failure:'' @ uuid_str job') = (status = ''failed'' \<and> job = job')"
    by (cases "layer_2_errors rp = []"; cases "status = ''failed''") (simp_all add: evaluate_sync_outcome_def)
  ultimately show ?thesis by simp
qed

text \<open>
  Quarantine growth: an LEA is reported exactly when it has more than the threshold of
  unresolved rows created in the window, and it is reported once.
\<close>

theorem quarantine_growth_exact:
  "set (map ar_dedup_key (evaluate_quarantine_growth threshold hours now db)) =
     {''alert.quarantine_growth:'' @ l | l.
        quarantine_count now hours (db_quarantine db) l > threshold} \<and>
   distinct (map ar_dedup_key (evaluate_quarantine_growth threshold hours now db))"
proof -
  have "l \<in> qr_lea_id ` {q \<in> set (db_quarantine db). recent_unresolved now hours q}"
    if "quarantine_count now hours (db_quarantine db) l > threshold" for l
  proof -
    from that have "filter (\<lambda>q. recent_unresolved now hours q \<and> qr_lea_id q = l) (db_quarantine db) \<noteq> []"
      by (auto simp: quarantine_count_def count_where_def)
    then show ?thesis by (auto simp: filter_empty_conv)
  qed
  then show ?thesis
    by (auto simp: evaluate_quarantine_growth_def Let_def comp_def distinct_map inj_on_def)
qed

text \<open>
  When no two runs of a pair in the window completed at the same time, a drift alert names the
  run of a pair exactly when that run is the last of its pair in the window and found drift.
\<close>

lemma drift_alert_named_iff:
  assumes "evaluate_reconciliation_drift fmt ft hours now db = Inr alerts"
    and "r \<in> set (db_reconciliation_runs db)" and "in_window now hours r"
    and "\<And>r'. r' \<in> set (db_reconciliation_runs db) \<Longrightarrow> in_window now hours r' \<Longrightarrow>
      rr_key r' = rr_key r \<Longrightarrow> r' \<noteq> r \<Longrightarrow> rr_completed_at r' \<noteq> rr_completed_at r"
    and "\<And>r'. r' \<in> set (db_reconciliation_runs db) \<Longrightarrow> rr_id r' = rr_id r \<Longrightarrow> r' = r"
  shows "(\<exists>a \<in> set alerts. (''run_id'', uuid_str (rr_id r)) \<in> set (ar_properties a)) \<longleftrightarrow>
    rr_status r = ''drift_detected'' \<and>
    (\<forall>r' \<in> set (db_reconciliation_runs db). in_window now hours r' \<and> rr_key r' = rr_key r \<longrightarrow>
       the (rr_completed_at r') \<le> the (rr_completed_at r))"
proof -
  let ?rows = "filter (in_window now hours) (db_reconciliation_runs db)"
  let ?z = "latest_run ?rows (rr_key r)"
  have "rr_key r \<in> rr_key ` set ?rows" using assms(2,3) by simp
  note z = latest_run_mem [OF this]
  have last: "r = ?z \<longleftrightarrow> (\<forall>r' \<in> set (db_reconciliation_runs db).
      in_window now hours r' \<and> rr_key r' = rr_key r \<longrightarrow>
      the (rr_completed_at r') \<le> the (rr_completed_at r))" (is "_ \<longleftrightarrow> ?max")
  proof
    assume ?max
    with z have "the (rr_completed_at ?z) = the (rr_completed_at r)"
      using assms(2,3) by (simp add: order_antisym)
    with z assms(3) have "rr_completed_at ?z = rr_completed_at r"
      by (auto simp: in_window_def split: option.splits)
    moreover from z have "?z \<in> set (db_reconciliation_runs db)" "in_window now hours ?z"
      "rr_key ?z = rr_key r" by simp_all
    ultimately show "r = ?z" using assms(4) [of ?z] by metis
  qed (use z in auto)
  note alerts = assms(1) [unfolded evaluate_reconciliation_drift_def]
  have "(\<exists>a \<in> set alerts. (''run_id'', uuid_str (rr_id r)) \<in> set (ar_properties a)) \<longleftrightarrow>
      rr_status r = ''drift_detected'' \<and> r \<in> set (latest_runs now hours db)"
  proof
    assume "\<exists>a \<in> set alerts. (''run_id'', uuid_str (rr_id r)) \<in> set (ar_properties a)"
    then obtain x a where x: "x \<in> set (latest_runs now hours db)" "rr_status x = ''drift_detected''"
      "drift_alert fmt ft x = Inr a" "(''run_id'', uuid_str (rr_id r)) \<in> set (ar_properties a)"
      using map_res_mem [OF alerts] by auto
    then have "rr_id x = rr_id r" by (simp add: drift_alert_run_id)
    with x assms(5) have "x = r" by (simp add: mem_latest_runs)
    with x show "rr_status r = ''drift_detected'' \<and> r \<in> set (latest_runs now hours db)" by simp
  next
    assume "rr_status r = ''drift_detected'' \<and> r \<in> set (latest_runs now hours db)"
    with map_res_total [OF alerts, of r] obtain a where "drift_alert fmt ft r = Inr a" "a \<in> set alerts"
      by auto
    then show "\<exists>a \<in> set alerts. (''run_id'', uuid_str (rr_id r)) \<in> set (ar_properties a)"
      using drift_alert_run_id [of fmt ft r a "uuid_str (rr_id r)"] by blast
  qed
  with last assms(2,3) show ?thesis by (auto simp: mem_latest_runs)
qed

section \<open>Witnesses\<close>

theorem page_alerts_exact_witness:
  "(\<exists>a \<in> set (evaluate_sync_outcome 7 ''lea-1'' ''edlink'' ''success'' s_report None).
      ar_code a = ''alert.schema_drift'') = (\<exists>ev \<in> set (pg_events s_page4). check_schema ev \<noteq> [])"
  using page_alerts_exact [OF s_run, of 7 "''lea-1''" "''edlink''" "''success''" None] s_page4_sound
  by simp

end
