(* ===== verification/IntegrationStatus.thy ===== *)
theory IntegrationStatus
  imports Alerts
begin

text \<open>
  The poller of \<open>services/integration_status.py\<close>: it asks the connector for the partner's
  view of the integration, persists it on the live authorization row and fires an alert when the
  integration is degraded. \<open>probe\<close> is the connector's \<open>get_integration_status\<close>,
  \<open>None\<close> when the connector has no such method.
\<close>

definition DEGRADED_STATUSES :: "string list" where
  "DEGRADED_STATUSES = [''inactive'', ''disabled'', ''destroyed'']"

definition integration_status_values :: "string list" where
  "integration_status_values = [''inactive'', ''active'', ''requested'', ''disabled'', ''destroyed'']"

record status_snapshot =
  ss_status :: string
  ss_sharing_scope :: string
  ss_observed_at :: timestamp

record status_record =
  sr_rec_lea_id :: lea_id
  sr_rec_partner :: string
  sr_rec_status :: string
  sr_rec_sharing_scope :: "string option"
  sr_rec_observed_at :: "timestamp option"
  sr_rec_is_degraded :: bool

definition live_authorization :: "lea_id \<Rightarrow> string \<Rightarrow> authorization_row \<Rightarrow> bool" where
  "live_authorization l p a \<longleftrightarrow> au_lea_id a = l \<and> au_partner a = p \<and> au_revoked_at a = None"

definition observe :: "status_snapshot \<Rightarrow> authorization_row \<Rightarrow> authorization_row" where
  "observe snap a = a\<lparr>au_integration_status := ss_status snap,
     au_sharing_scope := Some (ss_sharing_scope snap),
     au_status_observed_at := Some (ss_observed_at snap)\<rparr>"

text \<open>\<open>UPDATE ... RETURNING\<close>: the check constraint on the status is part of the statement.\<close>

definition persist_status ::
  "string \<Rightarrow> lea_id \<Rightarrow> status_snapshot \<Rightarrow> db \<Rightarrow> exn + (authorization_row option \<times> db)" where
  "persist_status partner l snap db =
     (case find (live_authorization l partner) (db_authorizations db) of
        None \<Rightarrow> Inr (None, db)
      | Some a \<Rightarrow>
          if ss_status snap \<notin> set integration_status_values then
            Inl (CheckViolation ''ck_connector_authorization_integration_status'')
          else Inr (Some (observe snap a),
            db\<lparr>db_authorizations :=
                 update_where (live_authorization l partner) (observe snap) (db_authorizations db)\<rparr>))"

definition record_of_row :: "string \<Rightarrow> lea_id \<Rightarrow> authorization_row \<Rightarrow> status_record" where
  "record_of_row partner l a =
     \<lparr>sr_rec_lea_id = l, sr_rec_partner = partner, sr_rec_status = au_integration_status a,
      sr_rec_sharing_scope = au_sharing_scope a, sr_rec_observed_at = au_status_observed_at a,
      sr_rec_is_degraded = (au_integration_status a \<in> set DEGRADED_STATUSES)\<rparr>"

definition poll_and_persist ::
  "(lea_id \<Rightarrow> exn + status_snapshot) option \<Rightarrow> string \<Rightarrow> lea_id \<Rightarrow> db \<Rightarrow>
   db \<times> alert_record list \<times> (exn + status_record option)" where
  "poll_and_persist probe partner l db =
     (case probe of
        None \<Rightarrow> (db, [], Inr None)
      | Some get \<Rightarrow>
          (case get l of
             Inl e \<Rightarrow> (db, [], Inl e)
           | Inr snap \<Rightarrow>
               (case transaction (persist_status partner l snap) db of
                  (db', Inl e) \<Rightarrow> (db', [], Inl e)
                | (db', Inr None) \<Rightarrow> (db', [], Inr None)
                | (db', Inr (Some a)) \<Rightarrow>
                    (let r = record_of_row partner l a in
                     (db', if sr_rec_is_degraded r
                           then [fire_integration_degraded l partner (sr_rec_status r)] else [],
                      Inr (Some r))))))"

lemma poll_frame:
  assumes "poll_and_persist probe partner l db = (db', alerts, r)"
  shows "\<exists>rows. db' = db\<lparr>db_authorizations := rows\<rparr>"
proof -
  have self: "\<exists>rows. d = d\<lparr>db_authorizations := rows\<rparr>" for d :: db
    by (rule exI [of _ "db_authorizations d"]) simp
  from assms show ?thesis
    by (auto simp: poll_and_persist_def transaction_def persist_status_def Let_def self
        split: option.splits sum.splits prod.splits if_splits)
qed

end
