(* ===== verification/EdlinkConnector.thy ===== *)
theory EdlinkConnector
  imports EdlinkClient Database IntegrationStatus
begin

text \<open>
  The EdLink connector, \<open>connectors/edlink/connector.py\<close>: events of the partner become
  canonical events, resources become rows of the canonical tables. A partner payload is a JSON
  dictionary and every reading of it is the one of Python: \<open>data[k]\<close> raises on a missing
  key, \<open>data.get(k)\<close> does not, \<open>str\<close> accepts any value. \<open>ft\<close> is the text
  of a float.
\<close>

section \<open>Reading partner values\<close>

text \<open>What \<open>for r in v\<close> goes through, and \<open>v[0]\<close> of a value that is true.\<close>

fun json_iter :: "json \<Rightarrow> exn + json list" where
  "json_iter (JArr xs) = Inr xs"
| "json_iter (JStr s) = Inr (map (\<lambda>c. JStr [c]) s)"
| "json_iter (JObj d) = Inr (map (\<lambda>(k, _). JStr k) d)"
| "json_iter _ = Inl TypeError"

fun json_head :: "json \<Rightarrow> exn + json" where
  "json_head (JArr (x # _)) = Inr x"
| "json_head (JStr (c # _)) = Inr (JStr [c])"
| "json_head (JObj _) = Inl (KeyError ''0'')"
| "json_head _ = Inl TypeError"

definition is_student_role :: "json \<Rightarrow> bool" where
  "is_student_role role = (case role of
      JObj d \<Rightarrow> dict_get d ''role'' = JStr ''student'' | _ \<Rightarrow> role = JStr ''student'')"

definition extract_ref_id :: "(rat \<Rightarrow> string) \<Rightarrow> json \<Rightarrow> exn + string" where
  "extract_ref_id ft ref = (case ref of
      JObj d \<Rightarrow> res_bind (dict_item d ''sourcedId'') (\<lambda>v. Inr (py_str ft v))
    | _ \<Rightarrow> Inr (py_str ft ref))"

definition extract_primary_org_id :: "(rat \<Rightarrow> string) \<Rightarrow> json \<Rightarrow> exn + string option" where
  "extract_primary_org_id ft ref =
     (if ref = JNull then Inr None else res_bind (extract_ref_id ft ref) (\<lambda>s. Inr (Some s)))"

definition optional_str :: "(rat \<Rightarrow> string) \<Rightarrow> json \<Rightarrow> string option" where
  "optional_str ft v = (if v = JNull then None else Some (py_str ft v))"

definition parse_date :: "(rat \<Rightarrow> string) \<Rightarrow> json \<Rightarrow> exn + date" where
  "parse_date ft v = (if v = JNull then Inl ValueError else fromisoformat (py_str ft v))"

definition parse_date_optional :: "(rat \<Rightarrow> string) \<Rightarrow> json \<Rightarrow> exn + date option" where
  "parse_date_optional ft v =
     (if v = JNull then Inr None else res_bind (fromisoformat (py_str ft v)) (\<lambda>d. Inr (Some d)))"

text \<open>Whether a person is a student, and the first grade.\<close>

definition has_student_role :: "dict \<Rightarrow> exn + bool" where
  "has_student_role data =
     res_bind (json_iter (json_or (dict_get data ''roles'') (JArr []))) (\<lambda>rs.
       Inr (list_ex is_student_role rs))"

definition first_grade :: "dict \<Rightarrow> exn + json" where
  "first_grade data =
     (let grades = json_or (dict_get data ''grades'') (JArr []) in
      if truthy grades then json_head grades else Inr JNull)"

section \<open>Events\<close>

text \<open>\<open>dict(...)\<close> of the user ids: a dictionary is copied; any other true value is refused.\<close>

definition user_ids :: "dict \<Rightarrow> exn + dict" where
  "user_ids data = (case json_or (dict_get data ''userIds'') (JObj []) of
      JObj d \<Rightarrow> Inr d | _ \<Rightarrow> Inl TypeError)"

definition person_to_student ::
  "(rat \<Rightarrow> string) \<Rightarrow> dict \<Rightarrow> lea_id \<Rightarrow> exn + student option" where
  "person_to_student ft data l =
     res_bind (has_student_role data) (\<lambda>is_student.
     if \<not> is_student then Inr None
     else
       res_bind (first_grade data) (\<lambda>grade.
       res_bind (extract_primary_org_id ft (dict_get data ''primaryOrg'')) (\<lambda>school.
       res_bind (dict_item data ''sourcedId'') (\<lambda>i.
       res_bind (user_ids data) (\<lambda>ids.
         Inr (Some \<lparr>st_id = py_str ft i, st_lea_id = l,
           st_given_name = py_str ft (dict_get_default data ''givenName'' (JStr [])),
           st_family_name = py_str ft (dict_get_default data ''familyName'' (JStr [])),
           st_grade = optional_str ft grade,
           st_preferred = optional_str ft (dict_get data ''preferredFirstName''),
           st_school = school, st_external_ids = ids\<rparr>))))))"

definition enrollment_to_canonical ::
  "(rat \<Rightarrow> string) \<Rightarrow> dict \<Rightarrow> lea_id \<Rightarrow> exn + enrollment" where
  "enrollment_to_canonical ft data l =
     res_bind (dict_item data ''sourcedId'') (\<lambda>i.
     res_bind (res_bind (dict_item data ''user'') (extract_ref_id ft)) (\<lambda>stu.
     res_bind (res_bind (dict_item data ''class'') (extract_ref_id ft)) (\<lambda>cls.
     res_bind (parse_date ft (dict_get data ''beginDate'')) (\<lambda>b.
     res_bind (parse_date_optional ft (dict_get data ''endDate'')) (\<lambda>f.
       Inr \<lparr>en_id = py_str ft i, en_lea_id = l, en_student_id = stu, en_class_id = cls,
            en_begin = DDate b, en_end = map_option DDate f\<rparr>)))))"

definition operation_by_action :: "string \<Rightarrow> operation option" where
  "operation_by_action a =
     (if a = ''created'' then Some CREATED else if a = ''updated'' then Some UPDATED
      else if a = ''deleted'' then Some DELETED else None)"

definition HANDLED_ENTITIES :: "string list" where
  "HANDLED_ENTITIES = [''person'', ''enrollment'']"

definition KNOWN_UNMAPPED_ENTITIES :: "string list" where
  "KNOWN_UNMAPPED_ENTITIES = [''class'', ''term'', ''org'']"

text \<open>
  \<open>_normalize\<close>: an entity word that is not handled, or an unknown action, is dropped (with
  a warning in the log, which is not modelled).
\<close>

definition normalize_event ::
  "(rat \<Rightarrow> string) \<Rightarrow> timestamp \<Rightarrow> edlink_event \<Rightarrow> lea_id \<Rightarrow> exn + normalized_event option" where
  "normalize_event ft now evt l =
     (let (entity_word, _, action_word) = str_partition (CHR ''.'') (xe_type evt);
          envelope = (\<lambda>t op x. \<lparr>ev_id = xe_id evt, ev_lea_id = l, ev_entity_type = t,
            ev_operation = op, ev_entity = x, ev_source_connector = ''edlink'',
            ev_source_event_id = xe_id evt, ev_occurred_at = xe_date evt, ev_received_at = now\<rparr>)
      in
      if entity_word \<notin> set HANDLED_ENTITIES \<and> entity_word \<notin> set KNOWN_UNMAPPED_ENTITIES then Inr None
      else case operation_by_action action_word of
        None \<Rightarrow> Inr None
      | Some op \<Rightarrow>
          if entity_word = ''person'' then
            res_bind (person_to_student ft (xe_data evt) l) (\<lambda>so.
              Inr (map_option (\<lambda>s. envelope STUDENT op (EStudent s)) so))
          else if entity_word = ''enrollment'' then
            res_bind (enrollment_to_canonical ft (xe_data evt) l) (\<lambda>e.
              Inr (Some (envelope ENROLLMENT op (EEnrollment e))))
          else Inr None)"

definition DEFAULT_PAGE_SIZE :: nat where
  "DEFAULT_PAGE_SIZE = 500"

definition fetch_changes ::
  "(rat \<Rightarrow> string) \<Rightarrow> (string \<Rightarrow> exn + timestamp) \<Rightarrow> file_system \<Rightarrow> nat \<Rightarrow> timestamp \<Rightarrow> lea_id \<Rightarrow>
   cursor \<Rightarrow> exn + event_page" where
  "fetch_changes ft parse_ts files page_size now l since =
     res_bind (get_events ft parse_ts files l
       (if cur_value since = [] then None else Some (cur_value since)) page_size) (\<lambda>r.
     res_bind (map_res (\<lambda>evt. normalize_event ft now evt l) (xr_events r)) (\<lambda>normalized.
       Inr \<lparr>pg_events = List.map_filter id normalized,
         pg_next_cursor =
           \<lparr>cur_value = opt_or (xr_next_token r) (cur_value since),
            cur_observed_at = (if xr_events r = [] then cur_observed_at since
                               else Some (xe_date (last (xr_events r))))\<rparr>,
         pg_has_more = xr_has_more r, pg_retrieved_at = now, pg_layer_1 = xr_layer_1 r\<rparr>))"

definition get_latest_cursor ::
  "(rat \<Rightarrow> string) \<Rightarrow> (string \<Rightarrow> exn + timestamp) \<Rightarrow> file_system \<Rightarrow> timestamp \<Rightarrow> lea_id \<Rightarrow> exn + cursor" where
  "get_latest_cursor ft parse_ts files now l =
     res_bind (get_latest_event ft parse_ts files l) (\<lambda>latest.
       Inr (case latest of
              None \<Rightarrow> \<lparr>cur_value = [], cur_observed_at = Some now\<rparr>
            | Some evt \<Rightarrow> \<lparr>cur_value = xe_id evt, cur_observed_at = Some (xe_date evt)\<rparr>))"

text \<open>The operator's cursor reset; a conflict keeps the poll time and the cold-start flag.\<close>

definition set_cursor :: "lea_id \<Rightarrow> cursor \<Rightarrow> timestamp \<Rightarrow> db \<Rightarrow> db" where
  "set_cursor l c now =
     write_cursor (\<lambda>old new. old\<lparr>cs_last_event_id := cs_last_event_id new,
         cs_last_event_at := cs_last_event_at new, cs_updated_at := cs_updated_at new\<rparr>)
       \<lparr>cs_lea_id = l, cs_partner = ''edlink'', cs_last_event_id = Some (cur_value c),
        cs_last_event_at = Some (case cur_observed_at c of None \<Rightarrow> now | Some t \<Rightarrow> t),
        cs_last_poll_at = None, cs_cold_start_required = False, cs_updated_at = now\<rparr>"

section \<open>Authorization\<close>

record auth_result =
  ar_success :: bool
  ar_lea_id :: lea_id
  ar_scopes :: "string list"
  ar_expires_at :: timestamp
  ar_error :: "string option"

text \<open>The set of authorized LEAs is the state; only \<open>SecretNotFound\<close> is caught.\<close>

definition authorize_lea ::
  "(string \<Rightarrow> exn + string) \<Rightarrow> timestamp \<Rightarrow> lea_id \<Rightarrow> lea_id set \<Rightarrow> exn + (auth_result \<times> lea_id set)" where
  "authorize_lea get_secret now l authorized =
     (case get_secret (''edlink-token-'' @ l) of
        Inl SecretNotFound \<Rightarrow>
          Inr (\<lparr>ar_success = False, ar_lea_id = l, ar_scopes = [], ar_expires_at = now,
                ar_error = Some (''No EdLink bearer token staged for '' @ l @ ''.'')\<rparr>, authorized)
      | Inl e \<Rightarrow> Inl e
      | Inr _ \<Rightarrow>
          Inr (\<lparr>ar_success = True, ar_lea_id = l, ar_scopes = [''read_roster''],
                ar_expires_at = now + 365 * 24 * 60 * 60 * 1000000, ar_error = None\<rparr>,
               insert l authorized))"

definition revoke_lea :: "lea_id \<Rightarrow> lea_id set \<Rightarrow> lea_id set" where
  "revoke_lea l authorized = authorized - {l}"

section \<open>Resources\<close>

definition project_student :: "(rat \<Rightarrow> string) \<Rightarrow> dict \<Rightarrow> exn + dict option" where
  "project_student ft person =
     res_bind (has_student_role person) (\<lambda>is_student.
     if \<not> is_student then Inr None
     else
       let grades = json_or (dict_get person ''grades'') (JArr []) in
       res_bind (if truthy grades then res_bind (json_head grades) (\<lambda>g. Inr (JStr (py_str ft g)))
                 else Inr JNull) (\<lambda>grade.
       res_bind (extract_primary_org_id ft (dict_get person ''primaryOrg'')) (\<lambda>school.
       res_bind (dict_item person ''sourcedId'') (\<lambda>i.
         Inr (Some [(''id'', JStr (py_str ft i)),
           (''given_name'', JStr (py_str ft (dict_get_default person ''givenName'' (JStr [])))),
           (''family_name'', JStr (py_str ft (dict_get_default person ''familyName'' (JStr [])))),
           (''grade'', grade),
           (''preferred_first_name'', json_of_opt (optional_str ft (dict_get person ''preferredFirstName''))),
           (''primary_school_id'', json_of_opt school)])))))"

definition project_enrollment :: "(rat \<Rightarrow> string) \<Rightarrow> dict \<Rightarrow> exn + dict" where
  "project_enrollment ft raw =
     res_bind (dict_item raw ''sourcedId'') (\<lambda>i.
     res_bind (res_bind (dict_item raw ''user'') (extract_ref_id ft)) (\<lambda>stu.
     res_bind (res_bind (dict_item raw ''class'') (extract_ref_id ft)) (\<lambda>cls.
       Inr [(''id'', JStr (py_str ft i)), (''student_id'', JStr stu), (''class_id'', JStr cls),
         (''begin_date'', json_of_opt (optional_str ft (dict_get raw ''beginDate''))),
         (''end_date'', json_of_opt (optional_str ft (dict_get raw ''endDate'')))])))"

definition project_class :: "(rat \<Rightarrow> string) \<Rightarrow> dict \<Rightarrow> exn + dict" where
  "project_class ft raw =
     res_bind (dict_item raw ''sourcedId'') (\<lambda>i.
     res_bind (extract_primary_org_id ft (dict_get raw ''school'')) (\<lambda>school.
     res_bind (extract_primary_org_id ft (dict_get raw ''term'')) (\<lambda>trm.
       Inr [(''id'', JStr (py_str ft i)),
         (''title'', JStr (py_str ft (dict_get_default raw ''title'' (JStr [])))),
         (''course_code'', json_of_opt (optional_str ft (dict_get raw ''classCode''))),
         (''school_id'', json_of_opt school), (''term_id'', json_of_opt trm)])))"

definition project_academic_session :: "(rat \<Rightarrow> string) \<Rightarrow> dict \<Rightarrow> exn + dict" where
  "project_academic_session ft raw =
     res_bind (dict_item raw ''sourcedId'') (\<lambda>i.
       Inr [(''id'', JStr (py_str ft i)),
         (''title'', JStr (py_str ft (dict_get_default raw ''title'' (JStr [])))),
         (''session_type'', json_of_opt (optional_str ft (dict_get raw ''type''))),
         (''school_year'', json_of_opt (optional_str ft (dict_get raw ''schoolYear''))),
         (''start_date'', json_of_opt (optional_str ft (dict_get raw ''startDate''))),
         (''end_date'', json_of_opt (optional_str ft (dict_get raw ''endDate'')))])"

definition project_school :: "(rat \<Rightarrow> string) \<Rightarrow> dict \<Rightarrow> exn + dict option" where
  "project_school ft raw =
     (let t = dict_get raw ''type'' in
      if t \<noteq> JNull \<and> py_str ft t \<noteq> ''school'' then Inr None
      else
        res_bind (dict_item raw ''sourcedId'') (\<lambda>i.
        res_bind (extract_primary_org_id ft (dict_get raw ''parent'')) (\<lambda>parent.
          Inr (Some [(''id'', JStr (py_str ft i)),
            (''name'', JStr (py_str ft (dict_get_default raw ''name'' (JStr [])))),
            (''school_code'', json_of_opt (optional_str ft (dict_get raw ''identifier''))),
            (''parent_org_id'', json_of_opt parent)]))))"

definition project_resource ::
  "(rat \<Rightarrow> string) \<Rightarrow> string \<Rightarrow> dict \<Rightarrow> exn + dict option" where
  "project_resource ft canonical_name raw =
     (if canonical_name = ''students'' then project_student ft raw
      else if canonical_name = ''enrollments'' then res_bind (project_enrollment ft raw) (Inr \<circ> Some)
      else if canonical_name = ''classes'' then res_bind (project_class ft raw) (Inr \<circ> Some)
      else if canonical_name = ''academic_sessions'' then
        res_bind (project_academic_session ft raw) (Inr \<circ> Some)
      else if canonical_name = ''schools'' then project_school ft raw
      else Inr None)"

definition RESOURCE_WALK :: "(string \<times> string) list" where
  "RESOURCE_WALK =
     [(''people'', ''students''), (''enrollments'', ''enrollments''), (''classes'', ''classes''),
      (''academic_sessions'', ''academic_sessions''), (''orgs'', ''schools'')]"

definition RESOURCE_PAGE_SIZE :: nat where
  "RESOURCE_PAGE_SIZE = 100"

definition project_page :: "(rat \<Rightarrow> string) \<Rightarrow> string \<Rightarrow> json list \<Rightarrow> exn + dict list" where
  "project_page ft canonical_name raws =
     res_bind (map_res (\<lambda>v. res_bind (as_dict v) (project_resource ft canonical_name)) raws)
       (\<lambda>rows. Inr (List.map_filter id rows))"

text \<open>The \<open>while True\<close> loop of one resource; \<open>None\<close> when it does not end.\<close>

definition project_response ::
  "(rat \<Rightarrow> string) \<Rightarrow> string \<Rightarrow> (string option \<Rightarrow> exn + (json list \<times> bool \<times> string option)) \<Rightarrow>
   string option \<Rightarrow> exn + (dict list \<times> bool \<times> string option)" where
  "project_response ft canonical_name get tok =
     res_bind (get tok) (\<lambda>(page, has_more, next_tok).
     res_bind (project_page ft canonical_name page) (\<lambda>rows. Inr (rows, has_more, next_tok)))"

definition walk_resource ::
  "(rat \<Rightarrow> string) \<Rightarrow> (string option \<Rightarrow> exn + (json list \<times> bool \<times> string option)) \<Rightarrow> string \<Rightarrow>
   (exn + dict list) option" where
  "walk_resource ft get canonical_name = follow (project_response ft canonical_name get) None []"

fun walk_all ::
  "(rat \<Rightarrow> string) \<Rightarrow> (string \<Rightarrow> string option \<Rightarrow> exn + (json list \<times> bool \<times> string option)) \<Rightarrow>
   (string \<times> string) list \<Rightarrow> (exn + (string \<times> dict list) list) option" where
  "walk_all ft get [] = Some (Inr [])"
| "walk_all ft get ((resource, name) # rest) =
     (case walk_resource ft (get resource) name of
        None \<Rightarrow> None
      | Some (Inl e) \<Rightarrow> Some (Inl e)
      | Some (Inr rows) \<Rightarrow>
          (case walk_all ft get rest of
             Some (Inr snap) \<Rightarrow> Some (Inr ((name, rows) # snap))
           | r \<Rightarrow> r))"

definition walk_resources ::
  "(rat \<Rightarrow> string) \<Rightarrow> file_system \<Rightarrow> lea_id \<Rightarrow> (exn + (string \<times> dict list) list) option" where
  "walk_resources ft files l =
     walk_all ft (\<lambda>resource. get_resources files l resource RESOURCE_PAGE_SIZE) RESOURCE_WALK"

section \<open>Integration status\<close>

definition get_integration_status ::
  "(rat \<Rightarrow> string) \<Rightarrow> file_system \<Rightarrow> timestamp \<Rightarrow> lea_id \<Rightarrow> exn + status_snapshot" where
  "get_integration_status ft files now l =
     (case files (l @ ''.integration.json'') of
        None \<Rightarrow> Inr \<lparr>ss_status = ''active'', ss_sharing_scope = ''full'', ss_observed_at = now\<rparr>
      | Some raw \<Rightarrow>
          res_bind (as_dict raw) (\<lambda>d.
            Inr \<lparr>ss_status = py_str ft (dict_get_default d ''status'' (JStr ''active'')),
                 ss_sharing_scope = opt_or (optional_str ft (dict_get d ''sharing_scope'')) ''full'',
                 ss_observed_at = now\<rparr>))"

end
