(* ===== verification/KeyVault.thy ===== *)
theory KeyVault
  imports ServiceBus EdlinkConnector
begin

text \<open>
  The secret store of the connectors (\<open>infrastructure/azure_mocks/key_vault.py\<close>, with the types of
  \<open>infrastructure/ports.py\<close>): the staged secrets, the 60-second read cache before them and the
  failures injected into the reads with retry. The monotonic clock reads seconds, as rationals;
  the environment is an argument. Names and values are strings of code points below 256.
\<close>

section \<open>The store and its cache\<close>

record secret_value =
  sv_name :: string
  sv_value :: string

record key_vault =
  kv_store :: "string \<Rightarrow> string option"
  kv_cache :: "string \<Rightarrow> (secret_value \<times> rat) option"
  kv_failures :: int

definition ENV_PREFIX :: string where "ENV_PREFIX = ''KEYVAULT__''"
definition CACHE_TTL_SECONDS :: rat where "CACHE_TTL_SECONDS = 60"

text \<open>\<open>str.lower\<close>, and the replacement of underscores.\<close>

definition env_name :: "string \<Rightarrow> string" where
  "env_name rest = map (\<lambda>c. if c = CHR ''_'' then CHR ''-'' else c) (map py_lower_char rest)"

definition load_entry :: "string \<times> string \<Rightarrow> key_vault \<Rightarrow> key_vault" where
  "load_entry kv v =
     (if take (length ENV_PREFIX) (fst kv) = ENV_PREFIX
      then v\<lparr>kv_store := (kv_store v)(env_name (drop (length ENV_PREFIX) (fst kv)) \<mapsto> snd kv)\<rparr>
      else v)"

definition load_from_env :: "(string \<times> string) list \<Rightarrow> key_vault \<Rightarrow> key_vault" where
  "load_from_env environ = fold load_entry environ"

definition new_vault :: "(string \<times> string) list \<Rightarrow> key_vault" where
  "new_vault environ = load_from_env environ \<lparr>kv_store = Map.empty, kv_cache = Map.empty, kv_failures = 0\<rparr>"

definition inject_vault_failures :: "int \<Rightarrow> key_vault \<Rightarrow> key_vault" where
  "inject_vault_failures n v = v\<lparr>kv_failures := max 0 n\<rparr>"

definition put_secret :: "string \<Rightarrow> string \<Rightarrow> key_vault \<Rightarrow> key_vault" where
  "put_secret name val v =
     v\<lparr>kv_store := (kv_store v)(name \<mapsto> val), kv_cache := (kv_cache v)(name := None)\<rparr>"

definition read_store :: "string \<Rightarrow> rat \<Rightarrow> key_vault \<Rightarrow> key_vault \<times> (exn + secret_value)" where
  "read_store name now v =
     (case kv_store v name of
        None \<Rightarrow> (v, Inl SecretNotFound)
      | Some val \<Rightarrow>
          (let secret = \<lparr>sv_name = name, sv_value = val\<rparr> in
           (v\<lparr>kv_cache := (kv_cache v)(name \<mapsto> (secret, now + CACHE_TTL_SECONDS))\<rparr>, Inr secret)))"

definition get_secret :: "string \<Rightarrow> rat \<Rightarrow> key_vault \<Rightarrow> key_vault \<times> (exn + secret_value)" where
  "get_secret name now v =
     (case kv_cache v name of
        Some (secret, expires_at) \<Rightarrow> if now < expires_at then (v, Inr secret) else read_store name now v
      | None \<Rightarrow> read_store name now v)"

section \<open>Reads with retry\<close>

datatype vault_error = VaultConnectError | VaultError exn

text \<open>One attempt; the state counts the attempts, each of which reads the clock anew.\<close>

definition attempt_get ::
  "string \<Rightarrow> (nat \<Rightarrow> rat) \<Rightarrow> key_vault \<times> nat \<Rightarrow> (key_vault \<times> nat) \<times> (vault_error + secret_value)" where
  "attempt_get name clock s =
     (let (v, i) = s in
      if 0 < kv_failures v then ((v\<lparr>kv_failures := kv_failures v - 1\<rparr>, Suc i), Inl VaultConnectError)
      else let (v', r) = get_secret name (clock i) v
           in ((v', Suc i), case r of Inl e \<Rightarrow> Inl (VaultError e) | Inr secret \<Rightarrow> Inr secret))"

definition get_secret_with_retry ::
  "string \<Rightarrow> (nat \<Rightarrow> rat) \<Rightarrow> key_vault \<Rightarrow> ((key_vault \<times> nat) \<times> (vault_error + secret_value)) option" where
  "get_secret_with_retry name clock v =
     with_retry (default_policy (\<lambda>e. e = VaultConnectError)) (attempt_get name clock) (v, 0)"

section \<open>The plain store\<close>

text \<open>
  The specification: a map, and the count of injected failures. A client's calls, each with the
  clock it sees; only the reads have a result.
\<close>

datatype vault_call =
    Put string string
  | Get string rat
  | Inject int
  | GetRetry string "nat \<Rightarrow> rat"

definition plain_read :: "(string \<Rightarrow> string option) \<Rightarrow> string \<Rightarrow> vault_error + secret_value" where
  "plain_read m n =
     (case m n of None \<Rightarrow> Inl (VaultError SecretNotFound) | Some val \<Rightarrow> Inr \<lparr>sv_name = n, sv_value = val\<rparr>)"

fun run_plain :: "vault_call list \<Rightarrow> (string \<Rightarrow> string option) \<times> int \<Rightarrow> (vault_error + secret_value) list" where
  "run_plain [] (m, k) = []"
| "run_plain (Put n val # calls) (m, k) = run_plain calls (m(n \<mapsto> val), k)"
| "run_plain (Get n t # calls) (m, k) = plain_read m n # run_plain calls (m, k)"
| "run_plain (Inject i # calls) (m, k) = run_plain calls (m, max 0 i)"
| "run_plain (GetRetry n clock # calls) (m, k) =
     (if k < 5 then plain_read m n # run_plain calls (m, min 0 k)
      else Inl VaultConnectError # run_plain calls (m, k - 5))"

fun run_vault :: "vault_call list \<Rightarrow> key_vault \<Rightarrow> (vault_error + secret_value) list option" where
  "run_vault [] v = Some []"
| "run_vault (Put n val # calls) v = run_vault calls (put_secret n val v)"
| "run_vault (Get n t # calls) v =
     (let (v', r) = get_secret n t v in
      map_option ((#) (case r of Inl e \<Rightarrow> Inl (VaultError e) | Inr s \<Rightarrow> Inr s)) (run_vault calls v'))"
| "run_vault (Inject i # calls) v = run_vault calls (inject_vault_failures i v)"
| "run_vault (GetRetry n clock # calls) v =
     (case get_secret_with_retry n clock v of
        None \<Rightarrow> None
      | Some ((v', i), r) \<Rightarrow> map_option ((#) r) (run_vault calls v'))"

definition cache_coherent :: "key_vault \<Rightarrow> bool" where
  "cache_coherent v \<longleftrightarrow>
     (\<forall>n s e. kv_cache v n = Some (s, e) \<longrightarrow> kv_store v n = Some (sv_value s) \<and> sv_name s = n)"

lemma get_secret_plain:
  assumes "cache_coherent v" and "get_secret n t v = (v', r)"
  shows "cache_coherent v' \<and> kv_store v' = kv_store v \<and> kv_failures v' = kv_failures v \<and>
    (case r of Inl e \<Rightarrow> Inl (VaultError e) | Inr s \<Rightarrow> Inr s) = plain_read (kv_store v) n"
proof -
  have store: "cache_coherent v1 \<and> kv_store v1 = kv_store v \<and> kv_failures v1 = kv_failures v \<and>
      (case q of Inl e \<Rightarrow> Inl (VaultError e) | Inr s \<Rightarrow> Inr s) = plain_read (kv_store v) n"
    if "read_store n t v = (v1, q)" for v1 q
    using that assms(1)
    by (auto simp: read_store_def Let_def plain_read_def cache_coherent_def split: option.splits if_splits)
  show ?thesis
  proof (cases "kv_cache v n")
    case (Some c)
    then obtain s e where c: "kv_cache v n = Some (s, e)" by (cases c) auto
    then have held: "kv_store v n = Some (sv_value s)" "sv_name s = n"
      using assms(1) unfolding cache_coherent_def by blast+
    then have "s = \<lparr>sv_name = n, sv_value = sv_value s\<rparr>" by (cases s) simp
    with held have "plain_read (kv_store v) n = Inr s" by (simp add: plain_read_def)
    with c assms store show ?thesis by (auto simp: get_secret_def split: if_splits)
  qed (use assms store in \<open>auto simp: get_secret_def\<close>)
qed

abbreviation connect_policy :: "vault_error \<Rightarrow> nat \<Rightarrow> bool" where
  "connect_policy \<equiv> default_policy (\<lambda>e. e = VaultConnectError)"

lemma attempts_plain:
  assumes "cache_coherent w" and "j + d = RETRY_STOP"
  shows "\<exists>v' i'. with_retry_from connect_policy (attempt_get n clock) j (w, i) =
        Some ((v', i'), if kv_failures w \<le> int d then plain_read (kv_store w) n else Inl VaultConnectError) \<and>
      cache_coherent v' \<and> kv_store v' = kv_store w \<and>
      kv_failures v' = (if kv_failures w \<le> int d then min 0 (kv_failures w) else kv_failures w - int d - 1)"
  using assms
proof (induction d arbitrary: j i w)
  case base: 0
  show ?case
  proof (cases "0 < kv_failures w")
    case True
    with base show ?thesis
      by (subst with_retry_from.simps) (simp add: attempt_get_def default_policy_def cache_coherent_def)
  next
    case False
    obtain w' r where g: "get_secret n (clock i) w = (w', r)" by fastforce
    note p = get_secret_plain [OF base(1) g]
    then have "plain_read (kv_store w) n = (case r of Inl e \<Rightarrow> Inl (VaultError e) | Inr s \<Rightarrow> Inr s)" by simp
    with p False show ?thesis
      by (subst with_retry_from.simps) (cases r; simp add: attempt_get_def g default_policy_def)
  qed
next
  case (Suc d)
  show ?case
  proof (cases "0 < kv_failures w")
    case True
    let ?u = "w\<lparr>kv_failures := kv_failures w - 1\<rparr>"
    have "with_retry_from connect_policy (attempt_get n clock) j (w, i) =
        with_retry_from connect_policy (attempt_get n clock) (Suc j) (?u, Suc i)"
      using True Suc.prems by (subst with_retry_from.simps) (simp add: attempt_get_def default_policy_def)
    moreover have "cache_coherent ?u" using Suc.prems by (simp add: cache_coherent_def)
    from Suc.IH [OF this, of "Suc j" "Suc i"] Suc.prems True
    have "\<exists>v' i'. with_retry_from connect_policy (attempt_get n clock) (Suc j) (?u, Suc i) =
        Some ((v', i'), if kv_failures w \<le> int (Suc d) then plain_read (kv_store w) n else Inl VaultConnectError) \<and>
      cache_coherent v' \<and> kv_store v' = kv_store w \<and>
      kv_failures v' = (if kv_failures w \<le> int (Suc d) then 0 else kv_failures w - int (Suc d) - 1)"
      by (cases "kv_failures w \<le> int (Suc d)") auto
    ultimately show ?thesis using True by auto
  next
    case False
    obtain w' r where g: "get_secret n (clock i) w = (w', r)" by fastforce
    note p = get_secret_plain [OF Suc.prems(1) g]
    then have "plain_read (kv_store w) n = (case r of Inl e \<Rightarrow> Inl (VaultError e) | Inr s \<Rightarrow> Inr s)" by simp
    with p False show ?thesis
      by (subst with_retry_from.simps) (cases r; simp add: attempt_get_def g default_policy_def)
  qed
qed

lemma get_secret_with_retry_plain:
  assumes "cache_coherent v"
  shows "\<exists>v' i. get_secret_with_retry n clock v =
      Some ((v', i), if kv_failures v < 5 then plain_read (kv_store v) n else Inl VaultConnectError) \<and>
    cache_coherent v' \<and> kv_store v' = kv_store v \<and>
    kv_failures v' = (if kv_failures v < 5 then min 0 (kv_failures v) else kv_failures v - 5)"
  using attempts_plain [OF assms, of 1 4 n clock 0]
  unfolding get_secret_with_retry_def with_retry_def
  by (cases "kv_failures v < 5") (simp_all add: RETRY_STOP_def)

lemma run_vault_plain:
  "cache_coherent v \<Longrightarrow> run_vault calls v = Some (run_plain calls (kv_store v, kv_failures v))"
proof (induction calls arbitrary: v)
  case (Cons call calls)
  show ?case
  proof (cases call)
    case (Put n val)
    have "cache_coherent (put_secret n val v)" using Cons.prems by (simp add: cache_coherent_def put_secret_def)
    from Cons.IH [OF this] show ?thesis by (simp add: Put) (simp add: put_secret_def)
  next
    case (Get n t)
    obtain v' r where g: "get_secret n t v = (v', r)" by fastforce
    from get_secret_plain [OF Cons.prems g] Cons.IH [of v'] show ?thesis by (simp add: Get g)
  next
    case (Inject i)
    have "cache_coherent (inject_vault_failures i v)"
      using Cons.prems by (simp add: cache_coherent_def inject_vault_failures_def)
    from Cons.IH [OF this] show ?thesis by (simp add: Inject) (simp add: inject_vault_failures_def)
  next
    case (GetRetry n clock)
    obtain v' i where g: "get_secret_with_retry n clock v =
        Some ((v', i), if kv_failures v < 5 then plain_read (kv_store v) n else Inl VaultConnectError)"
      and v': "cache_coherent v'" "kv_store v' = kv_store v"
        "kv_failures v' = (if kv_failures v < 5 then min 0 (kv_failures v) else kv_failures v - 5)"
      using get_secret_with_retry_plain [OF Cons.prems] by blast
    from Cons.IH [OF v'(1)] v' show ?thesis by (simp add: GetRetry g)
  qed
qed simp

lemma load_from_env_keeps:
  "kv_cache (load_from_env env v) = kv_cache v \<and> kv_failures (load_from_env env v) = kv_failures v"
  unfolding load_from_env_def by (induction env arbitrary: v) (simp_all add: load_entry_def)

text \<open>
  C23. The cache is transparent: whatever the client stages, reads, reads with retry and injects, in
  any order and at any readings of the clock, every read gives what a plain map of the secrets
  would give: the last value staged or loaded, or \<open>SecretNotFound\<close>, and a read with retry fails only
  after five injected failures.
\<close>
theorem vault_refines_store:
  "run_vault calls (new_vault environ) = Some (run_plain calls (kv_store (new_vault environ), 0))"
  using run_vault_plain [of "new_vault environ" calls]
  by (simp add: new_vault_def cache_coherent_def load_from_env_keeps)

section \<open>Tokens from the environment\<close>

lemma env_name_fixed: "env_name (env_name s) = env_name s"
proof -
  have "py_lower_char (CHR ''-'') = CHR ''-''" by code_simp
  then show ?thesis by (simp add: env_name_def py_lower_char_idem)
qed

lemma load_from_env_names:
  "kv_store (load_from_env env v) n = Some val \<Longrightarrow> kv_store v n = Some val \<or> env_name n = n"
  unfolding load_from_env_def
proof (induction env arbitrary: v)
  case (Cons kv env)
  then have "kv_store (fold load_entry env (load_entry kv v)) n = Some val" by simp
  with Cons.IH have "kv_store (load_entry kv v) n = Some val \<or> env_name n = n" by blast
  then show ?case by (auto simp: load_entry_def env_name_fixed split: if_splits)
qed simp

text \<open>The connector's view of the store: the value of a secret, or the exception.\<close>

definition vault_token :: "key_vault \<Rightarrow> rat \<Rightarrow> string \<Rightarrow> exn + string" where
  "vault_token v t name = (case snd (get_secret name t v) of Inl e \<Rightarrow> Inl e | Inr s \<Rightarrow> Inr (sv_value s))"

lemma vault_token_uncached:
  "kv_cache v = Map.empty \<Longrightarrow>
   vault_token v t n = (case kv_store v n of None \<Rightarrow> Inl SecretNotFound | Some val \<Rightarrow> Inr val)"
  by (simp add: vault_token_def get_secret_def read_store_def Let_def split: option.split)

lemma authorize_lea_uncached:
  assumes "kv_cache v = Map.empty"
  shows "\<exists>out leas'. authorize_lea (vault_token v t) now l leas = Inr (out, leas') \<and>
    (ar_success out \<longleftrightarrow> kv_store v (''edlink-token-'' @ l) \<noteq> None)"
  by (cases "kv_store v (''edlink-token-'' @ l)") (simp_all add: authorize_lea_def vault_token_uncached [OF assms])

lemma new_vault_cache: "kv_cache (new_vault environ) = Map.empty"
  by (simp add: new_vault_def load_from_env_keeps)

text \<open>
  Without a staged token, some environment authorizes a LEA exactly when its id is in lower
  case and has no underscore: the names loaded from the environment are lowered and hyphenated,
  the name looked up is not.
\<close>
theorem env_token_exact:
  "(\<exists>environ out leas'. authorize_lea (vault_token (new_vault environ) t) now l leas = Inr (out, leas') \<and>
      ar_success out) \<longleftrightarrow> env_name l = l"
proof -
  have token: "env_name (''edlink-token-'' @ l) = ''edlink-token-'' @ env_name l"
  proof -
    have "env_name ''edlink-token-'' = ''edlink-token-''" by code_simp
    then show ?thesis by (simp add: env_name_def)
  qed
  have "(\<exists>out leas'. authorize_lea (vault_token (new_vault environ) t) now l leas = Inr (out, leas') \<and> ar_success out) \<longleftrightarrow>
      kv_store (new_vault environ) (''edlink-token-'' @ l) \<noteq> None" for environ
    using authorize_lea_uncached [OF new_vault_cache, of environ t now l leas] by auto
  moreover have "env_name l = l" if "kv_store (new_vault environ) (''edlink-token-'' @ l) = Some val" for environ val
    using load_from_env_names [OF that [unfolded new_vault_def]] token by simp
  moreover have "kv_store (new_vault [(''KEYVAULT__edlink-token-'' @ l, ''t'')]) (''edlink-token-'' @ l) = Some ''t''"
    if "env_name l = l"
    using that token by (simp add: new_vault_def load_from_env_def load_entry_def ENV_PREFIX_def)
  ultimately show ?thesis by (metis not_Some_eq)
qed

end
