(* ===== verification/Reconciliation.thy ===== *)
theory Reconciliation
  imports Database PyJson
begin

text \<open>
  Reconciliation (\<open>services/reconciliation.py\<close>): the live canonical rows of a LEA and the
  partner's projection of the same entities are hashed into a Merkle root each; when a hash of an
  entity type differs, the run records the ids that only one side has. The parameters are
  \<open>sha\<close>, the hexadecimal SHA-256 of the UTF-8 encoding of a text, \<open>ft\<close>, the decimal
  text of a float, \<open>snapshot\<close>, the walk over the partner's resources, and \<open>clock\<close>,
  the readings of \<open>datetime.now\<close> in the order the code takes them. Elapsed minutes are
  exact here, where the code divides floats.
\<close>

section \<open>The columns that are compared\<close>

definition ENTITY_TABLES :: "(string \<times> string list) list" where
  "ENTITY_TABLES =
     [(''students'', [''id'', ''lea_id'', ''given_name'', ''family_name'', ''grade'',
         ''preferred_first_name'', ''primary_school_id'']),
      (''enrollments'', [''id'', ''lea_id'', ''student_id'', ''class_id'', ''begin_date'', ''end_date'']),
      (''classes'', [''id'', ''lea_id'', ''title'', ''course_code'', ''school_id'', ''term_id'']),
      (''academic_sessions'', [''id'', ''lea_id'', ''title'', ''session_type'', ''school_year'',
         ''start_date'', ''end_date'']),
      (''schools'', [''id'', ''lea_id'', ''name'', ''school_code'', ''parent_org_id''])]"

text \<open>
  The cells of a canonical row as \<open>json.dumps\<close> prints them: \<open>_json_default\<close> turns a
  date into its ISO text.
\<close>

definition date_cell :: "date option \<Rightarrow> json" where
  "date_cell d = json_of_opt (map_option isoformat d)"

definition student_cells :: "student_row \<Rightarrow> dict" where
  "student_cells r =
     [(''id'', JStr (sr_id r)), (''lea_id'', JStr (sr_lea_id r)),
      (''given_name'', JStr (sr_given_name r)), (''family_name'', JStr (sr_family_name r)),
      (''grade'', json_of_opt (sr_grade r)),
      (''preferred_first_name'', json_of_opt (sr_preferred r)),
      (''primary_school_id'', json_of_opt (sr_school r))]"

definition enrollment_cells :: "enrollment_row \<Rightarrow> dict" where
  "enrollment_cells r =
     [(''id'', JStr (er_id r)), (''lea_id'', JStr (er_lea_id r)),
      (''student_id'', JStr (er_student_id r)), (''class_id'', JStr (er_class_id r)),
      (''begin_date'', date_cell (Some (er_begin r))), (''end_date'', date_cell (er_end r))]"

definition class_cells :: "class_row \<Rightarrow> dict" where
  "class_cells r =
     [(''id'', JStr (cl_id r)), (''lea_id'', JStr (cl_lea_id r)), (''title'', JStr (cl_title r)),
      (''course_code'', json_of_opt (cl_course_code r)), (''school_id'', json_of_opt (cl_school r)),
      (''term_id'', json_of_opt (cl_term r))]"

definition session_cells :: "session_row \<Rightarrow> dict" where
  "session_cells r =
     [(''id'', JStr (ac_id r)), (''lea_id'', JStr (ac_lea_id r)), (''title'', JStr (ac_title r)),
      (''session_type'', json_of_opt (ac_type r)), (''school_year'', json_of_opt (ac_school_year r)),
      (''start_date'', date_cell (ac_start r)), (''end_date'', date_cell (ac_end r))]"

definition school_cells :: "school_row \<Rightarrow> dict" where
  "school_cells r =
     [(''id'', JStr (so_id r)), (''lea_id'', JStr (so_lea_id r)), (''name'', JStr (so_name r)),
      (''school_code'', json_of_opt (so_code r)), (''parent_org_id'', json_of_opt (so_parent r))]"

text \<open>\<open>SELECT ... WHERE lea_id = :lea_id AND deleted_at IS NULL\<close> on the table of a type.\<close>

definition canonical_rows :: "db \<Rightarrow> lea_id \<Rightarrow> string \<Rightarrow> dict list" where
  "canonical_rows db l name =
     (if name = ''students'' then
        map student_cells (filter (\<lambda>r. sr_lea_id r = l \<and> sr_deleted_at r = None) (db_students db))
      else if name = ''enrollments'' then
        map enrollment_cells (filter (\<lambda>r. er_lea_id r = l \<and> er_deleted_at r = None) (db_enrollments db))
      else if name = ''classes'' then
        map class_cells (filter (\<lambda>r. cl_lea_id r = l \<and> cl_deleted_at r = None) (db_classes db))
      else if name = ''academic_sessions'' then
        map session_cells (filter (\<lambda>r. ac_lea_id r = l \<and> ac_deleted_at r = None) (db_sessions db))
      else map school_cells (filter (\<lambda>r. so_lea_id r = l \<and> so_deleted_at r = None) (db_schools db)))"

text \<open>
  The row dictionary of each side: the columns of the type, in order. The partner's entry may
  miss a column (null) and its LEA is overwritten.
\<close>

definition canonical_row_dict :: "string list \<Rightarrow> dict \<Rightarrow> dict" where
  "canonical_row_dict columns row = map (\<lambda>c. (c, dict_get row c)) columns"

definition partner_row_dict :: "lea_id \<Rightarrow> string list \<Rightarrow> dict \<Rightarrow> dict" where
  "partner_row_dict l columns entry =
     dict_set (map (\<lambda>c. (c, dict_get entry c)) columns) ''lea_id'' (JStr l)"

type_synonym partner_payload_rows = "(string \<times> dict list) list"

definition payload_rows :: "partner_payload_rows \<Rightarrow> string \<Rightarrow> dict list" where
  "payload_rows payload name = (case map_of payload name of None \<Rightarrow> [] | Some rows \<Rightarrow> rows)"

section \<open>Hashes\<close>

record entity_hashes =
  eh_mid_hash :: string
  eh_entity_ids :: "string list"

record side_hashes =
  sh_root_hash :: string
  sh_by_type :: "(string \<times> entity_hashes) list"

definition hash_row :: "(string \<Rightarrow> string) \<Rightarrow> (rat \<Rightarrow> string) \<Rightarrow> dict \<Rightarrow> string" where
  "hash_row sha ft values = sha (dumps_sorted ft '','' '':'' (JObj values))"

definition framed :: "string \<Rightarrow> string \<Rightarrow> string" where
  "framed name hash = name @ CHR 0x00 # hash @ [CHR 0x01]"

definition mid_text :: "(string \<times> string) list \<Rightarrow> string" where
  "mid_text leaves = concat (map (\<lambda>(i, h). framed i h) leaves)"

definition mid_hash :: "(string \<Rightarrow> string) \<Rightarrow> (string \<times> string) list \<Rightarrow> entity_hashes" where
  "mid_hash sha leaves =
     (let ls = sort_key fst leaves
      in \<lparr>eh_mid_hash = sha (mid_text ls), eh_entity_ids = map fst ls\<rparr>)"

definition root_text :: "(string \<times> entity_hashes) list \<Rightarrow> string" where
  "root_text by_type =
     concat (map (\<lambda>t. framed t (eh_mid_hash (the (map_of by_type t)))) (sort (map fst by_type)))"

definition root_hash :: "(string \<Rightarrow> string) \<Rightarrow> (string \<times> entity_hashes) list \<Rightarrow> string" where
  "root_hash sha by_type = sha (root_text by_type)"

definition leaves_of :: "(string \<Rightarrow> string) \<Rightarrow> (rat \<Rightarrow> string) \<Rightarrow> dict list \<Rightarrow> (string \<times> string) list" where
  "leaves_of sha ft rows = map (\<lambda>r. (py_str ft (dict_get r ''id''), hash_row sha ft r)) rows"

definition compute_canonical_hashes ::
  "(string \<Rightarrow> string) \<Rightarrow> (rat \<Rightarrow> string) \<Rightarrow> db \<Rightarrow> lea_id \<Rightarrow> side_hashes" where
  "compute_canonical_hashes sha ft db l =
     (let by_type = map (\<lambda>(name, columns).
        (name, mid_hash sha (leaves_of sha ft (map (canonical_row_dict columns) (canonical_rows db l name)))))
        ENTITY_TABLES
      in \<lparr>sh_root_hash = root_hash sha by_type, sh_by_type = by_type\<rparr>)"

definition compute_partner_hashes ::
  "(string \<Rightarrow> string) \<Rightarrow> (rat \<Rightarrow> string) \<Rightarrow> partner_payload_rows \<Rightarrow> lea_id \<Rightarrow> side_hashes" where
  "compute_partner_hashes sha ft payload l =
     (let by_type = map (\<lambda>(name, columns).
        (name, mid_hash sha (leaves_of sha ft (map (partner_row_dict l columns) (payload_rows payload name)))))
        ENTITY_TABLES
      in \<lparr>sh_root_hash = root_hash sha by_type, sh_by_type = by_type\<rparr>)"

section \<open>The difference of two sides\<close>

record drift_detail =
  dd_entity_type :: string
  dd_canonical_only :: "string list"
  dd_partner_only :: "string list"
  dd_canonical_mid_hash :: string
  dd_partner_mid_hash :: string

definition diff_type :: "side_hashes \<Rightarrow> side_hashes \<Rightarrow> string \<Rightarrow> drift_detail option" where
  "diff_type canonical partner t =
     (let c = the (map_of (sh_by_type canonical) t);
          p = (case map_of (sh_by_type partner) t of
                 None \<Rightarrow> \<lparr>eh_mid_hash = [], eh_entity_ids = []\<rparr> | Some h \<Rightarrow> h) in
      if eh_mid_hash c = eh_mid_hash p then None
      else Some \<lparr>dd_entity_type = t,
        dd_canonical_only =
          sorted_ids (filter (\<lambda>i. i \<notin> set (eh_entity_ids p)) (eh_entity_ids c)),
        dd_partner_only =
          sorted_ids (filter (\<lambda>i. i \<notin> set (eh_entity_ids c)) (eh_entity_ids p)),
        dd_canonical_mid_hash = eh_mid_hash c, dd_partner_mid_hash = eh_mid_hash p\<rparr>)"

definition diff_sides :: "side_hashes \<Rightarrow> side_hashes \<Rightarrow> drift_detail list" where
  "diff_sides canonical partner =
     List.map_filter (diff_type canonical partner) (sort (map fst (sh_by_type canonical)))"

text \<open>The JSON of the audit row, which the drift alert reads back.\<close>

definition drift_summary :: "drift_detail list \<Rightarrow> dict list" where
  "drift_summary drift = map (\<lambda>d.
     [(''entity_type'', JStr (dd_entity_type d)),
      (''canonical_only_ids'', JArr (map JStr (dd_canonical_only d))),
      (''partner_only_ids'', JArr (map JStr (dd_partner_only d))),
      (''canonical_mid_hash'', JStr (dd_canonical_mid_hash d)),
      (''partner_mid_hash'', JStr (dd_partner_mid_hash d))]) drift"

section \<open>One run\<close>

definition cursor_quiet_for :: "db \<Rightarrow> lea_id \<Rightarrow> string \<Rightarrow> int \<Rightarrow> timestamp \<Rightarrow> bool" where
  "cursor_quiet_for db l partner require_quiet_minutes now =
     (if require_quiet_minutes \<le> 0 then True
      else case cursor_of db l partner of
        None \<Rightarrow> True
      | Some c \<Rightarrow>
          (case cs_last_event_at c of
             None \<Rightarrow> True
           | Some t \<Rightarrow> of_int (now - t) / 60000000 \<ge> (of_int require_quiet_minutes :: rat)))"

definition insert_run :: "reconciliation_row \<Rightarrow> db \<Rightarrow> exn + db" where
  "insert_run r db =
     (if rr_id r \<in> rr_id ` set (db_reconciliation_runs db) then
        Inl (UniqueViolation ''reconciliation_runs_pkey'')
      else if \<not> lea_exists db (rr_lea_id r) then
        Inl (ForeignKeyViolation ''reconciliation_runs_lea_id_fkey'')
      else Inr (db\<lparr>db_reconciliation_runs := db_reconciliation_runs db @ [r]\<rparr>))"

record reconciliation_report =
  rp_id :: uuid
  rp_lea_id :: lea_id
  rp_partner :: string
  rp_started_at :: timestamp
  rp_completed_at :: timestamp
  rp_status :: string
  rp_canonical_root_hash :: string
  rp_partner_root_hash :: "string option"
  rp_drift :: "drift_detail list"
  rp_error_message :: "string option"

definition run_row :: "reconciliation_report \<Rightarrow> reconciliation_row" where
  "run_row r =
     \<lparr>rr_id = rp_id r, rr_lea_id = rp_lea_id r, rr_partner = rp_partner r,
      rr_started_at = rp_started_at r, rr_completed_at = Some (rp_completed_at r),
      rr_status = rp_status r, rr_canonical_root_hash = rp_canonical_root_hash r,
      rr_partner_root_hash = rp_partner_root_hash r,
      rr_drift_summary = drift_summary (rp_drift r), rr_error_message = rp_error_message r\<rparr>"

text \<open>\<open>_insert_run\<close>, the commit and the report the caller gets.\<close>

definition record_run :: "reconciliation_report \<Rightarrow> db \<Rightarrow> db \<times> (exn + reconciliation_report)" where
  "record_run r = transaction (\<lambda>db. res_bind (insert_run (run_row r) db) (\<lambda>db'. Inr (r, db')))"

definition skipped_report :: "lea_id \<Rightarrow> string \<Rightarrow> uuid \<Rightarrow> (nat \<Rightarrow> timestamp) \<Rightarrow> reconciliation_report" where
  "skipped_report l partner run_id clock =
     \<lparr>rp_id = run_id, rp_lea_id = l, rp_partner = partner, rp_started_at = clock 0,
      rp_completed_at = clock 2, rp_status = ''skipped_quiet_window'',
      rp_canonical_root_hash = ''skipped'', rp_partner_root_hash = None, rp_drift = [],
      rp_error_message = None\<rparr>"

definition compared_report ::
  "side_hashes \<Rightarrow> side_hashes \<Rightarrow> lea_id \<Rightarrow> string \<Rightarrow> uuid \<Rightarrow> (nat \<Rightarrow> timestamp) \<Rightarrow> reconciliation_report" where
  "compared_report canonical partner_hashes l partner run_id clock =
     (let drift = diff_sides canonical partner_hashes in
      \<lparr>rp_id = run_id, rp_lea_id = l, rp_partner = partner, rp_started_at = clock 0,
       rp_completed_at = clock 2, rp_status = (if drift = [] then ''matched'' else ''drift_detected''),
       rp_canonical_root_hash = sh_root_hash canonical,
       rp_partner_root_hash = Some (sh_root_hash partner_hashes), rp_drift = drift,
       rp_error_message = None\<rparr>)"

definition reconcile_lea ::
  "(string \<Rightarrow> string) \<Rightarrow> (rat \<Rightarrow> string) \<Rightarrow> (lea_id \<Rightarrow> exn + partner_payload_rows) \<Rightarrow> lea_id \<Rightarrow> string \<Rightarrow>
   int \<Rightarrow> uuid \<Rightarrow> (nat \<Rightarrow> timestamp) \<Rightarrow> db \<Rightarrow> db \<times> (exn + reconciliation_report)" where
  "reconcile_lea sha ft snapshot l partner require_quiet_minutes run_id clock db =
     (if \<not> cursor_quiet_for db l partner require_quiet_minutes (clock 1) then
        record_run (skipped_report l partner run_id clock) db
      else
        let canonical = compute_canonical_hashes sha ft db l in
        case snapshot l of
          Inl e \<Rightarrow> (db, Inl e)
        | Inr payload \<Rightarrow>
            record_run (compared_report canonical (compute_partner_hashes sha ft payload l)
              l partner run_id clock) db)"

section \<open>What a run does\<close>

lemma record_run_Inr:
  "record_run r db = (db', Inr rep) \<Longrightarrow>
     rep = r \<and> db' = db\<lparr>db_reconciliation_runs := db_reconciliation_runs db @ [run_row r]\<rparr>"
  by (auto simp: record_run_def transaction_Inr res_simps insert_run_def split: if_splits)

lemma record_run_Inl:
  "record_run r db = (db', Inl e) \<Longrightarrow>
     db' = db \<and> (rp_id r \<in> rr_id ` set (db_reconciliation_runs db) \<or> \<not> lea_exists db (rp_lea_id r))"
  by (auto simp: record_run_def transaction_Inl res_simps insert_run_def run_row_def split: if_splits)

text \<open>What a run that returned has done.\<close>

lemma reconcile_Inr:
  assumes "reconcile_lea sha ft snapshot l p quiet run_id clock db = (db', Inr rep)"
  shows "db' = db\<lparr>db_reconciliation_runs := db_reconciliation_runs db @ [run_row rep]\<rparr> \<and>
    (if \<not> cursor_quiet_for db l p quiet (clock 1) then rep = skipped_report l p run_id clock
     else \<exists>payload. snapshot l = Inr payload \<and>
       rep = compared_report (compute_canonical_hashes sha ft db l)
         (compute_partner_hashes sha ft payload l) l p run_id clock)"
  using assms by (auto simp: reconcile_lea_def Let_def dest: record_run_Inr split: if_splits sum.splits)

lemma compared_report_sel:
  "rp_status (compared_report c q l p run_id clock) =
     (if diff_sides c q = [] then ''matched'' else ''drift_detected'')"
  "rp_drift (compared_report c q l p run_id clock) = diff_sides c q"
  "rp_canonical_root_hash (compared_report c q l p run_id clock) = sh_root_hash c"
  "rp_partner_root_hash (compared_report c q l p run_id clock) = Some (sh_root_hash q)"
  "rp_lea_id (compared_report c q l p run_id clock) = l"
  "rp_partner (compared_report c q l p run_id clock) = p"
  by (simp_all add: compared_report_def Let_def)

lemma record_run_ok:
  assumes "lea_exists db (rp_lea_id r)" and "rp_id r \<notin> rr_id ` set (db_reconciliation_runs db)"
  shows "record_run r db = (db\<lparr>db_reconciliation_runs := db_reconciliation_runs db @ [run_row r]\<rparr>, Inr r)"
  using assms by (simp add: record_run_def transaction_def insert_run_def run_row_def)

end
