(* ===== verification/ReconciliationProperties.thy ===== *)
theory ReconciliationProperties
  imports Reconciliation Samples Alerts "HOL-Library.Multiset"
begin

text \<open>
  What a reconciliation run tells: when the hash has no collision among the texts of the run, the
  run matches exactly when both sides hold the same rows, and a drift entry names exactly the ids
  of one side only. The hashes need no separator-free ids: the texts are read back from the end,
  leaf by leaf, because a leaf is made of hexadecimal digits and determines its id.
\<close>

section \<open>Rows and their leaves\<close>

lemma map_of_eqI_lists:
  assumes "map fst xs = map fst ys" "distinct (map fst xs)" "set xs = set ys"
  shows "xs = ys"
proof (rule nth_equalityI)
  from assms(1) show len: "length xs = length ys" by (rule map_eq_imp_length_eq)
  fix i assume i: "i < length xs"
  then have "xs ! i \<in> set ys" by (metis assms(3) nth_mem)
  then obtain j where j: "j < length ys" "ys ! j = xs ! i" by (auto simp: in_set_conv_nth)
  have "map fst xs ! j = map fst ys ! j" by (simp only: assms(1))
  also have "\<dots> = map fst xs ! i" using i j by simp
  finally have "j = i" using i j len assms(2) by (simp add: nth_eq_iff_index_eq del: nth_map)
  with j show "xs ! i = ys ! i" by simp
qed

definition row_value :: "dict \<Rightarrow> dict" where
  "row_value d = map (\<lambda>(k, v). (k, sorted_keys v)) d"

definition leaf_text :: "(rat \<Rightarrow> string) \<Rightarrow> dict \<Rightarrow> string" where
  "leaf_text ft d = dumps_sorted ft '','' '':'' (JObj d)"

definition leaf :: "(string \<Rightarrow> string) \<Rightarrow> (rat \<Rightarrow> string) \<Rightarrow> dict \<Rightarrow> string \<times> string" where
  "leaf sha ft d = (py_str ft (dict_get d ''id''), hash_row sha ft d)"

lemma leaves_of_map: "leaves_of sha ft rows = map (leaf sha ft) rows"
  by (simp add: leaves_of_def leaf_def)

lemma hash_row_leaf: "hash_row sha ft d = sha (leaf_text ft d)"
  by (simp add: hash_row_def leaf_text_def)

lemma leaf_text_value: "row_value d = row_value e \<Longrightarrow> leaf_text ft d = leaf_text ft e"
  by (simp add: leaf_text_def dumps_sorted_def row_value_def del: json_text.simps)

text \<open>Rows of the same distinct columns with the same text have the same values.\<close>

lemma leaf_text_inject:
  assumes "float_text ft" and "map fst d = cols" "map fst e = cols" "distinct cols"
    and "leaf_text ft d = leaf_text ft e"
  shows "row_value d = row_value e"
proof -
  from assms(5) dumps_sorted_inject [OF assms(1), of "[]"] have
    "sort_key fst (row_value d) = sort_key fst (row_value e)"
    by (simp add: leaf_text_def row_value_def)
  then have set: "set (row_value d) = set (row_value e)" by (metis set_sort)
  have keys: "map fst (row_value x) = map fst x" for x by (simp add: row_value_def comp_def split_def)
  show ?thesis
  proof (rule map_of_eqI_lists)
    show "map fst (row_value d) = map fst (row_value e)" "distinct (map fst (row_value d))"
      "set (row_value d) = set (row_value e)"
      using assms(2-4) keys set by simp_all
  qed
qed

text \<open>
  What one function of a multiset determines, another does, too, when it can be computed from it.
\<close>

lemma image_mset_factor:
  assumes "image_mset f A = image_mset f B"
    and "\<And>x y. x \<in># A + B \<Longrightarrow> y \<in># A + B \<Longrightarrow> f x = f y \<Longrightarrow> g x = g y"
  shows "image_mset g A = image_mset g B"
proof -
  define h where "h p = g (SOME x. x \<in># A + B \<and> f x = p)" for p
  have h: "h (f x) = g x" if "x \<in># A + B" for x
  proof -
    have "(SOME y. y \<in># A + B \<and> f y = f x) \<in># A + B \<and> f (SOME y. y \<in># A + B \<and> f y = f x) = f x"
      by (rule someI [of _ x]) (use that in simp)
    then show ?thesis unfolding h_def using assms(2) that by blast
  qed
  have "image_mset g C = image_mset h (image_mset f C)" if "set_mset C \<subseteq> set_mset (A + B)" for C
    unfolding image_mset.compositionality comp_def
    by (rule image_mset_cong) (use that h in auto)
  from this [of A] this [of B] assms(1) show ?thesis by simp
qed

section \<open>Mid hashes\<close>

definition hex_digit :: "char \<Rightarrow> bool" where
  "hex_digit c \<longleftrightarrow> c \<in> set ''0123456789abcdef''"

lemma not_hex_digit [simp]: "\<not> hex_digit (CHR 0x00)" "\<not> hex_digit (CHR 0x01)"
  by (simp_all add: hex_digit_def)

text \<open>A framed leaf is read back from the end of the text.\<close>

lemma framed_split:
  assumes "list_all hex_digit h" "list_all hex_digit h'"
    and "a @ framed i h = b @ framed j h'"
  shows "h = h' \<and> a @ i = b @ j"
proof -
  have rev: "rev (a @ framed i h) = CHR 0x01 # rev h @ CHR 0x00 # rev (a @ i)" for a i h
    by (simp add: framed_def)
  have take: "takeWhile hex_digit (rev h @ CHR 0x00 # zs) = rev h"
    if "list_all hex_digit h" for h zs
    using that by (subst takeWhile_append2) (simp_all add: list_all_iff)
  from assms(3) have eq: "rev h @ CHR 0x00 # rev (a @ i) = rev h' @ CHR 0x00 # rev (b @ j)"
    using rev [of a i h] rev [of b j h'] by (metis list.inject)
  from arg_cong [OF this, of "takeWhile hex_digit"] take assms(1,2) have "rev h = rev h'" by metis
  with eq show ?thesis by (metis append_same_eq list.inject rev_rev_ident same_append_eq)
qed

lemma mid_text_snoc: "mid_text (ls @ [(i, h)]) = mid_text ls @ framed i h"
  by (simp add: mid_text_def)

lemma mid_text_inject:
  assumes "\<forall>(i, h) \<in> set xs \<union> set ys. list_all hex_digit h"
    and "\<And>i j h. (i, h) \<in> set xs \<Longrightarrow> (j, h) \<in> set ys \<Longrightarrow> i = j"
    and "mid_text xs = mid_text ys"
  shows "xs = ys"
  using assms
proof (induction xs arbitrary: ys rule: rev_induct)
  case Nil
  then show ?case
    by (cases ys rule: rev_cases) (auto simp: mid_text_snoc framed_def, simp add: mid_text_def)
next
  case (snoc x xs)
  obtain i h where x: "x = (i, h)" by (cases x)
  show ?case
  proof (cases ys rule: rev_cases)
    case Nil
    with snoc.prems(3) show ?thesis by (simp add: x mid_text_snoc framed_def) (simp add: mid_text_def)
  next
    case (snoc ys' y)
    obtain j h' where y: "y = (j, h')" by (cases y)
    from \<open>mid_text (xs @ [x]) = mid_text ys\<close> have
      eq: "mid_text xs @ framed i h = mid_text ys' @ framed j h'"
      by (simp add: snoc x y mid_text_snoc)
    have "list_all hex_digit h" "list_all hex_digit h'"
      using snoc.prems(1) by (simp_all add: snoc x y)
    from framed_split [OF this eq] have h: "h = h'" and rest: "mid_text xs @ i = mid_text ys' @ j"
      by simp_all
    from h have "i = j" by (intro snoc.prems(2) [of i h j]) (simp_all add: snoc x y)
    with rest have "mid_text xs = mid_text ys'" by simp
    moreover have "\<forall>(i, h) \<in> set xs \<union> set ys'. list_all hex_digit h"
      using snoc.prems(1) by (auto simp: snoc)
    moreover have "i = j" if "(i, h) \<in> set xs" "(j, h) \<in> set ys'" for i j h
      by (rule snoc.prems(2)) (use that in \<open>auto simp: snoc\<close>)
    ultimately have "xs = ys'" by (intro snoc.IH)
    with h \<open>i = j\<close> show ?thesis by (simp add: snoc x y)
  qed
qed

text \<open>
  The id of a row is a text on the canonical side. A partner's row with the values of such a row
  has the same id text.
\<close>

definition text_id :: "dict \<Rightarrow> bool" where
  "text_id d \<longleftrightarrow> (\<exists>s. dict_get d ''id'' = JStr s)"

lemma sorted_keys_JStr [simp]: "sorted_keys v = JStr s \<longleftrightarrow> v = JStr s"
  by (cases v) auto

lemma map_of_row_value: "map_of (row_value d) k = map_option sorted_keys (map_of d k)"
  by (induction d) (auto simp: row_value_def)

lemma text_id_value:
  assumes "row_value d = row_value e" and "text_id d"
  shows "dict_get e ''id'' = dict_get d ''id''"
proof -
  from assms(2) obtain s where "map_of d ''id'' = Some (JStr s)"
    by (auto simp: text_id_def dict_get_def split: option.splits)
  with map_of_row_value [of d] have "map_of (row_value e) ''id'' = Some (JStr s)"
    by (simp flip: assms(1))
  then have "map_of e ''id'' = Some (JStr s)" by (auto simp: map_of_row_value)
  with \<open>map_of d ''id'' = Some (JStr s)\<close> show ?thesis by (simp add: dict_get_def)
qed

lemma leaf_value: "row_value d = row_value e \<Longrightarrow> text_id d \<Longrightarrow> leaf sha ft d = leaf sha ft e"
  using leaf_text_value [of d e ft] text_id_value [of d e] by (simp add: leaf_def hash_row_leaf)

text \<open>
  What the hash has to do for two lists of rows: no collision among the texts that are hashed,
  and digests of hexadecimal digits.
\<close>

definition side_texts :: "(string \<Rightarrow> string) \<Rightarrow> (rat \<Rightarrow> string) \<Rightarrow> dict list \<Rightarrow> string set" where
  "side_texts sha ft rows =
     insert (mid_text (sort_key fst (leaves_of sha ft rows))) (leaf_text ft ` set rows)"

definition faithful_hash :: "(string \<Rightarrow> string) \<Rightarrow> string set \<Rightarrow> bool" where
  "faithful_hash sha T \<longleftrightarrow> inj_on sha T \<and> (\<forall>s. list_all hex_digit (sha s))"

lemma faithful_hash_mono: "faithful_hash sha T \<Longrightarrow> S \<subseteq> T \<Longrightarrow> faithful_hash sha S"
  by (auto simp: faithful_hash_def intro: inj_on_subset)

lemma leaf_inject:
  assumes "float_text ft" and "faithful_hash sha (leaf_text ft ` S)" and "distinct cols"
    and "x \<in> S" "y \<in> S" "map fst x = cols" "map fst y = cols"
    and "hash_row sha ft x = hash_row sha ft y"
  shows "row_value x = row_value y"
proof (rule leaf_text_inject [OF assms(1) assms(6,7) assms(3)])
  from assms(2) have "inj_on sha (leaf_text ft ` S)" by (simp add: faithful_hash_def)
  then show "leaf_text ft x = leaf_text ft y"
    by (rule inj_onD) (use assms(4,5,8) in \<open>simp_all add: hash_row_leaf\<close>)
qed

lemma sort_leaves_eq:
  assumes "mset xs = mset ys" and "distinct (map fst xs)"
  shows "sort_key fst xs = sort_key fst ys"
proof (rule map_sorted_distinct_set_unique [of fst])
  from assms have d: "distinct (map fst ys)"
    using mset_eq_imp_distinct_iff [of "map fst xs" "map fst ys"] by simp
  show "inj_on fst (set (sort_key fst xs) \<union> set (sort_key fst ys))"
    using assms mset_eq_setD [OF assms(1)] by (simp add: distinct_map)
  show "distinct (map fst (sort_key fst xs))" "distinct (map fst (sort_key fst ys))"
    using mset_eq_imp_distinct_iff [of "map fst (sort_key fst xs)" "map fst xs"]
      mset_eq_imp_distinct_iff [of "map fst (sort_key fst ys)" "map fst ys"] assms(2) d by simp_all
  show "set (sort_key fst xs) = set (sort_key fst ys)" using mset_eq_setD [OF assms(1)] by simp
qed simp_all

lemma mid_hash_eq_iff:
  assumes ft: "float_text ft"
    and hash: "faithful_hash sha (side_texts sha ft rs \<union> side_texts sha ft qs)"
    and cols: "\<forall>r \<in> set rs \<union> set qs. map fst r = cols" "distinct cols"
    and ids: "\<forall>r \<in> set rs. text_id r" "distinct (map (\<lambda>r. fst (leaf sha ft r)) rs)"
  shows "eh_mid_hash (mid_hash sha (leaves_of sha ft rs)) = eh_mid_hash (mid_hash sha (leaves_of sha ft qs)) \<longleftrightarrow>
    mset (map row_value rs) = mset (map row_value qs)" (is "?l = ?r \<longleftrightarrow> _")
proof
  let ?xs = "sort_key fst (leaves_of sha ft rs)" and ?ys = "sort_key fst (leaves_of sha ft qs)"
  have leaves: "faithful_hash sha (leaf_text ft ` (set rs \<union> set qs))"
    by (rule faithful_hash_mono [OF hash]) (auto simp: side_texts_def)
  have inject: "row_value x = row_value y"
    if "x \<in> set rs \<union> set qs" "y \<in> set rs \<union> set qs" "hash_row sha ft x = hash_row sha ft y" for x y
    by (rule leaf_inject [OF ft leaves cols(2) that(1,2)]) (use cols(1) that in auto)
  {
    assume "?l = ?r"
    then have same: "sha (mid_text ?xs) = sha (mid_text ?ys)" by (simp add: mid_hash_def Let_def)
    have inj: "inj_on sha (side_texts sha ft rs \<union> side_texts sha ft qs)"
      using hash by (simp add: faithful_hash_def)
    have eq: "mid_text ?xs = mid_text ?ys"
      by (rule inj_onD [OF inj same]) (simp_all add: side_texts_def)
    have "?xs = ?ys"
    proof (rule mid_text_inject [OF _ _ eq])
      show "\<forall>(i, h) \<in> set ?xs \<union> set ?ys. list_all hex_digit h"
        using hash by (auto simp: faithful_hash_def leaves_of_map leaf_def hash_row_def)
      fix i j h assume "(i, h) \<in> set ?xs" "(j, h) \<in> set ?ys"
      then obtain x y where x: "x \<in> set rs" "(i, h) = leaf sha ft x"
        and y: "y \<in> set qs" "(j, h) = leaf sha ft y" by (auto simp: leaves_of_map)
      then have "row_value x = row_value y" by (intro inject) (auto simp: leaf_def)
      with leaf_value ids(1) x y show "i = j" by (metis prod.inject)
    qed
    then have "mset (map (leaf sha ft) rs) = mset (map (leaf sha ft) qs)"
      by (metis leaves_of_map mset_sort)
    then show "mset (map row_value rs) = mset (map row_value qs)"
      unfolding mset_map by (rule image_mset_factor) (auto intro!: inject simp: leaf_def)
  }
  assume vals: "mset (map row_value rs) = mset (map row_value qs)"
  have tid: "text_id q" if "q \<in> set qs" for q
  proof -
    from that mset_eq_setD [OF vals] obtain r where "r \<in> set rs" "row_value r = row_value q"
      by (metis (no_types, lifting) image_iff image_set)
    with ids(1) text_id_value [of r q] show ?thesis by (auto simp: text_id_def)
  qed
  have "mset (map (leaf sha ft) rs) = mset (map (leaf sha ft) qs)"
    unfolding mset_map
  proof (rule image_mset_factor)
    show "image_mset row_value (mset rs) = image_mset row_value (mset qs)" using vals by simp
    fix x y assume "x \<in># mset rs + mset qs" and v: "row_value x = row_value y"
    then have "text_id x" using ids(1) tid by auto
    with v show "leaf sha ft x = leaf sha ft y" by (rule leaf_value)
  qed
  then have "?xs = ?ys"
    unfolding leaves_of_map by (rule sort_leaves_eq) (use ids(2) in \<open>simp add: comp_def\<close>)
  then show "?l = ?r" by (simp add: mid_hash_def)
qed

section \<open>The two sides of a run\<close>

definition canonical_side :: "db \<Rightarrow> lea_id \<Rightarrow> string \<Rightarrow> string list \<Rightarrow> dict list" where
  "canonical_side db l name columns = map (canonical_row_dict columns) (canonical_rows db l name)"

definition partner_side :: "partner_payload_rows \<Rightarrow> lea_id \<Rightarrow> string \<Rightarrow> string list \<Rightarrow> dict list" where
  "partner_side payload l name columns = map (partner_row_dict l columns) (payload_rows payload name)"

text \<open>The rows of a type, in any order, are the same on both sides.\<close>

definition same_type :: "db \<Rightarrow> partner_payload_rows \<Rightarrow> lea_id \<Rightarrow> string \<Rightarrow> bool" where
  "same_type db payload l name =
     (let columns = the (map_of ENTITY_TABLES name)
      in mset (map row_value (canonical_side db l name columns)) =
         mset (map row_value (partner_side payload l name columns)))"

definition rows_agree :: "db \<Rightarrow> partner_payload_rows \<Rightarrow> lea_id \<Rightarrow> bool" where
  "rows_agree db payload l = list_all (\<lambda>(name, columns). same_type db payload l name) ENTITY_TABLES"

definition tables_keyed :: "db \<Rightarrow> bool" where
  "tables_keyed db \<longleftrightarrow>
     distinct (map sr_id (db_students db)) \<and> distinct (map er_id (db_enrollments db)) \<and>
     distinct (map cl_id (db_classes db)) \<and> distinct (map ac_id (db_sessions db)) \<and>
     distinct (map so_id (db_schools db))"

definition run_texts ::
  "(string \<Rightarrow> string) \<Rightarrow> (rat \<Rightarrow> string) \<Rightarrow> db \<Rightarrow> partner_payload_rows \<Rightarrow> lea_id \<Rightarrow> string set" where
  "run_texts sha ft db payload l =
     {root_text (sh_by_type (compute_canonical_hashes sha ft db l)),
      root_text (sh_by_type (compute_partner_hashes sha ft payload l))} \<union>
     (\<Union>(name, columns) \<in> set ENTITY_TABLES.
        side_texts sha ft (canonical_side db l name columns) \<union>
        side_texts sha ft (partner_side payload l name columns))"

lemma entity_table_cases:
  assumes "(name, columns) \<in> set ENTITY_TABLES"
  shows "name \<in> {''students'', ''enrollments'', ''classes'', ''academic_sessions'', ''schools''} \<and>
    map_of ENTITY_TABLES name = Some columns \<and> distinct columns \<and> ''id'' \<in> set columns \<and>
    ''lea_id'' \<in> set columns"
proof -
  have "list_all (\<lambda>(name, columns).
      name \<in> {''students'', ''enrollments'', ''classes'', ''academic_sessions'', ''schools''} \<and>
      map_of ENTITY_TABLES name = Some columns \<and> distinct columns \<and> ''id'' \<in> set columns \<and>
      ''lea_id'' \<in> set columns) ENTITY_TABLES"
    by code_simp
  from bspec [OF this [unfolded list_all_iff] assms] show ?thesis by (simp only: prod.case)
qed

lemma entity_columns: "(name, columns) \<in> set ENTITY_TABLES \<Longrightarrow> map_of ENTITY_TABLES name = Some columns"
  by (drule entity_table_cases) blast

lemma map_fst_canonical: "d \<in> set (canonical_side db l name columns) \<Longrightarrow> map fst d = columns"
  by (auto simp: canonical_side_def canonical_row_dict_def comp_def)

lemma map_fst_partner:
  assumes "d \<in> set (partner_side payload l name columns)" and "''lea_id'' \<in> set columns"
  shows "map fst d = columns"
  using assms dict_table.map_key_upsert [of "(''lea_id'', JStr l)"]
  by (auto simp: partner_side_def partner_row_dict_def dict_set_def comp_def image_image)

lemma dict_get_row_dict: "c \<in> set columns \<Longrightarrow> dict_get (canonical_row_dict columns row) c = dict_get row c"
  by (induction columns) (auto simp: canonical_row_dict_def dict_get_def)

lemmas cells = student_cells_def enrollment_cells_def class_cells_def session_cells_def school_cells_def

lemma canonical_ids:
  "map (\<lambda>d. dict_get d ''id'') (canonical_rows db l name) =
     map JStr
      (if name = ''students'' then
         map sr_id (filter (\<lambda>r. sr_lea_id r = l \<and> sr_deleted_at r = None) (db_students db))
       else if name = ''enrollments'' then
         map er_id (filter (\<lambda>r. er_lea_id r = l \<and> er_deleted_at r = None) (db_enrollments db))
       else if name = ''classes'' then
         map cl_id (filter (\<lambda>r. cl_lea_id r = l \<and> cl_deleted_at r = None) (db_classes db))
       else if name = ''academic_sessions'' then
         map ac_id (filter (\<lambda>r. ac_lea_id r = l \<and> ac_deleted_at r = None) (db_sessions db))
       else map so_id (filter (\<lambda>r. so_lea_id r = l \<and> so_deleted_at r = None) (db_schools db)))"
  by (simp add: canonical_rows_def cells dict_get_def)

lemma canonical_ids_distinct:
  assumes "tables_keyed db"
  obtains ids where "map (\<lambda>d. dict_get d ''id'') (canonical_rows db l name) = map JStr ids" "distinct ids"
  using canonical_ids [of db l name] assms
  by (auto simp: tables_keyed_def distinct_map_filter split: if_splits)

lemma canonical_side_ids:
  assumes "''id'' \<in> set columns"
  shows "map (\<lambda>d. dict_get d ''id'') (canonical_side db l name columns) =
    map (\<lambda>d. dict_get d ''id'') (canonical_rows db l name)"
  using assms by (simp add: canonical_side_def dict_get_row_dict)

lemma type_hash_eq_iff:
  assumes ft: "float_text ft" and hash: "faithful_hash sha (run_texts sha ft db payload l)"
    and keyed: "tables_keyed db" and mem: "(name, columns) \<in> set ENTITY_TABLES"
  shows "eh_mid_hash (mid_hash sha (leaves_of sha ft (canonical_side db l name columns))) =
      eh_mid_hash (mid_hash sha (leaves_of sha ft (partner_side payload l name columns))) \<longleftrightarrow>
    same_type db payload l name"
proof -
  note c = entity_table_cases [OF mem]
  obtain ids where ids: "map (\<lambda>d. dict_get d ''id'') (canonical_side db l name columns) = map JStr ids"
    and d: "distinct ids"
    using canonical_ids_distinct [OF keyed] canonical_side_ids c by metis
  have "faithful_hash sha (side_texts sha ft (canonical_side db l name columns) \<union>
      side_texts sha ft (partner_side payload l name columns))"
    by (rule faithful_hash_mono [OF hash]) (use mem in \<open>auto simp: run_texts_def\<close>)
  moreover have "\<forall>r \<in> set (canonical_side db l name columns) \<union> set (partner_side payload l name columns).
      map fst r = columns"
    using c map_fst_canonical map_fst_partner by blast
  moreover have "\<forall>r \<in> set (canonical_side db l name columns). text_id r"
  proof
    fix r assume "r \<in> set (canonical_side db l name columns)"
    then have "dict_get r ''id'' \<in> set (map (\<lambda>d. dict_get d ''id'') (canonical_side db l name columns))"
      by simp
    then show "text_id r" unfolding ids by (auto simp: text_id_def)
  qed
  moreover have "map (\<lambda>r. fst (leaf sha ft r)) (canonical_side db l name columns) = ids"
  proof -
    have "map (\<lambda>r. fst (leaf sha ft r)) (canonical_side db l name columns) =
        map (py_str ft) (map (\<lambda>d. dict_get d ''id'') (canonical_side db l name columns))"
      by (simp add: leaf_def)
    also have "\<dots> = ids" unfolding ids by (simp add: comp_def)
    finally show ?thesis .
  qed
  ultimately show ?thesis
    unfolding same_type_def using c d ft by (subst mid_hash_eq_iff [of ft sha _ _ columns]) simp_all
qed

section \<open>The difference of the sides\<close>

definition side_ids :: "(rat \<Rightarrow> string) \<Rightarrow> dict list \<Rightarrow> string set" where
  "side_ids ft rows = (\<lambda>r. py_str ft (dict_get r ''id'')) ` set rows"

lemma set_entity_ids: "set (eh_entity_ids (mid_hash sha (leaves_of sha ft rows))) = side_ids ft rows"
  by (simp add: mid_hash_def leaves_of_def side_ids_def Let_def image_image)

lemma map_of_by_name:
  "map_of (map (\<lambda>(name, columns). (name, f name columns)) xs) k = map_option (f k) (map_of xs k)"
  by (induction xs) auto

lemma sides_by_type:
  "sh_by_type (compute_canonical_hashes sha ft db l) = map (\<lambda>(name, columns).
     (name, mid_hash sha (leaves_of sha ft (canonical_side db l name columns)))) ENTITY_TABLES"
  "sh_by_type (compute_partner_hashes sha ft payload l) = map (\<lambda>(name, columns).
     (name, mid_hash sha (leaves_of sha ft (partner_side payload l name columns)))) ENTITY_TABLES"
  by (simp_all add: compute_canonical_hashes_def compute_partner_hashes_def canonical_side_def
      partner_side_def Let_def)

definition drift_of :: "(string \<Rightarrow> string) \<Rightarrow> (rat \<Rightarrow> string) \<Rightarrow> db \<Rightarrow> partner_payload_rows \<Rightarrow> lea_id \<Rightarrow>
    drift_detail list" where
  "drift_of sha ft db payload l =
     diff_sides (compute_canonical_hashes sha ft db l) (compute_partner_hashes sha ft payload l)"

definition ENTITY_NAMES :: "string list" where
  "ENTITY_NAMES = [''academic_sessions'', ''classes'', ''enrollments'', ''schools'', ''students'']"

lemma sorted_entity_names: "sort (map fst ENTITY_TABLES) = ENTITY_NAMES"
  by code_simp

lemma entity_name_columns:
  assumes "name \<in> set ENTITY_NAMES"
  obtains columns where "(name, columns) \<in> set ENTITY_TABLES"
proof -
  have "name \<in> set (map fst ENTITY_TABLES)" using assms by (metis set_sort sorted_entity_names)
  with that show ?thesis by auto
qed

lemma sorted_ids_set: "sorted_ids xs = sorted_list_of_set (set xs)"
  by (simp add: sorted_ids_def sorted_list_of_set_sort_remdups)

lemma diff_type_sides:
  assumes "float_text ft" and "faithful_hash sha (run_texts sha ft db payload l)"
    and "tables_keyed db" and mem: "(name, columns) \<in> set ENTITY_TABLES"
  shows "diff_type (compute_canonical_hashes sha ft db l) (compute_partner_hashes sha ft payload l) name =
      None \<longleftrightarrow> same_type db payload l name"
    and "diff_type (compute_canonical_hashes sha ft db l) (compute_partner_hashes sha ft payload l) name =
      Some d \<Longrightarrow> dd_entity_type d = name \<and>
        dd_canonical_only d = sorted_list_of_set
          (side_ids ft (canonical_side db l name columns) - side_ids ft (partner_side payload l name columns)) \<and>
        dd_partner_only d = sorted_list_of_set
          (side_ids ft (partner_side payload l name columns) - side_ids ft (canonical_side db l name columns))"
  using entity_columns [OF mem] type_hash_eq_iff [OF assms]
  by (auto simp: diff_type_def sides_by_type map_of_by_name Let_def set_entity_ids sorted_ids_set
      set_diff_eq split: if_splits)

lemma sorted_side_names:
  "sort (map fst (sh_by_type (compute_canonical_hashes sha ft db l))) = ENTITY_NAMES"
  by (simp add: sides_by_type comp_def split_def sorted_entity_names flip: sorted_entity_names)

lemma drift_types:
  assumes "float_text ft" and "faithful_hash sha (run_texts sha ft db payload l)" and "tables_keyed db"
  shows "map dd_entity_type (drift_of sha ft db payload l) =
    filter (\<lambda>name. \<not> same_type db payload l name) ENTITY_NAMES"
proof -
  let ?f = "diff_type (compute_canonical_hashes sha ft db l) (compute_partner_hashes sha ft payload l)"
  have one: "(case ?f name of None \<Rightarrow> same_type db payload l name
      | Some d \<Rightarrow> \<not> same_type db payload l name \<and> dd_entity_type d = name)"
    if n: "name \<in> set ENTITY_NAMES" for name
  proof -
    obtain columns where mem: "(name, columns) \<in> set ENTITY_TABLES"
      by (rule entity_name_columns [OF n])
    show ?thesis using diff_type_sides [OF assms mem] by (cases "?f name") auto
  qed
  have "map dd_entity_type (List.map_filter ?f names) = filter (\<lambda>name. \<not> same_type db payload l name) names"
    if "set names \<subseteq> set ENTITY_NAMES" for names
    using that by (induction names) (auto simp: map_filter_simps dest!: one split: option.splits)
  then show ?thesis by (simp add: drift_of_def diff_sides_def sorted_side_names)
qed

lemma drift_none_iff:
  assumes "float_text ft" and "faithful_hash sha (run_texts sha ft db payload l)" and "tables_keyed db"
  shows "drift_of sha ft db payload l = [] \<longleftrightarrow> rows_agree db payload l"
proof -
  have "drift_of sha ft db payload l = [] \<longleftrightarrow> (\<forall>name \<in> set ENTITY_NAMES. same_type db payload l name)"
    using arg_cong [OF drift_types [OF assms], of "\<lambda>xs. xs = []"] by (simp add: filter_empty_conv)
  also have "set ENTITY_NAMES = fst ` set ENTITY_TABLES" by (metis list.set_map set_sort sorted_entity_names)
  finally show ?thesis by (auto simp: rows_agree_def list_all_iff)
qed

text \<open>The roots are equal exactly when every mid hash is.\<close>

lemma framed_unique:
  assumes "list_all hex_digit h" "list_all hex_digit h'" and "framed i h @ xs = framed i h' @ ys"
  shows "h = h' \<and> xs = ys"
proof -
  from assms(3) have eq: "h @ CHR 0x01 # xs = h' @ CHR 0x01 # ys" by (simp add: framed_def)
  have take: "takeWhile hex_digit (h @ CHR 0x01 # zs) = h" if "list_all hex_digit h" for h zs
    using that by (subst takeWhile_append2) (simp_all add: list_all_iff)
  from arg_cong [OF eq, of "takeWhile hex_digit"] take assms(1,2) have "h = h'" by metis
  with eq show ?thesis by simp
qed

lemma framed_list_unique:
  assumes "\<And>k. list_all hex_digit (f k)" "\<And>k. list_all hex_digit (g k)"
    and "concat (map (\<lambda>k. framed k (f k)) ks) = concat (map (\<lambda>k. framed k (g k)) ks)"
  shows "\<forall>k \<in> set ks. f k = g k"
  using assms(3)
proof (induction ks)
  case (Cons k ks)
  then have "framed k (f k) @ concat (map (\<lambda>k. framed k (f k)) ks) =
      framed k (g k) @ concat (map (\<lambda>k. framed k (g k)) ks)" by simp
  from framed_unique [OF assms(1,2) this] Cons.IH show ?case by simp
qed simp

definition type_hash :: "side_hashes \<Rightarrow> string \<Rightarrow> string" where
  "type_hash side name = eh_mid_hash (the (map_of (sh_by_type side) name))"

lemma root_text_sides:
  "root_text (sh_by_type (compute_canonical_hashes sha ft db l)) =
     concat (map (\<lambda>k. framed k (type_hash (compute_canonical_hashes sha ft db l) k)) ENTITY_NAMES)"
  "root_text (sh_by_type (compute_partner_hashes sha ft payload l)) =
     concat (map (\<lambda>k. framed k (type_hash (compute_partner_hashes sha ft payload l) k)) ENTITY_NAMES)"
proof -
  have "sort (map fst (map (\<lambda>(name, columns). (name, f name columns)) ENTITY_TABLES)) = ENTITY_NAMES"
    for f :: "string \<Rightarrow> string list \<Rightarrow> entity_hashes"
    by (simp add: comp_def split_def sorted_entity_names)
  then show "root_text (sh_by_type (compute_canonical_hashes sha ft db l)) =
     concat (map (\<lambda>k. framed k (type_hash (compute_canonical_hashes sha ft db l) k)) ENTITY_NAMES)"
    "root_text (sh_by_type (compute_partner_hashes sha ft payload l)) =
     concat (map (\<lambda>k. framed k (type_hash (compute_partner_hashes sha ft payload l) k)) ENTITY_NAMES)"
    unfolding root_text_def type_hash_def sides_by_type by simp_all
qed

lemma roots_equal_iff:
  assumes hash: "faithful_hash sha (run_texts sha ft db payload l)"
  shows "sh_root_hash (compute_canonical_hashes sha ft db l) =
      sh_root_hash (compute_partner_hashes sha ft payload l) \<longleftrightarrow> drift_of sha ft db payload l = []"
proof -
  let ?c = "compute_canonical_hashes sha ft db l" and ?p = "compute_partner_hashes sha ft payload l"
  have root: "sh_root_hash ?c = sha (root_text (sh_by_type ?c))"
    "sh_root_hash ?p = sha (root_text (sh_by_type ?p))"
    by (simp_all add: compute_canonical_hashes_def compute_partner_hashes_def root_hash_def Let_def)
  have hex: "list_all hex_digit (sha s)" for s using hash by (simp add: faithful_hash_def)
  have same: "type_hash ?c k = type_hash ?p k \<longleftrightarrow> diff_type ?c ?p k = None" if n: "k \<in> set ENTITY_NAMES" for k
  proof -
    obtain columns where "(k, columns) \<in> set ENTITY_TABLES" by (rule entity_name_columns [OF n])
    then have "map_of ENTITY_TABLES k = Some columns" by (rule entity_columns)
    then show ?thesis
      by (simp add: type_hash_def diff_type_def sides_by_type map_of_by_name Let_def)
  qed
  have "sh_root_hash ?c = sh_root_hash ?p \<longleftrightarrow> root_text (sh_by_type ?c) = root_text (sh_by_type ?p)"
    unfolding root using hash
    by (intro inj_on_eq_iff [of sha "run_texts sha ft db payload l"])
      (simp_all add: faithful_hash_def run_texts_def)
  also have "\<dots> \<longleftrightarrow> (\<forall>k \<in> set ENTITY_NAMES. type_hash ?c k = type_hash ?p k)"
  proof
    assume eq: "root_text (sh_by_type ?c) = root_text (sh_by_type ?p)"
    have digits: "list_all hex_digit (type_hash ?c k)" "list_all hex_digit (type_hash ?p k)"
      if n: "k \<in> set ENTITY_NAMES" for k
    proof -
      obtain columns where "(k, columns) \<in> set ENTITY_TABLES" by (rule entity_name_columns [OF n])
      then have "map_of ENTITY_TABLES k = Some columns" by (rule entity_columns)
      then show "list_all hex_digit (type_hash ?c k)" "list_all hex_digit (type_hash ?p k)"
        by (simp_all add: type_hash_def sides_by_type map_of_by_name mid_hash_def Let_def hex)
    qed
    define f where "f s k = (if k \<in> set ENTITY_NAMES then type_hash s k else [])" for s k
    have "concat (map (\<lambda>k. framed k (f ?c k)) ENTITY_NAMES) = concat (map (\<lambda>k. framed k (f ?p k)) ENTITY_NAMES)"
      using eq by (simp add: root_text_sides f_def cong: map_cong)
    then have "\<forall>k \<in> set ENTITY_NAMES. f ?c k = f ?p k"
      by (rule framed_list_unique [rotated 2]) (auto simp: f_def digits)
    then show "\<forall>k \<in> set ENTITY_NAMES. type_hash ?c k = type_hash ?p k" by (simp add: f_def)
  next
    assume "\<forall>k \<in> set ENTITY_NAMES. type_hash ?c k = type_hash ?p k"
    then show "root_text (sh_by_type ?c) = root_text (sh_by_type ?p)"
      by (simp add: root_text_sides cong: map_cong)
  qed
  also have "\<dots> \<longleftrightarrow> (\<forall>k \<in> set ENTITY_NAMES. diff_type ?c ?p k = None)" using same by auto
  also have "\<dots> \<longleftrightarrow> drift_of sha ft db payload l = []"
    unfolding drift_of_def diff_sides_def sorted_side_names List.map_filter_def
    by (simp add: filter_empty_conv)
  finally show ?thesis .
qed

section \<open>Properties\<close>

text \<open>
  C11. A reconciliation that is not skipped reports \<open>matched\<close> exactly when both sides hold the
  same rows: for every entity type the live canonical rows of the LEA and the partner's rows,
  read through the same columns, are the same up to their order. The two root hashes are equal in
  exactly these cases. The hash is assumed to have no collision among the texts of the run.
\<close>

theorem reconcile_matched_iff:
  assumes "reconcile_lea sha ft snapshot l p quiet run_id clock db = (db', Inr rep)"
    and "cursor_quiet_for db l p quiet (clock 1)" and "snapshot l = Inr payload"
    and "float_text ft" and "faithful_hash sha (run_texts sha ft db payload l)" and "tables_keyed db"
  shows "rp_status rep = (if rows_agree db payload l then ''matched'' else ''drift_detected'') \<and>
    (rp_partner_root_hash rep = Some (rp_canonical_root_hash rep) \<longleftrightarrow> rows_agree db payload l)"
proof -
  from reconcile_Inr [OF assms(1)] assms(2,3) have
    rep: "rep = compared_report (compute_canonical_hashes sha ft db l)
      (compute_partner_hashes sha ft payload l) l p run_id clock" by simp
  have "diff_sides (compute_canonical_hashes sha ft db l) (compute_partner_hashes sha ft payload l) = [] \<longleftrightarrow>
      rows_agree db payload l"
    using drift_none_iff [OF assms(4-6)] by (simp add: drift_of_def)
  moreover have "sh_root_hash (compute_canonical_hashes sha ft db l) =
      sh_root_hash (compute_partner_hashes sha ft payload l) \<longleftrightarrow> rows_agree db payload l"
    using roots_equal_iff [OF assms(5)] drift_none_iff [OF assms(4-6)] by simp
  ultimately show ?thesis unfolding rep compared_report_sel by auto
qed

text \<open>
  C30. The drift of a run is exact: its entries are the entity types whose rows differ, in the
  order of their names, and each entry lists, sorted and without repetition, the ids only the
  canonical side has and the ids only the partner has.
\<close>

theorem reconcile_drift_exact:
  assumes "reconcile_lea sha ft snapshot l p quiet run_id clock db = (db', Inr rep)"
    and "cursor_quiet_for db l p quiet (clock 1)" and "snapshot l = Inr payload"
    and "float_text ft" and "faithful_hash sha (run_texts sha ft db payload l)" and "tables_keyed db"
  shows "map dd_entity_type (rp_drift rep) = filter (\<lambda>name. \<not> same_type db payload l name) ENTITY_NAMES \<and>
    (\<forall>d \<in> set (rp_drift rep).
       let columns = the (map_of ENTITY_TABLES (dd_entity_type d));
           canonical_ids = side_ids ft (canonical_side db l (dd_entity_type d) columns);
           partner_ids = side_ids ft (partner_side payload l (dd_entity_type d) columns)
       in dd_canonical_only d = sorted_list_of_set (canonical_ids - partner_ids) \<and>
          dd_partner_only d = sorted_list_of_set (partner_ids - canonical_ids))"
proof -
  from reconcile_Inr [OF assms(1)] assms(2,3) have
    drift: "rp_drift rep = drift_of sha ft db payload l"
    by (simp add: compared_report_sel drift_of_def)
  have "\<forall>d \<in> set (drift_of sha ft db payload l).
       let columns = the (map_of ENTITY_TABLES (dd_entity_type d));
           canonical_ids = side_ids ft (canonical_side db l (dd_entity_type d) columns);
           partner_ids = side_ids ft (partner_side payload l (dd_entity_type d) columns)
       in dd_canonical_only d = sorted_list_of_set (canonical_ids - partner_ids) \<and>
          dd_partner_only d = sorted_list_of_set (partner_ids - canonical_ids)"
  proof
    fix d assume "d \<in> set (drift_of sha ft db payload l)"
    then obtain name where n: "name \<in> set ENTITY_NAMES"
      and d: "diff_type (compute_canonical_hashes sha ft db l) (compute_partner_hashes sha ft payload l) name = Some d"
      by (auto simp: drift_of_def diff_sides_def sorted_side_names List.map_filter_def)
    obtain columns where mem: "(name, columns) \<in> set ENTITY_TABLES" by (rule entity_name_columns [OF n])
    from diff_type_sides(2) [OF assms(4-6) mem d] entity_columns [OF mem]
    show "let columns = the (map_of ENTITY_TABLES (dd_entity_type d));
           canonical_ids = side_ids ft (canonical_side db l (dd_entity_type d) columns);
           partner_ids = side_ids ft (partner_side payload l (dd_entity_type d) columns)
       in dd_canonical_only d = sorted_list_of_set (canonical_ids - partner_ids) \<and>
          dd_partner_only d = sorted_list_of_set (partner_ids - canonical_ids)"
      by (auto simp: Let_def)
  qed
  with drift_types [OF assms(4-6)] drift show ?thesis by simp
qed

text \<open>
  Whatever happens, a run appends at most its own row. A run that returns appends exactly one
  row, its status is one of matched, drift and skipped, and it is skipped exactly when the cursor
  moved within the quiet window. A run that raises leaves the database as it was. The status
  \<open>failed\<close> of the table is never written.
\<close>

theorem reconcile_outcomes:
  "case reconcile_lea sha ft snapshot l p quiet run_id clock db of
     (db', Inl e) \<Rightarrow> db' = db
   | (db', Inr rep) \<Rightarrow>
       db' = db\<lparr>db_reconciliation_runs := db_reconciliation_runs db @ [run_row rep]\<rparr> \<and>
       rp_status rep \<in> {''matched'', ''drift_detected'', ''skipped_quiet_window''} \<and>
       (rp_status rep = ''skipped_quiet_window'') = (\<not> cursor_quiet_for db l p quiet (clock 1))"
proof (cases "reconcile_lea sha ft snapshot l p quiet run_id clock db")
  case (Pair db' r)
  show ?thesis
  proof (cases r)
    case (Inl e)
    with Pair have "db' = db"
      by (auto simp: reconcile_lea_def Let_def dest: record_run_Inl split: if_splits sum.splits)
    with Pair Inl show ?thesis by simp
  next
    case (Inr rep)
    from reconcile_Inr [OF Pair [unfolded Inr]] Pair Inr show ?thesis
      by (auto simp: compared_report_sel skipped_report_def split: if_splits)
  qed
qed

text \<open>The alert of a drift run: the counts are the lengths of its id lists.\<close>

lemma json_len_ids: "json_len (json_or (JArr (map JStr ids)) (JArr [])) = Inr (length ids)"
  by (simp add: json_or_def json_len_def truthy_def)

lemma summed_len_ids:
  assumes "\<And>d. d \<in> set ds \<Longrightarrow> dict_get_default (g d) k (JArr []) = JArr (map JStr (h d))"
  shows "summed_len k (map g ds) = Inr (sum_list (map (\<lambda>d. length (h d)) ds))"
proof -
  have "map_res (\<lambda>d. json_len (json_or (dict_get_default d k (JArr [])) (JArr []))) (map g ds) =
      Inr (map (\<lambda>d. length (h d)) ds)"
    using assms by (induction ds) (simp_all add: json_len_ids)
  then show ?thesis by (simp add: summed_len_def)
qed

lemma drift_summary_counts:
  "summed_len ''canonical_only_ids'' (drift_summary drift) =
     Inr (sum_list (map (\<lambda>d. length (dd_canonical_only d)) drift))"
  "summed_len ''partner_only_ids'' (drift_summary drift) =
     Inr (sum_list (map (\<lambda>d. length (dd_partner_only d)) drift))"
  "map (\<lambda>d. py_str ft (dict_get_default d ''entity_type'' (JStr []))) (drift_summary drift) =
     map dd_entity_type drift"
  unfolding drift_summary_def
  by (rule summed_len_ids, simp add: dict_get_default_def)+ (simp add: dict_get_default_def)

lemma length_drift_summary [simp]: "length (drift_summary drift) = length drift"
  by (simp add: drift_summary_def)

lemma drift_alert_run_row:
  "drift_alert fmt ft (run_row rep) =
     Inr (emit ''alert.reconciliation_drift'' ''warning''
       (''alert.reconciliation_drift:'' @ rp_lea_id rep @ '':'' @ rp_partner rep)
       [(''run_id'', uuid_str (rp_id rep)), (''lea_id'', rp_lea_id rep), (''partner'', rp_partner rep),
        (''completed_at'', fmt (rp_completed_at rep)),
        (''entity_types'', join_with '','' (map dd_entity_type (rp_drift rep))),
        (''canonical_root_hash'', rp_canonical_root_hash rep),
        (''partner_root_hash'', opt_or (rp_partner_root_hash rep) [])]
       [(''entity_types_drifted'', of_nat (length (rp_drift rep))),
        (''canonical_only_count'', of_nat (sum_list (map (\<lambda>d. length (dd_canonical_only d)) (rp_drift rep)))),
        (''partner_only_count'', of_nat (sum_list (map (\<lambda>d. length (dd_partner_only d)) (rp_drift rep))))])"
  unfolding drift_alert_def
  by (simp add: Let_def drift_summary_counts run_row_def)

definition newest_run :: "reconciliation_row \<Rightarrow> db \<Rightarrow> bool" where
  "newest_run r db \<longleftrightarrow> (\<forall>r' \<in> set (db_reconciliation_runs db).
     rr_key r' = rr_key r \<longrightarrow> the (rr_completed_at r') < the (rr_completed_at r))"

lemma latest_run_newest:
  assumes "newest_run r db" and "db' = db\<lparr>db_reconciliation_runs := db_reconciliation_runs db @ [r]\<rparr>"
    and "in_window now hours r" and "z \<in> set (latest_runs now hours db')" and "rr_key z = rr_key r"
  shows "z = r"
proof -
  let ?rows = "filter (in_window now hours) (db_reconciliation_runs db')"
  have r: "r \<in> set ?rows" using assms(2,3) by simp
  then have "rr_key z \<in> rr_key ` set ?rows" using assms(5) by simp
  note last = latest_run_mem [OF this]
  from assms(4) have "z = latest_run ?rows (rr_key z)" "z \<in> set ?rows"
    unfolding mem_latest_runs by simp_all
  with last r assms(5) have le: "the (rr_completed_at r) \<le> the (rr_completed_at z)" by metis
  have "z \<notin> set (db_reconciliation_runs db)"
  proof
    assume "z \<in> set (db_reconciliation_runs db)"
    with assms(1,5) have "the (rr_completed_at z) < the (rr_completed_at r)"
      by (simp add: newest_run_def)
    with le show False by simp
  qed
  with \<open>z \<in> set ?rows\<close> assms(2) show ?thesis by (auto split: if_splits)
qed

lemma newest_run_latest:
  assumes "newest_run r db" and "db' = db\<lparr>db_reconciliation_runs := db_reconciliation_runs db @ [r]\<rparr>"
    and "in_window now hours r"
  shows "r \<in> set (latest_runs now hours db')"
proof -
  let ?rows = "filter (in_window now hours) (db_reconciliation_runs db')"
  have "rr_key r \<in> rr_key ` set ?rows" using assms(2,3) by simp
  note last = latest_run_mem [OF this]
  then have "latest_run ?rows (rr_key r) \<in> set (latest_runs now hours db')"
    unfolding mem_latest_runs by simp
  moreover from last have "rr_key (latest_run ?rows (rr_key r)) = rr_key r" by simp
  ultimately show ?thesis using latest_run_newest [OF assms] by metis
qed

lemma newest_run_skipped:
  assumes "newest_run r db" and "db' = db\<lparr>db_reconciliation_runs := db_reconciliation_runs db @ [r]\<rparr>"
    and "in_window now hours r" and "rr_status r \<noteq> ''drift_detected''"
    and "x \<in> set (db_reconciliation_runs db')" and "rr_key x = rr_key r"
    and ids: "\<And>y. y \<in> set (db_reconciliation_runs db') \<Longrightarrow> rr_id y = rr_id x \<Longrightarrow> y = x"
    and alerts: "evaluate_reconciliation_drift fmt ft hours now db' = Inr alerts"
    and "a \<in> set alerts"
  shows "(''run_id'', uuid_str (rr_id x)) \<notin> set (ar_properties a)"
proof
  assume named: "(''run_id'', uuid_str (rr_id x)) \<in> set (ar_properties a)"
  from map_res_mem [OF alerts [unfolded evaluate_reconciliation_drift_def]] assms(9)
  obtain y where y: "y \<in> set (latest_runs now hours db')" "rr_status y = ''drift_detected''"
    "drift_alert fmt ft y = Inr a" by auto
  with named have "rr_id y = rr_id x" by (simp add: drift_alert_run_id)
  with ids y(1) have "y = x" by (simp add: mem_latest_runs)
  with latest_run_newest [OF assms(1-3) y(1)] assms(6) have "y = r" by simp
  with y(2) assms(4) show False by simp
qed

text \<open>
  A run that found drift is signalled by the next alert pass, when it completed in the
  window of the pass and after every earlier run of its LEA and partner: the alert names the
  run, the entity types that differ, both roots, and counts the ids only one side has.
\<close>

theorem reconcile_alerts:
  assumes "reconcile_lea sha ft snapshot l p quiet run_id clock db = (db', Inr rep)"
    and "rp_status rep = ''drift_detected''"
    and "newest_run (run_row rep) db" and "in_window now hours (run_row rep)"
    and "evaluate_reconciliation_drift fmt ft' hours now db' = Inr alerts"
  shows "emit ''alert.reconciliation_drift'' ''warning'' (''alert.reconciliation_drift:'' @ l @ '':'' @ p)
      [(''run_id'', uuid_str (rp_id rep)), (''lea_id'', l), (''partner'', p),
       (''completed_at'', fmt (rp_completed_at rep)),
       (''entity_types'', join_with '','' (map dd_entity_type (rp_drift rep))),
       (''canonical_root_hash'', rp_canonical_root_hash rep),
       (''partner_root_hash'', opt_or (rp_partner_root_hash rep) [])]
      [(''entity_types_drifted'', of_nat (length (rp_drift rep))),
       (''canonical_only_count'', of_nat (sum_list (map (\<lambda>d. length (dd_canonical_only d)) (rp_drift rep)))),
       (''partner_only_count'', of_nat (sum_list (map (\<lambda>d. length (dd_partner_only d)) (rp_drift rep))))]
    \<in> set alerts"
proof -
  note run = reconcile_Inr [OF assms(1)]
  have pair: "rp_lea_id rep = l" "rp_partner rep = p"
    using run by (auto simp: skipped_report_def compared_report_sel split: if_splits)
  from newest_run_latest [OF assms(3) conjunct1 [OF run] assms(4)]
  have "run_row rep \<in> set (latest_runs now hours db')" .
  moreover have "rr_status (run_row rep) = ''drift_detected''" using assms(2) by (simp add: run_row_def)
  ultimately show ?thesis
    using map_res_mem [OF assms(5) [unfolded evaluate_reconciliation_drift_def]] drift_alert_run_row [of fmt ft' rep]
    unfolding pair by auto
qed

text \<open>
  The latest run of a pair decides, also when it compared nothing: after a run that the quiet
  window skipped, no alert names any run of the pair, whatever drift the runs before it had
  found and nobody repaired. The comment of the alert names a later run that matched as the
  only one that ends it.
\<close>

theorem skip_silences_drift:
  assumes "reconcile_lea sha ft snapshot l p quiet run_id clock db = (db', Inr rep)"
    and "\<not> cursor_quiet_for db l p quiet (clock 1)"
    and "newest_run (run_row rep) db" and "in_window now hours (run_row rep)"
    and "distinct (map rr_id (db_reconciliation_runs db'))"
    and "evaluate_reconciliation_drift fmt ft' hours now db' = Inr alerts"
    and "r \<in> set (db_reconciliation_runs db')" and "rr_key r = (l, p)" and "a \<in> set alerts"
  shows "(''run_id'', uuid_str (rr_id r)) \<notin> set (ar_properties a)"
proof -
  note run = reconcile_Inr [OF assms(1)]
  from run assms(2) have rep: "rep = skipped_report l p run_id clock" by simp
  show ?thesis
  proof (rule newest_run_skipped [OF assms(3) conjunct1 [OF run] assms(4) _ assms(7) _ _ assms(6,9)])
    show "rr_status (run_row rep) \<noteq> ''drift_detected''"
      by (simp add: rep run_row_def skipped_report_def)
    show "rr_key r = rr_key (run_row rep)"
      using assms(8) by (simp add: rep run_row_def skipped_report_def rr_key_def)
    show "y = r" if "y \<in> set (db_reconciliation_runs db')" "rr_id y = rr_id r" for y
      using assms(5,7) that by (auto simp: distinct_map inj_on_def)
  qed
qed

section \<open>Witnesses\<close>

text \<open>A hash without collisions: two hexadecimal digits for every character.\<close>

definition hex_encode :: "string \<Rightarrow> string" where
  "hex_encode s =
     concat (map (\<lambda>c. [hex_char (of_char c div 16), hex_char (of_char c mod 16)]) s)"

lemma char_div_16: "(of_char (c :: char) :: nat) div 16 < 16"
proof -
  have "(of_char c :: nat) < 256" by (metis char_of_char of_char_of mod_less_divisor zero_less_numeral)
  then show ?thesis by (simp add: less_mult_imp_div_less)
qed

lemma hex_encode_inject: "hex_encode s = hex_encode t \<Longrightarrow> s = t"
proof (induction s arbitrary: t)
  case Nil
  then show ?case by (cases t) (simp_all add: hex_encode_def)
next
  case (Cons c s)
  then obtain d t' where t: "t = d # t'" by (cases t) (simp_all add: hex_encode_def)
  with Cons.prems have
    "hex_char (of_char c div 16) = hex_char (of_char d div 16)"
    "hex_char (of_char c mod 16) = hex_char (of_char d mod 16)" "hex_encode s = hex_encode t'"
    by (simp_all add: hex_encode_def)
  then have "(of_char c :: nat) div 16 = of_char d div 16" "(of_char c :: nat) mod 16 = of_char d mod 16"
    by (metis char_div_16 hex_value_hex_char, metis hex_value_hex_char mod_less_divisor zero_less_numeral)
  then have "(of_char c :: nat) = of_char d" by (metis div_mult_mod_eq)
  with Cons.IH [OF \<open>hex_encode s = hex_encode t'\<close>] show ?case by (simp add: t)
qed

lemma hex_char_digit: "d < 16 \<Longrightarrow> hex_digit (hex_char d)"
proof -
  have "\<forall>d \<in> set [0..<16]. hex_digit (hex_char d)" by code_simp
  then show "d < 16 \<Longrightarrow> hex_digit (hex_char d)" by simp
qed

lemma hex_encode_digits: "list_all hex_digit (hex_encode s)"
  by (auto simp: hex_encode_def list_all_iff hex_char_digit char_div_16)

lemma faithful_hex_encode: "faithful_hash hex_encode T"
  by (auto simp: faithful_hash_def inj_on_def hex_encode_digits dest: hex_encode_inject)

lemma reconcile_succeeds:
  assumes "lea_exists db l" and "run_id \<notin> rr_id ` set (db_reconciliation_runs db)"
    and "snapshot l = Inr payload"
  obtains db' rep where "reconcile_lea sha ft snapshot l p quiet run_id clock db = (db', Inr rep)"
proof (cases "cursor_quiet_for db l p quiet (clock 1)")
  case True
  let ?r = "compared_report (compute_canonical_hashes sha ft db l)
    (compute_partner_hashes sha ft payload l) l p run_id clock"
  have "record_run ?r db = (db\<lparr>db_reconciliation_runs := db_reconciliation_runs db @ [run_row ?r]\<rparr>, Inr ?r)"
    by (rule record_run_ok) (use assms in \<open>simp_all add: compared_report_def Let_def\<close>)
  with True assms(3) have "reconcile_lea sha ft snapshot l p quiet run_id clock db =
      (db\<lparr>db_reconciliation_runs := db_reconciliation_runs db @ [run_row ?r]\<rparr>, Inr ?r)"
    by (simp add: reconcile_lea_def Let_def)
  with that show ?thesis .
next
  case False
  let ?r = "skipped_report l p run_id clock"
  have "record_run ?r db = (db\<lparr>db_reconciliation_runs := db_reconciliation_runs db @ [run_row ?r]\<rparr>, Inr ?r)"
    by (rule record_run_ok) (use assms in \<open>simp_all add: skipped_report_def\<close>)
  with False have "reconcile_lea sha ft snapshot l p quiet run_id clock db =
      (db\<lparr>db_reconciliation_runs := db_reconciliation_runs db @ [run_row ?r]\<rparr>, Inr ?r)"
    by (simp add: reconcile_lea_def)
  with that show ?thesis .
qed

text \<open>The alert pass does not raise on runs the service wrote.\<close>

lemma evaluate_drift_total:
  assumes "set (db_reconciliation_runs db) \<subseteq> range run_row"
  obtains alerts where "evaluate_reconciliation_drift fmt ft hours now db = Inr alerts"
proof -
  have "\<exists>as. map_res (drift_alert fmt ft) rs = Inr as" if "set rs \<subseteq> range run_row" for rs
    using that by (induction rs) (auto simp: drift_alert_run_row)
  moreover have "set (filter (\<lambda>r. rr_status r = ''drift_detected'') (latest_runs now hours db)) \<subseteq> range run_row"
    using assms by (auto simp: mem_latest_runs)
  ultimately show ?thesis using that unfolding evaluate_reconciliation_drift_def by blast
qed

definition s_stu_row :: "string \<Rightarrow> string option \<Rightarrow> student_row" where
  "s_stu_row i g =
     \<lparr>sr_id = i, sr_lea_id = ''lea-1'', sr_given_name = ''Alex'', sr_family_name = ''Morgan'',
      sr_grade = g, sr_preferred = None, sr_school = None, sr_external_ids = JObj [], sr_deleted_at = None\<rparr>"

definition s_rec_db :: db where
  "s_rec_db = empty_db\<lparr>
     db_leas := [new_lea_row ''lea-1'' ''LEA 1'' ''traditional_district'' ''NY'' None None],
     db_students := [s_stu_row ''stu-1'' (Some ''05''), s_stu_row ''stu-2'' None],
     db_enrollments := [\<lparr>er_id = ''enr-1'', er_lea_id = ''lea-1'', er_student_id = ''stu-1'',
       er_class_id = ''cls-A'', er_begin = \<lparr>d_year = 2026, d_month = 1, d_day = 5\<rparr>, er_end = None,
       er_deleted_at = None\<rparr>]\<rparr>"

definition s_stu_entry :: "string \<Rightarrow> json \<Rightarrow> dict" where
  "s_stu_entry i g = [(''id'', JStr i), (''grade'', g), (''given_name'', JStr ''Alex''),
     (''family_name'', JStr ''Morgan'')]"

definition s_payload :: "string \<Rightarrow> partner_payload_rows" where
  "s_payload i = [(''students'', [s_stu_entry i JNull, s_stu_entry ''stu-1'' (JStr ''05'')]),
     (''enrollments'', [[(''id'', JStr ''enr-1''), (''student_id'', JStr ''stu-1''),
       (''class_id'', JStr ''cls-A''), (''begin_date'', JStr ''2026-01-05'')]])]"

lemma s_rec_facts:
  "lea_exists s_rec_db ''lea-1''" "1 \<notin> rr_id ` set (db_reconciliation_runs s_rec_db)"
  "tables_keyed s_rec_db" "db_reconciliation_runs s_rec_db = []"
  by (simp_all add: s_rec_db_def lea_exists_def new_lea_row_def tables_keyed_def s_stu_row_def empty_db_def)

lemma s_same_rows: "rows_agree s_rec_db (s_payload ''stu-2'') ''lea-1''"
  by code_simp

lemma s_drift_names:
  "filter (\<lambda>name. \<not> same_type s_rec_db (s_payload ''stu-3'') ''lea-1'' name) ENTITY_NAMES = [''students'']"
  by code_simp

definition s_rec_clock :: "nat \<Rightarrow> timestamp" where
  "s_rec_clock i = 100 + int i"

lemma s_reconcile:
  obtains db' rep where "reconcile_lea hex_encode fraction_text (\<lambda>_. Inr (s_payload i)) ''lea-1'' ''edlink''
    0 1 s_rec_clock s_rec_db = (db', Inr rep)"
  by (rule reconcile_succeeds [OF s_rec_facts(1,2) refl]) (rule that)

theorem reconcile_matched_iff_witness:
  "\<exists>db' rep. reconcile_lea hex_encode fraction_text (\<lambda>_. Inr (s_payload ''stu-2'')) ''lea-1'' ''edlink''
     0 1 s_rec_clock s_rec_db = (db', Inr rep) \<and> rp_status rep = ''matched''"
proof -
  obtain db' rep where run: "reconcile_lea hex_encode fraction_text (\<lambda>_. Inr (s_payload ''stu-2''))
      ''lea-1'' ''edlink'' 0 1 s_rec_clock s_rec_db = (db', Inr rep)" by (rule s_reconcile)
  have "cursor_quiet_for s_rec_db ''lea-1'' ''edlink'' 0 (s_rec_clock 1)" by (simp add: cursor_quiet_for_def)
  from reconcile_matched_iff [OF run this refl float_text_fraction faithful_hex_encode s_rec_facts(3)]
    s_same_rows run
  show ?thesis by auto
qed

theorem reconcile_drift_exact_witness:
  "\<exists>db' rep. reconcile_lea hex_encode fraction_text (\<lambda>_. Inr (s_payload ''stu-3'')) ''lea-1'' ''edlink''
     0 1 s_rec_clock s_rec_db = (db', Inr rep) \<and> map dd_entity_type (rp_drift rep) = [''students'']"
proof -
  obtain db' rep where run: "reconcile_lea hex_encode fraction_text (\<lambda>_. Inr (s_payload ''stu-3''))
      ''lea-1'' ''edlink'' 0 1 s_rec_clock s_rec_db = (db', Inr rep)" by (rule s_reconcile)
  have "cursor_quiet_for s_rec_db ''lea-1'' ''edlink'' 0 (s_rec_clock 1)" by (simp add: cursor_quiet_for_def)
  from reconcile_drift_exact [OF run this refl float_text_fraction faithful_hex_encode s_rec_facts(3)]
    s_drift_names run
  show ?thesis by auto
qed

theorem reconcile_alerts_witness:
  "\<exists>rep alerts. evaluate_reconciliation_drift (\<lambda>_. []) fraction_text 24 110
      (s_rec_db\<lparr>db_reconciliation_runs := [run_row rep]\<rparr>) = Inr alerts \<and>
     (\<exists>a \<in> set alerts. ar_dedup_key a = ''alert.reconciliation_drift:lea-1:edlink'')"
proof -
  obtain db' rep where run: "reconcile_lea hex_encode fraction_text (\<lambda>_. Inr (s_payload ''stu-3''))
      ''lea-1'' ''edlink'' 0 1 s_rec_clock s_rec_db = (db', Inr rep)" by (rule s_reconcile)
  have quiet: "cursor_quiet_for s_rec_db ''lea-1'' ''edlink'' 0 (s_rec_clock 1)"
    by (simp add: cursor_quiet_for_def)
  note r = reconcile_Inr [OF run]
  from r quiet have drift: "rp_drift rep = drift_of hex_encode fraction_text s_rec_db (s_payload ''stu-3'') ''lea-1''"
    and status: "rp_status rep = (if rp_drift rep = [] then ''matched'' else ''drift_detected'')"
    and fin: "rp_completed_at rep = 102"
    by (simp_all add: compared_report_sel drift_of_def) (simp add: compared_report_def s_rec_clock_def Let_def)
  have "map dd_entity_type (rp_drift rep) = [''students'']"
    using drift_types [OF float_text_fraction faithful_hex_encode s_rec_facts(3)] drift s_drift_names by simp
  then have "rp_drift rep \<noteq> []" by auto
  with status have "rp_status rep = ''drift_detected''" by simp
  moreover have "newest_run (run_row rep) s_rec_db" by (simp add: newest_run_def s_rec_facts(4))
  moreover have "in_window 110 24 (run_row rep)"
    by (simp add: in_window_def run_row_def fin hours_us_def)
  moreover have "set (db_reconciliation_runs db') \<subseteq> range run_row" using r by (simp add: s_rec_facts(4))
  then obtain alerts where al: "evaluate_reconciliation_drift (\<lambda>_. []) fraction_text 24 110 db' = Inr alerts"
    by (rule evaluate_drift_total)
  ultimately have m: "emit ''alert.reconciliation_drift'' ''warning''
      (''alert.reconciliation_drift:'' @ ''lea-1'' @ '':'' @ ''edlink'')
      [(''run_id'', uuid_str (rp_id rep)), (''lea_id'', ''lea-1''), (''partner'', ''edlink''),
       (''completed_at'', []),
       (''entity_types'', join_with '','' (map dd_entity_type (rp_drift rep))),
       (''canonical_root_hash'', rp_canonical_root_hash rep),
       (''partner_root_hash'', opt_or (rp_partner_root_hash rep) [])]
      [(''entity_types_drifted'', of_nat (length (rp_drift rep))),
       (''canonical_only_count'', of_nat (sum_list (map (\<lambda>d. length (dd_canonical_only d)) (rp_drift rep)))),
       (''partner_only_count'', of_nat (sum_list (map (\<lambda>d. length (dd_partner_only d)) (rp_drift rep))))]
    \<in> set alerts"
    using reconcile_alerts [OF run] by blast
  have "\<exists>a \<in> set alerts. ar_dedup_key a = ''alert.reconciliation_drift:lea-1:edlink''"
    by (rule bexI [OF _ m]) (simp add: emit_def)
  moreover from r have "db' = s_rec_db\<lparr>db_reconciliation_runs := [run_row rep]\<rparr>" by (simp add: s_rec_facts(4))
  ultimately show ?thesis using al by blast
qed

definition s_found_run :: reconciliation_report where
  "s_found_run = (compared_report \<lparr>sh_root_hash = ''a'', sh_by_type = []\<rparr> \<lparr>sh_root_hash = ''b'', sh_by_type = []\<rparr>
     ''lea-1'' ''edlink'' 0 (\<lambda>_. 50))\<lparr>rp_status := ''drift_detected''\<rparr>"

definition s_skip_db :: db where
  "s_skip_db = s_rec_db\<lparr>db_reconciliation_runs := [run_row s_found_run],
     db_cursors := [\<lparr>cs_lea_id = ''lea-1'', cs_partner = ''edlink'', cs_last_event_id = Some ''e'',
       cs_last_event_at = Some 99, cs_last_poll_at = None, cs_cold_start_required = False, cs_updated_at = 99\<rparr>]\<rparr>"

theorem skip_silences_drift_witness:
  "\<exists>alerts db' rep. reconcile_lea hex_encode fraction_text (\<lambda>_. Inr []) ''lea-1'' ''edlink'' 60 1
      s_rec_clock s_skip_db = (db', Inr rep) \<and>
    evaluate_reconciliation_drift (\<lambda>_. []) fraction_text 24 110 db' = Inr alerts \<and>
    run_row s_found_run \<in> set (db_reconciliation_runs db') \<and>
    (\<forall>a \<in> set alerts. (''run_id'', uuid_str 0) \<notin> set (ar_properties a))"
proof -
  have lea: "lea_exists s_skip_db ''lea-1''" using s_rec_facts(1) by (simp add: s_skip_db_def lea_exists_def)
  have runs: "db_reconciliation_runs s_skip_db = [run_row s_found_run]" by (simp add: s_skip_db_def)
  have found: "run_row s_found_run = \<lparr>rr_id = 0, rr_lea_id = ''lea-1'', rr_partner = ''edlink'', rr_started_at = 50,
      rr_completed_at = Some 50, rr_status = ''drift_detected'', rr_canonical_root_hash = ''a'',
      rr_partner_root_hash = Some ''b'', rr_drift_summary = [], rr_error_message = None\<rparr>"
    by (simp add: s_found_run_def run_row_def compared_report_def diff_sides_def Let_def
        List.map_filter_def drift_summary_def)
  have "(1 :: uuid) \<notin> rr_id ` set (db_reconciliation_runs s_skip_db)" by (simp add: runs found)
  with lea obtain db' rep where run: "reconcile_lea hex_encode fraction_text (\<lambda>_. Inr []) ''lea-1'' ''edlink''
      60 1 s_rec_clock s_skip_db = (db', Inr rep)" by (rule reconcile_succeeds) simp_all
  have loud: "\<not> cursor_quiet_for s_skip_db ''lea-1'' ''edlink'' 60 (s_rec_clock 1)"
    by (simp add: cursor_quiet_for_def cursor_of_def lookup_by_def cursor_key_def s_skip_db_def s_rec_clock_def)
  note r = reconcile_Inr [OF run]
  from r loud have rep: "rep = skipped_report ''lea-1'' ''edlink'' 1 s_rec_clock" by simp
  have row: "rr_id (run_row rep) = 1" "rr_completed_at (run_row rep) = Some 102"
    "rr_key (run_row rep) = (''lea-1'', ''edlink'')"
    by (simp_all add: rep run_row_def skipped_report_def s_rec_clock_def rr_key_def)
  have new: "newest_run (run_row rep) s_skip_db" by (simp add: newest_run_def runs found row rr_key_def)
  have win: "in_window 110 24 (run_row rep)" by (simp add: in_window_def row hours_us_def)
  have dist: "distinct (map rr_id (db_reconciliation_runs db'))" using r by (simp add: runs found row)
  have "set (db_reconciliation_runs db') \<subseteq> range run_row" using r by (simp add: runs)
  then obtain alerts where al: "evaluate_reconciliation_drift (\<lambda>_. []) fraction_text 24 110 db' = Inr alerts"
    by (rule evaluate_drift_total)
  have mem: "run_row s_found_run \<in> set (db_reconciliation_runs db')" using r by (simp add: runs)
  have key: "rr_key (run_row s_found_run) = (''lea-1'', ''edlink'')" by (simp add: found rr_key_def)
  from skip_silences_drift [OF run loud new win dist al mem key] run al mem
  show ?thesis by (auto simp: found)
qed

end
