(* ===== verification/Idempotency.thy ===== *)
theory Idempotency
  imports Database PyJson
begin

text \<open>
  The idempotency keys of the mutation endpoints (\<open>services/idempotency.py\<close>): a request with
  a key reserves a row before its handler runs, stores the response in it afterwards and deletes
  it when the handler raises; a later request with the key gets the stored response. The
  parameters are \<open>sha\<close>, the hexadecimal SHA-256 of the UTF-8 encoding of a text, \<open>ft\<close>, the
  decimal text of a float, and the two conversions of a response model, \<open>dump\<close> and
  \<open>validate\<close> (\<open>model_dump(mode="json")\<close> and \<open>model_validate\<close> of pydantic).
  A request can find that another session deleted the row between its INSERT and its SELECT: the
  list \<open>envs\<close> says what the other sessions commit there, one entry per attempt.
\<close>

section \<open>The table\<close>

type_synonym idem_key = "uuid \<times> string \<times> string"

definition ik_id :: "idempotency_row \<Rightarrow> idem_key" where
  "ik_id r = (ik_operator_id r, ik_route r, ik_key r)"

record idempotency_replay =
  ir_response_status :: int
  ir_response_body :: dict

definition request_text :: "(rat \<Rightarrow> string) \<Rightarrow> string \<Rightarrow> dict option \<Rightarrow> string" where
  "request_text ft path body =
     dumps_sorted ft '', '' '': ''
       (JObj ((''path'', JStr path) # (case body of None \<Rightarrow> [] | Some b \<Rightarrow> [(''body'', JObj b)])))"

definition compute_request_hash ::
  "(string \<Rightarrow> string) \<Rightarrow> (rat \<Rightarrow> string) \<Rightarrow> string \<Rightarrow> dict option \<Rightarrow> string" where
  "compute_request_hash sha ft path body = sha (request_text ft path body)"

definition pending_row :: "idem_key \<Rightarrow> string \<Rightarrow> timestamp \<Rightarrow> idempotency_row" where
  "pending_row k h now =
     \<lparr>ik_operator_id = fst k, ik_route = fst (snd k), ik_key = snd (snd k), ik_request_hash = h,
      ik_response_status = None, ik_response_body = None, ik_created_at = now, ik_completed_at = None\<rparr>"

definition row_of :: "db \<Rightarrow> idem_key \<Rightarrow> idempotency_row option" where
  "row_of db k = lookup_by ik_id k (db_idempotency db)"

section \<open>Operations\<close>

text \<open>What the row found by the SELECT says to the request.\<close>

definition replay_of :: "idempotency_row \<Rightarrow> string \<Rightarrow> exn + idempotency_replay option" where
  "replay_of r h =
     (if ik_request_hash r \<noteq> h then Inl IdempotencyConflict
      else case ik_response_status r of
        None \<Rightarrow> Inl IdempotencyInFlight
      | Some status \<Rightarrow>
          Inr (Some \<lparr>ir_response_status = status,
            ir_response_body = (case ik_response_body r of None \<Rightarrow> [] | Some b \<Rightarrow> b)\<rparr>))"

fun get_or_register ::
  "(db \<Rightarrow> db) list \<Rightarrow> idem_key \<Rightarrow> string \<Rightarrow> timestamp \<Rightarrow> db \<Rightarrow> db \<times> (exn + idempotency_replay option)" where
  "get_or_register envs k h now db =
     (case row_of db k of
        None \<Rightarrow> (db\<lparr>db_idempotency := db_idempotency db @ [pending_row k h now]\<rparr>, Inr None)
      | Some r \<Rightarrow>
          (case envs of
             [] \<Rightarrow> (db, replay_of r h)
           | env # rest \<Rightarrow>
               let db1 = env db in
               (case row_of db1 k of
                  None \<Rightarrow> get_or_register rest k h now db1
                | Some r1 \<Rightarrow> (db1, replay_of r1 h))))"

declare get_or_register.simps [simp del]

definition delete_where :: "(idempotency_row \<Rightarrow> bool) \<Rightarrow> db \<Rightarrow> db" where
  "delete_where P db = db\<lparr>db_idempotency := filter (\<lambda>r. \<not> P r) (db_idempotency db)\<rparr>"

definition discard :: "idem_key \<Rightarrow> db \<Rightarrow> db" where
  "discard k = delete_where (\<lambda>r. ik_id r = k \<and> ik_response_status r = None)"

definition sweep_stale :: "int \<Rightarrow> timestamp \<Rightarrow> db \<Rightarrow> db \<times> nat" where
  "sweep_stale older_than now db =
     (let stale = (\<lambda>r. ik_created_at r < now - older_than)
      in (delete_where stale db, count_where stale (db_idempotency db)))"

definition count_rows :: "db \<Rightarrow> nat" where
  "count_rows db = length (db_idempotency db)"

definition completed :: "int \<Rightarrow> dict \<Rightarrow> timestamp \<Rightarrow> idempotency_row \<Rightarrow> idempotency_row" where
  "completed status body now r =
     r\<lparr>ik_response_status := Some status, ik_response_body := Some body, ik_completed_at := Some now\<rparr>"

definition store_response :: "idem_key \<Rightarrow> int \<Rightarrow> dict \<Rightarrow> timestamp \<Rightarrow> db \<Rightarrow> db" where
  "store_response k status body now db =
     db\<lparr>db_idempotency := update_where (\<lambda>r. ik_id r = k) (completed status body now) (db_idempotency db)\<rparr>"

text \<open>
  The wrapper. The handler is a state transformer; \<open>clock\<close> gives the time of the INSERT and of
  the UPDATE.
\<close>

definition with_idempotency ::
  "(string \<Rightarrow> string) \<Rightarrow> (rat \<Rightarrow> string) \<Rightarrow> ('r \<Rightarrow> dict) \<Rightarrow> (dict \<Rightarrow> exn + 'r) \<Rightarrow> (db \<Rightarrow> db) list \<Rightarrow>
   uuid \<Rightarrow> string \<Rightarrow> string \<Rightarrow> string option \<Rightarrow> dict option \<Rightarrow> (db \<Rightarrow> db \<times> (exn + 'r)) \<Rightarrow> (nat \<Rightarrow> timestamp) \<Rightarrow>
   db \<Rightarrow> db \<times> (exn + 'r)" where
  "with_idempotency sha ft dump validate envs operator route path idempotency_key body handler clock db =
     (case idempotency_key of
        None \<Rightarrow> handler db
      | Some key \<Rightarrow>
          let k = (operator, route, key) in
          (case get_or_register envs k (compute_request_hash sha ft path body) (clock 0) db of
             (db1, Inl e) \<Rightarrow> (db1, Inl e)
           | (db1, Inr (Some replay)) \<Rightarrow> (db1, validate (ir_response_body replay))
           | (db1, Inr None) \<Rightarrow>
               (case handler db1 of
                  (db2, Inl e) \<Rightarrow> (discard k db2, Inl e)
                | (db2, Inr result) \<Rightarrow> (store_response k 200 (dump result) (clock 1) db2, Inr result))))"

section \<open>Laws of the operations\<close>

lemma ik_id_pending [simp]: "ik_id (pending_row k h now) = k"
  by (simp add: ik_id_def pending_row_def)

lemma ik_id_completed [simp]: "ik_id (completed status body now r) = ik_id r"
  by (simp add: ik_id_def completed_def)

lemma db_idempotency_ops [simp]:
  "db_idempotency (delete_where P db) = filter (\<lambda>r. \<not> P r) (db_idempotency db)"
  "db_idempotency (store_response k status body now db) =
     update_where (\<lambda>r. ik_id r = k) (completed status body now) (db_idempotency db)"
  by (simp_all add: delete_where_def store_response_def)

lemma row_of_None_iff: "row_of db k = None \<longleftrightarrow> k \<notin> ik_id ` set (db_idempotency db)"
  by (simp add: row_of_def lookup_by_None_iff)

lemma row_of_append:
  "row_of db k = None \<Longrightarrow> db_idempotency db' = db_idempotency db @ [r] \<Longrightarrow> ik_id r = k \<Longrightarrow> row_of db' k = Some r"
  by (simp add: row_of_def lookup_by_append) (simp add: lookup_by_def)

lemma row_of_store:
  "row_of (store_response k status body now db) k = map_option (completed status body now) (row_of db k)"
  by (simp add: row_of_def lookup_update_where)

lemma row_of_same: "db_idempotency db' = db_idempotency db \<Longrightarrow> row_of db' k = row_of db k"
  by (simp add: row_of_def)

lemma get_or_register_quiet:
  "get_or_register [] k h now db =
     (case row_of db k of
        None \<Rightarrow> (db\<lparr>db_idempotency := db_idempotency db @ [pending_row k h now]\<rparr>, Inr None)
      | Some r \<Rightarrow> (db, replay_of r h))"
  by (subst get_or_register.simps) (simp split: option.split)

text \<open>The request hash determines the path and the body, when the hash has no collision.\<close>

definition request_value :: "string \<Rightarrow> dict option \<Rightarrow> json" where
  "request_value path body =
     sorted_keys (JObj ((''path'', JStr path) # (case body of None \<Rightarrow> [] | Some b \<Rightarrow> [(''body'', JObj b)])))"

lemma request_hash_eq_iff:
  assumes "float_text ft" and "inj_on sha {request_text ft path body, request_text ft path' body'}"
  shows "compute_request_hash sha ft path body = compute_request_hash sha ft path' body' \<longleftrightarrow>
    request_value path body = request_value path' body'"
proof -
  have "compute_request_hash sha ft path body = compute_request_hash sha ft path' body' \<longleftrightarrow>
      request_text ft path body = request_text ft path' body'"
    unfolding compute_request_hash_def by (rule inj_on_eq_iff [OF assms(2)]) simp_all
  then show ?thesis
    using dumps_sorted_inject [OF assms(1), of "'' ''"]
    by (simp add: request_text_def request_value_def del: sorted_keys.simps)
qed

lemma sort_request: "sort_key fst [(''path'', a), (''body'', b)] = [(''body'', b), (''path'', a)]"
proof -
  have "\<not> ''path'' \<le> ''body''" by code_simp
  then show ?thesis by simp
qed

lemma request_value_eq:
  "request_value path body = request_value path' body' \<longleftrightarrow>
     path = path' \<and> map_option (\<lambda>b. sorted_keys (JObj b)) body = map_option (\<lambda>b. sorted_keys (JObj b)) body'"
proof -
  have "request_value q None = JObj [(''path'', JStr q)]" for q
    by (simp add: request_value_def)
  moreover have "request_value q (Some b) = JObj [(''body'', sorted_keys (JObj b)), (''path'', JStr q)]" for q b
    unfolding request_value_def sorted_keys.simps(2) [of "(''path'', JStr q) # c" for c]
    by (simp only: option.case list.map prod.case sort_request sorted_keys.simps)
  ultimately show ?thesis by (cases body; cases body') (auto simp del: sorted_keys.simps)
qed

text \<open>The first request of a key, on each outcome of its handler.\<close>

definition reserved :: "idem_key \<Rightarrow> string \<Rightarrow> timestamp \<Rightarrow> db \<Rightarrow> db" where
  "reserved k h now db = db\<lparr>db_idempotency := db_idempotency db @ [pending_row k h now]\<rparr>"

lemma first_request:
  assumes "row_of db (operator, route, key) = None"
  shows "with_idempotency sha ft dump validate envs operator route path (Some key) body handler clock db =
    (case handler (reserved (operator, route, key) (compute_request_hash sha ft path body) (clock 0) db) of
       (db2, Inl e) \<Rightarrow> (discard (operator, route, key) db2, Inl e)
     | (db2, Inr result) \<Rightarrow>
         (store_response (operator, route, key) 200 (dump result) (clock 1) db2, Inr result))"
proof -
  have "get_or_register envs (operator, route, key) h now db = (reserved (operator, route, key) h now db, Inr None)"
    for h now
    using assms by (subst get_or_register.simps) (simp add: reserved_def)
  then show ?thesis by (simp add: with_idempotency_def Let_def del: One_nat_def)
qed

lemma first_request_row:
  assumes "row_of db k = None" and "k = (operator, route, key)"
    and frame: "\<And>d. db_idempotency (fst (handler d)) = db_idempotency d"
    and "with_idempotency sha ft dump validate envs operator route path (Some key) body handler clock db = (db1, Inr r)"
  shows "row_of db1 k =
    Some (completed 200 (dump r) (clock 1) (pending_row k (compute_request_hash sha ft path body) (clock 0)))"
proof -
  let ?d = "reserved k (compute_request_hash sha ft path body) (clock 0) db"
  obtain d2 res where h: "handler ?d = (d2, res)" by (cases "handler ?d")
  have run: "with_idempotency sha ft dump validate envs operator route path (Some key) body handler clock db =
      (case res of Inl e \<Rightarrow> (discard k d2, Inl e)
       | Inr result \<Rightarrow> (store_response k 200 (dump result) (clock 1) d2, Inr result))"
    using first_request [of db operator route key sha ft dump validate envs path body handler clock] assms(1) h
    by (cases res) (simp_all add: assms(2) del: One_nat_def)
  from assms(4) have db1: "db1 = store_response k 200 (dump r) (clock 1) (fst (handler ?d))"
    unfolding run h by (cases res) (simp_all del: One_nat_def)
  have "row_of ?d k = Some (pending_row k (compute_request_hash sha ft path body) (clock 0))"
    by (rule row_of_append [OF assms(1)]) (simp_all add: reserved_def)
  then have "row_of (fst (handler ?d)) k = Some (pending_row k (compute_request_hash sha ft path body) (clock 0))"
    unfolding row_of_same [OF frame] .
  then show ?thesis by (simp add: db1 row_of_store)
qed

section \<open>Requests that run at the same time\<close>

text \<open>
  The system of all requests: the database, the keys whose handlers run, the keys of the handlers
  that completed and the keys of the rows a sweep deleted. The operations above are its steps, in
  any order; a process can die while its handler runs (\<open>Crash\<close>), and handlers change the other
  tables (\<open>Work\<close>).
\<close>

record idem_sys =
  im_db :: db
  im_running :: "idem_key list"
  im_done :: "idem_key list"
  im_swept :: "idem_key list"

inductive idem_step :: "idem_sys \<Rightarrow> idem_sys \<Rightarrow> bool" where
  Reserve: "get_or_register [] k h now (im_db s) = (db', Inr None) \<Longrightarrow>
    idem_step s (s\<lparr>im_db := db', im_running := k # im_running s\<rparr>)"
| Answer: "get_or_register [] k h now (im_db s) = (db', Inr (Some replay)) \<Longrightarrow>
    idem_step s (s\<lparr>im_db := db'\<rparr>)"
| Refuse: "get_or_register [] k h now (im_db s) = (db', Inl e) \<Longrightarrow> idem_step s (s\<lparr>im_db := db'\<rparr>)"
| Work: "db_idempotency db' = db_idempotency (im_db s) \<Longrightarrow> idem_step s (s\<lparr>im_db := db'\<rparr>)"
| Finish: "k \<in> set (im_running s) \<Longrightarrow>
    idem_step s (s\<lparr>im_db := store_response k 200 body now (im_db s),
      im_running := remove1 k (im_running s), im_done := k # im_done s\<rparr>)"
| Fail: "k \<in> set (im_running s) \<Longrightarrow>
    idem_step s (s\<lparr>im_db := discard k (im_db s), im_running := remove1 k (im_running s)\<rparr>)"
| Crash: "k \<in> set (im_running s) \<Longrightarrow> idem_step s (s\<lparr>im_running := remove1 k (im_running s)\<rparr>)"
| Sweep: "sweep_stale older_than now (im_db s) = (db', n) \<Longrightarrow>
    idem_step s (s\<lparr>im_db := db',
      im_swept := map ik_id (filter (\<lambda>r. ik_created_at r < now - older_than) (db_idempotency (im_db s))) @
        im_swept s\<rparr>)"

inductive_cases idem_stepE: "idem_step s t"

definition key_present :: "db \<Rightarrow> idem_key \<Rightarrow> nat" where
  "key_present db k = (if k \<in> ik_id ` set (db_idempotency db) then 1 else 0)"

definition idem_inv :: "idem_sys \<Rightarrow> bool" where
  "idem_inv s \<longleftrightarrow> (\<forall>k. count_list (im_done s) k + count_list (im_running s) k
     \<le> key_present (im_db s) k + count_list (im_swept s) k)"

lemma count_list_remove1:
  "x \<in> set xs \<Longrightarrow> count_list (remove1 x xs) k = (if k = x then count_list xs k - 1 else count_list xs k)"
  by (induction xs) auto

lemma count_list_pos: "x \<in> set xs \<Longrightarrow> 0 < count_list xs x"
  by (induction xs) auto

lemma key_present_store [simp]: "key_present (store_response k' status body now db) k = key_present db k"
proof -
  have "map ik_id (update_where (\<lambda>r. ik_id r = k') (completed status body now) (db_idempotency db)) =
      map ik_id (db_idempotency db)"
    by (rule map_update_where) simp
  from arg_cong [OF this, of set] show ?thesis by (simp add: key_present_def)
qed

lemma key_present_delete:
  "key_present (delete_where P db) k + (if \<exists>r \<in> set (db_idempotency db). ik_id r = k \<and> P r then 1 else 0)
     \<ge> key_present db k"
  by (auto simp: key_present_def)

lemma idem_invI:
  "(\<And>k. count_list (im_done s) k + count_list (im_running s) k
     \<le> key_present (im_db s) k + count_list (im_swept s) k) \<Longrightarrow> idem_inv s"
  unfolding idem_inv_def by blast

lemma idem_inv_step:
  assumes "idem_step s t" and inv: "idem_inv s"
  shows "idem_inv t"
proof -
  have inv': "count_list (im_done s) k + count_list (im_running s) k
     \<le> key_present (im_db s) k + count_list (im_swept s) k" for k
    using inv unfolding idem_inv_def by blast
  from assms(1) show ?thesis
  proof cases
    case (Reserve k h now db')
    then have "row_of (im_db s) k = None"
      and db': "db' = im_db s\<lparr>db_idempotency := db_idempotency (im_db s) @ [pending_row k h now]\<rparr>"
      by (auto simp: get_or_register_quiet replay_of_def split: option.splits if_splits)
    then have "key_present (im_db s) k = 0" by (simp add: row_of_None_iff key_present_def)
    then have "key_present db' j = key_present (im_db s) j + (if j = k then 1 else 0)" for j
      by (auto simp: key_present_def db')
    with inv' Reserve(1) show ?thesis by (intro idem_invI) (simp add: add.commute [of 1])
  next
    case (Answer k h now db' replay)
    then have "db' = im_db s" by (auto simp: get_or_register_quiet split: option.splits)
    with Answer(1) inv show ?thesis by simp
  next
    case (Refuse k h now db' e)
    then have "db' = im_db s" by (auto simp: get_or_register_quiet split: option.splits)
    with Refuse(1) inv show ?thesis by simp
  next
    case (Work db')
    with inv' show ?thesis by (intro idem_invI) (simp add: key_present_def)
  next
    case (Finish k body now)
    have "count_list (k # im_done s) j + count_list (remove1 k (im_running s)) j =
        count_list (im_done s) j + count_list (im_running s) j" for j
      using count_list_pos [OF Finish(2)] by (auto simp: count_list_remove1 [OF Finish(2)])
    with inv' Finish(1) show ?thesis by (intro idem_invI) simp
  next
    case (Fail k)
    have "count_list (im_done s) j + count_list (remove1 k (im_running s)) j
        \<le> key_present (discard k (im_db s)) j + count_list (im_swept s) j" for j
    proof (cases "j = k")
      case True
      have "key_present (im_db s) k \<le> 1" by (simp add: key_present_def)
      with inv' [of k] count_list_pos [OF Fail(2)] True show ?thesis
        by (simp add: count_list_remove1 [OF Fail(2)])
    next
      case False
      then have "key_present (discard k (im_db s)) j = key_present (im_db s) j"
        by (auto simp: discard_def key_present_def)
      with inv' [of j] False show ?thesis by (simp add: count_list_remove1 [OF Fail(2)])
    qed
    with Fail(1) show ?thesis by (intro idem_invI) simp
  next
    case (Crash k)
    have "count_list (remove1 k (im_running s)) j \<le> count_list (im_running s) j" for j
      by (simp add: count_list_remove1 [OF Crash(2)])
    with inv' have "count_list (im_done s) j + count_list (remove1 k (im_running s)) j
        \<le> key_present (im_db s) j + count_list (im_swept s) j" for j
      by (meson add_left_mono order_trans)
    with Crash(1) show ?thesis by (intro idem_invI) simp
  next
    case (Sweep older_than now db' n)
    let ?stale = "\<lambda>r. ik_created_at r < now - older_than"
    let ?gone = "map ik_id (filter ?stale (db_idempotency (im_db s)))"
    have db': "db' = delete_where ?stale (im_db s)" using Sweep(2) by (simp add: sweep_stale_def Let_def)
    have here: "key_present (im_db s) j \<le> key_present db' j + count_list ?gone j" for j
    proof (cases "j \<in> set ?gone")
      case True
      then show ?thesis using count_list_pos [OF True] by (simp add: key_present_def)
    next
      case False
      then show ?thesis by (auto simp: key_present_def db')
    qed
    show ?thesis
    proof (rule idem_invI)
      fix j
      have "count_list (im_swept t) j = count_list ?gone j + count_list (im_swept s) j"
        by (simp add: Sweep(1))
      with inv' [of j] here [of j] show "count_list (im_done t) j + count_list (im_running t) j
          \<le> key_present (im_db t) j + count_list (im_swept t) j"
        by (simp add: Sweep(1))
    qed
  qed
qed

section \<open>Properties\<close>

text \<open>
  C12. After a request with a key succeeded, a later request of the operator on the route with the
  key never runs its handler and changes nothing. For the same path and body, up to the order
  of the entries of objects, it returns the first response, whatever happened to other rows in
  between; for another path or body it raises the conflict. Handlers are assumed to leave the
  keys alone, responses to survive their JSON form, and the hash to tell the two requests apart.
\<close>

theorem idempotent_replay:
  assumes "row_of db (operator, route, key) = None"
    and "\<And>d. db_idempotency (fst (handler d)) = db_idempotency d"
    and "with_idempotency sha ft dump validate envs operator route path (Some key) body handler clock db =
      (db1, Inr r)"
    and "row_of db2 (operator, route, key) = row_of db1 (operator, route, key)"
    and "validate (dump r) = Inr r" and "float_text ft"
    and "inj_on sha {request_text ft path body, request_text ft path' body'}"
  shows "with_idempotency sha ft dump validate [] operator route path' (Some key) body' handler' clock' db2 =
    (db2, if path = path' \<and> map_option (\<lambda>b. sorted_keys (JObj b)) body = map_option (\<lambda>b. sorted_keys (JObj b)) body'
          then Inr r else Inl IdempotencyConflict)"
proof -
  let ?k = "(operator, route, key)"
  let ?h = "compute_request_hash sha ft path body" and ?h' = "compute_request_hash sha ft path' body'"
  have row: "row_of db2 ?k = Some (completed 200 (dump r) (clock 1) (pending_row ?k ?h (clock 0)))"
    using first_request_row [OF assms(1) refl assms(2,3)] assms(4) by simp
  have "get_or_register [] ?k ?h' (clock' 0) db2 =
      (db2, if ?h = ?h' then Inr (Some \<lparr>ir_response_status = 200, ir_response_body = dump r\<rparr>)
            else Inl IdempotencyConflict)"
    by (simp add: get_or_register_quiet row replay_of_def completed_def pending_row_def)
  moreover have "?h = ?h' \<longleftrightarrow> path = path' \<and>
      map_option (\<lambda>b. sorted_keys (JObj b)) body = map_option (\<lambda>b. sorted_keys (JObj b)) body'"
    unfolding request_hash_eq_iff [OF assms(6,7)] request_value_eq ..
  ultimately show ?thesis
    using assms(5) by (simp add: with_idempotency_def Let_def del: sorted_keys.simps)
qed

text \<open>
  A handler that raises frees its key: the exception reaches the caller, the table of keys is
  what it was before the request, and the effects of the handler on the other tables are all
  that remains, so a retry with the key reserves it again.
\<close>

theorem failed_handler_frees_key:
  assumes "row_of db (operator, route, key) = None"
    and "\<And>d. db_idempotency (fst (handler d)) = db_idempotency d"
    and "handler (reserved (operator, route, key) (compute_request_hash sha ft path body) (clock 0) db) = (db2, Inl e)"
  shows "with_idempotency sha ft dump validate envs operator route path (Some key) body handler clock db =
      (db2\<lparr>db_idempotency := db_idempotency db\<rparr>, Inl e)"
proof -
  let ?k = "(operator, route, key)" and ?h = "compute_request_hash sha ft path body"
  have "db_idempotency db2 = db_idempotency db @ [pending_row ?k ?h (clock 0)]"
    using assms(2) [of "reserved ?k ?h (clock 0) db"] by (simp add: assms(3)) (simp add: reserved_def)
  moreover have "filter (\<lambda>r. \<not> (ik_id r = ?k \<and> ik_response_status r = None)) (db_idempotency db) = db_idempotency db"
    using assms(1) unfolding row_of_None_iff filter_id_conv by (metis imageI)
  ultimately have "discard ?k db2 = db2\<lparr>db_idempotency := db_idempotency db\<rparr>"
    by (simp add: discard_def delete_where_def pending_row_def ik_id_def)
  then show ?thesis by (simp add: first_request [OF assms(1)] assms(3))
qed

text \<open>
  C19. However requests, handlers, failures, crashes and sweeps interleave, the handlers of a key
  that completed and those that still run are together at most one more than the rows of the
  key that a sweep deleted. Before a sweep reclaims the row, at most one handler of the key runs
  at a time and at most one completes.
\<close>

theorem handler_at_most_once:
  assumes "idem_step\<^sup>*\<^sup>* \<lparr>im_db = db, im_running = [], im_done = [], im_swept = []\<rparr> s"
  shows "count_list (im_done s) k + count_list (im_running s) k \<le> 1 + count_list (im_swept s) k"
proof -
  from assms have "idem_inv s"
  proof (induction rule: rtranclp_induct)
    case base
    show ?case by (rule idem_invI) simp
  qed (rule idem_inv_step)
  then have "count_list (im_done s) k + count_list (im_running s) k
      \<le> key_present (im_db s) k + count_list (im_swept s) k"
    unfolding idem_inv_def by blast
  then show ?thesis by (simp add: key_present_def split: if_splits)
qed

section \<open>Witnesses\<close>

definition s_handler :: "db \<Rightarrow> db \<times> (exn + string)" where
  "s_handler db = (db\<lparr>db_next_id := Suc (db_next_id db)\<rparr>, Inr ''done'')"

definition s_dump :: "string \<Rightarrow> dict" where
  "s_dump s = [(''status'', JStr s)]"

definition s_validate :: "dict \<Rightarrow> exn + string" where
  "s_validate d = (case dict_get d ''status'' of JStr s \<Rightarrow> Inr s | _ \<Rightarrow> Inl ValueError)"

theorem idempotent_replay_witness:
  "\<exists>db1. with_idempotency (\<lambda>s. s) fraction_text s_dump s_validate [] 7 ''retry'' ''/p'' (Some ''k'') None
      s_handler (\<lambda>_. 5) empty_db = (db1, Inr ''done'') \<and>
    with_idempotency (\<lambda>s. s) fraction_text s_dump s_validate [] 7 ''retry'' ''/p'' (Some ''k'') None
      s_handler (\<lambda>_. 6) db1 = (db1, Inr ''done'') \<and>
    with_idempotency (\<lambda>s. s) fraction_text s_dump s_validate [] 7 ''retry'' ''/q'' (Some ''k'') None
      s_handler (\<lambda>_. 6) db1 = (db1, Inl IdempotencyConflict)"
proof -
  have row: "row_of empty_db (7, ''retry'', ''k'') = None" by (simp add: row_of_None_iff empty_db_def)
  have frame: "\<And>d. db_idempotency (fst (s_handler d)) = db_idempotency d" by (simp add: s_handler_def)
  obtain db1 where run: "with_idempotency (\<lambda>s. s) fraction_text s_dump s_validate [] 7 ''retry'' ''/p'' (Some ''k'')
      None s_handler (\<lambda>_. 5) empty_db = (db1, Inr ''done'')"
    by (simp add: first_request [OF row] s_handler_def)
  have valid: "s_validate (s_dump ''done'') = Inr ''done''" by (simp add: s_validate_def s_dump_def dict_get_def)
  note replay = idempotent_replay [OF row frame run refl valid float_text_fraction inj_on_id2]
  from run replay [of "''/p''" None s_handler "\<lambda>_. 6"] replay [of "''/q''" None s_handler "\<lambda>_. 6"]
  show ?thesis by (intro exI [of _ db1] conjI) simp_all
qed

definition s_failing :: "db \<Rightarrow> db \<times> (exn + string)" where
  "s_failing db = (db\<lparr>db_next_id := 9\<rparr>, Inl RetryRefused)"

theorem failed_handler_frees_key_witness:
  "with_idempotency (\<lambda>s. s) fraction_text s_dump s_validate [] 7 ''retry'' ''/p'' (Some ''k'') None
      s_failing (\<lambda>_. 5) empty_db = (empty_db\<lparr>db_next_id := 9\<rparr>, Inl RetryRefused)"
proof -
  have "row_of empty_db (7, ''retry'', ''k'') = None" by (simp add: row_of_None_iff empty_db_def)
  from failed_handler_frees_key [OF this, of s_failing "\<lambda>s. s" fraction_text "''/p''" None "\<lambda>_. 5"]
  show ?thesis by (simp add: s_failing_def reserved_def)
qed

theorem handler_at_most_once_witness:
  "\<exists>s. idem_step\<^sup>*\<^sup>* \<lparr>im_db = empty_db, im_running = [], im_done = [], im_swept = []\<rparr> s \<and>
     im_done s = [(7, ''retry'', ''k'')] \<and>
     count_list (im_done s) (7, ''retry'', ''k'') + count_list (im_running s) (7, ''retry'', ''k'') \<le> 1"
proof -
  let ?k = "(7, ''retry'', ''k'') :: idem_key"
  let ?s0 = "\<lparr>im_db = empty_db, im_running = [], im_done = [], im_swept = []\<rparr>"
  let ?db = "reserved ?k ''h'' 5 empty_db"
  let ?s1 = "?s0\<lparr>im_db := ?db, im_running := ?k # im_running ?s0\<rparr>"
  let ?s2 = "?s1\<lparr>im_db := store_response ?k 200 [] 6 (im_db ?s1),
      im_running := remove1 ?k (im_running ?s1), im_done := ?k # im_done ?s1\<rparr>"
  have "row_of empty_db ?k = None" by (simp add: row_of_None_iff empty_db_def)
  then have "idem_step ?s0 ?s1"
    by (intro idem_step.Reserve [of ?k "''h''" 5]) (simp add: get_or_register_quiet reserved_def)
  moreover have "idem_step ?s1 ?s2" by (rule idem_step.Finish) simp
  ultimately have reach: "idem_step\<^sup>*\<^sup>* ?s0 ?s2" by simp
  from handler_at_most_once [OF this, of ?k] reach show ?thesis
    by (intro exI [of _ ?s2]) simp
qed

end
