(* ===== verification/ReconciliationScheduler.thy ===== *)
theory ReconciliationScheduler
  imports ReconciliationProperties Idempotency
begin

text \<open>
  The daily sweep (\<open>services/reconciliation_scheduler.py\<close>): every active connector
  authorization is reconciled, an exception of one is recorded and the sweep goes on, then the
  stale idempotency keys are deleted. Beside the parameters of a single run there are
  \<open>provider\<close>, the walk over the resources of a partner and a LEA, \<open>ids\<close> and \<open>clocks\<close>, the
  run id and the clock of the i-th target, and \<open>message\<close>, the text of an exception. The
  sweep of the keys is an argument, since the driver can raise there; the code's own is
  \<open>sweep_stale\<close>.
\<close>

type_synonym snapshot_provider = "string \<Rightarrow> lea_id \<Rightarrow> exn + partner_payload_rows"

record sweep_report =
  sw_total :: nat
  sw_matched :: nat
  sw_drift :: nat
  sw_skipped :: nat
  sw_failed :: nat
  sw_per_lea :: "reconciliation_report list"
  sw_failures :: "(lea_id \<times> string \<times> string) list"
  sw_idempotency_rows :: nat

definition empty_sweep :: "nat \<Rightarrow> sweep_report" where
  "empty_sweep n =
     \<lparr>sw_total = n, sw_matched = 0, sw_drift = 0, sw_skipped = 0, sw_failed = 0, sw_per_lea = [],
      sw_failures = [], sw_idempotency_rows = 0\<rparr>"

text \<open>\<open>ORDER BY lea_id, partner\<close> of the active authorizations.\<close>

definition active_authorizations :: "db \<Rightarrow> (lea_id \<times> string) list" where
  "active_authorizations db =
     sort (map (\<lambda>a. (au_lea_id a, au_partner a))
       (filter (\<lambda>a. au_status a = ''active'') (db_authorizations db)))"

definition reconcile_one ::
  "(string \<Rightarrow> string) \<Rightarrow> (rat \<Rightarrow> string) \<Rightarrow> snapshot_provider \<Rightarrow> int \<Rightarrow> lea_id \<Rightarrow> string \<Rightarrow> bool \<Rightarrow>
   uuid \<Rightarrow> (nat \<Rightarrow> timestamp) \<Rightarrow> db \<Rightarrow> db \<times> (exn + reconciliation_report)" where
  "reconcile_one sha ft provider quiet_minutes l partner force =
     reconcile_lea sha ft (provider partner) l partner (if force then 0 else quiet_minutes)"

definition count_report :: "reconciliation_report \<Rightarrow> sweep_report \<Rightarrow> sweep_report" where
  "count_report r acc =
     (let acc' = acc\<lparr>sw_per_lea := sw_per_lea acc @ [r]\<rparr> in
      if rp_status r = ''matched'' then acc'\<lparr>sw_matched := sw_matched acc + 1\<rparr>
      else if rp_status r = ''drift_detected'' then acc'\<lparr>sw_drift := sw_drift acc + 1\<rparr>
      else if rp_status r = ''skipped_quiet_window'' then acc'\<lparr>sw_skipped := sw_skipped acc + 1\<rparr>
      else acc'\<lparr>sw_failed := sw_failed acc + 1\<rparr>)"

definition count_failure :: "(exn \<Rightarrow> string) \<Rightarrow> lea_id \<Rightarrow> string \<Rightarrow> exn \<Rightarrow> sweep_report \<Rightarrow> sweep_report" where
  "count_failure message l partner e acc =
     acc\<lparr>sw_failed := sw_failed acc + 1, sw_failures := sw_failures acc @ [(l, partner, message e)]\<rparr>"

fun sweep_targets ::
  "(string \<Rightarrow> string) \<Rightarrow> (rat \<Rightarrow> string) \<Rightarrow> snapshot_provider \<Rightarrow> int \<Rightarrow> (exn \<Rightarrow> string) \<Rightarrow> (nat \<Rightarrow> uuid) \<Rightarrow>
   (nat \<Rightarrow> nat \<Rightarrow> timestamp) \<Rightarrow> nat \<Rightarrow> (lea_id \<times> string) list \<Rightarrow> sweep_report \<Rightarrow> db \<Rightarrow> db \<times> sweep_report" where
  "sweep_targets sha ft provider quiet message ids clocks i [] acc db = (db, acc)"
| "sweep_targets sha ft provider quiet message ids clocks i ((l, partner) # targets) acc db =
     (let (db', r) = reconcile_one sha ft provider quiet l partner False (ids i) (clocks i) db;
          acc' = (case r of Inl e \<Rightarrow> count_failure message l partner e acc | Inr rep \<Rightarrow> count_report rep acc)
      in sweep_targets sha ft provider quiet message ids clocks (Suc i) targets acc' db')"

definition sweep_idempotency_keys :: "(db \<Rightarrow> db \<times> (exn + nat)) \<Rightarrow> db \<Rightarrow> db \<times> nat" where
  "sweep_idempotency_keys sweep db =
     (case sweep db of (db', Inr deleted) \<Rightarrow> (db', deleted) | (db', Inl e) \<Rightarrow> (db', 0))"

definition service_sweep :: "int \<Rightarrow> timestamp \<Rightarrow> db \<Rightarrow> db \<times> (exn + nat)" where
  "service_sweep retention now db = (let (db', n) = sweep_stale retention now db in (db', Inr n))"

definition run_daily_sweep ::
  "(string \<Rightarrow> string) \<Rightarrow> (rat \<Rightarrow> string) \<Rightarrow> snapshot_provider \<Rightarrow> int \<Rightarrow> (exn \<Rightarrow> string) \<Rightarrow> (nat \<Rightarrow> uuid) \<Rightarrow>
   (nat \<Rightarrow> nat \<Rightarrow> timestamp) \<Rightarrow> (db \<Rightarrow> db \<times> (exn + nat)) \<Rightarrow> db \<Rightarrow> db \<times> sweep_report" where
  "run_daily_sweep sha ft provider quiet message ids clocks sweep db =
     (let targets = active_authorizations db;
          (db1, acc) = sweep_targets sha ft provider quiet message ids clocks 0 targets
            (empty_sweep (length targets)) db;
          (db2, n) = sweep_idempotency_keys sweep db1
      in (db2, acc\<lparr>sw_idempotency_rows := n\<rparr>))"

section \<open>Every target on its own\<close>

text \<open>
  What the sweep is to do: each target gives what reconciling it alone on the database before the
  sweep gives.
\<close>

definition target_outcome ::
  "(string \<Rightarrow> string) \<Rightarrow> (rat \<Rightarrow> string) \<Rightarrow> snapshot_provider \<Rightarrow> int \<Rightarrow> (nat \<Rightarrow> uuid) \<Rightarrow> (nat \<Rightarrow> nat \<Rightarrow> timestamp) \<Rightarrow>
   db \<Rightarrow> nat \<Rightarrow> lea_id \<times> string \<Rightarrow> exn + reconciliation_report" where
  "target_outcome sha ft provider quiet ids clocks db i t =
     snd (reconcile_one sha ft provider quiet (fst t) (snd t) False (ids i) (clocks i) db)"

definition outcomes ::
  "(string \<Rightarrow> string) \<Rightarrow> (rat \<Rightarrow> string) \<Rightarrow> snapshot_provider \<Rightarrow> int \<Rightarrow> (nat \<Rightarrow> uuid) \<Rightarrow> (nat \<Rightarrow> nat \<Rightarrow> timestamp) \<Rightarrow>
   db \<Rightarrow> nat \<Rightarrow> (lea_id \<times> string) list \<Rightarrow> (exn + reconciliation_report) list" where
  "outcomes sha ft provider quiet ids clocks db i ts =
     map (\<lambda>(j, t). target_outcome sha ft provider quiet ids clocks db j t) (enumerate i ts)"

definition reports_of :: "(exn + reconciliation_report) list \<Rightarrow> reconciliation_report list" where
  "reports_of rs = List.map_filter (\<lambda>r. case r of Inl e \<Rightarrow> None | Inr rep \<Rightarrow> Some rep) rs"

definition failures_of ::
  "(exn \<Rightarrow> string) \<Rightarrow> (lea_id \<times> string) list \<Rightarrow> (exn + reconciliation_report) list \<Rightarrow> (lea_id \<times> string \<times> string) list" where
  "failures_of message ts rs =
     List.map_filter (\<lambda>((l, partner), r). case r of Inl e \<Rightarrow> Some (l, partner, message e) | Inr rep \<Rightarrow> None)
       (zip ts rs)"

text \<open>A run reads nothing of the table it appends to, but for the freshness of its id.\<close>

definition with_runs :: "reconciliation_row list \<Rightarrow> db \<Rightarrow> db" where
  "with_runs rows db = db\<lparr>db_reconciliation_runs := rows\<rparr>"

lemma canonical_rows_with_runs [simp]: "canonical_rows (with_runs rows db) l name = canonical_rows db l name"
  by (simp add: canonical_rows_def with_runs_def)

lemma reads_with_runs [simp]:
  "cursor_quiet_for (with_runs rows db) l p quiet now = cursor_quiet_for db l p quiet now"
  "compute_canonical_hashes sha ft (with_runs rows db) l = compute_canonical_hashes sha ft db l"
  "lea_exists (with_runs rows db) l = lea_exists db l"
  by (simp_all add: cursor_quiet_for_def cursor_of_def lea_exists_def compute_canonical_hashes_def)
     (simp_all add: with_runs_def)

lemma record_run_with_runs:
  assumes "rp_id r \<notin> rr_id ` set rows" and "rp_id r \<notin> rr_id ` set (db_reconciliation_runs db)"
  shows "record_run r (with_runs rows db) =
    (case record_run r db of
       (_, Inl e) \<Rightarrow> (with_runs rows db, Inl e)
     | (_, Inr rep) \<Rightarrow> (with_runs (rows @ [run_row rep]) db, Inr rep))"
  using assms
  by (auto simp: record_run_def transaction_def insert_run_def run_row_def with_runs_def lea_exists_def)

lemma reconcile_with_runs:
  assumes "i \<notin> rr_id ` set rows" and "i \<notin> rr_id ` set (db_reconciliation_runs db)"
  shows "reconcile_lea sha ft snapshot l p quiet i clock (with_runs rows db) =
    (case reconcile_lea sha ft snapshot l p quiet i clock db of
       (_, Inl e) \<Rightarrow> (with_runs rows db, Inl e)
     | (_, Inr rep) \<Rightarrow> (with_runs (rows @ [run_row rep]) db, Inr rep))"
proof -
  have skip: "rp_id (skipped_report l p i clock) = i" by (simp add: skipped_report_def)
  have cmp: "rp_id (compared_report c q l p i clock) = i" for c q
    by (simp add: compared_report_def Let_def)
  show ?thesis
    using record_run_with_runs [of "skipped_report l p i clock" rows db]
      record_run_with_runs [of "compared_report (compute_canonical_hashes sha ft db l) q l p i clock" rows db for q]
      assms
    by (auto simp: reconcile_lea_def Let_def skip cmp simp del: One_nat_def split: sum.split)
qed

lemma reconcile_run_id:
  "reconcile_lea sha ft snapshot l p quiet i clock db = (db', Inr rep) \<Longrightarrow> rr_id (run_row rep) = i"
  by (drule reconcile_Inr)
     (auto simp: skipped_report_def compared_report_def run_row_def Let_def split: if_splits)

lemma reconcile_statuses:
  "reconcile_lea sha ft snapshot l p quiet i clock db = (db', Inr rep) \<Longrightarrow>
   rp_status rep \<in> {''matched'', ''drift_detected'', ''skipped_quiet_window''}"
  by (drule reconcile_Inr) (auto simp: skipped_report_def compared_report_sel split: if_splits)

section \<open>The sweep is pointwise\<close>

definition count_status :: "string \<Rightarrow> reconciliation_report list \<Rightarrow> nat" where
  "count_status status reps = count_where (\<lambda>r. rp_status r = status) reps"

definition add_outcomes ::
  "(exn \<Rightarrow> string) \<Rightarrow> (lea_id \<times> string) list \<Rightarrow> (exn + reconciliation_report) list \<Rightarrow> sweep_report \<Rightarrow> sweep_report" where
  "add_outcomes message ts rs acc =
     (let reps = reports_of rs; fails = failures_of message ts rs in
      acc\<lparr>sw_matched := sw_matched acc + count_status ''matched'' reps,
          sw_drift := sw_drift acc + count_status ''drift_detected'' reps,
          sw_skipped := sw_skipped acc + count_status ''skipped_quiet_window'' reps,
          sw_failed := sw_failed acc + length fails,
          sw_per_lea := sw_per_lea acc @ reps,
          sw_failures := sw_failures acc @ fails\<rparr>)"

lemma outcomes_simps [simp]:
  "outcomes sha ft provider quiet ids clocks db i [] = []"
  "outcomes sha ft provider quiet ids clocks db i (t # ts) =
     target_outcome sha ft provider quiet ids clocks db i t # outcomes sha ft provider quiet ids clocks db (Suc i) ts"
  by (simp_all add: outcomes_def)

lemma reports_of_simps [simp]:
  "reports_of [] = []" "reports_of (Inl e # rs) = reports_of rs" "reports_of (Inr rep # rs) = rep # reports_of rs"
  by (simp_all add: reports_of_def map_filter_simps)

lemma failures_of_simps [simp]:
  "failures_of message [] rs = []"
  "failures_of message ((l, p) # ts) (Inl e # rs) = (l, p, message e) # failures_of message ts rs"
  "failures_of message (t # ts) (Inr rep # rs) = failures_of message ts rs"
  by (cases t) (simp_all add: failures_of_def map_filter_simps split: prod.split)

lemma count_status_simps [simp]:
  "count_status s [] = 0"
  "count_status s (r # rs) = (if rp_status r = s then 1 else 0) + count_status s rs"
  by (simp_all add: count_status_def count_where_def)

lemma add_failure:
  "add_outcomes message ts rs (count_failure message l p e acc) =
     add_outcomes message ((l, p) # ts) (Inl e # rs) acc"
  by (simp add: add_outcomes_def count_failure_def Let_def)

lemma add_report:
  "rp_status rep \<in> {''matched'', ''drift_detected'', ''skipped_quiet_window''} \<Longrightarrow>
     add_outcomes message ts rs (count_report rep acc) = add_outcomes message (t # ts) (Inr rep # rs) acc"
  by (auto simp: add_outcomes_def count_report_def Let_def)

lemma sweep_targets_pointwise:
  assumes ids: "inj ids" "\<And>j. ids j \<notin> rr_id ` set (db_reconciliation_runs db)"
    and rows: "\<forall>r \<in> set rows. \<forall>j \<ge> i. ids j \<noteq> rr_id r"
  shows "sweep_targets sha ft provider quiet message ids clocks i ts acc (with_runs rows db) =
    (with_runs (rows @ map run_row (reports_of (outcomes sha ft provider quiet ids clocks db i ts))) db,
     add_outcomes message ts (outcomes sha ft provider quiet ids clocks db i ts) acc)"
  using rows
proof (induction ts arbitrary: i acc rows)
  case Nil
  then show ?case by (simp add: add_outcomes_def Let_def)
next
  case (Cons t ts)
  obtain l p where t: "t = (l, p)" by (cases t)
  obtain db' r where run: "reconcile_lea sha ft (provider p) l p quiet (ids i) (clocks i) db = (db', r)"
    by (cases "reconcile_lea sha ft (provider p) l p quiet (ids i) (clocks i) db")
  have out: "target_outcome sha ft provider quiet ids clocks db i t = r"
    by (simp add: target_outcome_def reconcile_one_def t run)
  have fresh: "ids i \<notin> rr_id ` set rows" using Cons.prems by auto
  note here = reconcile_with_runs [OF fresh ids(2), of sha ft "provider p" l p quiet "clocks i", unfolded run]
  have later: "\<forall>r \<in> set rows. \<forall>j \<ge> Suc i. ids j \<noteq> rr_id r" using Cons.prems by auto
  show ?case
  proof (cases r)
    case (Inl e)
    with here Cons.IH [OF later] show ?thesis
      by (simp add: t reconcile_one_def out [unfolded t] add_failure)
  next
    case (Inr rep)
    have "\<forall>r \<in> set (rows @ [run_row rep]). \<forall>j \<ge> Suc i. ids j \<noteq> rr_id r"
      using later reconcile_run_id [OF run [unfolded Inr]] ids(1) by (auto dest!: injD)
    from Cons.IH [OF this] here Inr show ?thesis
      using add_report [OF reconcile_statuses [OF run [unfolded Inr]], of message ts _ acc t]
      by (simp add: t reconcile_one_def out [unfolded t])
  qed
qed

lemma outcome_status:
  "target_outcome sha ft provider quiet ids clocks db i t = Inr rep \<Longrightarrow>
     rp_status rep \<in> {''matched'', ''drift_detected'', ''skipped_quiet_window''}"
  unfolding target_outcome_def reconcile_one_def by (metis prod.collapse reconcile_statuses)

text \<open>Every target is counted once.\<close>

lemma outcomes_counted:
  assumes "rs = outcomes sha ft provider quiet ids clocks db i ts"
  shows "length ts = length (reports_of rs) + length (failures_of message ts rs) \<and>
    length (reports_of rs) = count_status ''matched'' (reports_of rs) +
      count_status ''drift_detected'' (reports_of rs) + count_status ''skipped_quiet_window'' (reports_of rs)"
  using assms
proof (induction ts arbitrary: i rs)
  case (Cons t ts)
  obtain l p where t: "t = (l, p)" by (cases t)
  show ?case
  proof (cases "target_outcome sha ft provider quiet ids clocks db i t")
    case (Inl e)
    with Cons.IH [of _ "Suc i"] Cons.prems show ?thesis by (simp add: t)
  next
    case (Inr rep)
    with Cons.IH [of _ "Suc i"] Cons.prems outcome_status [OF Inr] show ?thesis by (auto simp: t)
  qed
qed simp

section \<open>Properties\<close>

text \<open>
  C29. The daily sweep treats its targets independently: the targets are the active
  authorizations in the order of LEA and partner, each gives exactly the report or the failure
  that reconciling it alone on the database before the sweep gives, whatever the others do,
  the runs recorded are those of the reports in that order, and then the stale keys go. The
  counters add up: every target is matched, drifted, skipped or failed, and \<open>failed\<close> counts the
  failures listed.
\<close>

theorem daily_sweep_exact:
  assumes "inj ids" and "\<And>j. ids j \<notin> rr_id ` set (db_reconciliation_runs db)"
  shows "let ts = active_authorizations db;
      rs = outcomes sha ft provider quiet ids clocks db 0 ts;
      (db', rep) = run_daily_sweep sha ft provider quiet message ids clocks sweep db in
    db' = fst (sweep_idempotency_keys sweep
      (with_runs (db_reconciliation_runs db @ map run_row (reports_of rs)) db)) \<and>
    sw_per_lea rep = reports_of rs \<and> sw_failures rep = failures_of message ts rs \<and>
    sw_total rep = length ts \<and>
    sw_total rep = sw_matched rep + sw_drift rep + sw_skipped rep + sw_failed rep \<and>
    sw_failed rep = length (sw_failures rep)"
proof -
  let ?ts = "active_authorizations db"
  let ?rs = "outcomes sha ft provider quiet ids clocks db 0 ?ts"
  have start: "with_runs (db_reconciliation_runs db) db = db" by (simp add: with_runs_def)
  have "\<forall>r \<in> set (db_reconciliation_runs db). \<forall>j \<ge> 0. ids j \<noteq> rr_id r" using assms(2) by force
  from sweep_targets_pointwise [OF assms this, of sha ft provider quiet message clocks ?ts
      "empty_sweep (length ?ts)"]
  have run: "sweep_targets sha ft provider quiet message ids clocks 0 ?ts (empty_sweep (length ?ts)) db =
      (with_runs (db_reconciliation_runs db @ map run_row (reports_of ?rs)) db,
       add_outcomes message ?ts ?rs (empty_sweep (length ?ts)))"
    unfolding start .
  from outcomes_counted [of ?rs sha ft provider quiet ids clocks db 0 ?ts message]
  have "length ?ts = count_status ''matched'' (reports_of ?rs) + count_status ''drift_detected'' (reports_of ?rs) +
      count_status ''skipped_quiet_window'' (reports_of ?rs) + length (failures_of message ?ts ?rs)" by simp
  moreover obtain db2 n where sweep: "sweep_idempotency_keys sweep
      (with_runs (db_reconciliation_runs db @ map run_row (reports_of ?rs)) db) = (db2, n)" by fastforce
  have "run_daily_sweep sha ft provider quiet message ids clocks sweep db =
      (db2, (add_outcomes message ?ts ?rs (empty_sweep (length ?ts)))\<lparr>sw_idempotency_rows := n\<rparr>)"
    by (simp add: run_daily_sweep_def Let_def run sweep)
  ultimately show ?thesis
    by (simp add: Let_def sweep) (simp add: add_outcomes_def empty_sweep_def Let_def)
qed

text \<open>
  The two passes of the sweep are independent: when the sweep of the keys raises, the report
  is the one of the reconciliations with no deleted rows, and their runs are kept.
\<close>

theorem key_sweep_failure:
  assumes "\<And>d. sweep d = (d, Inl e)"
  shows "run_daily_sweep sha ft provider quiet message ids clocks sweep db =
    sweep_targets sha ft provider quiet message ids clocks 0 (active_authorizations db)
      (empty_sweep (length (active_authorizations db))) db"
proof -
  let ?r = "sweep_targets sha ft provider quiet message ids clocks 0 (active_authorizations db)
      (empty_sweep (length (active_authorizations db))) db"
  have "sw_idempotency_rows (snd (sweep_targets sha ft provider quiet message ids clocks i ts acc d)) =
      sw_idempotency_rows acc" for i ts acc d
    by (induction sha ft provider quiet message ids clocks i ts acc d rule: sweep_targets.induct)
       (auto simp: Let_def count_failure_def count_report_def split: prod.split sum.split)
  from this [of 0 "active_authorizations db" "empty_sweep (length (active_authorizations db))" db]
  have keep: "(snd ?r)\<lparr>sw_idempotency_rows := 0\<rparr> = snd ?r"
    by (cases "snd ?r") (simp add: empty_sweep_def)
  obtain db1 acc where r: "?r = (db1, acc)" by (cases ?r)
  then show ?thesis
    using keep by (simp add: run_daily_sweep_def Let_def sweep_idempotency_keys_def assms)
qed

section \<open>Witnesses\<close>

definition s_auth :: "uuid \<Rightarrow> lea_id \<Rightarrow> string \<Rightarrow> authorization_row" where
  "s_auth i l status =
     \<lparr>au_id = i, au_lea_id = l, au_partner = ''edlink'', au_status = status, au_authorized_at = None,
      au_authorized_by = None, au_revoked_at = None, au_revoked_by = None, au_poll_interval = 300,
      au_notes = None, au_integration_status = ''active'', au_sharing_scope = None,
      au_status_observed_at = None\<rparr>"

definition s_sweep_db :: db where
  "s_sweep_db = s_rec_db\<lparr>db_authorizations :=
     [s_auth 1 ''lea-2'' ''active'', s_auth 2 ''lea-3'' ''revoked'', s_auth 3 ''lea-1'' ''active'']\<rparr>"

definition s_provider :: snapshot_provider where
  "s_provider partner l = (if l = ''lea-1'' then Inr (s_payload ''stu-2'') else Inl (PartnerError ''boom''))"

lemma s_targets: "active_authorizations s_sweep_db = [(''lea-1'', ''edlink''), (''lea-2'', ''edlink'')]"
  by code_simp

lemma s_outcomes:
  obtains rep where "outcomes hex_encode fraction_text s_provider 60 Suc (\<lambda>_. s_rec_clock) s_sweep_db 0
    (active_authorizations s_sweep_db) = [Inr rep, Inl (PartnerError ''boom'')]"
proof -
  have quiet: "cursor_quiet_for s_sweep_db l p 60 now" for l p now
    by (simp add: cursor_quiet_for_def cursor_of_def lookup_by_def s_sweep_db_def s_rec_db_def empty_db_def)
  have lea: "lea_exists s_sweep_db ''lea-1''" "Suc 0 \<notin> rr_id ` set (db_reconciliation_runs s_sweep_db)"
    using s_rec_facts(1,4) by (simp_all add: s_sweep_db_def lea_exists_def)
  have "s_provider ''edlink'' ''lea-1'' = Inr (s_payload ''stu-2'')" by (simp add: s_provider_def)
  then obtain db' rep where "reconcile_lea hex_encode fraction_text (s_provider ''edlink'') ''lea-1'' ''edlink''
      60 (Suc 0) s_rec_clock s_sweep_db = (db', Inr rep)"
    by (rule reconcile_succeeds [OF lea])
  moreover have "reconcile_lea hex_encode fraction_text (s_provider ''edlink'') ''lea-2'' ''edlink''
      60 2 s_rec_clock s_sweep_db = (s_sweep_db, Inl (PartnerError ''boom''))"
    by (simp add: reconcile_lea_def quiet s_provider_def)
  ultimately show ?thesis
    by (intro that [of rep]) (simp add: s_targets target_outcome_def reconcile_one_def numeral_2_eq_2)
qed

theorem daily_sweep_exact_witness:
  "\<exists>db' rep. run_daily_sweep hex_encode fraction_text s_provider 60 (\<lambda>_. ''boom'') Suc (\<lambda>_. s_rec_clock)
      (service_sweep 1 500) s_sweep_db = (db', rep) \<and>
    sw_total rep = 2 \<and> sw_failed rep = 1 \<and> sw_failures rep = [(''lea-2'', ''edlink'', ''boom'')] \<and>
    length (sw_per_lea rep) = 1"
proof -
  obtain r where outs: "outcomes hex_encode fraction_text s_provider 60 Suc (\<lambda>_. s_rec_clock) s_sweep_db 0
    (active_authorizations s_sweep_db) = [Inr r, Inl (PartnerError ''boom'')]" by (rule s_outcomes)
  obtain db' rep where run: "run_daily_sweep hex_encode fraction_text s_provider 60 (\<lambda>_. ''boom'') Suc
      (\<lambda>_. s_rec_clock) (service_sweep 1 500) s_sweep_db = (db', rep)" by fastforce
  have "inj Suc" "\<And>j. Suc j \<notin> rr_id ` set (db_reconciliation_runs s_sweep_db)"
    using s_rec_facts(4) by (simp_all add: s_sweep_db_def)
  from daily_sweep_exact [OF this, of hex_encode fraction_text s_provider 60 "\<lambda>_. s_rec_clock"
      "\<lambda>_. ''boom''" "service_sweep 1 500"]
  have "sw_per_lea rep = [r]" "sw_failures rep = [(''lea-2'', ''edlink'', ''boom'')]" "sw_total rep = 2"
    "sw_failed rep = length (sw_failures rep)"
    by (simp_all add: run outs Let_def) (simp_all add: s_targets)
  with run show ?thesis by simp
qed

theorem key_sweep_failure_witness:
  "run_daily_sweep hex_encode fraction_text s_provider 60 (\<lambda>_. ''boom'') Suc (\<lambda>_. s_rec_clock)
      (\<lambda>d. (d, Inl (PartnerError ''down''))) s_sweep_db =
    sweep_targets hex_encode fraction_text s_provider 60 (\<lambda>_. ''boom'') Suc (\<lambda>_. s_rec_clock) 0
      [(''lea-1'', ''edlink''), (''lea-2'', ''edlink'')] (empty_sweep 2) s_sweep_db"
  using key_sweep_failure [of "\<lambda>d. (d, Inl (PartnerError ''down''))" "PartnerError ''down''" hex_encode
      fraction_text s_provider 60 "\<lambda>_. ''boom''" Suc "\<lambda>_. s_rec_clock" s_sweep_db]
  by (simp add: s_targets numeral_2_eq_2 del: sweep_targets.simps)

end
