(* ===== verification/ConnectorAuthz.thy ===== *)
theory ConnectorAuthz
  imports IntegrationStatus ReconciliationScheduler
begin

text \<open>
  The lifecycle of connector authorizations (\<open>services/connector_authz.py\<close>): authorize,
  revoke, adjust the poll interval, list. Each verb changes the table and writes its audit row in
  one transaction. \<open>new_id\<close> is the \<open>uuid4\<close> the code draws and \<open>now\<close> the
  clock.
\<close>

section \<open>Helpers\<close>

definition POLL_INTERVAL_MIN :: int where "POLL_INTERVAL_MIN = 60"
definition POLL_INTERVAL_MAX :: int where "POLL_INTERVAL_MAX = 3600"

definition validate_interval :: "int \<Rightarrow> exn + int" where
  "validate_interval seconds =
     (if seconds < POLL_INTERVAL_MIN \<or> seconds > POLL_INTERVAL_MAX then Inl ValueError else Inr seconds)"

definition assert_lea_exists :: "lea_id \<Rightarrow> db \<Rightarrow> exn + unit" where
  "assert_lea_exists l db =
     ensure (\<exists>r \<in> set (db_leas db). lr_id r = l \<and> lr_deleted_at r = None) ConnectorAuthorizationNotFound"

definition load_live_row :: "lea_id \<Rightarrow> string \<Rightarrow> db \<Rightarrow> authorization_row option" where
  "load_live_row l partner db = find (live_authorization l partner) (db_authorizations db)"

text \<open>
  The statements, with the constraints of the table: the primary key, the partial unique index
  on the live rows of a pair, the foreign keys and the two CHECKs (a status of the enumeration
  is all the code writes).
\<close>

definition insert_authorization :: "authorization_row \<Rightarrow> db \<Rightarrow> exn + db" where
  "insert_authorization r db =
     (if au_id r \<in> au_id ` set (db_authorizations db) then Inl (UniqueViolation ''connector_authorization_pkey'')
      else if (\<exists>a \<in> set (db_authorizations db). live_authorization (au_lea_id r) (au_partner r) a) then
        Inl (UniqueViolation ''uq_connector_authorization_live'')
      else if \<not> lea_exists db (au_lea_id r) then
        Inl (ForeignKeyViolation ''connector_authorization_lea_id_fkey'')
      else if au_authorized_by r \<noteq> None \<and> the (au_authorized_by r) \<notin> op_id ` set (db_operators db) then
        Inl (ForeignKeyViolation ''connector_authorization_authorized_by_fkey'')
      else Inr (db\<lparr>db_authorizations := db_authorizations db @ [r]\<rparr>))"

definition update_authorization :: "uuid \<Rightarrow> (authorization_row \<Rightarrow> authorization_row) \<Rightarrow> db \<Rightarrow> db" where
  "update_authorization i f db =
     db\<lparr>db_authorizations := update_where (\<lambda>a. au_id a = i) f (db_authorizations db)\<rparr>"

definition known_operator :: "uuid \<Rightarrow> string \<Rightarrow> db \<Rightarrow> exn + unit" where
  "known_operator i constraint db =
     ensure (i \<in> op_id ` set (db_operators db)) (ForeignKeyViolation constraint)"

section \<open>The verbs\<close>

record authorize_outcome =
  ao_id :: uuid
  ao_lea_id :: lea_id
  ao_partner :: string
  ao_status :: string
  ao_poll_interval :: int
  ao_created_new_row :: bool

definition new_authorization ::
  "uuid \<Rightarrow> lea_id \<Rightarrow> string \<Rightarrow> timestamp \<Rightarrow> uuid \<Rightarrow> int \<Rightarrow> string option \<Rightarrow> authorization_row" where
  "new_authorization i l partner now operator interval notes =
     \<lparr>au_id = i, au_lea_id = l, au_partner = partner, au_status = ''active'', au_authorized_at = Some now,
      au_authorized_by = Some operator, au_revoked_at = None, au_revoked_by = None,
      au_poll_interval = interval, au_notes = notes, au_integration_status = ''active'',
      au_sharing_scope = None, au_status_observed_at = None\<rparr>"

definition activate_row ::
  "timestamp \<Rightarrow> uuid \<Rightarrow> int \<Rightarrow> string option \<Rightarrow> authorization_row \<Rightarrow> authorization_row" where
  "activate_row now operator interval notes a =
     a\<lparr>au_status := ''active'', au_authorized_at := Some now, au_authorized_by := Some operator,
       au_poll_interval := interval,
       au_notes := (case notes of None \<Rightarrow> au_notes a | Some n \<Rightarrow> Some n)\<rparr>"

definition interval_or :: "int option \<Rightarrow> int \<Rightarrow> exn + int" where
  "interval_or seconds current = (case seconds of None \<Rightarrow> Inr current | Some s \<Rightarrow> validate_interval s)"

text \<open>The three paths: a new row, a pending row that becomes active, any other live row.\<close>

definition authorize_row ::
  "lea_id \<Rightarrow> string \<Rightarrow> uuid \<Rightarrow> int option \<Rightarrow> string option \<Rightarrow> uuid \<Rightarrow> timestamp \<Rightarrow> db \<Rightarrow>
   exn + (authorize_outcome \<times> string option \<times> db)" where
  "authorize_row l partner operator seconds notes new_id now db =
     (case load_live_row l partner db of
        None \<Rightarrow>
          res_bind (interval_or seconds 300) (\<lambda>interval.
          res_bind (insert_authorization (new_authorization new_id l partner now operator interval notes) db) (\<lambda>db1.
            Inr (\<lparr>ao_id = new_id, ao_lea_id = l, ao_partner = partner, ao_status = ''active'',
                  ao_poll_interval = interval, ao_created_new_row = True\<rparr>, None, db1)))
      | Some a \<Rightarrow>
          if au_status a = ''pending'' then
            res_bind (interval_or seconds (au_poll_interval a)) (\<lambda>interval.
            res_bind (known_operator operator ''connector_authorization_authorized_by_fkey'' db) (\<lambda>_.
              Inr (\<lparr>ao_id = au_id a, ao_lea_id = l, ao_partner = partner, ao_status = ''active'',
                    ao_poll_interval = interval, ao_created_new_row = False\<rparr>, Some ''pending'',
                   update_authorization (au_id a) (activate_row now operator interval notes) db)))
          else
            Inr (\<lparr>ao_id = au_id a, ao_lea_id = l, ao_partner = partner, ao_status = au_status a,
                  ao_poll_interval = au_poll_interval a, ao_created_new_row = False\<rparr>,
                 Some (au_status a), db))"

definition authorize ::
  "lea_id \<Rightarrow> string \<Rightarrow> uuid \<Rightarrow> string \<Rightarrow> int option \<Rightarrow> string option \<Rightarrow> uuid \<Rightarrow> timestamp \<Rightarrow> db \<Rightarrow>
   db \<times> (exn + authorize_outcome)" where
  "authorize l partner operator reason seconds notes new_id now =
     transaction (\<lambda>db.
       res_bind (assert_lea_exists l db) (\<lambda>_.
       res_bind (authorize_row l partner operator seconds notes new_id now db) (\<lambda>(outcome, previous, db1).
       res_bind (write_audit_log operator ''connector.authorized'' ''connector_authorization''
           (uuid_str (ao_id outcome)) (Some l) reason
           [(''partner'', JStr partner), (''previous_status'', json_of_opt previous),
            (''created_new_row'', JBool (ao_created_new_row outcome))] now db1) (\<lambda>db2.
         Inr (outcome, db2)))))"

definition revoke_row :: "timestamp \<Rightarrow> uuid \<Rightarrow> authorization_row \<Rightarrow> authorization_row" where
  "revoke_row now operator a =
     a\<lparr>au_status := ''revoked'', au_revoked_at := Some now, au_revoked_by := Some operator\<rparr>"

definition revoke ::
  "lea_id \<Rightarrow> string \<Rightarrow> uuid \<Rightarrow> string \<Rightarrow> timestamp \<Rightarrow> db \<Rightarrow> db \<times> (exn + (uuid \<times> timestamp))" where
  "revoke l partner operator reason now =
     transaction (\<lambda>db.
       case load_live_row l partner db of
         None \<Rightarrow> Inl ConnectorAuthorizationNotFound
       | Some a \<Rightarrow>
           res_bind (known_operator operator ''connector_authorization_revoked_by_fkey'' db) (\<lambda>_.
           res_bind (write_audit_log operator ''connector.revoked'' ''connector_authorization''
               (uuid_str (au_id a)) (Some l) reason
               [(''partner'', JStr partner), (''previous_status'', JStr (au_status a))] now
               (update_authorization (au_id a) (revoke_row now operator) db)) (\<lambda>db2.
             Inr ((au_id a, now), db2))))"

definition adjust_poll_interval ::
  "lea_id \<Rightarrow> string \<Rightarrow> int \<Rightarrow> uuid \<Rightarrow> string \<Rightarrow> timestamp \<Rightarrow> db \<Rightarrow> db \<times> (exn + (uuid \<times> int \<times> int))" where
  "adjust_poll_interval l partner seconds operator reason now =
     transaction (\<lambda>db.
       res_bind (validate_interval seconds) (\<lambda>new_interval.
       case load_live_row l partner db of
         None \<Rightarrow> Inl ConnectorAuthorizationNotFound
       | Some a \<Rightarrow>
           res_bind (write_audit_log operator ''connector.poll_interval_adjusted'' ''connector_authorization''
               (uuid_str (au_id a)) (Some l) reason
               [(''partner'', JStr partner), (''previous_poll_interval_seconds'', JInt (au_poll_interval a)),
                (''new_poll_interval_seconds'', JInt new_interval)] now
               (update_authorization (au_id a) (\<lambda>r. r\<lparr>au_poll_interval := new_interval\<rparr>) db)) (\<lambda>db2.
             Inr ((au_id a, au_poll_interval a, new_interval), db2))))"

section \<open>The list\<close>

record authorization_view =
  av_row :: authorization_row
  av_lea_name :: string
  av_integration_id :: "string option"
  av_authorized_by_email :: "string option"
  av_revoked_by_email :: "string option"

definition operator_email :: "db \<Rightarrow> uuid option \<Rightarrow> string option" where
  "operator_email db who =
     (case who of None \<Rightarrow> None | Some i \<Rightarrow> map_option op_email (lookup_by op_id i (db_operators db)))"

definition view_row :: "db \<Rightarrow> authorization_row \<Rightarrow> authorization_view option" where
  "view_row db a =
     map_option (\<lambda>l. \<lparr>av_row = a, av_lea_name = lr_name l, av_integration_id = lr_integration l,
         av_authorized_by_email = operator_email db (au_authorized_by a),
         av_revoked_by_email = operator_email db (au_revoked_by a)\<rparr>)
       (lookup_by lr_id (au_lea_id a) (db_leas db))"

definition listed ::
  "lea_id set option \<Rightarrow> lea_id option \<Rightarrow> bool \<Rightarrow> authorization_row \<Rightarrow> bool" where
  "listed authorized_leas only_lea include_revoked a \<longleftrightarrow>
     (include_revoked \<or> au_revoked_at a = None) \<and>
     (case authorized_leas of None \<Rightarrow> True | Some leas \<Rightarrow> au_lea_id a \<in> leas) \<and>
     (case only_lea of None \<Rightarrow> True | Some l \<Rightarrow> au_lea_id a = l)"

text \<open>Live rows first, then by LEA name and partner, the most recent revocation first.\<close>

definition list_order :: "authorization_view \<Rightarrow> nat \<times> string \<times> string \<times> int" where
  "list_order v =
     ((if au_revoked_at (av_row v) = None then 0 else 1), av_lea_name v, au_partner (av_row v),
      (case au_revoked_at (av_row v) of None \<Rightarrow> 0 | Some t \<Rightarrow> - t))"

definition list_authorizations ::
  "lea_id set option \<Rightarrow> lea_id option \<Rightarrow> bool \<Rightarrow> db \<Rightarrow> authorization_view list" where
  "list_authorizations authorized_leas only_lea include_revoked db =
     sort_key list_order
       (List.map_filter (view_row db)
         (filter (listed authorized_leas only_lea include_revoked) (db_authorizations db)))"

section \<open>What the verbs do to the table\<close>

definition pair_of :: "authorization_row \<Rightarrow> lea_id \<times> string" where
  "pair_of a = (au_lea_id a, au_partner a)"

definition live_auth :: "authorization_row \<Rightarrow> bool" where
  "live_auth a \<longleftrightarrow> au_revoked_at a = None"

text \<open>
  The invariant of the table: ids are distinct, a pair has at most one live row, a row is revoked
  by its status exactly when it is by its date, and intervals are within the bounds.
\<close>

definition row_ok :: "authorization_row \<Rightarrow> bool" where
  "row_ok a \<longleftrightarrow> (au_status a = ''revoked'') = (\<not> live_auth a) \<and>
     POLL_INTERVAL_MIN \<le> au_poll_interval a \<and> au_poll_interval a \<le> POLL_INTERVAL_MAX"

definition authz_ok :: "authorization_row list \<Rightarrow> bool" where
  "authz_ok rows \<longleftrightarrow> distinct (map au_id rows) \<and> distinct (map pair_of (filter live_auth rows)) \<and>
     (\<forall>a \<in> set rows. row_ok a)"

lemma live_authorization_iff: "live_authorization l p a \<longleftrightarrow> pair_of a = (l, p) \<and> live_auth a"
  by (auto simp: live_authorization_def pair_of_def live_auth_def)

lemma load_live_rowD:
  "load_live_row l p db = Some a \<Longrightarrow> a \<in> set (db_authorizations db) \<and> pair_of a = (l, p) \<and> live_auth a"
  unfolding load_live_row_def find_Some_iff by (auto simp: live_authorization_iff)

lemma load_live_row_None:
  "load_live_row l p db = None \<longleftrightarrow> (\<forall>a \<in> set (db_authorizations db). live_auth a \<longrightarrow> pair_of a \<noteq> (l, p))"
  unfolding load_live_row_def find_None_iff by (auto simp: live_authorization_iff)

text \<open>Changing rows in place: ids and pairs stay, no row becomes live.\<close>

lemma authz_ok_update:
  assumes "authz_ok rows"
    and "\<And>a. a \<in> set rows \<Longrightarrow> P a \<Longrightarrow>
      au_id (f a) = au_id a \<and> pair_of (f a) = pair_of a \<and> (live_auth (f a) \<longrightarrow> live_auth a) \<and> row_ok (f a)"
  shows "authz_ok (update_where P f rows)"
proof -
  have ids: "map au_id (update_where P f rows) = map au_id rows"
    by (rule map_update_where) (use assms(2) in blast)
  have "distinct (map pair_of (filter live_auth (update_where P f xs))) \<and>
      pair_of ` set (filter live_auth (update_where P f xs)) \<subseteq> pair_of ` set (filter live_auth xs)"
    if "distinct (map pair_of (filter live_auth xs))" "set xs \<subseteq> set rows" for xs
    using that
  proof (induction xs)
    case (Cons x xs)
    then have IH: "distinct (map pair_of (filter live_auth (update_where P f xs)))"
      "pair_of ` set (filter live_auth (update_where P f xs)) \<subseteq> pair_of ` set (filter live_auth xs)"
      by (auto split: if_splits)
    have x: "P x \<Longrightarrow> pair_of (f x) = pair_of x \<and> (live_auth (f x) \<longrightarrow> live_auth x)"
      using assms(2) [of x] Cons.prems(2) by simp
    have split: "update_where P f (x # xs) = (if P x then f x else x) # update_where P f xs"
      by (simp add: update_where_def)
    from Cons.prems(1) have "live_auth x \<Longrightarrow> pair_of x \<notin> pair_of ` set (filter live_auth xs)" by simp
    with IH x show ?case unfolding split by (auto simp del: set_filter split: if_splits)
  qed (simp add: update_where_def)
  from this [of rows] assms ids show ?thesis
    by (auto simp: authz_ok_def set_update_where)
qed

lemma authz_ok_insert:
  assumes "authz_ok rows" and "au_id r \<notin> au_id ` set rows"
    and "\<forall>a \<in> set rows. live_auth a \<longrightarrow> pair_of a \<noteq> pair_of r" and "row_ok r"
  shows "authz_ok (rows @ [r])"
  using assms by (auto simp: authz_ok_def)

lemma validate_interval_Inr:
  "validate_interval s = Inr t \<longleftrightarrow> t = s \<and> POLL_INTERVAL_MIN \<le> s \<and> s \<le> POLL_INTERVAL_MAX"
  by (auto simp: validate_interval_def)

lemma interval_or_bounds:
  assumes "interval_or seconds current = Inr i"
    and "POLL_INTERVAL_MIN \<le> current" "current \<le> POLL_INTERVAL_MAX"
  shows "POLL_INTERVAL_MIN \<le> i \<and> i \<le> POLL_INTERVAL_MAX"
  using assms by (auto simp: interval_or_def validate_interval_Inr split: option.splits)

lemma write_audit_log_Inr:
  "write_audit_log who action kind target l reason detail now db = Inr db' \<longleftrightarrow>
     who \<in> op_id ` set (db_operators db) \<and> (l = None \<or> lea_exists db (the l)) \<and>
     db' = db\<lparr>db_audit_log := db_audit_log db @
        [\<lparr>al_id = db_next_id db, al_operator_id = who, al_action = action, al_target_kind = kind,
          al_target_id = target, al_lea_id = l, al_reason = reason, al_detail = detail,
          al_created_at = now\<rparr>], db_next_id := Suc (db_next_id db)\<rparr>"
  by (auto simp: write_audit_log_def)

lemma authorize_row_effect:
  assumes "authorize_row l p who seconds notes i now db = Inr (out, previous, db1)" and "authz_ok (db_authorizations db)"
  shows "authz_ok (db_authorizations db1) \<and> db_audit_log db1 = db_audit_log db \<and>
    (\<exists>a \<in> set (db_authorizations db1). au_id a = ao_id out \<and> pair_of a = (l, p) \<and> live_auth a \<and>
       au_status a = ao_status out \<and> au_poll_interval a = ao_poll_interval out) \<and>
    (\<forall>a. pair_of a \<noteq> (l, p) \<or> \<not> live_auth a \<longrightarrow>
       (a \<in> set (db_authorizations db1)) = (a \<in> set (db_authorizations db)))"
proof (cases "load_live_row l p db")
  case None
  with assms(1) obtain interval where int: "interval_or seconds 300 = Inr interval"
    and ins: "insert_authorization (new_authorization i l p now who interval notes) db = Inr db1"
    and out: "ao_id out = i" "ao_status out = ''active''" "ao_poll_interval out = interval"
    by (auto simp: authorize_row_def res_simps)
  let ?r = "new_authorization i l p now who interval notes"
  have r: "pair_of ?r = (l, p)" "live_auth ?r" "au_id ?r = i" "au_status ?r = ''active''" "au_poll_interval ?r = interval"
    by (simp_all add: new_authorization_def pair_of_def live_auth_def)
  from ins have db1: "db1 = db\<lparr>db_authorizations := db_authorizations db @ [?r]\<rparr>"
    and new: "i \<notin> au_id ` set (db_authorizations db)"
    by (auto simp: insert_authorization_def r split: if_splits)
  have "row_ok ?r"
    using interval_or_bounds [OF int] r by (simp add: row_ok_def POLL_INTERVAL_MIN_def POLL_INTERVAL_MAX_def)
  then have "authz_ok (db_authorizations db @ [?r])"
    using assms(2) new None by (intro authz_ok_insert) (simp_all add: r load_live_row_None)
  with r show ?thesis by (auto simp: db1 out)
next
  case (Some a)
  note a = load_live_rowD [OF Some]
  then have ok: "row_ok a" using assms(2) by (simp add: authz_ok_def)
  have only: "b = a" if "b \<in> set (db_authorizations db)" "au_id b = au_id a" for b
    using that a assms(2) by (auto simp: authz_ok_def distinct_map inj_on_def)
  show ?thesis
  proof (cases "au_status a = ''pending''")
    case True
    with assms(1) Some obtain interval where int: "interval_or seconds (au_poll_interval a) = Inr interval"
      and db1: "db1 = update_authorization (au_id a) (activate_row now who interval notes) db"
      and out: "ao_id out = au_id a" "ao_status out = ''active''" "ao_poll_interval out = interval"
      by (auto simp: authorize_row_def res_simps)
    let ?f = "activate_row now who interval notes"
    have f: "au_id (?f a) = au_id a" "pair_of (?f a) = pair_of a" "live_auth (?f a) = live_auth a"
      "au_status (?f a) = ''active''" "au_poll_interval (?f a) = interval"
      by (simp_all add: activate_row_def pair_of_def live_auth_def)
    have rows: "db_authorizations db1 = update_where (\<lambda>b. au_id b = au_id a) ?f (db_authorizations db)"
      by (simp add: db1 update_authorization_def)
    have "row_ok (?f a)" using interval_or_bounds [OF int] ok f a by (simp add: row_ok_def)
    then have "authz_ok (db_authorizations db1)"
      unfolding rows using only f by (intro authz_ok_update [OF assms(2)]) auto
    moreover have "?f a \<in> set (db_authorizations db1)" using a by (auto simp: rows set_update_where)
    moreover have "(b \<in> set (db_authorizations db1)) = (b \<in> set (db_authorizations db))"
      if "pair_of b \<noteq> (l, p) \<or> \<not> live_auth b" for b
      using that a f only by (auto simp: rows set_update_where image_iff)
    ultimately show ?thesis using a f by (auto simp: out db1 update_authorization_def)
  next
    case False
    with assms(1) Some have "db1 = db" "ao_id out = au_id a" "ao_status out = au_status a"
      "ao_poll_interval out = au_poll_interval a"
      by (auto simp: authorize_row_def)
    with a assms(2) show ?thesis by auto
  qed
qed

text \<open>One successful verb writes one audit row, in the same transaction.\<close>

definition audited :: "uuid \<Rightarrow> string \<Rightarrow> lea_id \<Rightarrow> string \<Rightarrow> timestamp \<Rightarrow> db \<Rightarrow> db \<Rightarrow> bool" where
  "audited who action l reason now db db' \<longleftrightarrow>
     (\<exists>r. db_audit_log db' = db_audit_log db @ [r] \<and> al_operator_id r = who \<and> al_action r = action \<and>
        al_lea_id r = Some l \<and> al_reason r = reason \<and> al_created_at r = now \<and>
        who \<in> op_id ` set (db_operators db))"

lemma authorize_row_operators:
  "authorize_row l p who seconds notes i now db = Inr (out, previous, db1) \<Longrightarrow>
     db_operators db1 = db_operators db \<and> db_audit_log db1 = db_audit_log db \<and> db_leas db1 = db_leas db"
  by (auto simp: authorize_row_def res_simps insert_authorization_def update_authorization_def
      split: option.splits if_splits)

lemma audited_write:
  assumes "write_audit_log who action kind target (Some l) reason detail now d = Inr db'"
    and "db_audit_log d = db_audit_log db" and "db_operators d = db_operators db"
  shows "audited who action l reason now db db' \<and> db_authorizations db' = db_authorizations d \<and>
    db_leas db' = db_leas d"
  using assms by (auto simp: write_audit_log_Inr audited_def)

lemma update_authorization_sel [simp]:
  "db_audit_log (update_authorization i f db) = db_audit_log db"
  "db_operators (update_authorization i f db) = db_operators db"
  "db_authorizations (update_authorization i f db) =
     update_where (\<lambda>a. au_id a = i) f (db_authorizations db)"
  by (simp_all add: update_authorization_def)

lemma authorize_Inr:
  assumes "authorize l p who reason seconds notes i now db = (db', Inr out)"
  shows "(\<exists>previous db1. authorize_row l p who seconds notes i now db = Inr (out, previous, db1) \<and>
      db_authorizations db' = db_authorizations db1) \<and>
    audited who ''connector.authorized'' l reason now db db'"
proof -
  from assms obtain previous db1 where row: "authorize_row l p who seconds notes i now db = Inr (out, previous, db1)"
    and audit: "write_audit_log who ''connector.authorized'' ''connector_authorization'' (uuid_str (ao_id out)) (Some l)
      reason [(''partner'', JStr p), (''previous_status'', json_of_opt previous),
        (''created_new_row'', JBool (ao_created_new_row out))] now db1 = Inr db'"
    unfolding authorize_def transaction_Inr by (auto simp: res_bind_Inr_iff split: prod.splits)
  from audited_write [OF audit] authorize_row_operators [OF row] row show ?thesis by blast
qed

lemma revoke_Inr:
  assumes "revoke l p who reason now db = (db', Inr out)"
  shows "(\<exists>a. load_live_row l p db = Some a \<and> out = (au_id a, now) \<and>
      db_authorizations db' =
        update_where (\<lambda>b. au_id b = au_id a) (revoke_row now who) (db_authorizations db)) \<and>
    audited who ''connector.revoked'' l reason now db db'"
proof -
  from assms obtain a where a: "load_live_row l p db = Some a" "out = (au_id a, now)"
    and audit: "write_audit_log who ''connector.revoked'' ''connector_authorization'' (uuid_str (au_id a)) (Some l)
      reason [(''partner'', JStr p), (''previous_status'', JStr (au_status a))] now
      (update_authorization (au_id a) (revoke_row now who) db) = Inr db'"
    unfolding revoke_def transaction_Inr by (auto simp: res_bind_Inr_iff split: option.splits)
  from audited_write [OF audit, of db] a show ?thesis by simp
qed

lemma adjust_Inr:
  assumes "adjust_poll_interval l p seconds who reason now db = (db', Inr out)"
  shows "POLL_INTERVAL_MIN \<le> seconds \<and> seconds \<le> POLL_INTERVAL_MAX \<and>
    (\<exists>a. load_live_row l p db = Some a \<and> out = (au_id a, au_poll_interval a, seconds) \<and>
      db_authorizations db' =
        update_where (\<lambda>b. au_id b = au_id a) (\<lambda>r. r\<lparr>au_poll_interval := seconds\<rparr>) (db_authorizations db)) \<and>
    audited who ''connector.poll_interval_adjusted'' l reason now db db'"
proof -
  from assms obtain a where a: "load_live_row l p db = Some a" "out = (au_id a, au_poll_interval a, seconds)"
    and b: "POLL_INTERVAL_MIN \<le> seconds" "seconds \<le> POLL_INTERVAL_MAX"
    and audit: "write_audit_log who ''connector.poll_interval_adjusted'' ''connector_authorization''
      (uuid_str (au_id a)) (Some l) reason
      [(''partner'', JStr p), (''previous_poll_interval_seconds'', JInt (au_poll_interval a)),
       (''new_poll_interval_seconds'', JInt seconds)] now
      (update_authorization (au_id a) (\<lambda>r. r\<lparr>au_poll_interval := seconds\<rparr>) db) = Inr db'"
    unfolding adjust_poll_interval_def transaction_Inr
    by (auto simp: res_bind_Inr_iff validate_interval_Inr split: option.splits)
  from audited_write [OF audit, of db] a b show ?thesis by simp
qed

lemma verbs_Inl:
  "authorize l p who reason seconds notes i now db = (db', Inl e) \<Longrightarrow> db' = db"
  "revoke l p who reason now db = (db', Inl e) \<Longrightarrow> db' = db"
  "adjust_poll_interval l p interval who reason now db = (db', Inl e) \<Longrightarrow> db' = db"
  by (simp_all add: authorize_def revoke_def adjust_poll_interval_def transaction_Inl)

lemma row_ok_sel [simp]:
  "au_id (revoke_row now who a) = au_id a" "pair_of (revoke_row now who a) = pair_of a"
  "\<not> live_auth (revoke_row now who a)" "row_ok a \<Longrightarrow> row_ok (revoke_row now who a)"
  "au_id (a\<lparr>au_poll_interval := s\<rparr>) = au_id a" "pair_of (a\<lparr>au_poll_interval := s\<rparr>) = pair_of a"
  "live_auth (a\<lparr>au_poll_interval := s\<rparr>) = live_auth a"
  "au_id (observe snap a) = au_id a" "pair_of (observe snap a) = pair_of a"
  "live_auth (observe snap a) = live_auth a" "row_ok (observe snap a) = row_ok a"
  by (simp_all add: revoke_row_def observe_def pair_of_def live_auth_def row_ok_def)

section \<open>The table over time\<close>

text \<open>
  The steps that touch the table: the three verbs and the status poller of the sync worker; every
  other operation leaves it alone.
\<close>

inductive authz_step :: "db \<Rightarrow> db \<Rightarrow> bool" where
  Authorize: "authorize l p who reason seconds notes i now db = (db', r) \<Longrightarrow> authz_step db db'"
| Revoke: "revoke l p who reason now db = (db', q) \<Longrightarrow> authz_step db db'"
| Adjust: "adjust_poll_interval l p seconds who reason now db = (db', u) \<Longrightarrow> authz_step db db'"
| Poll: "persist_status p l snap db = Inr (found, db') \<Longrightarrow> authz_step db db'"
| Other: "db_authorizations db' = db_authorizations db \<Longrightarrow> authz_step db db'"

lemma update_by_id_only:
  assumes "authz_ok rows" and "a \<in> set rows" and "b \<in> set rows" and "au_id b = au_id a"
  shows "b = a"
  using assms by (auto simp: authz_ok_def distinct_map inj_on_def)

lemma update_keeps_dead:
  assumes "\<And>b. b \<in> set rows \<Longrightarrow> P b \<Longrightarrow> live_auth b"
  shows "\<forall>b \<in> set rows. \<not> live_auth b \<longrightarrow> b \<in> set (update_where P f rows)"
proof (intro ballI impI)
  fix b assume "b \<in> set rows" "\<not> live_auth b"
  with assms have "b = (if P b then f b else b)" by auto
  with \<open>b \<in> set rows\<close> show "b \<in> set (update_where P f rows)"
    unfolding set_update_where by (intro image_eqI [of b _ b])
qed

lemma update_live_row_ok:
  assumes ok: "authz_ok rows" and a: "a \<in> set rows" "live_auth a"
    and f: "\<And>b. row_ok b \<Longrightarrow> au_id (f b) = au_id b \<and> pair_of (f b) = pair_of b \<and>
      (live_auth (f b) \<longrightarrow> live_auth b) \<and> row_ok (f b)"
  shows "authz_ok (update_where (\<lambda>b. au_id b = au_id a) f rows) \<and>
    (\<forall>b \<in> set rows. \<not> live_auth b \<longrightarrow> b \<in> set (update_where (\<lambda>b. au_id b = au_id a) f rows))"
proof
  show "authz_ok (update_where (\<lambda>b. au_id b = au_id a) f rows)"
    by (rule authz_ok_update [OF ok]) (use ok f in \<open>simp add: authz_ok_def\<close>)
  show "\<forall>b \<in> set rows. \<not> live_auth b \<longrightarrow> b \<in> set (update_where (\<lambda>b. au_id b = au_id a) f rows)"
    by (rule update_keeps_dead) (use update_by_id_only [OF ok a(1)] a(2) in blast)
qed

lemma persist_status_rows:
  assumes "persist_status p l snap db = Inr (found, db')"
  shows "db' = db \<or> db_authorizations db' =
    update_where (live_authorization l p) (observe snap) (db_authorizations db)"
  using assms by (cases "find (live_authorization l p) (db_authorizations db)")
    (auto simp: persist_status_def split: if_splits)

lemma authz_step_ok:
  assumes "authz_step db db'" and ok: "authz_ok (db_authorizations db)"
  shows "authz_ok (db_authorizations db') \<and>
    (\<forall>a \<in> set (db_authorizations db). \<not> live_auth a \<longrightarrow> a \<in> set (db_authorizations db'))"
  using assms(1)
proof cases
  case (Authorize l p who reason seconds nt i now r)
  show ?thesis
  proof (cases r)
    case (Inl e)
    from verbs_Inl(1) [OF Authorize [unfolded Inl]] ok show ?thesis by simp
  next
    case (Inr out)
    from authorize_Inr [OF Authorize [unfolded Inr]] obtain previous db1
      where row: "authorize_row l p who seconds nt i now db = Inr (out, previous, db1)"
        and db': "db_authorizations db' = db_authorizations db1" by blast
    from authorize_row_effect [OF row ok] show ?thesis unfolding db' by blast
  qed
next
  case (Revoke l p who reason now q)
  show ?thesis
  proof (cases q)
    case (Inl e)
    from verbs_Inl(2) [OF Revoke [unfolded Inl]] ok show ?thesis by simp
  next
    case (Inr out)
    from revoke_Inr [OF Revoke [unfolded Inr]] obtain a where a: "load_live_row l p db = Some a"
      and rows: "db_authorizations db' =
        update_where (\<lambda>b. au_id b = au_id a) (revoke_row now who) (db_authorizations db)" by blast
    show ?thesis
      unfolding rows by (rule update_live_row_ok [OF ok]) (use load_live_rowD [OF a] in simp_all)
  qed
next
  case (Adjust l p seconds who reason now u)
  show ?thesis
  proof (cases u)
    case (Inl e)
    from verbs_Inl(3) [OF Adjust [unfolded Inl]] ok show ?thesis by simp
  next
    case (Inr out)
    from adjust_Inr [OF Adjust [unfolded Inr]] obtain a where a: "load_live_row l p db = Some a"
      and b: "POLL_INTERVAL_MIN \<le> seconds" "seconds \<le> POLL_INTERVAL_MAX"
      and rows: "db_authorizations db' =
        update_where (\<lambda>b. au_id b = au_id a) (\<lambda>r. r\<lparr>au_poll_interval := seconds\<rparr>) (db_authorizations db)"
      by blast
    have "row_ok c \<Longrightarrow> row_ok (c\<lparr>au_poll_interval := seconds\<rparr>)" for c :: authorization_row
      using b by (simp add: row_ok_def live_auth_def)
    then show ?thesis
      unfolding rows by (intro update_live_row_ok [OF ok]) (use load_live_rowD [OF a] in simp_all)
  qed
next
  case (Poll p l snap found)
  from persist_status_rows [OF Poll] consider "db' = db" | "db_authorizations db' =
      update_where (live_authorization l p) (observe snap) (db_authorizations db)" by blast
  then show ?thesis
  proof cases
    case 2
    have "authz_ok (db_authorizations db')"
      unfolding 2 by (rule authz_ok_update [OF ok]) (use ok in \<open>simp add: authz_ok_def\<close>)
    moreover have "\<forall>b \<in> set (db_authorizations db). \<not> live_auth b \<longrightarrow> b \<in> set (db_authorizations db')"
      unfolding 2 by (rule update_keeps_dead) (simp add: live_authorization_iff)
    ultimately show ?thesis by blast
  qed (use ok in simp)
qed (use ok in simp)

section \<open>Properties\<close>

lemma mem_active:
  "q \<in> set (active_authorizations db) \<longleftrightarrow> (\<exists>a \<in> set (db_authorizations db). au_status a = ''active'' \<and> pair_of a = q)"
  by (auto simp: active_authorizations_def pair_of_def)

lemma active_live: "row_ok a \<Longrightarrow> au_status a = ''active'' \<Longrightarrow> live_auth a"
  by (auto simp: row_ok_def)

lemma live_unique:
  assumes "authz_ok rows" "a \<in> set rows" "b \<in> set rows" "live_auth a" "live_auth b" "pair_of a = pair_of b"
  shows "a = b"
  using assms by (auto simp: authz_ok_def distinct_map inj_on_def)

text \<open>
  C26. In every state the verbs and the status poller can reach, the table is well formed: ids are
  distinct, a LEA and partner have at most one live row, the status \<open>revoked\<close> and the date of
  revocation agree, and every poll interval lies between 60 and 3600 seconds. A revoked row is
  final: nothing changes it any more, so the history that the list with revoked rows shows is
  never rewritten.
\<close>

theorem authorization_invariant:
  assumes "authz_step\<^sup>*\<^sup>* db0 db" and "authz_ok (db_authorizations db0)"
  shows "authz_ok (db_authorizations db) \<and>
    (\<forall>a \<in> set (db_authorizations db0). au_revoked_at a \<noteq> None \<longrightarrow> a \<in> set (db_authorizations db))"
  using assms
proof (induction rule: rtranclp_induct)
  case (step d d')
  then have ok: "authz_ok (db_authorizations d)"
    and hist: "\<And>a. a \<in> set (db_authorizations db0) \<Longrightarrow> \<not> live_auth a \<Longrightarrow> a \<in> set (db_authorizations d)"
    by (simp_all add: live_auth_def)
  from authz_step_ok [OF step.hyps(2) ok] hist show ?case by (auto simp: live_auth_def)
qed simp

text \<open>
  The daily sweep follows the lifecycle: after a successful authorize, the pair is a target of
  the sweep exactly when the outcome says \<open>active\<close> (a locked row stays locked), after a
  successful revoke it is none, and the other pairs are targets exactly when they were.
\<close>

theorem sweep_follows_authorization:
  assumes "authz_ok (db_authorizations db)"
  shows "(case authorize l p who reason seconds notes i now db of
      (db', Inl e) \<Rightarrow> db' = db
    | (db', Inr out) \<Rightarrow> \<forall>q. q \<in> set (active_authorizations db') \<longleftrightarrow>
        (if q = (l, p) then ao_status out = ''active'' else q \<in> set (active_authorizations db))) \<and>
    (case revoke l p who reason now db of
      (db', Inl e) \<Rightarrow> db' = db
    | (db', Inr out) \<Rightarrow> \<forall>q. q \<in> set (active_authorizations db') \<longleftrightarrow>
        q \<noteq> (l, p) \<and> q \<in> set (active_authorizations db))"
proof
  have ok: "\<And>a. a \<in> set (db_authorizations db) \<Longrightarrow> row_ok a" using assms by (simp add: authz_ok_def)
  show "case authorize l p who reason seconds notes i now db of
      (db', Inl e) \<Rightarrow> db' = db
    | (db', Inr out) \<Rightarrow> \<forall>q. q \<in> set (active_authorizations db') \<longleftrightarrow>
        (if q = (l, p) then ao_status out = ''active'' else q \<in> set (active_authorizations db))"
  proof (cases "authorize l p who reason seconds notes i now db")
    case (Pair db' r)
    show ?thesis
    proof (cases r)
      case (Inl e)
      with Pair verbs_Inl(1) [OF Pair [unfolded Inl]] show ?thesis by simp
    next
      case (Inr out)
      from authorize_Inr [OF Pair [unfolded Inr]] obtain previous db1
        where row: "authorize_row l p who seconds notes i now db = Inr (out, previous, db1)"
          and db': "db_authorizations db' = db_authorizations db1" by blast
      note e = authorize_row_effect [OF row assms]
      from e obtain a where a: "a \<in> set (db_authorizations db1)" "pair_of a = (l, p)" "live_auth a"
        "au_status a = ao_status out" by blast
      have ok1: "\<And>b. b \<in> set (db_authorizations db1) \<Longrightarrow> row_ok b" using e by (simp add: authz_ok_def)
      have "(l, p) \<in> set (active_authorizations db') \<longleftrightarrow> ao_status out = ''active''"
        using a live_unique [of "db_authorizations db1" a] e active_live ok1
        unfolding mem_active db' by metis
      moreover have "q \<in> set (active_authorizations db') \<longleftrightarrow> q \<in> set (active_authorizations db)"
        if "q \<noteq> (l, p)" for q
        using that e unfolding mem_active db' by metis
      ultimately show ?thesis by (simp add: Pair Inr)
    qed
  qed
  show "case revoke l p who reason now db of
      (db', Inl e) \<Rightarrow> db' = db
    | (db', Inr out) \<Rightarrow> \<forall>q. q \<in> set (active_authorizations db') \<longleftrightarrow>
        q \<noteq> (l, p) \<and> q \<in> set (active_authorizations db)"
  proof (cases "revoke l p who reason now db")
    case (Pair db' r)
    show ?thesis
    proof (cases r)
      case (Inl e)
      with Pair verbs_Inl(2) [OF Pair [unfolded Inl]] show ?thesis by simp
    next
      case (Inr out)
      from revoke_Inr [OF Pair [unfolded Inr]] obtain a where a: "load_live_row l p db = Some a"
        and rows: "db_authorizations db' =
          update_where (\<lambda>b. au_id b = au_id a) (revoke_row now who) (db_authorizations db)" by blast
      note m = load_live_rowD [OF a]
      have target: "au_id b = au_id a \<longleftrightarrow> b = a" if "b \<in> set (db_authorizations db)" for b
        using update_by_id_only [OF assms _ that] m by auto
      have same: "pair_of b = (l, p) \<longleftrightarrow> b = a" if "b \<in> set (db_authorizations db)" "au_status b = ''active''" for b
        using live_unique [OF assms that(1), of a] active_live [OF ok [OF that(1)] that(2)] m by auto
      have "q \<in> set (active_authorizations db') \<longleftrightarrow> q \<noteq> (l, p) \<and> q \<in> set (active_authorizations db)" for q
      proof -
        have "q \<in> set (active_authorizations db') \<longleftrightarrow>
            (\<exists>b \<in> set (db_authorizations db). b \<noteq> a \<and> au_status b = ''active'' \<and> pair_of b = q)"
          unfolding mem_active rows set_update_where using target by (auto simp: revoke_row_def)
        then show ?thesis unfolding mem_active using same by blast
      qed
      then show ?thesis by (simp add: Pair Inr)
    qed
  qed
qed

text \<open>
  A poll interval outside 60 to 3600 seconds is refused before anything is read or written.
  Within the bounds the call changes the interval of the live row of the pair and nothing else
  of the table, or raises and changes nothing when there is no such row.
\<close>

theorem poll_interval_bounds:
  "(seconds < 60 \<or> 3600 < seconds \<longrightarrow>
      adjust_poll_interval l p seconds who reason now db = (db, Inl ValueError)) \<and>
   (case adjust_poll_interval l p seconds who reason now db of
      (db', Inl e) \<Rightarrow> db' = db
    | (db', Inr (j, previous, new)) \<Rightarrow> new = seconds \<and> 60 \<le> new \<and> new \<le> 3600 \<and>
        (\<exists>a. load_live_row l p db = Some a \<and> au_id a = j \<and> au_poll_interval a = previous \<and>
           db_authorizations db' =
             update_where (\<lambda>b. au_id b = j) (\<lambda>r. r\<lparr>au_poll_interval := new\<rparr>) (db_authorizations db)))"
proof
  show "seconds < 60 \<or> 3600 < seconds \<longrightarrow>
      adjust_poll_interval l p seconds who reason now db = (db, Inl ValueError)"
    by (auto simp: adjust_poll_interval_def transaction_def validate_interval_def POLL_INTERVAL_MIN_def
        POLL_INTERVAL_MAX_def)
  obtain db' r where run: "adjust_poll_interval l p seconds who reason now db = (db', r)" by fastforce
  show "case adjust_poll_interval l p seconds who reason now db of
      (db', Inl e) \<Rightarrow> db' = db
    | (db', Inr (j, previous, new)) \<Rightarrow> new = seconds \<and> 60 \<le> new \<and> new \<le> 3600 \<and>
        (\<exists>a. load_live_row l p db = Some a \<and> au_id a = j \<and> au_poll_interval a = previous \<and>
           db_authorizations db' =
             update_where (\<lambda>b. au_id b = j) (\<lambda>r. r\<lparr>au_poll_interval := new\<rparr>) (db_authorizations db))"
  proof (cases r)
    case (Inl e)
    with run verbs_Inl(3) [OF run [unfolded Inl]] show ?thesis by simp
  next
    case (Inr out)
    from adjust_Inr [OF run [unfolded Inr]] show ?thesis
      by (auto simp: run Inr POLL_INTERVAL_MIN_def POLL_INTERVAL_MAX_def)
  qed
qed

lemma map_filter_total:
  assumes "\<And>x. x \<in> set xs \<Longrightarrow> \<exists>y. f x = Some y \<and> g y = x"
  shows "map g (List.map_filter f xs) = xs"
  using assms by (induction xs) (fastforce simp: map_filter_simps)+

lemma sorted_split:
  assumes "sorted (map h xs)" and "\<And>x y. P x \<Longrightarrow> \<not> P y \<Longrightarrow> h x < h y"
  shows "xs = filter P xs @ filter (\<lambda>x. \<not> P x) xs"
  using assms(1)
proof (induction xs)
  case (Cons x xs)
  show ?case
  proof (cases "P x")
    case False
    have "\<not> P y" if "y \<in> set xs" for y
      using Cons.prems that assms(2) [OF _ False, of y] by force
    then have "filter P xs = []" by (simp add: filter_empty_conv)
    with False Cons show ?thesis by simp
  qed (use Cons in simp)
qed simp

text \<open>
  The list of authorizations is exact and scoped: every row that passes the filters is
  listed once and no other row is, so a caller with a scope sees rows of its LEAs only and
  revoked rows only when it asks for them; and the live rows come before the revoked ones.
\<close>

theorem authorization_list_exact:
  assumes "\<And>a. a \<in> set (db_authorizations db) \<Longrightarrow> lea_exists db (au_lea_id a)"
  shows "let views = list_authorizations scope only_lea include_revoked db in
    mset (map av_row views) = mset (filter (listed scope only_lea include_revoked) (db_authorizations db)) \<and>
    views = filter (\<lambda>v. live_auth (av_row v)) views @ filter (\<lambda>v. \<not> live_auth (av_row v)) views"
proof -
  let ?rows = "filter (listed scope only_lea include_revoked) (db_authorizations db)"
  let ?vs = "List.map_filter (view_row db) ?rows"
  have "\<exists>v. view_row db a = Some v \<and> av_row v = a" if "a \<in> set ?rows" for a
  proof -
    from assms [of a] that have "lookup_by lr_id (au_lea_id a) (db_leas db) \<noteq> None"
      by (auto simp: lookup_by_None_iff lea_exists_def)
    then show ?thesis by (auto simp: view_row_def)
  qed
  then have "map av_row ?vs = ?rows" by (rule map_filter_total)
  then have "mset (map av_row (sort_key list_order ?vs)) = mset ?rows"
    by (metis mset_map mset_sort)
  moreover have "sort_key list_order ?vs = filter (\<lambda>v. live_auth (av_row v)) (sort_key list_order ?vs) @
      filter (\<lambda>v. \<not> live_auth (av_row v)) (sort_key list_order ?vs)"
    by (rule sorted_split [of list_order]) (auto simp: list_order_def live_auth_def)
  ultimately show ?thesis by (simp add: list_authorizations_def Let_def)
qed

section \<open>Witnesses\<close>

definition s_op :: operator_row where
  "s_op = \<lparr>op_id = 7, op_subject = ''sub'', op_display_name = ''Ann'', op_email = ''a@b'',
     op_status = ''active'', op_created_at = 0, op_last_seen_at = None\<rparr>"

definition s_authz_db :: db where
  "s_authz_db = empty_db\<lparr>
     db_leas := [new_lea_row ''lea-1'' ''LEA 1'' ''traditional_district'' ''NY'' None None],
     db_operators := [s_op]\<rparr>"

definition s_authorized :: db where
  "s_authorized = fst (authorize ''lea-1'' ''edlink'' 7 ''why'' (Some 600) None 40 5 s_authz_db)"

definition s_revoked :: db where
  "s_revoked = fst (revoke ''lea-1'' ''edlink'' 7 ''why'' 6 s_authorized)"

lemma s_authz_ok: "authz_ok (db_authorizations s_authz_db)"
  by (simp add: s_authz_db_def empty_db_def authz_ok_def)

theorem authorization_invariant_witness:
  "authz_ok (db_authorizations s_revoked) \<and> length (db_authorizations s_revoked) = 1"
proof -
  obtain r q where "authorize ''lea-1'' ''edlink'' 7 ''why'' (Some 600) None 40 5 s_authz_db = (s_authorized, r)"
    "revoke ''lea-1'' ''edlink'' 7 ''why'' 6 s_authorized = (s_revoked, q)"
    by (metis s_authorized_def s_revoked_def prod.collapse)
  then have "authz_step s_authz_db s_authorized" "authz_step s_authorized s_revoked"
    by (blast intro: authz_step.intros)+
  then have "authz_step\<^sup>*\<^sup>* s_authz_db s_revoked" by simp
  moreover have "length (db_authorizations s_revoked) = 1" by code_simp
  ultimately show ?thesis using authorization_invariant [OF _ s_authz_ok] by blast
qed

theorem sweep_follows_authorization_witness:
  "(''lea-1'', ''edlink'') \<in> set (active_authorizations s_authorized)"
proof -
  have "(case snd (authorize ''lea-1'' ''edlink'' 7 ''why'' (Some 600) None 40 5 s_authz_db) of
      Inr out \<Rightarrow> ao_status out = ''active'' | _ \<Rightarrow> False)"
    by code_simp
  then obtain out where "authorize ''lea-1'' ''edlink'' 7 ''why'' (Some 600) None 40 5 s_authz_db = (s_authorized, Inr out)"
    "ao_status out = ''active''"
    by (cases "authorize ''lea-1'' ''edlink'' 7 ''why'' (Some 600) None 40 5 s_authz_db")
       (auto simp: s_authorized_def split: sum.splits)
  with sweep_follows_authorization [OF s_authz_ok, of "''lea-1''" "''edlink''" 7 "''why''" "Some 600" None 40 5]
  show ?thesis by simp
qed

theorem poll_interval_bounds_witness:
  "adjust_poll_interval ''lea-1'' ''edlink'' 30 7 ''why'' 6 s_authorized = (s_authorized, Inl ValueError)"
  using poll_interval_bounds [of 30 "''lea-1''" "''edlink''" 7 "''why''" 6 s_authorized] by simp

theorem authorization_list_exact_witness:
  "mset (map av_row (list_authorizations (Some {''lea-1''}) None True s_revoked)) =
   mset (filter (listed (Some {''lea-1''}) None True) (db_authorizations s_revoked))"
proof -
  have "list_all (\<lambda>a. lea_exists s_revoked (au_lea_id a)) (db_authorizations s_revoked)" by code_simp
  then have "\<And>a. a \<in> set (db_authorizations s_revoked) \<Longrightarrow> lea_exists s_revoked (au_lea_id a)"
    by (simp add: list_all_iff)
  from authorization_list_exact [OF this] show ?thesis by (simp add: Let_def)
qed

end
