(* ===== verification/SyncWorker.thy ===== *)
theory SyncWorker
  imports IntegrationStatus Samples
begin

text \<open>
  The sync worker, \<open>services/sync_worker.py\<close>. Every function on the session is a function on
  the database that returns it updated, or the exception; \<open>process_one_page\<close> runs the body
  of the page in one transaction and \<open>drain_lea\<close> is the loop over pages. The connector's
  \<open>fetch_changes\<close>, the fresh job id of \<open>uuid4()\<close> and the clock are arguments; the loop
  gets one of each per page. String comparison in SQL is the order of character codes (the C
  collation), as in Python.
\<close>

section \<open>Payloads\<close>

fun json_of_date :: "date_field \<Rightarrow> json" where
  "json_of_date (DDate d) = JStr (isoformat d)"
| "json_of_date (DOther v) = v"

text \<open>\<open>_json_safe(asdict(entity))\<close>: enums by value, dates in ISO form.\<close>

fun entity_payload :: "entity \<Rightarrow> dict" where
  "entity_payload (ELea l) =
     [(''id'', JStr (le_id l)), (''name'', JStr (le_name l)),
      (''lea_type'', JStr (lea_type_value (le_type l))), (''state'', JStr (le_state l)),
      (''nces_lea_id'', json_of_opt (le_nces l))]"
| "entity_payload (EStudent s) =
     [(''id'', JStr (st_id s)), (''lea_id'', JStr (st_lea_id s)),
      (''given_name'', JStr (st_given_name s)), (''family_name'', JStr (st_family_name s)),
      (''grade'', json_of_opt (st_grade s)),
      (''preferred_first_name'', json_of_opt (st_preferred s)),
      (''primary_school_id'', json_of_opt (st_school s)),
      (''external_ids'', JObj (st_external_ids s))]"
| "entity_payload (EEnrollment e) =
     [(''id'', JStr (en_id e)), (''lea_id'', JStr (en_lea_id e)),
      (''student_id'', JStr (en_student_id e)), (''class_id'', JStr (en_class_id e)),
      (''begin_date'', json_of_date (en_begin e)),
      (''end_date'', (case en_end e of None \<Rightarrow> JNull | Some d \<Rightarrow> json_of_date d))]"

definition natural_key :: "normalized_event \<Rightarrow> string" where
  "natural_key ev = entity_id (ev_entity ev)"

section \<open>Reads\<close>

definition read_cursor :: "db \<Rightarrow> lea_id \<Rightarrow> string \<Rightarrow> cursor" where
  "read_cursor db l partner =
     (case cursor_of db l partner of
        None \<Rightarrow> \<lparr>cur_value = [], cur_observed_at = None\<rparr>
      | Some c \<Rightarrow> \<lparr>cur_value = opt_or (cs_last_event_id c) [], cur_observed_at = cs_last_event_at c\<rparr>)"

definition read_known_student_ids :: "db \<Rightarrow> lea_id \<Rightarrow> student_id list" where
  "read_known_student_ids db l = map sr_id (filter (\<lambda>s. sr_lea_id s = l) (db_students db))"

definition read_live_student_count :: "db \<Rightarrow> lea_id \<Rightarrow> int" where
  "read_live_student_count db l =
     int (count_where (\<lambda>s. sr_lea_id s = l \<and> sr_deleted_at s = None) (db_students db))"

definition deletions_of_job :: "db \<Rightarrow> uuid \<Rightarrow> int" where
  "deletions_of_job db job =
     (\<Sum>t\<leftarrow>[STUDENT, ENROLLMENT, LEA].
        int (count_where (\<lambda>sn. sn_generation sn = job \<and> sn_deleted_upstream sn) (db_snapshots db t)))"

definition read_recent_sync_history ::
  "db \<Rightarrow> lea_id \<Rightarrow> string \<Rightarrow> nat \<Rightarrow> int list \<times> int list" where
  "read_recent_sync_history db l partner limit =
     (let jobs = take limit (sort_key (\<lambda>j. - sj_started_at j)
            (filter (\<lambda>j. sj_lea_id j = l \<and> sj_partner j = partner \<and> sj_status j = ''success'')
              (db_sync_jobs db)))
      in (map sj_event_count jobs, map (\<lambda>j. deletions_of_job db (sj_id j)) jobs))"

definition read_lea_state :: "db \<Rightarrow> lea_id \<Rightarrow> string \<Rightarrow> lea_state" where
  "read_lea_state db l partner =
     (case read_recent_sync_history db l partner 30 of (events, deletions) \<Rightarrow>
        \<lparr>ls_lea_id = l, ls_known_students = read_known_student_ids db l,
         ls_live_count = read_live_student_count db l, ls_event_counts = events,
         ls_deletion_counts = deletions\<rparr>)"

text \<open>The largest source event id among the live snapshots of a key; rows without one come last.\<close>

definition max_string :: "string list \<Rightarrow> string option" where
  "max_string xs = (if xs = [] then None else Some (foldr max xs (hd xs)))"

definition latest_live_source_event_id :: "db \<Rightarrow> lea_id \<Rightarrow> entity_type \<Rightarrow> string \<Rightarrow> string option" where
  "latest_live_source_event_id db l t nk =
     max_string (List.map_filter sn_source_event_id
       (filter (\<lambda>sn. for_key l nk sn \<and> live sn) (db_snapshots db t)))"

section \<open>Writes of a job\<close>

definition running_job :: "uuid \<Rightarrow> lea_id \<Rightarrow> string \<Rightarrow> string \<Rightarrow> timestamp \<Rightarrow> sync_job" where
  "running_job job l partner cursor_before now =
     \<lparr>sj_id = job, sj_lea_id = l, sj_partner = partner, sj_status = ''running'',
      sj_started_at = now, sj_completed_at = None, sj_event_count = 0, sj_error_count = 0,
      sj_warning_count = 0, sj_cursor_before = Some cursor_before, sj_cursor_after = None,
      sj_error_summary = None\<rparr>"

definition issue_row :: "uuid \<Rightarrow> timestamp \<Rightarrow> issue \<Rightarrow> validation_result" where
  "issue_row job now i =
     \<lparr>vr_sync_job_id = job, vr_layer = is_layer i, vr_code = is_code i,
      vr_payload_reference = is_event_id i,
      vr_detail = dict_set (is_detail i) ''severity'' (JStr (severity_value (is_severity i))),
      vr_created_at = now\<rparr>"

definition persist_validation_issues ::
  "uuid \<Rightarrow> validation_report \<Rightarrow> timestamp \<Rightarrow> db \<Rightarrow> exn + db" where
  "persist_validation_issues job rp now db =
     (if rp_issues rp = [] then Inr db
      else if job \<notin> job_ids db then
        Inl (ForeignKeyViolation ''sync_validation_results_sync_job_id_fkey'')
      else Inr (db\<lparr>db_validation_results :=
        db_validation_results db @ map (issue_row job now) (rp_issues rp)\<rparr>))"

definition mark_sync_job_failed ::
  "uuid \<Rightarrow> timestamp \<Rightarrow> int \<Rightarrow> int \<Rightarrow> string \<Rightarrow> db \<Rightarrow> db" where
  "mark_sync_job_failed job now errors warnings summary =
     update_sync_job job (\<lambda>j. j\<lparr>sj_status := ''failed'', sj_completed_at := Some now,
       sj_error_count := errors, sj_warning_count := warnings, sj_error_summary := Some summary\<rparr>)"

definition mark_sync_job_success ::
  "uuid \<Rightarrow> timestamp \<Rightarrow> int \<Rightarrow> int \<Rightarrow> int \<Rightarrow> string \<Rightarrow> db \<Rightarrow> db" where
  "mark_sync_job_success job now events errors warnings cursor_after =
     update_sync_job job (\<lambda>j. j\<lparr>sj_status := ''success'', sj_completed_at := Some now,
       sj_event_count := events, sj_error_count := errors, sj_warning_count := warnings,
       sj_cursor_after := Some cursor_after\<rparr>)"

text \<open>On a conflict the row keeps its \<open>cold_start_required\<close>.\<close>

definition merge_cursor :: "cursor_row \<Rightarrow> cursor_row \<Rightarrow> cursor_row" where
  "merge_cursor old new = new\<lparr>cs_cold_start_required := cs_cold_start_required old\<rparr>"

definition upsert_cursor_state :: "lea_id \<Rightarrow> string \<Rightarrow> cursor \<Rightarrow> timestamp \<Rightarrow> db \<Rightarrow> db" where
  "upsert_cursor_state l partner c now =
     write_cursor merge_cursor
       \<lparr>cs_lea_id = l, cs_partner = partner,
        cs_last_event_id = (if cur_value c = [] then None else Some (cur_value c)),
        cs_last_event_at = cur_observed_at c, cs_last_poll_at = Some now,
        cs_cold_start_required = False, cs_updated_at = now\<rparr>"

definition write_quarantine_row ::
  "uuid \<Rightarrow> lea_id \<Rightarrow> normalized_event \<Rightarrow> timestamp \<Rightarrow> db \<Rightarrow> exn + db" where
  "write_quarantine_row job l ev now db =
     (if job \<notin> job_ids db then Inl (ForeignKeyViolation ''quarantine_sync_job_id_fkey'')
      else Inr (db\<lparr>db_quarantine := db_quarantine db @
        [\<lparr>qr_id = db_next_id db, qr_sync_job_id = job, qr_lea_id = l,
          qr_entity_type = entity_type_value (ev_entity_type ev), qr_entity_id = natural_key ev,
          qr_reason = ''Layer 4: referential dependency unresolved'',
          qr_raw_payload = JObj (dict_set (entity_payload (ev_entity ev)) ''source_event_id''
            (JStr (ev_source_event_id ev))),
          qr_created_at = now, qr_resolved_at = None, qr_resolution_status = None,
          qr_resolution_operator = None\<rparr>], db_next_id := Suc (db_next_id db)\<rparr>))"

section \<open>Writes of an event\<close>

definition mark_prior_snapshot_superseded ::
  "uuid \<Rightarrow> lea_id \<Rightarrow> entity_type \<Rightarrow> string \<Rightarrow> timestamp \<Rightarrow> db \<Rightarrow> exn + db" where
  "mark_prior_snapshot_superseded job l t nk now =
     supersede_where t (\<lambda>sn. for_key l nk sn \<and> live sn) (Some job) (Some now)"

text \<open>An LEA snapshot has no column besides its natural key, which is its LEA id.\<close>

definition insert_snapshot ::
  "uuid \<Rightarrow> lea_id \<Rightarrow> normalized_event \<Rightarrow> bool \<Rightarrow> timestamp \<Rightarrow> db \<Rightarrow> exn + db" where
  "insert_snapshot job l ev deleted now =
     insert_snapshot_row (ev_entity_type ev)
       \<lparr>sn_id = 0, sn_key = natural_key ev,
        sn_lea_id = (if ev_entity_type ev = LEA then natural_key ev else l),
        sn_generation = job, sn_superseded_by = None, sn_superseded_at = None,
        sn_deleted_upstream = deleted, sn_source_event_id = Some (ev_source_event_id ev),
        sn_source_event_at = Some (ev_occurred_at ev), sn_created_at = now,
        sn_payload = entity_payload (ev_entity ev)\<rparr>"

definition deleted_stamp :: "bool \<Rightarrow> timestamp \<Rightarrow> timestamp option" where
  "deleted_stamp deleted now = (if deleted then Some now else None)"

definition student_row_of :: "student \<Rightarrow> timestamp option \<Rightarrow> student_row" where
  "student_row_of s del =
     \<lparr>sr_id = st_id s, sr_lea_id = st_lea_id s, sr_given_name = st_given_name s,
      sr_family_name = st_family_name s, sr_grade = st_grade s, sr_preferred = st_preferred s,
      sr_school = st_school s, sr_external_ids = JObj (st_external_ids s), sr_deleted_at = del\<rparr>"

definition upsert_student :: "student \<Rightarrow> bool \<Rightarrow> timestamp \<Rightarrow> db \<Rightarrow> exn + db" where
  "upsert_student s deleted now =
     write_student (\<lambda>_ new. new) (student_row_of s (deleted_stamp deleted now))"

text \<open>
  Layer 3 has rejected every event whose date fields are not dates; a value of another type does
  not get here, and the model refuses it.
\<close>

fun date_param :: "date_field \<Rightarrow> exn + date" where
  "date_param (DDate d) = Inr d"
| "date_param (DOther _) = Inl TypeError"

definition enrollment_row_of :: "enrollment \<Rightarrow> date \<Rightarrow> date option \<Rightarrow> timestamp option \<Rightarrow> enrollment_row" where
  "enrollment_row_of e b f del =
     \<lparr>er_id = en_id e, er_lea_id = en_lea_id e, er_student_id = en_student_id e,
      er_class_id = en_class_id e, er_begin = b, er_end = f, er_deleted_at = del\<rparr>"

definition upsert_enrollment :: "enrollment \<Rightarrow> bool \<Rightarrow> timestamp \<Rightarrow> db \<Rightarrow> exn + db" where
  "upsert_enrollment e deleted now db =
     res_bind (date_param (en_begin e)) (\<lambda>b.
     res_bind (case en_end e of None \<Rightarrow> Inr None
               | Some d \<Rightarrow> res_bind (date_param d) (\<lambda>f. Inr (Some f))) (\<lambda>f.
       write_enrollment (\<lambda>_ new. new) (enrollment_row_of e b f (deleted_stamp deleted now)) db))"

text \<open>\<open>VARCHAR(2)\<close> takes two characters; excess blanks are cut, anything else is an error.\<close>

definition varchar2 :: "string \<Rightarrow> exn + string" where
  "varchar2 s =
     (if \<forall>c \<in> set (drop 2 s). c = CHR '' '' then Inr (take 2 s) else Inl StringDataRightTruncation)"

definition merge_lea :: "lea_row \<Rightarrow> lea_row \<Rightarrow> lea_row" where
  "merge_lea old new =
     old\<lparr>lr_name := lr_name new, lr_type := lr_type new, lr_state := lr_state new,
         lr_nces := lr_nces new, lr_deleted_at := lr_deleted_at new\<rparr>"

definition upsert_lea_entity :: "lea \<Rightarrow> bool \<Rightarrow> timestamp \<Rightarrow> db \<Rightarrow> exn + db" where
  "upsert_lea_entity l deleted now db =
     res_bind (varchar2 (le_state l)) (\<lambda>st.
       Inr (db\<lparr>db_leas := upsert lr_id merge_lea
         (new_lea_row (le_id l) (le_name l) (lea_type_value (le_type l)) st (le_nces l)
           (deleted_stamp deleted now)) (db_leas db)\<rparr>))"

text \<open>The \<open>assert isinstance\<close> of each writer is the last branch.\<close>

definition upsert_canonical :: "normalized_event \<Rightarrow> bool \<Rightarrow> timestamp \<Rightarrow> db \<Rightarrow> exn + db" where
  "upsert_canonical ev deleted now =
     (case (ev_entity_type ev, ev_entity ev) of
        (STUDENT, EStudent s) \<Rightarrow> upsert_student s deleted now
      | (ENROLLMENT, EEnrollment e) \<Rightarrow> upsert_enrollment e deleted now
      | (LEA, ELea l) \<Rightarrow> upsert_lea_entity l deleted now
      | _ \<Rightarrow> (\<lambda>_. Inl AssertionError))"

text \<open>\<open>False\<close> when an event with this source id or a later one was applied before.\<close>

definition already_applied :: "lea_id \<Rightarrow> normalized_event \<Rightarrow> db \<Rightarrow> bool" where
  "already_applied l ev db =
     (case latest_live_source_event_id db l (ev_entity_type ev) (natural_key ev) of
        None \<Rightarrow> False | Some latest \<Rightarrow> ev_source_event_id ev \<le> latest)"

definition write_event :: "uuid \<Rightarrow> lea_id \<Rightarrow> timestamp \<Rightarrow> normalized_event \<Rightarrow> db \<Rightarrow> exn + db" where
  "write_event job l now ev db =
     (let deleted = (ev_operation ev = DELETED) in
      res_bind (mark_prior_snapshot_superseded job l (ev_entity_type ev) (natural_key ev) now db)
        (\<lambda>db1. res_bind (insert_snapshot job l ev deleted now db1)
          (\<lambda>db2. upsert_canonical ev deleted now db2)))"

definition apply_event ::
  "uuid \<Rightarrow> lea_id \<Rightarrow> timestamp \<Rightarrow> normalized_event \<Rightarrow> db \<Rightarrow> exn + (bool \<times> db)" where
  "apply_event job l now ev db =
     (if already_applied l ev db then Inr (False, db)
      else res_bind (write_event job l now ev db) (\<lambda>db'. Inr (True, db')))"

section \<open>One page\<close>

record page_outcome =
  po_sync_job_id :: uuid
  po_lea_id :: lea_id
  po_status :: string
  po_cursor_before :: string
  po_cursor_after :: string
  po_event_count :: int
  po_skipped_count :: int
  po_quarantined_count :: int
  po_error_count :: int
  po_warning_count :: int
  po_has_more :: bool

text \<open>The counters of the loop over the events: applied, skipped, quarantined.\<close>

record tally =
  applied :: int
  skipped :: int
  quarantined :: int

definition process_event ::
  "validation_report \<Rightarrow> uuid \<Rightarrow> lea_id \<Rightarrow> timestamp \<Rightarrow> normalized_event \<Rightarrow> tally \<times> db \<Rightarrow>
   exn + (tally \<times> db)" where
  "process_event rp job l now ev = (\<lambda>(n, db).
     if ev_id ev \<in> set (rp_quarantined_ids rp) then
       res_bind (write_quarantine_row job l ev now db) (\<lambda>db'.
         Inr (n\<lparr>quarantined := quarantined n + 1\<rparr>, db'))
     else if ev_id ev \<notin> set (rp_ok_ids rp) then Inr (n\<lparr>skipped := skipped n + 1\<rparr>, db)
     else res_bind (apply_event job l now ev db) (\<lambda>(changed, db').
       if changed then Inr (n\<lparr>applied := applied n + 1\<rparr>, db')
       else Inr (n\<lparr>skipped := skipped n + 1\<rparr>, db')))"

definition process_events ::
  "validation_report \<Rightarrow> uuid \<Rightarrow> lea_id \<Rightarrow> timestamp \<Rightarrow> normalized_event list \<Rightarrow> db \<Rightarrow>
   exn + (tally \<times> db)" where
  "process_events rp job l now evs db =
     fold_res (process_event rp job l now) evs (\<lparr>applied = 0, skipped = 0, quarantined = 0\<rparr>, db)"

definition issue_part :: "issue \<Rightarrow> string" where
  "issue_part i = ''L'' @ string_of_nat (is_layer i) @ '':'' @ is_code i @
     (case is_event_id i of None \<Rightarrow> [] | Some e \<Rightarrow> ''@'' @ e)"

definition summarize_blocking_errors :: "validation_report \<Rightarrow> string" where
  "summarize_blocking_errors rp =
     (let blocking = filter (\<lambda>i. is_severity i = ERROR) (rp_issues rp);
          parts = map issue_part (take 3 blocking) @
            (if length blocking > 3
             then [''(+'' @ string_of_nat (length blocking - 3) @ '' more)''] else [])
      in if parts = [] then ''page blocked'' else join_with ''; '' parts)"

definition failed_outcome :: "uuid \<Rightarrow> lea_id \<Rightarrow> string \<Rightarrow> validation_report \<Rightarrow> page_outcome" where
  "failed_outcome job l cursor_before rp =
     \<lparr>po_sync_job_id = job, po_lea_id = l, po_status = ''failed'', po_cursor_before = cursor_before,
      po_cursor_after = cursor_before, po_event_count = 0, po_skipped_count = 0,
      po_quarantined_count = 0, po_error_count = error_count rp,
      po_warning_count = warning_count rp, po_has_more = False\<rparr>"

definition success_outcome ::
  "uuid \<Rightarrow> lea_id \<Rightarrow> string \<Rightarrow> event_page \<Rightarrow> validation_report \<Rightarrow> tally \<Rightarrow> page_outcome" where
  "success_outcome job l cursor_before page rp n =
     \<lparr>po_sync_job_id = job, po_lea_id = l, po_status = ''success'', po_cursor_before = cursor_before,
      po_cursor_after = cur_value (pg_next_cursor page), po_event_count = applied n,
      po_skipped_count = skipped n, po_quarantined_count = quarantined n,
      po_error_count = error_count rp, po_warning_count = warning_count rp,
      po_has_more = pg_has_more page\<rparr>"

type_synonym page_result = "page_outcome \<times> validation_report \<times> string option"

text \<open>The two ends of a page: the job fails, or its events are written and the cursor moves.\<close>

definition fail_page ::
  "uuid \<Rightarrow> lea_id \<Rightarrow> timestamp \<Rightarrow> string \<Rightarrow> validation_report \<Rightarrow> db \<Rightarrow> exn + (page_result \<times> db)" where
  "fail_page job l now cursor_before rp db =
     (let summary = summarize_blocking_errors rp in
      Inr ((failed_outcome job l cursor_before rp, rp, Some summary),
           mark_sync_job_failed job now (error_count rp) (warning_count rp) summary db))"

definition commit_page ::
  "string \<Rightarrow> uuid \<Rightarrow> lea_id \<Rightarrow> timestamp \<Rightarrow> string \<Rightarrow> event_page \<Rightarrow> validation_report \<Rightarrow> db \<Rightarrow>
   exn + (page_result \<times> db)" where
  "commit_page partner job l now cursor_before page rp db =
     res_bind (process_events rp job l now (pg_events page) (ensure_lea_exists l db)) (\<lambda>(n, db1).
       Inr ((success_outcome job l cursor_before page rp n, rp, None),
            upsert_cursor_state l partner (pg_next_cursor page) now
              (mark_sync_job_success job now (applied n) (error_count rp) (warning_count rp)
                (cur_value (pg_next_cursor page)) db1)))"

definition page_body ::
  "string \<Rightarrow> (lea_id \<Rightarrow> cursor \<Rightarrow> exn + event_page) \<Rightarrow> lea_id \<Rightarrow> uuid \<Rightarrow> timestamp \<Rightarrow> db \<Rightarrow>
   exn + (page_result \<times> db)" where
  "page_body partner fetch_changes l job now db =
     (let cursor_before = read_cursor db l partner in
      res_bind (fetch_changes l cursor_before) (\<lambda>page.
      res_bind (run_pipeline page (read_lea_state db l partner)) (\<lambda>rp.
      res_bind (insert_sync_job (running_job job l partner (cur_value cursor_before) now) db) (\<lambda>db1.
      res_bind (persist_validation_issues job rp now db1) (\<lambda>db2.
        if rp_page_blocked rp then fail_page job l now (cur_value cursor_before) rp db2
        else commit_page partner job l now (cur_value cursor_before) page rp db2)))))"

definition process_one_page ::
  "string \<Rightarrow> (lea_id \<Rightarrow> cursor \<Rightarrow> exn + event_page) \<Rightarrow> lea_id \<Rightarrow> uuid \<Rightarrow> timestamp \<Rightarrow> db \<Rightarrow>
   db \<times> (exn + page_result)" where
  "process_one_page partner fetch_changes l job now =
     transaction (page_body partner fetch_changes l job now)"

section \<open>The drain\<close>

text \<open>
  At most \<open>max_pages\<close> pages, each its own transaction: page number \<open>i\<close> of the drain is
  \<open>step i\<close>. An exception ends the drain with the pages committed so far and the alerts already
  sent. \<open>alerts\<close> says whether the worker has an alert service.
\<close>

definition page_alerts :: "bool \<Rightarrow> string \<Rightarrow> lea_id \<Rightarrow> page_result \<Rightarrow> alert_record list" where
  "page_alerts alerts partner l = (\<lambda>(out, rp, summary).
     if alerts then evaluate_sync_outcome (po_sync_job_id out) l partner (po_status out) rp summary
     else [])"

fun drain_pages ::
  "(nat \<Rightarrow> db \<Rightarrow> db \<times> (exn + page_result)) \<Rightarrow> (page_result \<Rightarrow> alert_record list) \<Rightarrow> nat \<Rightarrow> nat \<Rightarrow>
   db \<Rightarrow> db \<times> alert_record list \<times> (exn + page_outcome list)" where
  "drain_pages step notify 0 i db = (db, [], Inr [])"
| "drain_pages step notify (Suc n) i db =
     (case step i db of
        (db', Inl e) \<Rightarrow> (db', [], Inl e)
      | (db', Inr r) \<Rightarrow>
          if \<not> po_has_more (fst r) \<or> po_status (fst r) \<noteq> ''success'' then (db', notify r, Inr [fst r])
          else (case drain_pages step notify n (Suc i) db' of
                  (db'', sent, Inl e) \<Rightarrow> (db'', notify r @ sent, Inl e)
                | (db'', sent, Inr outs) \<Rightarrow> (db'', notify r @ sent, Inr (fst r # outs))))"

definition DEFAULT_MAX_PAGES :: nat where
  "DEFAULT_MAX_PAGES = 100"

definition drain_lea ::
  "(lea_id \<Rightarrow> db \<Rightarrow> db \<times> alert_record list \<times> (exn + status_record option)) option \<Rightarrow> bool \<Rightarrow> nat \<Rightarrow>
   string \<Rightarrow> (nat \<Rightarrow> lea_id \<Rightarrow> cursor \<Rightarrow> exn + event_page) \<Rightarrow> (nat \<Rightarrow> uuid) \<Rightarrow> (nat \<Rightarrow> timestamp) \<Rightarrow>
   lea_id \<Rightarrow> db \<Rightarrow> db \<times> alert_record list \<times> (exn + page_outcome list)" where
  "drain_lea poller alerts max_pages partner fetch ids clock l db =
     (let pages = drain_pages (\<lambda>i. process_one_page partner (fetch i) l (ids i) (clock i))
            (page_alerts alerts partner l) max_pages 0 in
      case poller of
        None \<Rightarrow> pages db
      | Some poll \<Rightarrow>
          (case poll l db of
             (db', sent, Inl e) \<Rightarrow> (db', sent, Inl e)
           | (db', sent, Inr r) \<Rightarrow>
               if (case r of None \<Rightarrow> False | Some rec \<Rightarrow> sr_rec_is_degraded rec) then (db', sent, Inr [])
               else (case pages db' of (db'', sent', out) \<Rightarrow> (db'', sent @ sent', out))))"

end
