(* ===== verification/SyncInvariants.thy ===== *)
theory SyncInvariants
  imports SyncWorker
begin

text \<open>
  What the sync worker keeps and does: the frame of each write, \<open>write_event\<close> as an
  interpretation of \<open>snapshot_writer\<close>, the refinement of a page by a last-writer-wins fold over
  the abstract store, and the properties of a page and of a drain.
\<close>

section \<open>Frames\<close>

lemma set_snapshots_sel [simp]:
  "db_snapshots (set_snapshots t rows db) = (db_snapshots db)(t := rows)"
  "db_next_id (set_snapshots t rows db) = db_next_id db"
  "job_ids (set_snapshots t rows db) = job_ids db"
  by (simp_all add: set_snapshots_def job_ids_def)

text \<open>A canonical write changes nothing but the three canonical tables.\<close>

definition clear_canonical :: "db \<Rightarrow> db" where
  "clear_canonical db = db\<lparr>db_leas := [], db_students := [], db_enrollments := []\<rparr>"

lemma clear_canonicalD:
  assumes "clear_canonical b = clear_canonical a"
  shows "db_snapshots b = db_snapshots a" "db_sync_jobs b = db_sync_jobs a"
    "db_validation_results b = db_validation_results a" "db_quarantine b = db_quarantine a"
    "db_cursors b = db_cursors a" "db_next_id b = db_next_id a"
  using arg_cong [OF assms, of db_snapshots] arg_cong [OF assms, of db_sync_jobs]
    arg_cong [OF assms, of db_validation_results] arg_cong [OF assms, of db_quarantine]
    arg_cong [OF assms, of db_cursors] arg_cong [OF assms, of db_next_id]
  by (simp_all add: clear_canonical_def)

lemma write_student_frame:
  "write_student merge row db = Inr db' \<Longrightarrow>
     db' = db\<lparr>db_students := upsert sr_id merge row (db_students db)\<rparr> \<and> lea_exists db (sr_lea_id row)"
  by (auto simp: write_student_def split: if_splits)

lemma write_enrollment_frame:
  "write_enrollment merge row db = Inr db' \<Longrightarrow>
     db' = db\<lparr>db_enrollments := upsert er_id merge row (db_enrollments db)\<rparr> \<and>
     lea_exists db (er_lea_id row) \<and> student_in_lea db (er_lea_id row) (er_student_id row)"
  by (auto simp: write_enrollment_def split: if_splits)

lemma upsert_canonical_cases:
  assumes "upsert_canonical ev del now db = Inr db'"
  obtains s where "ev_entity_type ev = STUDENT" "ev_entity ev = EStudent s"
      "upsert_student s del now db = Inr db'"
    | e where "ev_entity_type ev = ENROLLMENT" "ev_entity ev = EEnrollment e"
      "upsert_enrollment e del now db = Inr db'"
    | l where "ev_entity_type ev = LEA" "ev_entity ev = ELea l"
      "upsert_lea_entity l del now db = Inr db'"
  using assms unfolding upsert_canonical_def
  by (cases "ev_entity_type ev"; cases "ev_entity ev") auto

lemma row_of_sel [simp]:
  "sr_id (student_row_of s d) = st_id s" "sr_lea_id (student_row_of s d) = st_lea_id s"
  "er_id (enrollment_row_of e b f d) = en_id e" "er_lea_id (enrollment_row_of e b f d) = en_lea_id e"
  "er_student_id (enrollment_row_of e b f d) = en_student_id e"
  by (simp_all add: student_row_of_def enrollment_row_of_def)

lemma upsert_enrollment_row:
  assumes "upsert_enrollment e del now db = Inr db'"
  shows "\<exists>row. er_id row = en_id e \<and> er_lea_id row = en_lea_id e \<and>
    er_student_id row = en_student_id e \<and> write_enrollment (\<lambda>_ new. new) row db = Inr db'"
proof -
  from assms obtain b f where
    "write_enrollment (\<lambda>_ new. new) (enrollment_row_of e b f (deleted_stamp del now)) db = Inr db'"
    by (auto simp: upsert_enrollment_def res_simps)
  then show ?thesis by (metis row_of_sel(3-5))
qed

interpretation lea_table: keyed_table lr_id merge_lea
  by unfold_locales (simp add: merge_lea_def)

lemma upsert_canonical_frame:
  assumes "upsert_canonical ev del now db = Inr db'"
  shows "clear_canonical db' = clear_canonical db"
  using assms
proof (cases rule: upsert_canonical_cases)
  case (1 s)
  then show ?thesis
    by (auto simp: upsert_student_def clear_canonical_def dest!: write_student_frame)
next
  case (2 e)
  from upsert_enrollment_row [OF this(3)] show ?thesis
    by (auto simp: clear_canonical_def dest!: write_enrollment_frame)
next
  case (3 l)
  then show ?thesis by (auto simp: upsert_lea_entity_def clear_canonical_def res_simps)
qed

section \<open>The worker is a snapshot writer\<close>

text \<open>
  An event for the LEA table must be about the LEA being processed: the row is filed under the
  key of the entity, the prior row is looked up under the LEA of the drain.
\<close>

definition own_lea :: "lea_id \<Rightarrow> normalized_event \<Rightarrow> bool" where
  "own_lea l ev \<longleftrightarrow> (ev_entity_type ev = LEA \<longrightarrow> natural_key ev = l)"

definition event_value :: "normalized_event \<Rightarrow> snapshot_value" where
  "event_value ev =
     (Some (ev_source_event_id ev), entity_payload (ev_entity ev), ev_operation ev = DELETED)"

lemma write_event_parts:
  assumes "write_event job l now ev db = Inr db'"
  obtains row rest where "live row" and "own_lea l ev \<longrightarrow> for_key l (natural_key ev) row"
    and "sn_id row = db_next_id db" and "snapshot_value row = event_value ev"
    and "sn_generation row = job"
    and "db_snapshots db' = (db_snapshots db)(ev_entity_type ev :=
      supersede_live l (natural_key ev) job now (db_snapshots db (ev_entity_type ev)) @ [row])"
    and "db_next_id db' = Suc (db_next_id db)" and "job \<in> job_ids db"
    and "rest = (set_snapshots (ev_entity_type ev) (db_snapshots db' (ev_entity_type ev)) db)
           \<lparr>db_next_id := Suc (db_next_id db)\<rparr>"
    and "upsert_canonical ev (ev_operation ev = DELETED) now rest = Inr db'"
proof -
  let ?t = "ev_entity_type ev" and ?k = "natural_key ev"
  from assms obtain db1 db2 where
    1: "mark_prior_snapshot_superseded job l ?t ?k now db = Inr db1"
    and 2: "insert_snapshot job l ev (ev_operation ev = DELETED) now db1 = Inr db2"
    and 3: "upsert_canonical ev (ev_operation ev = DELETED) now db2 = Inr db'"
    by (auto simp: write_event_def Let_def res_simps)
  from 1 have db1: "db1 = set_snapshots ?t (supersede_live l ?k job now (db_snapshots db ?t)) db"
    by (auto simp: mark_prior_snapshot_superseded_def supersede_where_def supersede_live_def
        split: if_splits)
  let ?row = "\<lparr>sn_id = db_next_id db, sn_key = ?k, sn_lea_id = (if ?t = LEA then ?k else l),
    sn_generation = job, sn_superseded_by = None, sn_superseded_at = None,
    sn_deleted_upstream = (ev_operation ev = DELETED),
    sn_source_event_id = Some (ev_source_event_id ev),
    sn_source_event_at = Some (ev_occurred_at ev), sn_created_at = now,
    sn_payload = entity_payload (ev_entity ev)\<rparr>"
  from 2 have db2: "db2 = (set_snapshots ?t (supersede_live l ?k job now (db_snapshots db ?t) @ [?row]) db)
      \<lparr>db_next_id := Suc (db_next_id db)\<rparr>" and job: "job \<in> job_ids db"
    by (auto simp: insert_snapshot_def insert_snapshot_row_def db1 set_snapshots_def job_ids_def
        split: if_splits)
  note fr = clear_canonicalD [OF upsert_canonical_frame [OF 3]]
  have sn: "db_snapshots db' = (db_snapshots db)(?t :=
      supersede_live l ?k job now (db_snapshots db ?t) @ [?row])"
    using fr(1) by (simp add: db2)
  show ?thesis
  proof (rule that [of ?row db2])
    show "db2 = (set_snapshots ?t (db_snapshots db' ?t) db)\<lparr>db_next_id := Suc (db_next_id db)\<rparr>"
      by (simp add: sn) (simp add: db2)
  qed (use fr(6) job 3 sn in \<open>auto simp: live_def own_lea_def for_key_def snapshot_value_def
      event_value_def db2\<close>)
qed

interpretation event_writer: snapshot_writer "write_event job l now" "own_lea l" ev_entity_type
  "\<lambda>_. l" natural_key event_value for job l now
proof
  fix e db db'
  assume w: "write_event job l now e db = Inr db'"
  show "db_next_id db' = Suc (db_next_id db)" by (rule write_event_parts [OF w])
  show "\<exists>gen ts row. live row \<and> (own_lea l e \<longrightarrow> for_key l (natural_key e) row) \<and>
      sn_id row = db_next_id db \<and> snapshot_value row = event_value e \<and>
      db_snapshots db' = (db_snapshots db)(ev_entity_type e :=
        supersede_live l (natural_key e) gen ts (db_snapshots db (ev_entity_type e)) @ [row])"
    by (rule write_event_parts [OF w]) blast
qed

section \<open>Deduplication\<close>

lemma foldr_max: "foldr max xs (x :: 'a :: linorder) \<in> insert x (set xs) \<and> (\<forall>y \<in> insert x (set xs). y \<le> foldr max xs x)"
  by (induction xs) (auto simp: max_def le_max_iff_disj intro: order_trans)

lemma max_string_Some:
  assumes "max_string xs = Some m"
  shows "m \<in> set xs" and "x \<in> set xs \<Longrightarrow> x \<le> m"
  using assms foldr_max [of xs "hd xs"] by (auto simp: max_string_def split: if_splits)

lemma latest_after_write:
  assumes "write_event job l now ev db = Inr db'" and "own_lea l ev"
  shows "latest_live_source_event_id db' l t k =
    (if (t, k) = (ev_entity_type ev, natural_key ev) then Some (ev_source_event_id ev)
     else latest_live_source_event_id db l t k)"
proof -
  from event_writer.put_live [OF assms, of l k t] obtain row where
    v: "snapshot_value row = event_value ev" and
    f: "filter (\<lambda>sn. for_key l k sn \<and> live sn) (db_snapshots db' t) =
      (if (t, l, k) = (ev_entity_type ev, l, natural_key ev) then [row]
       else filter (\<lambda>sn. for_key l k sn \<and> live sn) (db_snapshots db t))" by blast
  from v have "sn_source_event_id row = Some (ev_source_event_id ev)"
    by (simp add: snapshot_value_def event_value_def)
  moreover have "(t, l, k) = (ev_entity_type ev, l, natural_key ev) \<longleftrightarrow>
      (t, k) = (ev_entity_type ev, natural_key ev)" by simp
  ultimately show ?thesis
    unfolding latest_live_source_event_id_def f
    by (simp only: if_distrib [where f = "\<lambda>xs. max_string (List.map_filter sn_source_event_id xs)"])
       (simp add: max_string_def map_filter_simps)
qed

lemma latest_same:
  "db_snapshots b = db_snapshots a \<Longrightarrow> latest_live_source_event_id b = latest_live_source_event_id a"
  by (simp add: latest_live_source_event_id_def fun_eq_iff)

lemma already_applied_same: "db_snapshots b = db_snapshots a \<Longrightarrow> already_applied l ev b = already_applied l ev a"
  by (simp add: already_applied_def latest_live_source_event_id_def)

text \<open>Once applied, always applied: an event that is applied only moves the mark of its key up.\<close>

lemma write_event_applied:
  assumes "write_event job l now ev db = Inr db'" and "own_lea l ev"
  shows "already_applied l ev db'"
  using latest_after_write [OF assms] by (simp add: already_applied_def)

lemma write_event_keeps_applied:
  assumes "write_event job l now ev db = Inr db'" and "own_lea l ev"
    and "\<not> already_applied l ev db" and "already_applied l ev' db"
  shows "already_applied l ev' db'"
proof (cases "(ev_entity_type ev', natural_key ev') = (ev_entity_type ev, natural_key ev)")
  case True
  then have k: "ev_entity_type ev' = ev_entity_type ev" "natural_key ev' = natural_key ev" by simp_all
  obtain m where "ev_source_event_id ev' \<le> m" "m < ev_source_event_id ev"
    using assms(3,4) by (auto simp: already_applied_def k split: option.splits)
  then have "ev_source_event_id ev' \<le> ev_source_event_id ev" by simp
  with True latest_after_write [OF assms(1,2)] show ?thesis by (simp add: already_applied_def)
next
  case False
  show ?thesis
    using assms(4) unfolding already_applied_def latest_after_write [OF assms(1,2)] if_not_P [OF False] .
qed

section \<open>A page refines a fold over the abstract store\<close>

text \<open>Last writer wins, by source event id: an event that is not newer changes nothing.\<close>

definition lww_step :: "lea_id \<Rightarrow> normalized_event \<Rightarrow>
    (lea_id \<times> entity_type \<times> string \<Rightarrow> snapshot_value option) \<Rightarrow>
    lea_id \<times> entity_type \<times> string \<Rightarrow> snapshot_value option" where
  "lww_step l ev m =
     (let k = (l, ev_entity_type ev, natural_key ev) in
      case m k of
        Some (Some src, _) \<Rightarrow> if ev_source_event_id ev \<le> src then m else m(k \<mapsto> event_value ev)
      | _ \<Rightarrow> m(k \<mapsto> event_value ev))"

definition to_write :: "validation_report \<Rightarrow> normalized_event \<Rightarrow> bool" where
  "to_write rp ev \<longleftrightarrow> ev_id ev \<notin> set (rp_quarantined_ids rp) \<and> ev_id ev \<in> set (rp_ok_ids rp)"

lemma already_applied_store:
  assumes "one_live (db_snapshots db (ev_entity_type ev))"
  shows "already_applied l ev db \<longleftrightarrow>
    (case store db (l, ev_entity_type ev, natural_key ev) of
       Some (Some src, _) \<Rightarrow> ev_source_event_id ev \<le> src | _ \<Rightarrow> False)"
proof -
  let ?f = "find (\<lambda>sn. for_key l (natural_key ev) sn \<and> live sn) (db_snapshots db (ev_entity_type ev))"
  show ?thesis
    unfolding already_applied_def latest_live_source_event_id_def one_live_filter [OF assms]
      store_def live_row_def
    by (cases ?f; cases "sn_source_event_id (the ?f)")
       (simp_all add: max_string_def map_filter_simps snapshot_value_def)
qed

lemma apply_event_step:
  assumes "apply_event job l now ev db = Inr (changed, db')" and "own_lea l ev" and "snapshots_ok db"
  shows "snapshots_ok db' \<and> store db' = lww_step l ev (store db)"
proof (cases "already_applied l ev db")
  case True
  with assms(1) have "db' = db" by (simp add: apply_event_def)
  with True assms(3) already_applied_store [OF snapshots_okD(1) [OF assms(3)], of l] show ?thesis
    by (auto simp: lww_step_def Let_def split: option.splits)
next
  case False
  with assms(1) have w: "write_event job l now ev db = Inr db'"
    by (auto simp: apply_event_def res_simps)
  have "lww_step l ev (store db) = (store db)((l, ev_entity_type ev, natural_key ev) \<mapsto> event_value ev)"
    using False already_applied_store [OF snapshots_okD(1) [OF assms(3)], of l]
    by (auto simp: lww_step_def Let_def split: option.splits)
  with event_writer.put_ok [OF w assms(2,3)] event_writer.put_store [OF w assms(2)] show ?thesis
    by simp
qed

section \<open>The loop over the events\<close>

lemma process_event_cases:
  assumes "process_event rp job l now ev (n, db) = Inr (n', db')"
  obtains (quarantine) "ev_id ev \<in> set (rp_quarantined_ids rp)" "\<not> to_write rp ev"
      "write_quarantine_row job l ev now db = Inr db'" "n' = n\<lparr>quarantined := quarantined n + 1\<rparr>"
    | (skip) "db' = db" "n' = n\<lparr>skipped := skipped n + 1\<rparr>"
      "to_write rp ev \<longrightarrow> already_applied l ev db" "ev_id ev \<notin> set (rp_quarantined_ids rp)"
    | (applied) "to_write rp ev" "\<not> already_applied l ev db" "write_event job l now ev db = Inr db'"
      "n' = n\<lparr>applied := applied n + 1\<rparr>"
  using assms unfolding process_event_def to_write_def
  by (cases "ev_id ev \<in> set (rp_quarantined_ids rp)"; cases "ev_id ev \<in> set (rp_ok_ids rp)";
      cases "already_applied l ev db") (auto simp: apply_event_def res_simps)

lemma write_quarantine_row_frame:
  assumes "write_quarantine_row job l ev now db = Inr db'"
  shows "db' = db\<lparr>db_quarantine := db_quarantine db', db_next_id := Suc (db_next_id db)\<rparr>"
    and "\<exists>q. db_quarantine db' = db_quarantine db @ [q] \<and> qr_sync_job_id q = job \<and> qr_lea_id q = l"
  using assms by (auto simp: write_quarantine_row_def split: if_splits)

lemma write_quarantine_row_sel:
  assumes "write_quarantine_row job l ev now db = Inr db'"
  shows "db_snapshots db' = db_snapshots db" "db_next_id db' = Suc (db_next_id db)"
    "db_sync_jobs db' = db_sync_jobs db" "db_cursors db' = db_cursors db"
    "db_validation_results db' = db_validation_results db"
    "db_students db' = db_students db" "db_enrollments db' = db_enrollments db"
    "db_leas db' = db_leas db"
  using assms by (auto simp: write_quarantine_row_def split: if_splits)

lemma process_event_refines:
  assumes "process_event rp job l now ev (n, db) = Inr (n', db')" and "to_write rp ev \<longrightarrow> own_lea l ev"
    and "snapshots_ok db"
  shows "snapshots_ok db' \<and>
    store db' = (if to_write rp ev then lww_step l ev (store db) else store db)"
  using assms(1)
proof (cases rule: process_event_cases)
  case quarantine
  then show ?thesis
    using snapshots_ok_same [OF assms(3)] store_same [of db' db] write_quarantine_row_sel [OF quarantine(3)]
    by simp
next
  case skip
  then have "apply_event job l now ev db = Inr (False, db)" if "to_write rp ev"
    using that by (simp add: apply_event_def)
  with skip(1) assms(2,3) apply_event_step [of job l now ev db False db] show ?thesis by auto
next
  case applied
  then have "apply_event job l now ev db = Inr (True, db')" by (simp add: apply_event_def)
  with applied(1) assms(2,3) apply_event_step [of job l now ev db True db'] show ?thesis by simp
qed

lemma process_event_counts:
  assumes "process_event rp job l now ev (n, db) = Inr (n', db')"
  shows "applied n' + skipped n' + quarantined n' = applied n + skipped n + quarantined n + 1"
  using assms by (cases rule: process_event_cases) simp_all

lemma process_event_append_only:
  assumes "process_event rp job l now ev (n, db) = Inr (n', db')"
  shows "append_only db db'"
  using assms
proof (cases rule: process_event_cases)
  case applied
  show ?thesis by (rule event_writer.put_append_only [OF applied(3)])
qed (simp_all add: append_only_same write_quarantine_row_sel)

text \<open>The loop never touches the audit tables of other services, the jobs and the cursors.\<close>

lemma process_event_frame:
  assumes "process_event rp job l now ev (n, db) = Inr (n', db')"
  shows "db_sync_jobs db' = db_sync_jobs db \<and> db_cursors db' = db_cursors db \<and>
    db_validation_results db' = db_validation_results db"
  using assms
proof (cases rule: process_event_cases)
  case applied
  from applied(3) obtain rest where "upsert_canonical ev (ev_operation ev = DELETED) now rest = Inr db'"
    and rest: "rest = (set_snapshots (ev_entity_type ev) (db_snapshots db' (ev_entity_type ev)) db)
           \<lparr>db_next_id := Suc (db_next_id db)\<rparr>"
    by (rule write_event_parts)
  from clear_canonicalD [OF upsert_canonical_frame [OF this(1)]] show ?thesis
    by (simp add: rest set_snapshots_def)
qed (simp_all add: write_quarantine_row_sel)

lemma loop_invariant:
  assumes "fold_res (process_event rp job l now) evs (n, db) = Inr (n', db')" and "P db"
    and "\<And>ev n a m b. ev \<in> set evs \<Longrightarrow> P a \<Longrightarrow> process_event rp job l now ev (n, a) = Inr (m, b) \<Longrightarrow> P b"
  shows "P db'"
  using fold_res_invariant [OF assms(1), of "\<lambda>s. P (snd s)"] assms(2,3) by auto

lemma loop_append_only:
  "fold_res (process_event rp job l now) evs (n, db) = Inr (n', db') \<Longrightarrow> append_only db db'"
  by (erule loop_invariant [where P = "append_only db"])
     (auto intro: append_only_trans process_event_append_only)

lemma loop_frame:
  "fold_res (process_event rp job l now) evs (n, db) = Inr (n', db') \<Longrightarrow>
     db_sync_jobs db' = db_sync_jobs db \<and> db_cursors db' = db_cursors db \<and>
     db_validation_results db' = db_validation_results db"
  by (erule loop_invariant [where P = "\<lambda>x. db_sync_jobs x = db_sync_jobs db \<and>
        db_cursors x = db_cursors db \<and> db_validation_results x = db_validation_results db"])
     (auto dest: process_event_frame)

lemma loop_counts:
  "fold_res (process_event rp job l now) evs (n, db) = Inr (n', db') \<Longrightarrow>
     applied n' + skipped n' + quarantined n' =
       applied n + skipped n + quarantined n + int (length evs)"
proof (induction evs arbitrary: n db)
  case (Cons ev evs)
  then obtain n1 db1 where "process_event rp job l now ev (n, db) = Inr (n1, db1)"
    and "fold_res (process_event rp job l now) evs (n1, db1) = Inr (n', db')"
    by (auto simp: res_simps)
  with Cons.IH process_event_counts show ?case by fastforce
qed simp

lemma loop_refines:
  assumes "fold_res (process_event rp job l now) evs (n, db) = Inr (n', db')"
    and "\<forall>ev \<in> set evs. to_write rp ev \<longrightarrow> own_lea l ev" and "snapshots_ok db"
  shows "snapshots_ok db' \<and> store db' = fold (lww_step l) (filter (to_write rp) evs) (store db)"
  using assms
proof (induction evs arbitrary: n db)
  case (Cons ev evs)
  from Cons.prems(1) obtain n1 db1 where step: "process_event rp job l now ev (n, db) = Inr (n1, db1)"
    and rest: "fold_res (process_event rp job l now) evs (n1, db1) = Inr (n', db')"
    by (auto simp: res_simps)
  have "snapshots_ok db1 \<and> store db1 = (if to_write rp ev then lww_step l ev (store db) else store db)"
    using process_event_refines [OF step] Cons.prems(2,3) by simp
  then show ?case using Cons.IH [OF rest] Cons.prems(2) by simp
qed simp

section \<open>A page\<close>

text \<open>The database a page starts from: the running job and its issues are in it.\<close>

definition started ::
  "uuid \<Rightarrow> timestamp \<Rightarrow> validation_report \<Rightarrow> sync_job \<Rightarrow> db \<Rightarrow> db" where
  "started job now rp j db =
     db\<lparr>db_sync_jobs := db_sync_jobs db @ [j],
        db_validation_results := db_validation_results db @ map (issue_row job now) (rp_issues rp)\<rparr>"

lemma insert_then_persist:
  assumes "insert_sync_job j db = Inr db1" and "persist_validation_issues (sj_id j) rp now db1 = Inr db2"
  shows "db2 = started (sj_id j) now rp j db" and "sj_id j \<notin> job_ids db"
  using assms
  by (auto simp: insert_sync_job_def persist_validation_issues_def started_def job_ids_def
      split: if_splits)

lemma update_new_job:
  assumes "sj_id j \<notin> job_ids db"
  shows "update_where (\<lambda>x. sj_id x = sj_id j) f (db_sync_jobs db @ [j]) = db_sync_jobs db @ [f j]"
proof -
  have "sj_id x \<noteq> sj_id j" if "x \<in> set (db_sync_jobs db)" for x
    using assms that by (metis imageI job_ids_def)
  then show ?thesis by (simp add: update_where_def map_idI)
qed

lemma page_body_cases:
  assumes "page_body partner fetch l job now db = Inr ((out, rp, summary), db')"
  obtains (failed) page where "fetch l (read_cursor db l partner) = Inr page"
      "run_pipeline page (read_lea_state db l partner) = Inr rp" "job \<notin> job_ids db"
      "rp_page_blocked rp" "out = failed_outcome job l (cur_value (read_cursor db l partner)) rp"
      "db' = mark_sync_job_failed job now (error_count rp) (warning_count rp)
         (summarize_blocking_errors rp)
         (started job now rp
           (running_job job l partner (cur_value (read_cursor db l partner)) now) db)"
    | (success) page n db1 where "fetch l (read_cursor db l partner) = Inr page"
      "run_pipeline page (read_lea_state db l partner) = Inr rp" "job \<notin> job_ids db"
      "\<not> rp_page_blocked rp"
      "out = success_outcome job l (cur_value (read_cursor db l partner)) page rp n"
      "process_events rp job l now (pg_events page) (ensure_lea_exists l
         (started job now rp
           (running_job job l partner (cur_value (read_cursor db l partner)) now) db)) = Inr (n, db1)"
      "db' = upsert_cursor_state l partner (pg_next_cursor page) now
         (mark_sync_job_success job now (applied n) (error_count rp) (warning_count rp)
           (cur_value (pg_next_cursor page)) db1)"
proof -
  let ?c = "cur_value (read_cursor db l partner)"
  let ?j = "running_job job l partner ?c now"
  have id: "sj_id ?j = job" by (simp add: running_job_def)
  from assms obtain page db1 db2 where
    page: "fetch l (read_cursor db l partner) = Inr page"
      "run_pipeline page (read_lea_state db l partner) = Inr rp"
    and 1: "insert_sync_job ?j db = Inr db1" and 2: "persist_validation_issues (sj_id ?j) rp now db1 = Inr db2"
    and 3: "(if rp_page_blocked rp then fail_page job l now ?c rp db2
        else commit_page partner job l now ?c page rp db2) = Inr ((out, rp, summary), db')"
    by (auto simp: page_body_def Let_def res_simps id fail_page_def commit_page_def split: if_splits)
  note db2 = insert_then_persist [OF 1 2, unfolded id]
  show ?thesis
  proof (cases "rp_page_blocked rp")
    case True
    with 3 show ?thesis
      by (intro failed [OF page db2(2)]) (auto simp: fail_page_def Let_def db2(1))
  next
    case False
    with 3 show ?thesis
      by (auto simp: commit_page_def res_simps db2(1) intro!: success [OF page db2(2)])
  qed
qed

lemma started_sel [simp]:
  "db_snapshots (started job now rp j db) = db_snapshots db"
  "db_students (started job now rp j db) = db_students db"
  "db_enrollments (started job now rp j db) = db_enrollments db"
  "db_leas (started job now rp j db) = db_leas db"
  "db_quarantine (started job now rp j db) = db_quarantine db"
  "db_cursors (started job now rp j db) = db_cursors db"
  "db_next_id (started job now rp j db) = db_next_id db"
  "db_sync_jobs (started job now rp j db) = db_sync_jobs db @ [j]"
  by (simp_all add: started_def)

lemma finish_sel [simp]:
  "db_snapshots (upsert_cursor_state l p c now (mark_sync_job_success job now n e w k db)) = db_snapshots db"
  "db_students (upsert_cursor_state l p c now (mark_sync_job_success job now n e w k db)) = db_students db"
  "db_enrollments (upsert_cursor_state l p c now (mark_sync_job_success job now n e w k db)) = db_enrollments db"
  "db_leas (upsert_cursor_state l p c now (mark_sync_job_success job now n e w k db)) = db_leas db"
  "db_quarantine (upsert_cursor_state l p c now (mark_sync_job_success job now n e w k db)) = db_quarantine db"
  "db_next_id (upsert_cursor_state l p c now (mark_sync_job_success job now n e w k db)) = db_next_id db"
  by (simp_all add: upsert_cursor_state_def write_cursor_def mark_sync_job_success_def update_sync_job_def)

lemma mark_failed_sel [simp]:
  "db_snapshots (mark_sync_job_failed job now e w k db) = db_snapshots db"
  "db_next_id (mark_sync_job_failed job now e w k db) = db_next_id db"
  by (simp_all add: mark_sync_job_failed_def update_sync_job_def)

interpretation cursor_state: keyed_table cursor_key merge_cursor
  by unfold_locales (simp add: cursor_key_def merge_cursor_def)

lemma read_cursor_upsert:
  "read_cursor (upsert_cursor_state l p c now db) l' p' =
     (if (l', p') = (l, p) then c else read_cursor db l' p')"
proof (cases "(l', p') = (l, p)")
  case True
  then show ?thesis
    using cursor_state.lookup_upsert_same [of
        "\<lparr>cs_lea_id = l, cs_partner = p,
          cs_last_event_id = (if cur_value c = [] then None else Some (cur_value c)),
          cs_last_event_at = cur_observed_at c, cs_last_poll_at = Some now,
          cs_cold_start_required = False, cs_updated_at = now\<rparr>" "db_cursors db"]
    by (auto simp: read_cursor_def cursor_of_def upsert_cursor_state_def write_cursor_def
        cursor_key_def merge_cursor_def opt_or_def split: option.splits)
next
  case False
  then show ?thesis
    by (auto simp: read_cursor_def cursor_of_def upsert_cursor_state_def write_cursor_def
        cursor_key_def cursor_state.lookup_upsert_other)
qed

section \<open>Replaying a page\<close>

lemma step_keeps_applied:
  assumes "process_event rp job l now ev (n, db) = Inr (n', db')" and "to_write rp ev \<longrightarrow> own_lea l ev"
    and "already_applied l ev' db"
  shows "already_applied l ev' db'"
  using assms(1)
proof (cases rule: process_event_cases)
  case quarantine
  then show ?thesis using assms(3) already_applied_same write_quarantine_row_sel(1) by metis
next
  case applied
  then show ?thesis using assms(2,3) write_event_keeps_applied by blast
qed (simp add: assms(3))

lemma step_applies:
  assumes "process_event rp job l now ev (n, db) = Inr (n', db')" and "own_lea l ev" and "to_write rp ev"
  shows "already_applied l ev db'"
  using assms(1) by (cases rule: process_event_cases) (use assms(2,3) write_event_applied in auto)

lemma loop_keeps_applied:
  assumes "fold_res (process_event rp job l now) evs (n, db) = Inr (n', db')"
    and "\<forall>ev \<in> set evs. to_write rp ev \<longrightarrow> own_lea l ev" and "already_applied l ev' db"
  shows "already_applied l ev' db'"
  using assms(1,3) by (rule loop_invariant) (use assms(2) step_keeps_applied in blast)

lemma loop_applies_all:
  assumes "fold_res (process_event rp job l now) evs (n, db) = Inr (n', db')"
    and "\<forall>ev \<in> set evs. to_write rp ev \<longrightarrow> own_lea l ev"
  shows "\<forall>ev \<in> set evs. to_write rp ev \<longrightarrow> already_applied l ev db'"
  using assms
proof (induction evs arbitrary: n db)
  case (Cons ev evs)
  from Cons.prems(1) obtain n1 db1 where step: "process_event rp job l now ev (n, db) = Inr (n1, db1)"
    and rest: "fold_res (process_event rp job l now) evs (n1, db1) = Inr (n', db')"
    by (auto simp: res_simps)
  have "already_applied l ev db'" if "to_write rp ev"
    using loop_keeps_applied [OF rest] step_applies [OF step] Cons.prems(2) that by simp
  then show ?case using Cons.IH [OF rest] Cons.prems(2) by simp
qed simp

lemma loop_all_skip:
  assumes "\<forall>ev \<in> set evs. ev_id ev \<notin> set (rp_quarantined_ids rp) \<and>
    (to_write rp ev \<longrightarrow> already_applied l ev db)"
  shows "fold_res (process_event rp job l now) evs (n, db) =
    Inr (n\<lparr>skipped := skipped n + int (length evs)\<rparr>, db)"
  using assms
proof (induction evs arbitrary: n)
  case (Cons ev evs)
  then have "process_event rp job l now ev (n, db) = Inr (n\<lparr>skipped := skipped n + 1\<rparr>, db)"
    by (auto simp: process_event_def to_write_def apply_event_def)
  with Cons show ?case by (simp add: algebra_simps)
qed simp

text \<open>The students an LEA knows only grow while its pages are applied.\<close>

definition knows :: "lea_id \<Rightarrow> student_id \<Rightarrow> db \<Rightarrow> bool" where
  "knows l i db \<longleftrightarrow> i \<in> set (read_known_student_ids db l)"

lemma knows_student_in_lea: "knows l i db \<longleftrightarrow> student_in_lea db l i"
  by (auto simp: knows_def read_known_student_ids_def student_in_lea_def)

lemma upsert_student_knows:
  assumes "upsert_student s del now db = Inr db'" and "st_lea_id s = l" and "knows l i db"
  shows "knows l i db'"
proof -
  let ?row = "student_row_of s (deleted_stamp del now)"
  from assms(1) have db': "db_students db' = upsert sr_id (\<lambda>_ new. new) ?row (db_students db)"
    by (auto simp: upsert_student_def dest!: write_student_frame)
  from assms(3) obtain r where r: "r \<in> set (db_students db)" "sr_lea_id r = l" "sr_id r = i"
    by (auto simp: knows_student_in_lea student_in_lea_def)
  show ?thesis
  proof (cases "i = sr_id ?row")
    case True
    then show ?thesis unfolding knows_student_in_lea student_in_lea_def db'
      by (intro bexI [OF _ upsert_replace_mem]) (simp add: assms(2))
  next
    case False
    with r student_table.upsert_other_mem [of r ?row "db_students db"] show ?thesis
      by (auto simp: knows_student_in_lea student_in_lea_def db')
  qed
qed

lemma step_knows:
  assumes "process_event rp job l now ev (n, db) = Inr (n', db')"
    and "\<forall>s. to_write rp ev \<and> ev_entity ev = EStudent s \<longrightarrow> st_lea_id s = l" and "knows l i db"
  shows "knows l i db'"
  using assms(1)
proof (cases rule: process_event_cases)
  case quarantine
  then show ?thesis
    using assms(3) by (simp add: knows_def read_known_student_ids_def write_quarantine_row_sel)
next
  case applied
  from applied(3) obtain rest where up: "upsert_canonical ev (ev_operation ev = DELETED) now rest = Inr db'"
    and rest: "rest = (set_snapshots (ev_entity_type ev) (db_snapshots db' (ev_entity_type ev)) db)
           \<lparr>db_next_id := Suc (db_next_id db)\<rparr>"
    by (rule write_event_parts)
  have k: "knows l i rest"
    using assms(3) by (simp add: knows_def read_known_student_ids_def rest set_snapshots_def)
  from up show ?thesis
  proof (cases rule: upsert_canonical_cases)
    case (1 s)
    with applied(1) assms(2) k upsert_student_knows show ?thesis by blast
  next
    case (2 e)
    from upsert_enrollment_row [OF this(3)] k show ?thesis
      by (auto simp: knows_def read_known_student_ids_def dest!: write_enrollment_frame)
  next
    case (3 le)
    with k show ?thesis
      by (auto simp: knows_def read_known_student_ids_def upsert_lea_entity_def res_simps)
  qed
qed (use assms(3) in simp)

lemma step_lea_exists:
  assumes "process_event rp job l now ev (n, db) = Inr (n', db')" and "lea_exists db i"
  shows "lea_exists db' i"
  using assms(1)
proof (cases rule: process_event_cases)
  case applied
  from applied(3) obtain rest where up: "upsert_canonical ev (ev_operation ev = DELETED) now rest = Inr db'"
    and rest: "rest = (set_snapshots (ev_entity_type ev) (db_snapshots db' (ev_entity_type ev)) db)
           \<lparr>db_next_id := Suc (db_next_id db)\<rparr>"
    by (rule write_event_parts)
  have k: "lea_exists rest i" using assms(2) by (simp add: lea_exists_def rest set_snapshots_def)
  from up show ?thesis
  proof (cases rule: upsert_canonical_cases)
    case (1 s)
    with k show ?thesis by (auto simp: upsert_student_def lea_exists_def dest!: write_student_frame)
  next
    case (2 e)
    from upsert_enrollment_row [OF this(3)] k show ?thesis
      by (auto simp: lea_exists_def dest!: write_enrollment_frame)
  next
    case (3 le)
    with k show ?thesis
      by (auto simp: lea_exists_def upsert_lea_entity_def res_simps lea_table.keys_upsert)
  qed
qed (use assms(2) in \<open>simp_all add: lea_exists_def write_quarantine_row_sel\<close>)

section \<open>What a page leaves alone\<close>

text \<open>The rows that belong to other LEAs than \<open>l\<close>, in every table with an LEA column.\<close>

definition foreign :: "lea_id \<Rightarrow> db \<Rightarrow> db" where
  "foreign l db =
     db\<lparr>db_leas := filter (\<lambda>r. lr_id r \<noteq> l) (db_leas db),
        db_students := filter (\<lambda>r. sr_lea_id r \<noteq> l) (db_students db),
        db_enrollments := filter (\<lambda>r. er_lea_id r \<noteq> l) (db_enrollments db),
        db_snapshots := (\<lambda>t. filter (\<lambda>sn. sn_lea_id sn \<noteq> l) (db_snapshots db t)),
        db_sync_jobs := filter (\<lambda>j. sj_lea_id j \<noteq> l) (db_sync_jobs db),
        db_quarantine := filter (\<lambda>q. qr_lea_id q \<noteq> l) (db_quarantine db),
        db_cursors := filter (\<lambda>c. cs_lea_id c \<noteq> l) (db_cursors db),
        db_validation_results := [], db_next_id := 0\<rparr>"

text \<open>
  What isolation needs of a page: every written event is for the LEA of the drain, and no id of
  a written student or enrollment is in use by another LEA.
\<close>

definition ids_free :: "lea_id \<Rightarrow> normalized_event \<Rightarrow> db \<Rightarrow> bool" where
  "ids_free l ev db \<longleftrightarrow>
     (ev_entity_type ev = STUDENT \<longrightarrow>
        (\<forall>r \<in> set (db_students db). sr_id r = natural_key ev \<longrightarrow> sr_lea_id r = l)) \<and>
     (ev_entity_type ev = ENROLLMENT \<longrightarrow>
        (\<forall>r \<in> set (db_enrollments db). er_id r = natural_key ev \<longrightarrow> er_lea_id r = l))"

definition entity_of_lea :: "lea_id \<Rightarrow> entity \<Rightarrow> bool" where
  "entity_of_lea l x = (case x of
     ELea le \<Rightarrow> le_id le = l | EStudent s \<Rightarrow> st_lea_id s = l | EEnrollment e \<Rightarrow> en_lea_id e = l)"

lemma ids_free_foreign:
  assumes "foreign l b = foreign l a" and "ids_free l ev a"
  shows "ids_free l ev b"
proof -
  have "filter (\<lambda>r. sr_lea_id r \<noteq> l) (db_students b) = filter (\<lambda>r. sr_lea_id r \<noteq> l) (db_students a)"
    "filter (\<lambda>r. er_lea_id r \<noteq> l) (db_enrollments b) = filter (\<lambda>r. er_lea_id r \<noteq> l) (db_enrollments a)"
    using arg_cong [OF assms(1), of db_students] arg_cong [OF assms(1), of db_enrollments]
    by (simp_all add: foreign_def)
  from arg_cong [OF this(1), of set] arg_cong [OF this(2), of set] assms(2) show ?thesis
    by (auto simp: ids_free_def)
qed

lemma upsert_canonical_foreign:
  assumes up: "upsert_canonical ev del now db = Inr db'" and "entity_of_lea l (ev_entity ev)"
    and "ids_free l ev db"
  shows "foreign l db' = foreign l db"
  using up
proof (cases rule: upsert_canonical_cases)
  case (1 s)
  then have "filter (\<lambda>r. sr_lea_id r \<noteq> l) (upsert sr_id (\<lambda>_ new. new)
      (student_row_of s (deleted_stamp del now)) (db_students db)) =
      filter (\<lambda>r. sr_lea_id r \<noteq> l) (db_students db)"
    by (intro filter_upsert) (use assms(2,3) in \<open>auto simp: ids_free_def entity_of_lea_def natural_key_def\<close>)
  with 1(3) show ?thesis by (auto simp: upsert_student_def foreign_def dest!: write_student_frame)
next
  case (2 e)
  from upsert_enrollment_row [OF 2(3)] obtain row where row: "er_id row = en_id e" "er_lea_id row = en_lea_id e"
    and w: "write_enrollment (\<lambda>_ new. new) row db = Inr db'" by blast
  from 2 row have "filter (\<lambda>r. er_lea_id r \<noteq> l) (upsert er_id (\<lambda>_ new. new) row (db_enrollments db)) =
      filter (\<lambda>r. er_lea_id r \<noteq> l) (db_enrollments db)"
    by (intro filter_upsert) (use assms(2,3) in \<open>auto simp: ids_free_def entity_of_lea_def natural_key_def\<close>)
  with write_enrollment_frame [OF w] show ?thesis by (simp add: foreign_def)
next
  case (3 le)
  have "filter (\<lambda>r. lr_id r \<noteq> l) (upsert lr_id merge_lea
      (new_lea_row (le_id le) n t st c d) (db_leas db)) = filter (\<lambda>r. lr_id r \<noteq> l) (db_leas db)"
    for n t st c d
    by (intro filter_upsert)
       (use assms(2) 3(2) in \<open>auto simp: entity_of_lea_def merge_lea_def new_lea_row_def\<close>)
  with 3(3) show ?thesis by (auto simp: upsert_lea_entity_def foreign_def res_simps)
qed

lemma step_foreign:
  assumes "process_event rp job l now ev (n, db) = Inr (n', db')"
    and "to_write rp ev \<longrightarrow> own_lea l ev \<and> entity_of_lea l (ev_entity ev) \<and> ids_free l ev db"
  shows "foreign l db' = foreign l db"
  using assms(1)
proof (cases rule: process_event_cases)
  case quarantine
  from write_quarantine_row_frame [OF quarantine(3)] show ?thesis
    by (elim exE conjE, subst \<open>db' = _\<close>) (simp add: foreign_def)
next
  case applied
  from applied(3) obtain rest where up: "upsert_canonical ev (ev_operation ev = DELETED) now rest = Inr db'"
    and rest: "rest = (set_snapshots (ev_entity_type ev) (db_snapshots db' (ev_entity_type ev)) db)
           \<lparr>db_next_id := Suc (db_next_id db)\<rparr>"
    by (rule write_event_parts)
  note own = assms(2) [rule_format, OF applied(1)]
  have "foreign l db' = foreign l rest"
    by (rule upsert_canonical_foreign [OF up])
       (use own in \<open>simp_all add: ids_free_def rest set_snapshots_def\<close>)
  moreover have "filter (\<lambda>sn. sn_lea_id sn \<noteq> l) (db_snapshots rest t) =
      filter (\<lambda>sn. sn_lea_id sn \<noteq> l) (db_snapshots db t)" for t
    using event_writer.put_other_lea [OF applied(3), of t] own by (auto simp: rest)
  then have "foreign l rest = foreign l db"
    by (simp add: foreign_def) (simp add: rest set_snapshots_def)
  ultimately show ?thesis by simp
qed simp

lemma loop_foreign:
  assumes "fold_res (process_event rp job l now) evs (n, db) = Inr (n', db')"
    and "\<And>ev. ev \<in> set evs \<Longrightarrow> to_write rp ev \<Longrightarrow>
      own_lea l ev \<and> entity_of_lea l (ev_entity ev) \<and> ids_free l ev db"
  shows "foreign l db' = foreign l db"
  using assms(1)
proof (rule loop_invariant)
  fix ev n a m b
  assume "ev \<in> set evs" and a: "foreign l a = foreign l db"
    and step: "process_event rp job l now ev (n, a) = Inr (m, b)"
  with assms(2) ids_free_foreign [OF a] show "foreign l b = foreign l db"
    using step_foreign [OF step] by simp
qed simp

end
