(* ===== verification/Revert.thy ===== *)
theory Revert
  imports SyncInvariants
begin

text \<open>
  The revert of a sync job, \<open>services/revert.py\<close>: refused when a later job built on the job;
  otherwise, for every live snapshot of the job, the snapshot it superseded becomes live again,
  the canonical row is rewound to its payload (or soft-deleted when there is none), and the
  snapshot of the job is superseded by the revert's own generation. Everything happens in one
  transaction. \<open>ft\<close> is the text of a float, for the \<open>str\<close> of a payload value.
\<close>

section \<open>Reading a payload back\<close>

text \<open>
  A text parameter of a statement. The writers store strings and nulls in these fields of a
  payload; the model refuses any other value.
\<close>

fun text_param :: "json \<Rightarrow> exn + string option" where
  "text_param JNull = Inr None"
| "text_param (JStr s) = Inr (Some s)"
| "text_param _ = Inl TypeError"

definition not_null :: "string \<Rightarrow> 'a option \<Rightarrow> exn + 'a" where
  "not_null col v = (case v of None \<Rightarrow> Inl (NotNullViolation col) | Some x \<Rightarrow> Inr x)"

definition parse_iso_date :: "(rat \<Rightarrow> string) \<Rightarrow> json \<Rightarrow> exn + date option" where
  "parse_iso_date ft v =
     (if v = JNull then Inr None
      else res_bind (fromisoformat (py_str ft v)) (\<lambda>d. Inr (Some d)))"

text \<open>
  The three \<open>UPDATE ... WHERE id\<close>: the parameters are encoded first; the constraints only
  matter when there is a row.
\<close>

definition restore_student ::
  "string \<Rightarrow> lea_id \<Rightarrow> dict \<Rightarrow> timestamp option \<Rightarrow> db \<Rightarrow> exn + db" where
  "restore_student nk l p del db =
     res_bind (text_param (dict_get_default p ''lea_id'' (JStr l))) (\<lambda>lea.
     res_bind (text_param (dict_get_default p ''given_name'' (JStr []))) (\<lambda>given.
     res_bind (text_param (dict_get_default p ''family_name'' (JStr []))) (\<lambda>family.
     res_bind (text_param (dict_get p ''grade'')) (\<lambda>grade.
     res_bind (text_param (dict_get p ''preferred_first_name'')) (\<lambda>preferred.
     res_bind (text_param (dict_get p ''primary_school_id'')) (\<lambda>school.
       if nk \<notin> sr_id ` set (db_students db) then Inr db
       else
         res_bind (not_null ''lea_id'' lea) (\<lambda>lea.
         res_bind (not_null ''given_name'' given) (\<lambda>given.
         res_bind (not_null ''family_name'' family) (\<lambda>family.
           write_student (\<lambda>_ new. new)
             \<lparr>sr_id = nk, sr_lea_id = lea, sr_given_name = given, sr_family_name = family,
              sr_grade = grade, sr_preferred = preferred, sr_school = school,
              sr_external_ids = json_or (dict_get p ''external_ids'') (JObj []),
              sr_deleted_at = del\<rparr> db)))))))))"

definition restore_enrollment ::
  "(rat \<Rightarrow> string) \<Rightarrow> string \<Rightarrow> lea_id \<Rightarrow> dict \<Rightarrow> timestamp option \<Rightarrow> db \<Rightarrow> exn + db" where
  "restore_enrollment ft nk l p del db =
     res_bind (parse_iso_date ft (dict_get p ''begin_date'')) (\<lambda>begin_date.
     res_bind (parse_iso_date ft (dict_get p ''end_date'')) (\<lambda>end_date.
     res_bind (text_param (dict_get_default p ''lea_id'' (JStr l))) (\<lambda>lea.
     res_bind (text_param (dict_get p ''student_id'')) (\<lambda>stu.
     res_bind (text_param (dict_get p ''class_id'')) (\<lambda>cls.
       if nk \<notin> er_id ` set (db_enrollments db) then Inr db
       else
         res_bind (not_null ''lea_id'' lea) (\<lambda>lea.
         res_bind (not_null ''student_id'' stu) (\<lambda>stu.
         res_bind (not_null ''class_id'' cls) (\<lambda>cls.
         res_bind (not_null ''begin_date'' begin_date) (\<lambda>b.
           write_enrollment (\<lambda>_ new. new)
             \<lparr>er_id = nk, er_lea_id = lea, er_student_id = stu, er_class_id = cls,
              er_begin = b, er_end = end_date, er_deleted_at = del\<rparr> db)))))))))"

definition restore_lea :: "string \<Rightarrow> dict \<Rightarrow> timestamp option \<Rightarrow> db \<Rightarrow> exn + db" where
  "restore_lea nk p del db =
     res_bind (text_param (dict_get_default p ''name'' (JStr []))) (\<lambda>name.
     res_bind (text_param (dict_get_default p ''lea_type'' (JStr ''traditional_district''))) (\<lambda>typ.
     res_bind (text_param (dict_get_default p ''state'' (JStr ''XX''))) (\<lambda>st.
     res_bind (text_param (dict_get p ''nces_lea_id'')) (\<lambda>nces.
       if nk \<notin> lr_id ` set (db_leas db) then Inr db
       else
         res_bind (not_null ''name'' name) (\<lambda>name.
         res_bind (not_null ''lea_type'' typ) (\<lambda>typ.
         res_bind (not_null ''state'' st) (\<lambda>st.
         res_bind (varchar2 st) (\<lambda>st.
           Inr (db\<lparr>db_leas := update_where (\<lambda>r. lr_id r = nk)
             (\<lambda>r. r\<lparr>lr_name := name, lr_type := typ, lr_state := st, lr_nces := nces,
                    lr_deleted_at := del\<rparr>) (db_leas db)\<rparr>)))))))))"

definition restore_canonical_from_payload ::
  "(rat \<Rightarrow> string) \<Rightarrow> entity_type \<Rightarrow> string \<Rightarrow> lea_id \<Rightarrow> dict \<Rightarrow> bool \<Rightarrow> timestamp option \<Rightarrow>
   db \<Rightarrow> exn + db" where
  "restore_canonical_from_payload ft t nk l p deleted_upstream source_event_at =
     (let del = (if deleted_upstream then source_event_at else None) in
      case t of
        STUDENT \<Rightarrow> restore_student nk l p del
      | ENROLLMENT \<Rightarrow> restore_enrollment ft nk l p del
      | LEA \<Rightarrow> restore_lea nk p del)"

fun soft_delete_canonical :: "entity_type \<Rightarrow> string \<Rightarrow> timestamp \<Rightarrow> db \<Rightarrow> db" where
  "soft_delete_canonical STUDENT nk ts db =
     db\<lparr>db_students := update_where (\<lambda>r. sr_id r = nk) (\<lambda>r. r\<lparr>sr_deleted_at := Some ts\<rparr>) (db_students db)\<rparr>"
| "soft_delete_canonical ENROLLMENT nk ts db =
     db\<lparr>db_enrollments := update_where (\<lambda>r. er_id r = nk) (\<lambda>r. r\<lparr>er_deleted_at := Some ts\<rparr>) (db_enrollments db)\<rparr>"
| "soft_delete_canonical LEA nk ts db =
     db\<lparr>db_leas := update_where (\<lambda>r. lr_id r = nk) (\<lambda>r. r\<lparr>lr_deleted_at := Some ts\<rparr>) (db_leas db)\<rparr>"

section \<open>The snapshots of a job\<close>

definition with_source :: "snapshot list \<Rightarrow> snapshot list" where
  "with_source rows = sort_key (\<lambda>sn. the (sn_source_event_id sn))
     (filter (\<lambda>sn. sn_source_event_id sn \<noteq> None) rows)"

definition without_source :: "snapshot list \<Rightarrow> snapshot list" where
  "without_source rows = filter (\<lambda>sn. sn_source_event_id sn = None) rows"

text \<open>\<open>ORDER BY source_event_id ASC NULLS FIRST\<close> and \<open>DESC NULLS LAST\<close>.\<close>

definition order_asc :: "snapshot list \<Rightarrow> snapshot list" where
  "order_asc rows = without_source rows @ with_source rows"

definition order_desc :: "snapshot list \<Rightarrow> snapshot list" where
  "order_desc rows = rev (with_source rows) @ without_source rows"

definition live_of_job :: "db \<Rightarrow> entity_type \<Rightarrow> uuid \<Rightarrow> snapshot list" where
  "live_of_job db t job =
     order_asc (filter (\<lambda>sn. sn_generation sn = job \<and> live sn) (db_snapshots db t))"

definition find_prior_live_snapshot ::
  "db \<Rightarrow> entity_type \<Rightarrow> lea_id \<Rightarrow> string \<Rightarrow> uuid \<Rightarrow> snapshot option" where
  "find_prior_live_snapshot db t l nk job =
     (case order_desc (filter (\<lambda>sn. for_key l nk sn \<and> sn_superseded_by sn = Some job)
             (db_snapshots db t)) of
        [] \<Rightarrow> None | sn # _ \<Rightarrow> Some sn)"

definition superseded_by_newer :: "db \<Rightarrow> uuid \<Rightarrow> entity_type \<Rightarrow> bool" where
  "superseded_by_newer db job t \<longleftrightarrow>
     (\<exists>sn \<in> set (db_snapshots db t). sn_generation sn = job \<and>
        (\<exists>j \<in> set (db_sync_jobs db). sn_superseded_by sn = Some (sj_id j) \<and> sj_status j \<noteq> ''revert''))"

definition refuse_if_superseded_by_newer_sync :: "db \<Rightarrow> uuid \<Rightarrow> exn + unit" where
  "refuse_if_superseded_by_newer_sync db job =
     ensure (list_all (\<lambda>t. \<not> superseded_by_newer db job t) [STUDENT, ENROLLMENT, LEA]) RevertRefused"

section \<open>The revert\<close>

record revert_tally =
  rt_restored :: int
  rt_updated :: int
  rt_soft_deleted :: int

record revert_outcome =
  ro_sync_job_id :: uuid
  ro_generation_id :: uuid
  ro_restored :: int
  ro_updated :: int
  ro_soft_deleted :: int

definition revert_job_row :: "uuid \<Rightarrow> uuid \<Rightarrow> sync_job \<Rightarrow> timestamp \<Rightarrow> sync_job" where
  "revert_job_row gen job target now =
     \<lparr>sj_id = gen, sj_lea_id = sj_lea_id target, sj_partner = sj_partner target,
      sj_status = ''revert'', sj_started_at = now, sj_completed_at = Some now, sj_event_count = 0,
      sj_error_count = 0, sj_warning_count = 0, sj_cursor_before = None, sj_cursor_after = None,
      sj_error_summary = Some (''revert of sync_job '' @ uuid_str job)\<rparr>"

definition restore_prior ::
  "(rat \<Rightarrow> string) \<Rightarrow> entity_type \<Rightarrow> snapshot \<Rightarrow> snapshot \<Rightarrow> db \<Rightarrow> exn + db" where
  "restore_prior ft t row prior db =
     res_bind (supersede_where t (\<lambda>sn. sn_id sn = sn_id prior) None None db) (\<lambda>db1.
       restore_canonical_from_payload ft t (sn_key row) (sn_lea_id row) (sn_payload prior)
         (sn_deleted_upstream prior) (sn_source_event_at prior) db1)"

definition revert_row ::
  "(rat \<Rightarrow> string) \<Rightarrow> uuid \<Rightarrow> uuid \<Rightarrow> timestamp \<Rightarrow> entity_type \<Rightarrow> snapshot \<Rightarrow> revert_tally \<times> db \<Rightarrow>
   exn + (revert_tally \<times> db)" where
  "revert_row ft job gen now t row = (\<lambda>(n, db).
     res_bind
       (case find_prior_live_snapshot db t (sn_lea_id row) (sn_key row) job of
          None \<Rightarrow> Inr (n\<lparr>rt_soft_deleted := rt_soft_deleted n + 1\<rparr>,
                      soft_delete_canonical t (sn_key row) now db)
        | Some prior \<Rightarrow>
            res_bind (restore_prior ft t row prior db) (\<lambda>db1.
              Inr (n\<lparr>rt_updated := rt_updated n + 1\<rparr>, db1)))
       (\<lambda>(n1, db1).
         res_bind (supersede_where t (\<lambda>sn. sn_id sn = sn_id row) (Some gen) (Some now) db1) (\<lambda>db2.
           Inr (n1\<lparr>rt_restored := rt_restored n1 + 1\<rparr>, db2))))"

definition revert_type ::
  "(rat \<Rightarrow> string) \<Rightarrow> uuid \<Rightarrow> uuid \<Rightarrow> timestamp \<Rightarrow> entity_type \<Rightarrow> revert_tally \<times> db \<Rightarrow>
   exn + (revert_tally \<times> db)" where
  "revert_type ft job gen now t = (\<lambda>(n, db).
     fold_res (revert_row ft job gen now t) (live_of_job db t job) (n, db))"

definition insert_revert_action ::
  "uuid \<Rightarrow> uuid \<Rightarrow> string \<Rightarrow> string \<Rightarrow> timestamp \<Rightarrow> int \<Rightarrow> db \<Rightarrow> db" where
  "insert_revert_action job gen operator reason now restored db =
     db\<lparr>db_revert_actions := db_revert_actions db @
       [\<lparr>ra_id = db_next_id db, ra_sync_job_id = job, ra_generation_id = gen, ra_operator = operator, ra_reason = reason,
         ra_reverted_at = now, ra_snapshots_restored = restored\<rparr>],
       db_next_id := Suc (db_next_id db)\<rparr>"

definition revert_body ::
  "(rat \<Rightarrow> string) \<Rightarrow> uuid \<Rightarrow> string \<Rightarrow> string \<Rightarrow> uuid \<Rightarrow> timestamp \<Rightarrow> db \<Rightarrow>
   exn + (revert_outcome \<times> db)" where
  "revert_body ft job operator reason gen now db =
     (case lookup_by sj_id job (db_sync_jobs db) of
        None \<Rightarrow> Inl RevertSyncJobNotFound
      | Some target \<Rightarrow>
          res_bind (refuse_if_superseded_by_newer_sync db job) (\<lambda>_.
          res_bind (insert_sync_job (revert_job_row gen job target now) db) (\<lambda>db1.
          res_bind (fold_res (revert_type ft job gen now) [STUDENT, ENROLLMENT, LEA]
              (\<lparr>rt_restored = 0, rt_updated = 0, rt_soft_deleted = 0\<rparr>, db1)) (\<lambda>(n, db2).
            Inr (\<lparr>ro_sync_job_id = job, ro_generation_id = gen, ro_restored = rt_restored n,
                  ro_updated = rt_updated n, ro_soft_deleted = rt_soft_deleted n\<rparr>,
                 insert_revert_action job gen operator reason now (rt_restored n) db2)))))"

definition revert ::
  "(rat \<Rightarrow> string) \<Rightarrow> uuid \<Rightarrow> string \<Rightarrow> string \<Rightarrow> uuid \<Rightarrow> timestamp \<Rightarrow> db \<Rightarrow>
   db \<times> (exn + revert_outcome)" where
  "revert ft job operator reason gen now = transaction (revert_body ft job operator reason gen now)"

end
