(* ===== verification/LeaAdmin.thy ===== *)
theory LeaAdmin
  imports ConnectorAuthz Revert
begin

text \<open>
  Onboarding and lifecycle of LEAs (\<open>services/lea_admin.py\<close>): \<open>create_lea\<close> inserts a
  LEA in status \<open>onboarding\<close>, \<open>transition_status\<close> moves it along the three statuses,
  \<open>get\<close> reads it. Both writers add their audit row in the same transaction.
\<close>

definition VALID_TRANSITIONS :: "(string \<times> string) list" where
  "VALID_TRANSITIONS =
     [(''onboarding'', ''active''), (''onboarding'', ''decommissioned''), (''active'', ''decommissioned'')]"

record create_lea_input =
  ci_id :: lea_id
  ci_name :: string
  ci_type :: string
  ci_state :: string
  ci_timezone :: string
  ci_nces :: "string option"
  ci_integration :: "string option"

record lea_view =
  lv_id :: lea_id
  lv_name :: string
  lv_type :: string
  lv_state :: string
  lv_timezone :: string
  lv_nces :: "string option"
  lv_integration :: "string option"
  lv_status :: string

definition view_of_row :: "lea_row \<Rightarrow> lea_view" where
  "view_of_row r =
     \<lparr>lv_id = lr_id r, lv_name = lr_name r, lv_type = lr_type r, lv_state = lr_state r,
      lv_timezone = lr_timezone r, lv_nces = lr_nces r, lv_integration = lr_integration r,
      lv_status = lr_status r\<rparr>"

text \<open>\<open>SELECT ... WHERE id = :id AND deleted_at IS NULL\<close>.\<close>

definition current_lea :: "lea_id \<Rightarrow> db \<Rightarrow> lea_row option" where
  "current_lea l db = find (\<lambda>r. lr_id r = l \<and> lr_deleted_at r = None) (db_leas db)"

definition get_lea :: "lea_id \<Rightarrow> db \<Rightarrow> lea_view option" where
  "get_lea l db = map_option view_of_row (current_lea l db)"

definition same_label :: "create_lea_input \<Rightarrow> lea_row \<Rightarrow> bool" where
  "same_label params r \<longleftrightarrow> lr_id r = ci_id params \<or> lr_name r = ci_name params \<or>
     (lr_integration r \<noteq> None \<and> lr_integration r = ci_integration params)"

definition assert_unique :: "create_lea_input \<Rightarrow> db \<Rightarrow> exn + unit" where
  "assert_unique params db =
     (case find (same_label params) (db_leas db) of None \<Rightarrow> Inr () | Some r \<Rightarrow> Inl LeaAlreadyExists)"

definition onboarding_row :: "create_lea_input \<Rightarrow> lea_row" where
  "onboarding_row params =
     \<lparr>lr_id = ci_id params, lr_name = ci_name params, lr_type = ci_type params, lr_state = ci_state params,
      lr_nces = ci_nces params, lr_status = ''onboarding'', lr_timezone = ci_timezone params,
      lr_integration = ci_integration params, lr_deleted_at = None\<rparr>"

text \<open>
  The INSERT with the constraints of the table: the column of the state holds two characters, the
  id is the primary key and the integration id is unique.
\<close>

definition insert_lea :: "lea_row \<Rightarrow> db \<Rightarrow> exn + db" where
  "insert_lea r db =
     res_bind (varchar2 (lr_state r)) (\<lambda>st.
       if lea_exists db (lr_id r) then Inl (UniqueViolation ''leas_pkey'')
       else if lr_integration r \<noteq> None \<and> lr_integration r \<in> lr_integration ` set (db_leas db) then
         Inl (UniqueViolation ''uq_leas_edlink_integration_id'')
       else Inr (db\<lparr>db_leas := db_leas db @ [r\<lparr>lr_state := st\<rparr>]\<rparr>))"

definition create_lea ::
  "create_lea_input \<Rightarrow> uuid \<Rightarrow> string \<Rightarrow> timestamp \<Rightarrow> db \<Rightarrow> db \<times> (exn + lea_view)" where
  "create_lea params operator reason now =
     transaction (\<lambda>db.
       res_bind (assert_unique params db) (\<lambda>_.
       res_bind (insert_lea (onboarding_row params) db) (\<lambda>db1.
       res_bind (write_audit_log operator ''lea.created'' ''lea'' (ci_id params) (Some (ci_id params)) reason
           [(''name'', JStr (ci_name params)), (''lea_type'', JStr (ci_type params)),
            (''state'', JStr (ci_state params)), (''timezone'', JStr (ci_timezone params)),
            (''nces_lea_id'', json_of_opt (ci_nces params)),
            (''edlink_integration_id'', json_of_opt (ci_integration params))] now db1) (\<lambda>db2.
         Inr (view_of_row (onboarding_row params), db2)))))"

definition set_lea_status :: "lea_id \<Rightarrow> string \<Rightarrow> db \<Rightarrow> db" where
  "set_lea_status l status db =
     db\<lparr>db_leas := update_where (\<lambda>r. lr_id r = l) (\<lambda>r. r\<lparr>lr_status := status\<rparr>) (db_leas db)\<rparr>"

definition transition_status ::
  "lea_id \<Rightarrow> string \<Rightarrow> uuid \<Rightarrow> string \<Rightarrow> timestamp \<Rightarrow> db \<Rightarrow> db \<times> (exn + lea_view)" where
  "transition_status l target operator reason now =
     transaction (\<lambda>db.
       case current_lea l db of
         None \<Rightarrow> Inl LeaNotFound
       | Some r \<Rightarrow>
           if lr_status r = target then Inl (InvalidStatusTransition (lr_status r) target)
           else if (lr_status r, target) \<notin> set VALID_TRANSITIONS then
             Inl (InvalidStatusTransition (lr_status r) target)
           else
             res_bind (write_audit_log operator ''lea.status_changed'' ''lea'' l (Some l) reason
                 [(''from_status'', JStr (lr_status r)), (''to_status'', JStr target)] now
                 (set_lea_status l target db)) (\<lambda>db2.
               Inr ((view_of_row r)\<lparr>lv_status := target\<rparr>, db2)))"

section \<open>What the writers do\<close>

lemma create_lea_Inr:
  assumes "create_lea params who reason now db = (db', Inr v)"
  shows "\<not> (\<exists>r \<in> set (db_leas db). same_label params r) \<and>
    (\<exists>st. varchar2 (ci_state params) = Inr st \<and>
       db_leas db' = db_leas db @ [(onboarding_row params)\<lparr>lr_state := st\<rparr>]) \<and>
    v = view_of_row (onboarding_row params) \<and> audited who ''lea.created'' (ci_id params) reason now db db'"
proof -
  from assms obtain db1 where
    uniq: "assert_unique params db = Inr ()" and ins: "insert_lea (onboarding_row params) db = Inr db1"
    and v: "v = view_of_row (onboarding_row params)"
    and audit: "write_audit_log who ''lea.created'' ''lea'' (ci_id params) (Some (ci_id params)) reason
       [(''name'', JStr (ci_name params)), (''lea_type'', JStr (ci_type params)),
        (''state'', JStr (ci_state params)), (''timezone'', JStr (ci_timezone params)),
        (''nces_lea_id'', json_of_opt (ci_nces params)),
        (''edlink_integration_id'', json_of_opt (ci_integration params))] now db1 = Inr db'"
    unfolding create_lea_def transaction_Inr by (auto simp: res_bind_Inr_iff)
  from ins obtain st where st: "varchar2 (ci_state params) = Inr st"
    and db1: "db1 = db\<lparr>db_leas := db_leas db @ [(onboarding_row params)\<lparr>lr_state := st\<rparr>]\<rparr>"
    by (auto simp: insert_lea_def onboarding_row_def res_bind_Inr_iff split: if_splits)
  from uniq have "\<forall>r \<in> set (db_leas db). \<not> same_label params r"
    by (auto simp: assert_unique_def find_None_iff split: option.splits)
  with audited_write [OF audit, of db] st v show ?thesis by (simp add: db1)
qed

lemma transition_status_Inr:
  assumes "transition_status l target who reason now db = (db', Inr v)"
  shows "(\<exists>r. current_lea l db = Some r \<and> (lr_status r, target) \<in> set VALID_TRANSITIONS \<and>
      v = (view_of_row r)\<lparr>lv_status := target\<rparr>) \<and>
    db_leas db' = update_where (\<lambda>r. lr_id r = l) (\<lambda>r. r\<lparr>lr_status := target\<rparr>) (db_leas db) \<and>
    audited who ''lea.status_changed'' l reason now db db'"
proof -
  from assms obtain r where r: "current_lea l db = Some r" "(lr_status r, target) \<in> set VALID_TRANSITIONS"
      "v = (view_of_row r)\<lparr>lv_status := target\<rparr>"
    and audit: "write_audit_log who ''lea.status_changed'' ''lea'' l (Some l) reason
       [(''from_status'', JStr (lr_status r)), (''to_status'', JStr target)] now (set_lea_status l target db) = Inr db'"
    unfolding transition_status_def transaction_Inr
    by (auto simp: res_bind_Inr_iff split: option.splits if_splits)
  from audited_write [OF audit, of db] r show ?thesis by (simp add: set_lea_status_def)
qed

lemma lea_writers_Inl:
  "create_lea params who reason now db = (db', Inl e) \<Longrightarrow> db' = db"
  "transition_status l target who reason now db = (db', Inl e) \<Longrightarrow> db' = db"
  by (simp_all add: create_lea_def transition_status_def transaction_Inl)

section \<open>The table over time\<close>

text \<open>
  What writes the table: the two operations above, the placeholder row of the sync worker and of
  the bulk load, the LEA events of the sync worker, and the restore and the soft delete of a
  revert.
\<close>

inductive lea_step :: "db \<Rightarrow> db \<Rightarrow> bool" where
  Create: "create_lea params who reason now db = (db', v) \<Longrightarrow> lea_step db db'"
| Transition: "transition_status l target who reason now db = (db', v) \<Longrightarrow> lea_step db db'"
| Placeholder: "lea_step db (ensure_lea_exists l db)"
| Upsert: "upsert_lea_entity x deleted now db = Inr db' \<Longrightarrow> lea_step db db'"
| Restore: "restore_lea nk p del db = Inr db' \<Longrightarrow> lea_step db db'"
| Delete: "lea_step db (soft_delete_canonical LEA nk ts db)"
| Other: "db_leas db' = db_leas db \<Longrightarrow> lea_step db db'"

definition LEA_STATUSES :: "string list" where
  "LEA_STATUSES = [''onboarding'', ''active'', ''decommissioned'']"

definition status_follows :: "string \<Rightarrow> string \<Rightarrow> bool" where
  "status_follows a b \<longleftrightarrow> a = b \<or> (a, b) \<in> set VALID_TRANSITIONS"

lemma status_follows_trans: "status_follows a b \<Longrightarrow> status_follows b c \<Longrightarrow> status_follows a c"
  by (auto simp: status_follows_def VALID_TRANSITIONS_def)

lemma transition_statuses: "(a, b) \<in> set VALID_TRANSITIONS \<Longrightarrow> b \<in> set LEA_STATUSES"
  by (auto simp: VALID_TRANSITIONS_def LEA_STATUSES_def)

definition leas_ok :: "lea_row list \<Rightarrow> bool" where
  "leas_ok rows \<longleftrightarrow> distinct (map lr_id rows) \<and>
     distinct (map lr_integration (filter (\<lambda>r. lr_integration r \<noteq> None) rows)) \<and>
     (\<forall>r \<in> set rows. lr_status r \<in> set LEA_STATUSES)"

definition leas_follow :: "lea_row list \<Rightarrow> lea_row list \<Rightarrow> bool" where
  "leas_follow old new \<longleftrightarrow> (\<forall>r \<in> set old. \<exists>r' \<in> set new.
     lr_id r' = lr_id r \<and> lr_integration r' = lr_integration r \<and> status_follows (lr_status r) (lr_status r'))"

lemma leas_follow_refl [simp]: "leas_follow rows rows"
  by (auto simp: leas_follow_def status_follows_def)

lemma leas_follow_trans: "leas_follow a b \<Longrightarrow> leas_follow b c \<Longrightarrow> leas_follow a c"
  unfolding leas_follow_def by (metis status_follows_trans)

text \<open>Rows changed in place, and a row appended.\<close>

lemma leas_update:
  assumes ok: "leas_ok rows"
    and f: "\<And>r. r \<in> set rows \<Longrightarrow> P r \<Longrightarrow> lr_id (f r) = lr_id r \<and> lr_integration (f r) = lr_integration r \<and>
      status_follows (lr_status r) (lr_status (f r)) \<and> lr_status (f r) \<in> set LEA_STATUSES"
  shows "leas_ok (update_where P f rows) \<and> leas_follow rows (update_where P f rows)"
proof -
  let ?g = "\<lambda>r. if P r then f r else r"
  have g: "lr_id (?g r) = lr_id r" "lr_integration (?g r) = lr_integration r"
    "status_follows (lr_status r) (lr_status (?g r))" "lr_status (?g r) \<in> set LEA_STATUSES"
    if "r \<in> set rows" for r
    using f [OF that] ok that by (auto simp: leas_ok_def status_follows_def)
  have rows: "update_where P f rows = map ?g rows" by (simp add: update_where_def)
  have ids: "map lr_id (map ?g rows) = map lr_id rows" using g(1) by simp
  have ints: "map lr_integration (filter (\<lambda>r. lr_integration r \<noteq> None) (map ?g rows)) =
      map lr_integration (filter (\<lambda>r. lr_integration r \<noteq> None) rows)"
    using g(2) by (induction rows) auto
  have "\<forall>r \<in> set (map ?g rows). lr_status r \<in> set LEA_STATUSES"
    unfolding set_map using g(4) by blast
  then have "leas_ok (map ?g rows)" using ok unfolding leas_ok_def ids ints by blast
  moreover have "leas_follow rows (map ?g rows)"
    unfolding leas_follow_def
  proof
    fix r assume r: "r \<in> set rows"
    show "\<exists>r' \<in> set (map ?g rows). lr_id r' = lr_id r \<and> lr_integration r' = lr_integration r \<and>
        status_follows (lr_status r) (lr_status r')"
    proof (rule bexI [of _ "?g r"])
      show "lr_id (?g r) = lr_id r \<and> lr_integration (?g r) = lr_integration r \<and>
          status_follows (lr_status r) (lr_status (?g r))"
        using g(1-3) [OF r] by blast
      show "?g r \<in> set (map ?g rows)" unfolding set_map using r by (rule imageI)
    qed
  qed
  ultimately show ?thesis unfolding rows ..
qed

lemma leas_append:
  assumes "leas_ok rows" and "lr_id r \<notin> lr_id ` set rows"
    and "lr_integration r \<noteq> None \<longrightarrow> lr_integration r \<notin> lr_integration ` set rows"
    and "lr_status r \<in> set LEA_STATUSES"
  shows "leas_ok (rows @ [r]) \<and> leas_follow rows (rows @ [r])"
  using assms by (auto simp: leas_ok_def leas_follow_def status_follows_def)

lemma new_lea_row_sel [simp]:
  "lr_id (new_lea_row i n t st nc del) = i" "lr_integration (new_lea_row i n t st nc del) = None"
  "lr_status (new_lea_row i n t st nc del) = ''onboarding''"
  by (simp_all add: new_lea_row_def)

lemma onboarding_status: "''onboarding'' \<in> set LEA_STATUSES"
  by (simp add: LEA_STATUSES_def)

lemma merge_lea_sel [simp]:
  "lr_id (merge_lea old new) = lr_id old" "lr_integration (merge_lea old new) = lr_integration old"
  "lr_status (merge_lea old new) = lr_status old"
  by (simp_all add: merge_lea_def)

lemma lea_step_ok:
  assumes "lea_step db db'" and ok: "leas_ok (db_leas db)"
  shows "leas_ok (db_leas db') \<and> leas_follow (db_leas db) (db_leas db')"
  using assms(1)
proof cases
  case (Create params who reason now v)
  show ?thesis
  proof (cases v)
    case (Inl e)
    from lea_writers_Inl(1) [OF Create [unfolded Inl]] ok show ?thesis by simp
  next
    case (Inr w)
    from create_lea_Inr [OF Create [unfolded Inr]] obtain st where
      new: "\<not> (\<exists>r \<in> set (db_leas db). same_label params r)"
      and rows: "db_leas db' = db_leas db @ [(onboarding_row params)\<lparr>lr_state := st\<rparr>]" by blast
    show ?thesis
      unfolding rows using new
      by (intro leas_append [OF ok]) (auto simp: onboarding_row_def same_label_def onboarding_status)
  qed
next
  case (Transition l target who reason now v)
  show ?thesis
  proof (cases v)
    case (Inl e)
    from lea_writers_Inl(2) [OF Transition [unfolded Inl]] ok show ?thesis by simp
  next
    case (Inr w)
    from transition_status_Inr [OF Transition [unfolded Inr]] obtain r where
      r: "current_lea l db = Some r" "(lr_status r, target) \<in> set VALID_TRANSITIONS"
      and rows: "db_leas db' = update_where (\<lambda>r. lr_id r = l) (\<lambda>r. r\<lparr>lr_status := target\<rparr>) (db_leas db)"
      by blast
    from r(1) have "r \<in> set (db_leas db)" "lr_id r = l"
      by (auto simp: current_lea_def find_Some_iff)
    then have "x = r" if "x \<in> set (db_leas db)" "lr_id x = l" for x
      using that ok by (auto simp: leas_ok_def distinct_map inj_on_def)
    with r(2) show ?thesis
      unfolding rows
      by (intro leas_update [OF ok]) (auto simp: status_follows_def transition_statuses)
  qed
next
  case (Placeholder l)
  show ?thesis
  proof (cases "l \<in> lr_id ` set (db_leas db)")
    case False
    then have "db_leas db' = db_leas db @ [new_lea_row l (''LEA '' @ l) (lea_type_value TRADITIONAL_DISTRICT) ''XX'' None None]"
      by (simp add: Placeholder ensure_lea_exists_def insert_if_absent_def)
    with False leas_append [OF ok, of "new_lea_row l (''LEA '' @ l) (lea_type_value TRADITIONAL_DISTRICT) ''XX'' None None"]
    show ?thesis by (simp add: onboarding_status)
  qed (use ok in \<open>simp add: Placeholder ensure_lea_exists_def insert_if_absent_def\<close>)
next
  case (Upsert x deleted now)
  then obtain new where new: "lr_integration new = None" "lr_status new = ''onboarding''"
    and rows: "db_leas db' = upsert lr_id merge_lea new (db_leas db)"
  proof -
    from Upsert obtain st where "db_leas db' = upsert lr_id merge_lea (new_lea_row (le_id x) (le_name x)
        (lea_type_value (le_type x)) st (le_nces x) (deleted_stamp deleted now)) (db_leas db)"
      by (auto simp: upsert_lea_entity_def res_bind_Inr_iff)
    then show thesis by (rule that [rotated 2]) simp_all
  qed
  show ?thesis
  proof (cases "lr_id new \<in> lr_id ` set (db_leas db)")
    case True
    then have "db_leas db' = update_where (\<lambda>r. lr_id r = lr_id new) (\<lambda>old. merge_lea old new) (db_leas db)"
      by (simp add: rows upsert_def)
    with leas_update [OF ok, of "\<lambda>r. lr_id r = lr_id new" "\<lambda>old. merge_lea old new"] ok
    show ?thesis by (simp add: status_follows_def leas_ok_def)
  next
    case False
    then have "db_leas db' = db_leas db @ [new]" by (simp add: rows upsert_def)
    with False new leas_append [OF ok, of new] show ?thesis by (simp add: onboarding_status)
  qed
next
  case (Restore nk p del)
  then consider "db' = db" | name ty st nces where "db_leas db' = update_where (\<lambda>r. lr_id r = nk)
      (\<lambda>r. r\<lparr>lr_name := name, lr_type := ty, lr_state := st, lr_nces := nces, lr_deleted_at := del\<rparr>) (db_leas db)"
    by (auto simp: restore_lea_def res_bind_Inr_iff split: if_splits)
  then show ?thesis
  proof cases
    case 2
    show ?thesis
      unfolding 2 by (rule leas_update [OF ok]) (use ok in \<open>simp add: leas_ok_def status_follows_def\<close>)
  qed (use ok in simp)
next
  case (Delete nk ts)
  have rows: "db_leas db' = update_where (\<lambda>r. lr_id r = nk) (\<lambda>r. r\<lparr>lr_deleted_at := Some ts\<rparr>) (db_leas db)"
    by (simp add: Delete)
  show ?thesis
    unfolding rows by (rule leas_update [OF ok]) (use ok in \<open>simp add: leas_ok_def status_follows_def\<close>)
qed (use ok in simp)

section \<open>Properties\<close>


text \<open>
  Created and read back: after a LEA was created with a state code of two characters, reading
  it gives the row that the creation returned, in status \<open>onboarding\<close>, reading any other LEA gives
  what it gave before, and creating it again is refused.
\<close>

theorem create_lea_get:
  assumes "create_lea params who reason now db = (db', Inr v)" and "length (ci_state params) \<le> 2"
  shows "get_lea (ci_id params) db' = Some v \<and> lv_status v = ''onboarding'' \<and>
    (\<forall>l. l \<noteq> ci_id params \<longrightarrow> get_lea l db' = get_lea l db) \<and>
    create_lea params who' reason' now' db' = (db', Inl LeaAlreadyExists)"
proof -
  note c = create_lea_Inr [OF assms(1)]
  from c obtain st where st: "varchar2 (ci_state params) = Inr st"
    and rows: "db_leas db' = db_leas db @ [(onboarding_row params)\<lparr>lr_state := st\<rparr>]" by blast
  from assms(2) st have "st = ci_state params" by (simp add: varchar2_def)
  then have row: "(onboarding_row params)\<lparr>lr_state := st\<rparr> = onboarding_row params"
    by (simp add: onboarding_row_def)
  have v: "v = view_of_row (onboarding_row params)" using c by blast
  have other: "current_lea l db' = current_lea l db" if "l \<noteq> ci_id params" for l
    using that unfolding current_lea_def rows row find_append
    by (simp add: onboarding_row_def split: option.split)
  have none: "find (\<lambda>r. lr_id r = ci_id params \<and> lr_deleted_at r = None) (db_leas db) = None"
    using c by (auto simp: find_None_iff same_label_def)
  then have "current_lea (ci_id params) db' = Some (onboarding_row params)"
    unfolding current_lea_def rows row find_append by (simp add: onboarding_row_def)
  moreover have "same_label params (onboarding_row params)"
    by (simp add: same_label_def onboarding_row_def)
  then have "find (same_label params) (db_leas db') \<noteq> None"
    unfolding rows row find_None_iff by (simp (no_asm)) blast
  then have "create_lea params who' reason' now' db' = (db', Inl LeaAlreadyExists)"
    by (auto simp: create_lea_def transaction_def assert_unique_def split: option.splits)
  ultimately show ?thesis
    using other by (simp add: get_lea_def v) (simp add: view_of_row_def onboarding_row_def)
qed

text \<open>
  Every operator action is accounted for: each of the five verbs that change a connector or a
  LEA either raises and leaves the database as it was, or returns and has added exactly one
  audit row, which names the operator, a known one, the action, the LEA, the reason and the time.
\<close>

theorem lifecycle_audited:
  "(case authorize l p who reason seconds notes i now db of
      (db', Inl e) \<Rightarrow> db' = db | (db', Inr out) \<Rightarrow> audited who ''connector.authorized'' l reason now db db') \<and>
   (case revoke l p who reason now db of
      (db', Inl e) \<Rightarrow> db' = db | (db', Inr out) \<Rightarrow> audited who ''connector.revoked'' l reason now db db') \<and>
   (case adjust_poll_interval l p interval who reason now db of
      (db', Inl e) \<Rightarrow> db' = db
    | (db', Inr out) \<Rightarrow> audited who ''connector.poll_interval_adjusted'' l reason now db db') \<and>
   (case create_lea params who reason now db of
      (db', Inl e) \<Rightarrow> db' = db | (db', Inr out) \<Rightarrow> audited who ''lea.created'' (ci_id params) reason now db db') \<and>
   (case transition_status l target who reason now db of
      (db', Inl e) \<Rightarrow> db' = db | (db', Inr out) \<Rightarrow> audited who ''lea.status_changed'' l reason now db db')"
proof -
  have verb: "case x of (db', Inl e) \<Rightarrow> db' = db | (db', Inr out) \<Rightarrow> Q db'"
    if "\<And>db' e. x = (db', Inl e) \<Longrightarrow> db' = db" and "\<And>db' out. x = (db', Inr out) \<Longrightarrow> Q db'"
    for x :: "db \<times> (exn + 'z)" and Q
    using that by (cases x; cases "snd x") auto
  show ?thesis
    apply (intro conjI verb)
    apply (erule verbs_Inl)
    apply (erule authorize_Inr [THEN conjunct2])
    apply (erule verbs_Inl)
    apply (erule revoke_Inr [THEN conjunct2])
    apply (erule verbs_Inl)
    apply (erule adjust_Inr [THEN conjunct2, THEN conjunct2, THEN conjunct2])
    apply (erule lea_writers_Inl)
    apply (erule create_lea_Inr [THEN conjunct2, THEN conjunct2, THEN conjunct2])
    apply (erule lea_writers_Inl)
    apply (erule transition_status_Inr [THEN conjunct2, THEN conjunct2])
    done
qed

section \<open>Witnesses\<close>

definition s_params :: create_lea_input where
  "s_params = \<lparr>ci_id = ''lea-9'', ci_name = ''Nine'', ci_type = ''charter_lea'', ci_state = ''WA'',
     ci_timezone = ''America/Los_Angeles'', ci_nces = None, ci_integration = Some ''int-9''\<rparr>"

definition s_created :: db where
  "s_created = fst (create_lea s_params 7 ''new'' 5 s_authz_db)"

definition s_active :: db where
  "s_active = fst (transition_status ''lea-9'' ''active'' 7 ''go'' 6 s_created)"

lemma s_leas_ok: "leas_ok (db_leas s_authz_db)"
  by (simp add: s_authz_db_def leas_ok_def onboarding_status)


theorem create_lea_get_witness:
  "get_lea ''lea-9'' s_created \<noteq> None \<and>
   create_lea s_params 7 ''again'' 9 s_created = (s_created, Inl LeaAlreadyExists)"
proof -
  have "\<not> isl (snd (create_lea s_params 7 ''new'' 5 s_authz_db))" by code_simp
  then have "create_lea s_params 7 ''new'' 5 s_authz_db =
      (s_created, Inr (projr (snd (create_lea s_params 7 ''new'' 5 s_authz_db))))"
    unfolding s_created_def by (rule result_split)
  from create_lea_get [OF this, of 7 "''again''" 9] show ?thesis by (simp add: s_params_def)
qed

end
