(* ===== verification/SyncProperties.thy ===== *)
theory SyncProperties
  imports SyncInvariants
begin

text \<open>
  The properties of the sync worker: what a failed page and a successful page change, the
  refinement of a page by the abstract store, replay of a page, isolation of the LEAs, and the
  drain: append-only snapshots, the chain of cursors, the page cap and the degraded integration.
\<close>

section \<open>Lemmas on pages\<close>

lemma blocked_iff:
  "run_pipeline page st = Inr rp \<Longrightarrow> rp_page_blocked rp \<longleftrightarrow> \<not> l1_ok (pg_layer_1 page)"
proof (cases "l1_ok (pg_layer_1 page)")
  case True
  assume rp: "run_pipeline page st = Inr rp"
  have "rp_page_blocked rp = (\<exists>i \<in> set (rp_issues rp). is_severity i = ERROR \<and> is_event_id i = None)"
    by (rule run_pipeline_layer1_ok [OF True, of st]) (use True rp in \<open>auto simp: make_report_def\<close>)
  with True run_pipeline_issue_event_level [OF True rp] show ?thesis by auto
qed (auto simp: blocked_layer1_failed make_report_def)

lemma outcome_sel [simp]:
  "po_status (failed_outcome job l c rp) = ''failed''"
  "po_has_more (failed_outcome job l c rp) = False"
  "po_cursor_before (failed_outcome job l c rp) = c"
  "po_cursor_after (failed_outcome job l c rp) = c"
  "po_status (success_outcome job l c page rp n) = ''success''"
  "po_has_more (success_outcome job l c page rp n) = pg_has_more page"
  "po_cursor_before (success_outcome job l c page rp n) = c"
  "po_cursor_after (success_outcome job l c page rp n) = cur_value (pg_next_cursor page)"
  "po_event_count (success_outcome job l c page rp n) = applied n"
  "po_skipped_count (success_outcome job l c page rp n) = skipped n"
  "po_quarantined_count (success_outcome job l c page rp n) = quarantined n"
  by (simp_all add: failed_outcome_def success_outcome_def)

lemma running_job_id [simp]: "sj_id (running_job job l p c now) = job"
  "sj_lea_id (running_job job l p c now) = l"
  by (simp_all add: running_job_def)

lemma written_events:
  assumes "run_pipeline page st = Inr rp" and "\<not> rp_page_blocked rp"
    and "ev \<in> set (pg_events page)" and "to_write rp ev"
  shows "check_schema ev = []" and "type_matches (ev_entity_type ev) (ev_entity ev)"
proof -
  have l1: "l1_ok (pg_layer_1 page)" using assms(1,2) blocked_iff by blast
  from assms(3,4) ok_ids_iff [OF l1 assms(1)] have "\<not> rejects ev" by (auto simp: to_write_def)
  then show "check_schema ev = []" by (simp add: rejects_def)
  then show "type_matches (ev_entity_type ev) (ev_entity ev)" by (rule accepted_schema(1))
qed

text \<open>Events for the LEA of the drain, as the EdLink connector makes them.\<close>

definition page_for :: "lea_id \<Rightarrow> event_page \<Rightarrow> bool" where
  "page_for l page \<longleftrightarrow> (\<forall>ev \<in> set (pg_events page). ev_lea_id ev = l \<and> own_lea l ev)"

lemma written_entity_of_lea:
  assumes "run_pipeline page st = Inr rp" and "\<not> rp_page_blocked rp" and "page_for l page"
    and "ev \<in> set (pg_events page)" and "to_write rp ev"
  shows "own_lea l ev \<and> entity_of_lea l (ev_entity ev)"
proof -
  have l: "ev_lea_id ev = l" "own_lea l ev" using assms(3,4) by (auto simp: page_for_def)
  note w = written_events [OF assms(1,2,4,5)]
  from w(2) show ?thesis
  proof (cases rule: type_matches_cases)
    case (1 le)
    with l show ?thesis by (simp add: own_lea_def natural_key_def entity_of_lea_def)
  next
    case (2 s)
    with l accepted_schema(4) [OF w(1)] show ?thesis by (simp add: entity_of_lea_def)
  next
    case (3 e)
    with l accepted_schema(5) [OF w(1)] show ?thesis by (simp add: entity_of_lea_def)
  qed
qed

text \<open>What every page, failed or not, does to the snapshots.\<close>

lemma page_append_only:
  "append_only db (fst (process_one_page p fetch l job now db))"
proof (cases "page_body p fetch l job now db")
  case (Inr r)
  then obtain out rp summary db' where body: "page_body p fetch l job now db = Inr ((out, rp, summary), db')"
    by (metis prod.collapse)
  then have "append_only db db'"
  proof (cases rule: page_body_cases)
    case (failed page)
    then show ?thesis by (intro append_only_same) simp
  next
    case (success page n db1)
    from loop_append_only [OF success(6) [unfolded process_events_def]]
    have "append_only db db1" by (rule append_only_trans [OF append_only_same, rotated]) simp
    then show ?thesis
      by (rule append_only_trans) (rule append_only_same, simp add: success(7))
  qed
  with body show ?thesis by (simp add: process_one_page_def transaction_def)
qed (simp add: process_one_page_def transaction_def)

section \<open>Properties of a page\<close>


lemma page_success:
  assumes "process_one_page p fetch l job now db = (db', Inr (out, rp, summary))"
    and "po_status out = ''success''"
  shows "\<exists>page j. fetch l (read_cursor db l p) = Inr page \<and> l1_ok (pg_layer_1 page) \<and>
    read_cursor db' l p = pg_next_cursor page \<and>
    (\<forall>l' p'. (l', p') \<noteq> (l, p) \<longrightarrow> read_cursor db' l' p' = read_cursor db l' p') \<and>
    db_sync_jobs db' = db_sync_jobs db @ [j] \<and> sj_id j = job \<and> sj_status j = ''success'' \<and>
    sj_event_count j = po_event_count out \<and>
    sj_cursor_after j = Some (cur_value (pg_next_cursor page)) \<and>
    po_event_count out + po_skipped_count out + po_quarantined_count out =
      int (length (pg_events page))"
proof -
  from assms(1) have body: "page_body p fetch l job now db = Inr ((out, rp, summary), db')"
    by (simp add: process_one_page_def transaction_Inr)
  then show ?thesis
  proof (cases rule: page_body_cases)
    case (failed page)
    with assms(2) show ?thesis by simp
  next
    case (success page n db1)
    let ?j = "running_job job l p (cur_value (read_cursor db l p)) now"
    note fr = loop_frame [OF success(6) [unfolded process_events_def]]
    from fr success(3) update_new_job [of ?j db] have jobs: "db_sync_jobs db' = db_sync_jobs db @
        [?j\<lparr>sj_status := ''success'', sj_completed_at := Some now, sj_event_count := applied n,
           sj_error_count := error_count rp, sj_warning_count := warning_count rp,
           sj_cursor_after := Some (cur_value (pg_next_cursor page))\<rparr>]"
      by (simp add: success(7) upsert_cursor_state_def write_cursor_def mark_sync_job_success_def
          update_sync_job_def)
    have other: "read_cursor (mark_sync_job_success job now a e w c db1) l' p' = read_cursor db l' p'"
      for a e w c l' p'
      using fr by (simp add: read_cursor_def cursor_of_def mark_sync_job_success_def update_sync_job_def)
    have counts: "applied n + skipped n + quarantined n = int (length (pg_events page))"
      using success(6) loop_counts unfolding process_events_def by force
    show ?thesis
      using success(1,2,4) blocked_iff [OF success(2)] counts jobs
      by (auto simp: success(5) success(7) read_cursor_upsert other intro!: exI [of _ page])
  qed
qed

text \<open>
  A successful page moves the cursor of its (LEA, partner) to the one the partner gave, in the
  transaction of the writes, leaves the other cursors, and records one job with the number of
  applied events; applied, skipped and quarantined events add up to the events of the page.
\<close>

theorem success_page_cursor:
  assumes "process_one_page p fetch l job now db = (db', Inr (out, rp, summary))"
    and "po_status out = ''success''"
  shows "\<exists>page j. fetch l (read_cursor db l p) = Inr page \<and> l1_ok (pg_layer_1 page) \<and>
    read_cursor db' l p = pg_next_cursor page \<and>
    (\<forall>l' p'. (l', p') \<noteq> (l, p) \<longrightarrow> read_cursor db' l' p' = read_cursor db l' p') \<and>
    db_sync_jobs db' = db_sync_jobs db @ [j] \<and> sj_id j = job \<and> sj_status j = ''success'' \<and>
    sj_event_count j = po_event_count out \<and>
    sj_cursor_after j = Some (cur_value (pg_next_cursor page)) \<and>
    po_event_count out + po_skipped_count out + po_quarantined_count out =
      int (length (pg_events page))"
  using page_success [OF assms] .

lemma page_next_cursor:
  assumes "process_one_page p fetch l job now db = (db', Inr (out, rp, summary))"
    and "po_status out = ''success''" and "fetch l (read_cursor db l p) = Inr page"
  shows "read_cursor db' l p = pg_next_cursor page"
  using page_success [OF assms(1,2)] assms(3) by auto

lemma page_store:
  assumes "process_one_page p fetch l job now db = (db', Inr (out, rp, summary))"
    and "po_status out = ''success''" and "fetch l (read_cursor db l p) = Inr page"
    and "\<forall>ev \<in> set (pg_events page). own_lea l ev" and "snapshots_ok db"
  shows "snapshots_ok db' \<and>
    store db' = fold (lww_step l) (filter (to_write rp) (pg_events page)) (store db)"
proof -
  from assms(1) have body: "page_body p fetch l job now db = Inr ((out, rp, summary), db')"
    by (simp add: process_one_page_def transaction_Inr)
  then show ?thesis
  proof (cases rule: page_body_cases)
    case (failed page')
    with assms(2) show ?thesis by simp
  next
    case (success page' n db1)
    let ?start = "ensure_lea_exists l (started job now rp
        (running_job job l p (cur_value (read_cursor db l p)) now) db)"
    have page: "page' = page" using success(1) assms(3) by simp
    have "snapshots_ok ?start" by (rule snapshots_ok_same [OF assms(5)]) simp_all
    from loop_refines [OF success(6) [unfolded process_events_def page] _ this] assms(4)
    have "snapshots_ok db1 \<and>
        store db1 = fold (lww_step l) (filter (to_write rp) (pg_events page)) (store ?start)"
      by simp
    moreover have "store ?start = store db" by (rule store_same) simp
    moreover have "store db' = store db1" by (rule store_same) (simp add: success(7))
    moreover have "snapshots_ok db1 \<longrightarrow> snapshots_ok db'"
      by (auto elim: snapshots_ok_same simp: success(7))
    ultimately show ?thesis by simp
  qed
qed

text \<open>
  C1. Refinement: a successful page whose LEA events are about its own LEA is, seen through the
  abstract store, the fold over the accepted events of the page, in page order, of a
  last-writer-wins update that compares source event ids. One live snapshot per key is kept.
\<close>

theorem page_refines_lww:
  assumes "process_one_page p fetch l job now db = (db', Inr (out, rp, summary))"
    and "po_status out = ''success''" and "fetch l (read_cursor db l p) = Inr page"
    and "\<forall>ev \<in> set (pg_events page). own_lea l ev" and "snapshots_ok db"
  shows "snapshots_ok db' \<and>
    store db' = fold (lww_step l) (filter (to_write rp) (pg_events page)) (store db)"
  using page_store [OF assms] .

lemma page_orphans_mono:
  assumes "set (ls_known_students a) \<subseteq> set (ls_known_students b)"
  shows "set (page_orphans page b) \<subseteq> set (page_orphans page a)"
  unfolding page_orphans_def using assms by (force simp: mem_orphans_iff orphan_after_def)

lemma read_lea_state_known: "ls_known_students (read_lea_state db l p) = read_known_student_ids db l"
  by (simp add: read_lea_state_def split: prod.split)

lemma replay_report:
  assumes "run_pipeline page a = Inr rpa" and "run_pipeline page b = Inr rpb"
    and "l1_ok (pg_layer_1 page)" and "rp_quarantined_ids rpa = []"
    and "set (ls_known_students a) \<subseteq> set (ls_known_students b)"
  shows "set (rp_quarantined_ids rpb) = {}" and "to_write rpb = to_write rpa"
proof -
  have a: "page_orphans page a = []"
    using quarantined_ids_set [OF assms(3,1)] assms(4) by simp
  with page_orphans_mono [OF assms(5), of page] have b: "page_orphans page b = []" by simp
  show q: "set (rp_quarantined_ids rpb) = {}" using quarantined_ids_set [OF assms(3,2)] b by simp
  show "to_write rpb = to_write rpa"
    using ok_ids_iff [OF assms(3,1)] ok_ids_iff [OF assms(3,2)] q assms(4) a b
    by (auto simp: to_write_def fun_eq_iff)
qed

lemma loop_knows:
  assumes "fold_res (process_event rp job l now) evs (n, db) = Inr (n', db')"
    and "knows l i db"
    and "\<And>ev s. ev \<in> set evs \<Longrightarrow> to_write rp ev \<Longrightarrow> ev_entity ev = EStudent s \<Longrightarrow> st_lea_id s = l"
  shows "knows l i db'"
  using assms(1,2) by (rule loop_invariant) (use assms(3) step_knows in blast)

lemma replay_run:
  assumes "process_one_page p fetch l job now db = (db1, Inr (out, rp, summary))"
    and "po_status out = ''success''" and "fetch l (read_cursor db l p) = Inr page"
    and "page_for l page" and "rp_quarantined_ids rp = []"
    and "fetch' l (read_cursor dbr l p) = Inr page" and "job' \<notin> job_ids dbr"
    and same_db: "db_snapshots dbr = db_snapshots db1" "db_students dbr = db_students db1"
      "db_leas dbr = db_leas db1"
  shows "\<exists>db2 out' rp'. process_one_page p fetch' l job' now' dbr = (db2, Inr (out', rp', None)) \<and>
    po_status out' = ''success'' \<and> po_event_count out' = 0 \<and>
    db_snapshots db2 = db_snapshots dbr \<and> db_students db2 = db_students dbr \<and>
    db_enrollments db2 = db_enrollments dbr \<and> db_leas db2 = db_leas dbr \<and>
    db_quarantine db2 = db_quarantine dbr \<and> read_cursor db2 l p = pg_next_cursor page"
proof -
  from assms(1) have body: "page_body p fetch l job now db = Inr ((out, rp, summary), db1)"
    by (simp add: process_one_page_def transaction_Inr)
  then show ?thesis
  proof (cases rule: page_body_cases)
    case (failed page')
    with assms(2) show ?thesis by simp
  next
    case (success page' n dbx)
    have page: "page' = page" using success(1) assms(3) by simp
    note rp = success(2) [unfolded page]
    let ?start = "ensure_lea_exists l (started job now rp
        (running_job job l p (cur_value (read_cursor db l p)) now) db)"
    note loop = success(6) [unfolded process_events_def page]
    have l1: "l1_ok (pg_layer_1 page)" using blocked_iff [OF rp] success(4) by simp
    have own: "\<And>ev. ev \<in> set (pg_events page) \<Longrightarrow> own_lea l ev"
      using assms(4) by (simp add: page_for_def)
    have applied: "already_applied l ev dbr" if "ev \<in> set (pg_events page)" "to_write rp ev" for ev
      using loop_applies_all [OF loop] own that already_applied_same [of dbr dbx]
      by (simp add: success(7) same_db)
    have "knows l i dbr" if "knows l i db" for i
    proof -
      have "knows l i ?start" using that by (simp add: knows_def read_known_student_ids_def)
      with loop have "knows l i dbx"
      proof (rule loop_knows)
        fix ev s assume "ev \<in> set (pg_events page)" "to_write rp ev" "ev_entity ev = EStudent s"
        with written_entity_of_lea [OF rp success(4) assms(4)] show "st_lea_id s = l"
          by (fastforce simp: entity_of_lea_def)
      qed
      then show ?thesis by (simp add: knows_def read_known_student_ids_def success(7) same_db)
    qed
    then have known: "set (ls_known_students (read_lea_state db l p)) \<subseteq>
        set (ls_known_students (read_lea_state dbr l p))"
      by (auto simp: read_lea_state_known knows_def)
    obtain rp' where rp': "run_pipeline page (read_lea_state dbr l p) = Inr rp'"
      by (rule run_pipeline_layer1_ok [OF l1]) blast
    note same = replay_report [OF rp rp' l1 assms(5) known]
    have lea: "lea_exists dbr l"
    proof -
      from loop have "lea_exists dbx l"
        by (rule loop_invariant [where P = "\<lambda>d. lea_exists d l"]) (auto intro: step_lea_exists)
      then show ?thesis by (simp add: lea_exists_def success(7) same_db)
    qed
    let ?j = "running_job job' l p (cur_value (read_cursor dbr l p)) now'"
    let ?start' = "started job' now' rp' ?j dbr"
    have ens: "ensure_lea_exists l ?start' = ?start'"
      using lea by (simp add: ensure_lea_exists_def insert_if_absent_def new_lea_row_def lea_exists_def)
    have skip: "process_events rp' job' l now' (pg_events page) ?start' =
        Inr (\<lparr>applied = 0, skipped = int (length (pg_events page)), quarantined = 0\<rparr>, ?start')"
      unfolding process_events_def
      by (subst loop_all_skip) (use same applied already_applied_same [of ?start' dbr] in auto)
    have "page_body p fetch' l job' now' dbr = Inr ((success_outcome job' l
        (cur_value (read_cursor dbr l p)) page rp'
        \<lparr>applied = 0, skipped = int (length (pg_events page)), quarantined = 0\<rparr>, rp', None),
        upsert_cursor_state l p (pg_next_cursor page) now' (mark_sync_job_success job' now' 0
          (error_count rp') (warning_count rp') (cur_value (pg_next_cursor page)) ?start'))"
    proof -
      have ins: "insert_sync_job ?j dbr = Inr (dbr\<lparr>db_sync_jobs := db_sync_jobs dbr @ [?j]\<rparr>)"
        using assms(7) by (simp add: insert_sync_job_def)
      have per: "persist_validation_issues job' rp' now' (dbr\<lparr>db_sync_jobs := db_sync_jobs dbr @ [?j]\<rparr>)
          = Inr ?start'"
        by (simp add: persist_validation_issues_def started_def job_ids_def)
      show ?thesis
        using l1 blocked_iff [OF rp'] skip
        by (simp add: page_body_def Let_def assms(6) rp' ins per commit_page_def ens)
    qed
    then show ?thesis by (simp add: process_one_page_def transaction_def read_cursor_upsert)
  qed
qed

text \<open>
  C2. Processing the same page twice: after a successful page without quarantined events, the
  same page fetched again with a fresh job id succeeds, applies no event and leaves every
  snapshot, canonical row and quarantine row exactly as the first time.
\<close>

theorem page_replay_noop:
  assumes "process_one_page p fetch l job now db = (db1, Inr (out, rp, summary))"
    and "po_status out = ''success''" and "fetch l (read_cursor db l p) = Inr page"
    and "page_for l page" and "rp_quarantined_ids rp = []"
    and "fetch' l (read_cursor db1 l p) = Inr page" and "job' \<notin> job_ids db1"
  shows "\<exists>db2 out' rp'. process_one_page p fetch' l job' now' db1 = (db2, Inr (out', rp', None)) \<and>
    po_status out' = ''success'' \<and> po_event_count out' = 0 \<and>
    db_snapshots db2 = db_snapshots db1 \<and> db_students db2 = db_students db1 \<and>
    db_enrollments db2 = db_enrollments db1 \<and> db_leas db2 = db_leas db1 \<and>
    db_quarantine db2 = db_quarantine db1"
  using replay_run [OF assms(1-5), of fetch' db1 job' now'] assms(6,7) by blast

text \<open>The job and cursor writes are about the LEA of the drain.\<close>

lemma foreign_started: "sj_lea_id j = l \<Longrightarrow> foreign l (started job now rp j db) = foreign l db"
  by (simp add: foreign_def started_def)

lemma foreign_ensure: "foreign l (ensure_lea_exists l db) = foreign l db"
  by (simp add: foreign_def ensure_lea_exists_def insert_if_absent_def new_lea_row_def)

lemma foreign_update_job:
  assumes "\<And>j. j \<in> set (db_sync_jobs db) \<Longrightarrow> sj_id j = job \<Longrightarrow> sj_lea_id j = l"
    and "\<And>j. sj_lea_id (f j) = sj_lea_id j"
  shows "foreign l (update_sync_job job f db) = foreign l db"
proof -
  have "filter (\<lambda>j. sj_lea_id j \<noteq> l) (update_where (\<lambda>j. sj_id j = job) f (db_sync_jobs db)) =
      filter (\<lambda>j. sj_lea_id j \<noteq> l) (db_sync_jobs db)"
    by (rule filter_update_where) (use assms in auto)
  then show ?thesis by (simp add: foreign_def update_sync_job_def)
qed

lemma foreign_cursor: "foreign l (upsert_cursor_state l p c now db) = foreign l db"
proof -
  have "filter (\<lambda>c. cs_lea_id c \<noteq> l) (upsert cursor_key merge_cursor new (db_cursors db)) =
      filter (\<lambda>c. cs_lea_id c \<noteq> l) (db_cursors db)" if "cs_lea_id new = l" for new
    by (rule filter_upsert) (use that in \<open>auto simp: cursor_key_def merge_cursor_def\<close>)
  then show ?thesis by (simp add: foreign_def upsert_cursor_state_def write_cursor_def)
qed

lemma started_job_lea:
  assumes "job \<notin> job_ids db" and "x \<in> set (db_sync_jobs db @ [j])" and "sj_id x = job"
  shows "x = j"
  using assms by (auto simp: job_ids_def)

lemma page_isolated:
  assumes "process_one_page p fetch l job now db = (db', Inr (out, rp, summary))"
    and "fetch l (read_cursor db l p) = Inr page" and "page_for l page"
    and "\<forall>ev \<in> set (pg_events page). to_write rp ev \<longrightarrow> ids_free l ev db"
  shows "foreign l db' = foreign l db"
proof -
  from assms(1) have body: "page_body p fetch l job now db = Inr ((out, rp, summary), db')"
    by (simp add: process_one_page_def transaction_Inr)
  let ?j = "running_job job l p (cur_value (read_cursor db l p)) now"
  let ?s = "started job now rp ?j db"
  have s: "foreign l ?s = foreign l db" by (simp add: foreign_started)
  have jobs: "sj_lea_id x = l" if "job \<notin> job_ids db" "x \<in> set (db_sync_jobs ?s)" "sj_id x = job" for x
    using started_job_lea [OF that(1), of x ?j] that(2,3) by auto
  from body show ?thesis
  proof (cases rule: page_body_cases)
    case (failed page')
    show ?thesis
      unfolding failed(6) mark_sync_job_failed_def s [symmetric]
      by (rule foreign_update_job) (use jobs failed(3) in auto)
  next
    case (success page' n db1)
    have page: "page' = page" using success(1) assms(2) by simp
    note loop = success(6) [unfolded process_events_def page]
    have "foreign l db1 = foreign l (ensure_lea_exists l ?s)"
    proof (rule loop_foreign [OF loop])
      fix ev assume ev: "ev \<in> set (pg_events page)" "to_write rp ev"
      have "ids_free l ev (ensure_lea_exists l ?s)"
        using assms(4) ev by (simp add: ids_free_def)
      then show "own_lea l ev \<and> entity_of_lea l (ev_entity ev) \<and> ids_free l ev (ensure_lea_exists l ?s)"
        using written_entity_of_lea [OF success(2) [unfolded page] success(4) assms(3) ev] by blast
    qed
    moreover have "foreign l db' = foreign l db1"
      unfolding success(7) foreign_cursor mark_sync_job_success_def
      by (rule foreign_update_job) (use jobs success(3) loop_frame [OF loop] in auto)
    ultimately show ?thesis using s by (simp add: foreign_ensure)
  qed
qed

text \<open>
  C3. Isolation: whatever the outcome of a page of one LEA, the rows of the other LEAs are the
  same rows in the same order: canonical rows, snapshots, jobs, quarantine and cursors, provided
  the page's events are for its LEA and no other LEA has rows under the ids of its accepted
  students and enrollments.
\<close>

theorem page_tenant_isolation:
  assumes "process_one_page p fetch l job now db = (db', Inr (out, rp, summary))"
    and "fetch l (read_cursor db l p) = Inr page" and "page_for l page"
    and "\<forall>ev \<in> set (pg_events page). to_write rp ev \<longrightarrow> ids_free l ev db"
  shows "foreign l db' = foreign l db"
  using assms by (rule page_isolated)

text \<open>
  The hypothesis on the ids is needed: \<open>ON CONFLICT (id) DO UPDATE SET lea_id =
  EXCLUDED.lea_id\<close> takes a student without enrollments from the LEA that has it. Whoever had
  the id before, the event succeeds and afterwards only the LEA of the event has the student.
\<close>

theorem student_taken_over:
  assumes "lea_exists db (st_lea_id s)" and "r \<in> set (db_students db)" and "sr_id r = st_id s"
    and "\<forall>e \<in> set (db_enrollments db). er_student_id e \<noteq> st_id s"
  shows "\<exists>db'. upsert_student s del now db = Inr db' \<and>
    (\<forall>l. student_in_lea db' l (st_id s) \<longleftrightarrow> l = st_lea_id s)"
proof -
  let ?row = "student_row_of s (deleted_stamp del now)"
  let ?rows = "upsert sr_id (\<lambda>_ new. new) ?row (db_students db)"
  have "\<not> student_move_blocked db ?row" using assms(4) by (auto simp: student_move_blocked_def)
  with assms(1) have ok: "upsert_student s del now db = Inr (db\<lparr>db_students := ?rows\<rparr>)"
    by (simp add: upsert_student_def write_student_def)
  have "sr_lea_id x = st_lea_id s" if "x \<in> set ?rows" "sr_id x = st_id s" for x
    using that assms(2,3) by (auto simp: upsert_def set_update_where image_iff split: if_splits)
  moreover have "?row \<in> set ?rows" by (rule upsert_replace_mem)
  ultimately have "student_in_lea (db\<lparr>db_students := ?rows\<rparr>) l (st_id s) \<longleftrightarrow> l = st_lea_id s" for l
    by (force simp: student_in_lea_def)
  with ok show ?thesis by blast
qed

section \<open>Properties of the drain\<close>

lemma drain_pages_append_only:
  assumes "\<And>i d. append_only d (fst (step i d))"
  shows "append_only db (fst (drain_pages step notify n i db))"
proof (induction n arbitrary: i db)
  case (Suc n)
  obtain db1 r where step: "step i db = (db1, r)" by (cases "step i db")
  with assms [of db i] have 1: "append_only db db1" by simp
  obtain db2 sent outs where rest: "drain_pages step notify n (Suc i) db1 = (db2, sent, outs)"
    by (cases "drain_pages step notify n (Suc i) db1") auto
  with Suc [of db1 "Suc i"] 1 have 2: "append_only db db2" by (auto intro: append_only_trans)
  show ?case using 1 2 by (auto simp: step rest split: sum.splits)
qed simp

text \<open>
  The snapshot tables are append-only: whatever a drain meets (unsound responses, exceptions
  of the partner or of the database, a degraded integration), every snapshot that was there is
  still there, at its place, and only its two supersession columns may differ.
\<close>

theorem drain_append_only:
  "append_only db (fst (drain_lea (map_option (\<lambda>probe. poll_and_persist probe p) poller) alerts
     max_pages p fetch ids clock l db))"
proof -
  let ?pages = "drain_pages (\<lambda>i. process_one_page p (fetch i) l (ids i) (clock i))
      (page_alerts alerts p l) max_pages 0"
  have pages: "append_only d (fst (?pages d))" for d
    by (rule drain_pages_append_only) (rule page_append_only)
  show ?thesis
  proof (cases poller)
    case None
    with pages show ?thesis by (simp add: drain_lea_def)
  next
    case (Some probe)
    obtain db1 sent r where poll: "poll_and_persist probe p l db = (db1, sent, r)"
      by (cases "poll_and_persist probe p l db") auto
    from poll_frame [OF poll] have "append_only db db1" by (auto intro: append_only_same)
    moreover have "append_only db1 (fst (?pages db1))" by (rule pages)
    ultimately show ?thesis
      using append_only_trans
      by (auto simp: drain_lea_def Some poll split: sum.splits option.splits prod.splits)
  qed
qed

lemma page_result_cursor:
  assumes "process_one_page p fetch l job now db = (db', Inr r)"
  shows "po_cursor_before (fst r) = cur_value (read_cursor db l p)"
    and "po_status (fst r) = ''success'' \<Longrightarrow> po_cursor_after (fst r) = cur_value (read_cursor db' l p)"
proof -
  obtain out rp summary where r: "r = (out, rp, summary)" by (cases r)
  with assms have body: "page_body p fetch l job now db = Inr ((out, rp, summary), db')"
    by (simp add: process_one_page_def transaction_Inr)
  then show "po_cursor_before (fst r) = cur_value (read_cursor db l p)"
    by (cases rule: page_body_cases) (simp_all add: r)
  from body show "po_status (fst r) = ''success'' \<Longrightarrow> po_cursor_after (fst r) = cur_value (read_cursor db' l p)"
    by (cases rule: page_body_cases) (simp_all add: r read_cursor_upsert)
qed

definition chained :: "page_outcome list \<Rightarrow> bool" where
  "chained outs \<longleftrightarrow> (\<forall>i. Suc i < length outs \<longrightarrow>
     po_status (outs ! i) = ''success'' \<and> po_has_more (outs ! i) \<and>
     po_cursor_before (outs ! Suc i) = po_cursor_after (outs ! i))"

lemma chained_Cons:
  "chained (x # outs) \<longleftrightarrow> chained outs \<and> (outs \<noteq> [] \<longrightarrow>
     po_status x = ''success'' \<and> po_has_more x \<and> po_cursor_before (hd outs) = po_cursor_after x)"
proof (cases outs)
  case (Cons y ys)
  have all: "All Q = (Q 0 \<and> (\<forall>m. Q (Suc m)))" for Q
    by (metis nat.exhaust)
  show ?thesis
    unfolding chained_def by (subst all) (auto simp: Cons)
qed (simp add: chained_def)

lemma drain_pages_chain:
  assumes "drain_pages (\<lambda>i. process_one_page p (fetch i) l (ids i) (clock i)) notify n i db =
      (db', sent, Inr outs)"
  shows "length outs \<le> n \<and> chained outs \<and>
    (outs \<noteq> [] \<longrightarrow> po_cursor_before (hd outs) = cur_value (read_cursor db l p)) \<and>
    (n > 0 \<longrightarrow> outs \<noteq> []) \<and>
    (length outs < n \<longrightarrow> \<not> po_has_more (last outs) \<or> po_status (last outs) \<noteq> ''success'')"
  using assms
proof (induction n arbitrary: i db sent outs)
  case 0
  then show ?case by (simp add: chained_def)
next
  case (Suc n)
  from Suc.prems obtain db1 r where step: "process_one_page p (fetch i) l (ids i) (clock i) db = (db1, Inr r)"
    by (auto split: prod.splits sum.splits)
  note cur = page_result_cursor [OF step]
  show ?case
  proof (cases "\<not> po_has_more (fst r) \<or> po_status (fst r) \<noteq> ''success''")
    case True
    with Suc.prems step have "outs = [fst r]" by simp
    with True cur show ?thesis by (auto simp: chained_def)
  next
    case False
    with Suc.prems step obtain sent' outs' where
      rest: "drain_pages (\<lambda>i. process_one_page p (fetch i) l (ids i) (clock i)) notify n (Suc i) db1 =
        (db', sent', Inr outs')" and outs: "outs = fst r # outs'"
      by (auto split: prod.splits sum.splits)
    from Suc.IH [OF rest] False cur show ?thesis by (auto simp: outs chained_Cons)
  qed
qed


text \<open>
  A degraded integration pauses rostering: when the partner reports the integration of an
  authorized LEA as inactive, disabled or destroyed, the drain reads no page, changes nothing
  but the status columns of the live authorization, and sends one critical alert.
\<close>

theorem degraded_drain_skipped:
  assumes "probe l = Inr snap" and "ss_status snap \<in> set DEGRADED_STATUSES"
    and "a \<in> set (db_authorizations db)" and "live_authorization l p a"
  shows "drain_lea (Some (poll_and_persist (Some probe) p)) alerts max_pages p fetch ids clock l db =
    (db\<lparr>db_authorizations :=
        update_where (live_authorization l p) (observe snap) (db_authorizations db)\<rparr>,
     [fire_integration_degraded l p (ss_status snap)], Inr [])"
proof -
  obtain r where r: "find (live_authorization l p) (db_authorizations db) = Some r"
    using assms(3,4) by (metis find_None_iff option.exhaust)
  have "ss_status snap \<in> set integration_status_values"
    using assms(2) by (auto simp: DEGRADED_STATUSES_def integration_status_values_def)
  with r have "persist_status p l snap db = Inr (Some (observe snap r),
      db\<lparr>db_authorizations :=
        update_where (live_authorization l p) (observe snap) (db_authorizations db)\<rparr>)"
    by (simp add: persist_status_def)
  with assms(1,2) show ?thesis
    by (simp add: drain_lea_def poll_and_persist_def transaction_def record_of_row_def observe_def Let_def)
qed

section \<open>Witnesses\<close>

definition s_page2 :: event_page where
  "s_page2 = s_page [s_ev_student, s_ev_enrollment]"

definition s_fetch :: "lea_id \<Rightarrow> cursor \<Rightarrow> exn + event_page" where
  "s_fetch l c = Inr s_page2"

definition s_first :: "db \<times> (exn + page_result)" where
  "s_first = process_one_page ''edlink'' s_fetch ''lea-1'' 1 100 empty_db"

definition s_db1 :: db where "s_db1 = fst s_first"

definition s_out1 :: page_outcome where "s_out1 = fst (projr (snd s_first))"

definition s_rp1 :: validation_report where "s_rp1 = fst (snd (projr (snd s_first)))"

text \<open>One evaluation of the page; the facts about it follow.\<close>

lemma s_first_eval:
  "case s_first of
     (db, Inr (out, rp, summary)) \<Rightarrow> summary = None \<and> po_status out = ''success'' \<and>
       rp_quarantined_ids rp = [] \<and> map sj_id (db_sync_jobs db) = [1]
   | _ \<Rightarrow> False"
  by code_simp

lemma s_first_facts:
  "process_one_page ''edlink'' s_fetch ''lea-1'' 1 100 empty_db = (s_db1, Inr (s_out1, s_rp1, None)) \<and>
   po_status s_out1 = ''success'' \<and> rp_quarantined_ids s_rp1 = [] \<and> job_ids s_db1 = {1}"
proof -
  obtain db r where dr: "s_first = (db, r)" by (cases s_first)
  from s_first_eval [unfolded dr] obtain out rp where r: "r = Inr (out, rp, None)"
    and facts: "po_status out = ''success''" "rp_quarantined_ids rp = []"
      "map sj_id (db_sync_jobs db) = [1]"
    by (cases r) auto
  note first = dr [unfolded r]
  from facts(3) have "job_ids db = {1}" by (auto simp: job_ids_def)
  moreover have "s_db1 = db" "s_out1 = out" "s_rp1 = rp"
    by (simp_all add: s_db1_def s_out1_def s_rp1_def first)
  ultimately show ?thesis using facts first by (simp add: s_first_def)
qed

lemmas s_first_run = s_first_facts [THEN conjunct1]
lemmas s_first_success = s_first_facts [THEN conjunct2, THEN conjunct1]
lemmas s_first_clean = s_first_facts [THEN conjunct2, THEN conjunct2, THEN conjunct1]
lemmas s_first_jobs = s_first_facts [THEN conjunct2, THEN conjunct2, THEN conjunct2]

lemma s_fetch_page [simp]: "s_fetch l c = Inr s_page2"
  by (simp add: s_fetch_def)

lemma s_page2_for: "page_for ''lea-1'' s_page2"
  by code_simp

lemma empty_db_ok: "snapshots_ok empty_db"
  by (rule snapshots_okI) (simp_all add: empty_db_def one_live_def ids_fresh_def)

theorem success_page_cursor_witness:
  "read_cursor s_db1 ''lea-1'' ''edlink'' = pg_next_cursor s_page2 \<and>
   po_event_count s_out1 + po_skipped_count s_out1 + po_quarantined_count s_out1 = 2"
  using success_page_cursor [OF s_first_run s_first_success]
  by (auto simp: s_page2_def s_page_def)

theorem page_refines_lww_witness:
  "snapshots_ok s_db1 \<and>
   store s_db1 = fold (lww_step ''lea-1'') (filter (to_write s_rp1) (pg_events s_page2)) (store empty_db)"
proof -
  have "\<forall>ev \<in> set (pg_events s_page2). own_lea ''lea-1'' ev" by code_simp
  from page_refines_lww [OF s_first_run s_first_success s_fetch_page this empty_db_ok]
  show ?thesis .
qed

theorem page_replay_noop_witness:
  "\<exists>db2 out' rp'. process_one_page ''edlink'' s_fetch ''lea-1'' 2 200 s_db1 = (db2, Inr (out', rp', None)) \<and>
     po_event_count out' = 0 \<and> db_snapshots db2 = db_snapshots s_db1"
proof -
  have "2 \<notin> job_ids s_db1" by (simp add: s_first_jobs)
  from page_replay_noop [where fetch' = s_fetch and now' = 200, OF s_first_run s_first_success
      s_fetch_page s_page2_for s_first_clean s_fetch_page this]
  show ?thesis by blast
qed

theorem page_tenant_isolation_witness: "foreign ''lea-1'' s_db1 = foreign ''lea-1'' empty_db"
proof -
  have "\<forall>ev \<in> set (pg_events s_page2). to_write s_rp1 ev \<longrightarrow> ids_free ''lea-1'' ev empty_db"
    by (simp add: ids_free_def empty_db_def)
  from page_tenant_isolation [OF s_first_run s_fetch_page s_page2_for this] show ?thesis .
qed

definition s_drain :: "db \<times> alert_record list \<times> (exn + page_outcome list)" where
  "s_drain = drain_lea None True 5 ''edlink'' (\<lambda>_. s_fetch) (\<lambda>i. i + 1) (\<lambda>_. 100) ''lea-1'' empty_db"


definition s_authorization :: authorization_row where
  "s_authorization =
     \<lparr>au_id = 1, au_lea_id = ''lea-1'', au_partner = ''edlink'', au_status = ''active'',
      au_authorized_at = Some 1, au_authorized_by = Some 1, au_revoked_at = None, au_revoked_by = None,
      au_poll_interval = 300, au_notes = None, au_integration_status = ''active'',
      au_sharing_scope = None, au_status_observed_at = None\<rparr>"

theorem degraded_drain_skipped_witness:
  "snd (drain_lea (Some (poll_and_persist
      (Some (\<lambda>_. Inr \<lparr>ss_status = ''disabled'', ss_sharing_scope = ''full'', ss_observed_at = 5\<rparr>))
      ''edlink'')) True 100 ''edlink'' (\<lambda>_. s_fetch) (\<lambda>i. i) (\<lambda>_. 5) ''lea-1''
      (empty_db\<lparr>db_authorizations := [s_authorization]\<rparr>)) =
   ([fire_integration_degraded ''lea-1'' ''edlink'' ''disabled''], Inr [])"
proof -
  let ?snap = "\<lparr>ss_status = ''disabled'', ss_sharing_scope = ''full'', ss_observed_at = 5\<rparr>"
  have "ss_status ?snap \<in> set DEGRADED_STATUSES"
    "s_authorization \<in> set (db_authorizations (empty_db\<lparr>db_authorizations := [s_authorization]\<rparr>))"
    "live_authorization ''lea-1'' ''edlink'' s_authorization"
    by (simp_all add: DEGRADED_STATUSES_def live_authorization_def s_authorization_def)
  from degraded_drain_skipped [where probe = "\<lambda>_. Inr ?snap", OF refl this] show ?thesis by simp
qed

text \<open>The page of \<open>lea-1\<close> takes the student of \<open>lea-2\<close>.\<close>

definition s_two_leas :: db where
  "s_two_leas = empty_db\<lparr>
     db_leas := [new_lea_row ''lea-1'' ''A'' ''boces'' ''NY'' None None],
     db_students := [student_row_of ((s_student ''stu-1'' ''05'')\<lparr>st_lea_id := ''lea-2''\<rparr>) None]\<rparr>"

theorem student_taken_over_witness:
  "student_in_lea s_two_leas ''lea-2'' ''stu-1'' \<and>
   (\<exists>db'. upsert_student (s_student ''stu-1'' ''05'') False 100 s_two_leas = Inr db' \<and>
      \<not> student_in_lea db' ''lea-2'' ''stu-1'')"
proof -
  have "lea_exists s_two_leas (st_lea_id (s_student ''stu-1'' ''05''))"
    "student_row_of ((s_student ''stu-1'' ''05'')\<lparr>st_lea_id := ''lea-2''\<rparr>) None \<in> set (db_students s_two_leas)"
    "sr_id (student_row_of ((s_student ''stu-1'' ''05'')\<lparr>st_lea_id := ''lea-2''\<rparr>) None) =
       st_id (s_student ''stu-1'' ''05'')"
    "\<forall>e \<in> set (db_enrollments s_two_leas). er_student_id e \<noteq> st_id (s_student ''stu-1'' ''05'')"
    by (simp_all add: s_two_leas_def lea_exists_def new_lea_row_def s_student_def empty_db_def)
  from student_taken_over [OF this, of False 100] obtain db' where
    "upsert_student (s_student ''stu-1'' ''05'') False 100 s_two_leas = Inr db'"
    "student_in_lea db' ''lea-2'' (st_id (s_student ''stu-1'' ''05'')) \<longleftrightarrow>
       ''lea-2'' = st_lea_id (s_student ''stu-1'' ''05'')" by blast
  moreover have "st_id (s_student ''stu-1'' ''05'') = ''stu-1''"
    "st_lea_id (s_student ''stu-1'' ''05'') = ''lea-1''" by (simp_all add: s_student_def)
  moreover have "student_in_lea s_two_leas ''lea-2'' ''stu-1''" by code_simp
  ultimately show ?thesis by simp
qed

end
