(* ===== verification/RevertProperties.thy ===== *)
theory RevertProperties
  imports Revert SyncProperties
begin

text \<open>
  What a revert does to the abstract snapshot store: every key whose live snapshot the job wrote
  goes back to the value the job superseded. The properties: the effect on the store, the second
  revert of the same job, the round trip of a page and its revert, and the round trip of a
  payload through the canonical tables.
\<close>

section \<open>Frames\<close>

lemma restore_frame:
  assumes "restore_canonical_from_payload ft t nk l p d when db = Inr db'"
  shows "clear_canonical db' = clear_canonical db"
  using assms
  by (cases t) (auto simp: restore_canonical_from_payload_def restore_student_def restore_enrollment_def
      restore_lea_def Let_def res_simps clear_canonical_def dest!: write_student_frame write_enrollment_frame
      split: if_splits)

lemma soft_delete_frame [simp]:
  "clear_canonical (soft_delete_canonical t nk ts db) = clear_canonical db"
  by (cases t) (simp_all add: clear_canonical_def)

text \<open>The tables a revert may change: the canonical ones and the snapshots.\<close>

definition clear_data :: "db \<Rightarrow> db" where
  "clear_data db = (clear_canonical db)\<lparr>db_snapshots := (\<lambda>_. [])\<rparr>"

lemma clear_data_canonical: "clear_canonical b = clear_canonical a \<Longrightarrow> clear_data b = clear_data a"
  by (simp add: clear_data_def)

lemma clear_data_set_snapshots [simp]: "clear_data (set_snapshots t rows db) = clear_data db"
  by (simp add: clear_data_def clear_canonical_def set_snapshots_def)

lemma clear_dataD:
  assumes "clear_data b = clear_data a"
  shows "db_sync_jobs b = db_sync_jobs a" "db_next_id b = db_next_id a" "db_cursors b = db_cursors a"
    "db_revert_actions b = db_revert_actions a" "db_quarantine b = db_quarantine a"
  using arg_cong [OF assms, of db_sync_jobs] arg_cong [OF assms, of db_next_id]
    arg_cong [OF assms, of db_cursors] arg_cong [OF assms, of db_revert_actions]
    arg_cong [OF assms, of db_quarantine]
  by (simp_all add: clear_data_def clear_canonical_def)

section \<open>One row\<close>

text \<open>What one iteration does to a row of the table.\<close>

definition flip_row :: "snapshot option \<Rightarrow> snapshot \<Rightarrow> uuid \<Rightarrow> timestamp \<Rightarrow> snapshot \<Rightarrow> snapshot" where
  "flip_row prior row gen now x =
     (if sn_id x = sn_id row then supersede_row (Some gen) (Some now) x
      else case prior of
        None \<Rightarrow> x
      | Some p \<Rightarrow> if sn_id x = sn_id p then supersede_row None None x else x)"

lemma supersede_twice [simp]: "supersede_row a b (supersede_row c d x) = supersede_row a b x"
  by (simp add: supersede_row_def)

lemma flip_row_sel [simp]:
  "sn_id (flip_row prior row gen now x) = sn_id x" "row_key (flip_row prior row gen now x) = row_key x"
  "core (flip_row prior row gen now x) = core x" "snapshot_value (flip_row prior row gen now x) = snapshot_value x"
  "sn_generation (flip_row prior row gen now x) = sn_generation x"
  by (simp_all add: flip_row_def split: option.split)

lemma revert_row_effect:
  assumes "revert_row ft job gen now t row (n, db) = Inr (n', db')"
  defines "prior \<equiv> find_prior_live_snapshot db t (sn_lea_id row) (sn_key row) job"
  shows "db_snapshots db' = (db_snapshots db)(t := map (flip_row prior row gen now) (db_snapshots db t))"
    and "clear_data db' = clear_data db" and "rt_restored n' = rt_restored n + 1"
proof -
  have flip: "update_where (\<lambda>x. sn_id x = sn_id row) (supersede_row (Some gen) (Some now))
      (case prior of None \<Rightarrow> rows
       | Some p \<Rightarrow> update_where (\<lambda>x. sn_id x = sn_id p) (supersede_row None None) rows) =
      map (flip_row prior row gen now) rows" for rows
    by (cases prior) (simp_all add: update_where_def flip_row_def)
  from assms(1) obtain n1 db1 where
    first: "(case prior of
       None \<Rightarrow> Inr (n\<lparr>rt_soft_deleted := rt_soft_deleted n + 1\<rparr>, soft_delete_canonical t (sn_key row) now db)
     | Some p \<Rightarrow> res_bind (restore_prior ft t row p db) (\<lambda>db1.
         Inr (n\<lparr>rt_updated := rt_updated n + 1\<rparr>, db1))) = Inr (n1, db1)"
    and second: "supersede_where t (\<lambda>sn. sn_id sn = sn_id row) (Some gen) (Some now) db1 = Inr db'"
    and n': "n' = n1\<lparr>rt_restored := rt_restored n1 + 1\<rparr>"
    by (auto simp: revert_row_def prior_def res_simps)
  have db1: "db_snapshots db1 = (db_snapshots db)(t := (case prior of None \<Rightarrow> db_snapshots db t
      | Some p \<Rightarrow> update_where (\<lambda>x. sn_id x = sn_id p) (supersede_row None None) (db_snapshots db t)))
      \<and> clear_data db1 = clear_data db \<and> rt_restored n1 = rt_restored n"
  proof (cases prior)
    case None
    with first have "n1 = n\<lparr>rt_soft_deleted := rt_soft_deleted n + 1\<rparr>"
      "db1 = soft_delete_canonical t (sn_key row) now db" by auto
    with None clear_canonicalD(1) [OF soft_delete_frame] show ?thesis
      by (auto intro: clear_data_canonical)
  next
    case (Some p)
    from first Some obtain db0 where
      db0: "supersede_where t (\<lambda>sn. sn_id sn = sn_id p) None None db = Inr db0"
      and r: "restore_canonical_from_payload ft t (sn_key row) (sn_lea_id row) (sn_payload p)
        (sn_deleted_upstream p) (sn_source_event_at p) db0 = Inr db1"
      and "n1 = n\<lparr>rt_updated := rt_updated n + 1\<rparr>"
      by (auto simp: restore_prior_def res_simps)
    moreover from db0 have "db0 = set_snapshots t
        (update_where (\<lambda>x. sn_id x = sn_id p) (supersede_row None None) (db_snapshots db t)) db"
      by (simp add: supersede_where_def)
    ultimately show ?thesis
      using Some clear_canonicalD(1) [OF restore_frame [OF r]]
        clear_data_canonical [OF restore_frame [OF r]] by simp
  qed
  from second have "db' = set_snapshots t (update_where (\<lambda>x. sn_id x = sn_id row)
      (supersede_row (Some gen) (Some now)) (db_snapshots db1 t)) db1"
    by (auto simp: supersede_where_def split: if_splits)
  with db1 n' flip show "db_snapshots db' = (db_snapshots db)(t := map (flip_row prior row gen now) (db_snapshots db t))"
    and "clear_data db' = clear_data db" and "rt_restored n' = rt_restored n + 1"
    by simp_all
qed

lemma find_prior_mem:
  assumes "find_prior_live_snapshot db t l nk job = Some p"
  shows "p \<in> set (db_snapshots db t)" and "row_key p = (l, nk)" and "sn_superseded_by p = Some job"
proof -
  have "p \<in> set (order_desc (filter (\<lambda>sn. for_key l nk sn \<and> sn_superseded_by sn = Some job)
      (db_snapshots db t)))"
    using assms by (auto simp: find_prior_live_snapshot_def split: list.splits)
  then have "p \<in> set (filter (\<lambda>sn. for_key l nk sn \<and> sn_superseded_by sn = Some job) (db_snapshots db t))"
    by (auto simp: order_desc_def with_source_def without_source_def)
  then show "p \<in> set (db_snapshots db t)" and "row_key p = (l, nk)" and "sn_superseded_by p = Some job"
    by (auto simp: for_key_iff)
qed

lemma find_prior_cong:
  assumes "filter (for_key l nk) (db_snapshots a t) = filter (for_key l nk) (db_snapshots b t)"
  shows "find_prior_live_snapshot a t l nk job = find_prior_live_snapshot b t l nk job"
proof -
  have "filter (\<lambda>sn. for_key l nk sn \<and> sn_superseded_by sn = Some job) rows =
      filter (\<lambda>sn. sn_superseded_by sn = Some job) (filter (for_key l nk) rows)" for rows
    by (simp add: conj_commute)
  then show ?thesis unfolding find_prior_live_snapshot_def by (simp only: assms)
qed

lemma live_row_cong:
  assumes "filter (for_key l nk) (db_snapshots a t) = filter (for_key l nk) (db_snapshots b t)"
  shows "live_row a l t nk = live_row b l t nk"
proof -
  have "find (\<lambda>sn. for_key l nk sn \<and> live sn) rows = find live (filter (for_key l nk) rows)" for rows
    by (induction rows) auto
  with assms show ?thesis by (simp add: live_row_def)
qed

text \<open>The table after an iteration for a live row of it.\<close>

lemma one_liveI:
  assumes "distinct (map sn_id rows)"
    and "\<And>a b. a \<in> set rows \<Longrightarrow> b \<in> set rows \<Longrightarrow> live a \<Longrightarrow> live b \<Longrightarrow> row_key a = row_key b \<Longrightarrow> a = b"
  shows "one_live rows"
  using assms by (auto simp: one_live_def distinct_map inj_on_def intro: distinct_filter)

lemma id_inject:
  "distinct (map sn_id rows) \<Longrightarrow> a \<in> set rows \<Longrightarrow> b \<in> set rows \<Longrightarrow> sn_id a = sn_id b \<longleftrightarrow> a = b"
  by (auto simp: distinct_map inj_on_def)

lemma flip_live:
  assumes "distinct (map sn_id rows)" and "row \<in> set rows" and "live row"
    and "\<And>p. prior = Some p \<Longrightarrow> p \<in> set rows \<and> \<not> live p" and "x \<in> set rows"
  shows "live (flip_row prior row gen now x) \<longleftrightarrow> x \<noteq> row \<and> (live x \<or> prior = Some x)"
proof (cases "x = row")
  case False
  then have "sn_id x \<noteq> sn_id row" using id_inject assms(1,2,5) by blast
  moreover have "sn_id x = sn_id p \<longleftrightarrow> x = p" if "prior = Some p" for p
    using id_inject [OF assms(1,5)] assms(4) [OF that] by blast
  ultimately show ?thesis using False by (auto simp: flip_row_def split: option.splits)
qed (simp add: flip_row_def)

lemma find_unique:
  assumes "\<And>x. x \<in> set rows \<Longrightarrow> P (h x) \<longleftrightarrow> q = Some x" and "\<And>x. q = Some x \<Longrightarrow> x \<in> set rows"
  shows "find P (map h rows) = map_option h q"
proof (cases q)
  case None
  with assms(1) have "\<forall>x \<in> set rows. \<not> P (h x)" by simp
  with None show ?thesis by (simp add: find_None_iff)
next
  case (Some p)
  have "p \<in> set rows" using Some by (rule assms(2))
  with assms(1) Some show ?thesis by (induction rows) auto
qed

lemma filter_map_key:
  assumes "\<And>x. x \<in> set rows \<Longrightarrow> Q (h x) = Q x" and "\<And>x. x \<in> set rows \<Longrightarrow> Q x \<Longrightarrow> h x = x"
  shows "filter Q (map h rows) = filter Q rows"
  using assms by (induction rows) auto

lemma flip_table:
  assumes ok: "snapshots_ok db" and row: "row \<in> set (db_snapshots db t)" "live row"
    and sn: "db_snapshots db' = (db_snapshots db)(t := map (flip_row prior row gen now) (db_snapshots db t))"
    and prior: "prior = find_prior_live_snapshot db t (sn_lea_id row) (sn_key row) job"
    and next_id: "db_next_id db' = db_next_id db"
  shows "snapshots_ok db'"
    and "(t', l, k) \<noteq> (t, row_key row) \<Longrightarrow>
      filter (for_key l k) (db_snapshots db' t') = filter (for_key l k) (db_snapshots db t')"
    and "map_option core (live_row db' (sn_lea_id row) t (sn_key row)) = map_option core prior"
proof -
  let ?rows = "db_snapshots db t" and ?h = "flip_row prior row gen now"
  have dist: "distinct (map sn_id ?rows)" using snapshots_okD(2) [OF ok, of t] by (simp add: ids_fresh_def)
  have one: "one_live ?rows" using snapshots_okD(1) [OF ok] .
  have p: "p \<in> set ?rows \<and> \<not> live p" "row_key p = row_key row" if "prior = Some p" for p
    using find_prior_mem [of db t "sn_lea_id row" "sn_key row" job p] prior that
    by (auto simp: live_def row_key_def)
  have live_h: "live (?h x) \<longleftrightarrow> x \<noteq> row \<and> (live x \<or> prior = Some x)" if "x \<in> set ?rows" for x
    by (rule flip_live [OF dist row _ that]) (use p(1) in blast)
  have ids: "map sn_id (map ?h ?rows) = map sn_id ?rows" by simp
  show "snapshots_ok db'"
  proof (rule snapshots_okI)
    fix u
    show "one_live (db_snapshots db' u)"
    proof (cases "u = t")
      case True
      have "one_live (map ?h ?rows)"
      proof (rule one_liveI)
        show "distinct (map sn_id (map ?h ?rows))" unfolding ids by (rule dist)
        fix a b assume ab: "a \<in> set (map ?h ?rows)" "b \<in> set (map ?h ?rows)" "live a" "live b"
          "row_key a = row_key b"
        then obtain x y where x: "x \<in> set ?rows" "a = ?h x" and y: "y \<in> set ?rows" "b = ?h y" by auto
        with ab have k: "row_key x = row_key y" by simp
        from ab x y live_h have lx: "x \<noteq> row" "live x \<or> prior = Some x"
          and ly: "y \<noteq> row" "live y \<or> prior = Some y" by auto
        have "x = y"
        proof (cases "prior = Some x \<or> prior = Some y")
          case False
          with lx ly one_live_unique [OF one x(1) y(1)] k show ?thesis by simp
        next
          case True
          with p(2) k have "row_key x = row_key row" "row_key y = row_key row" by auto
          with lx ly one_live_unique [OF one _ row(1) _ row(2)] x(1) y(1) show ?thesis by auto
        qed
        then show "a = b" using x y by simp
      qed
      then show ?thesis by (simp add: sn True)
    qed (simp add: sn snapshots_okD(1) [OF ok])
    show "ids_fresh db' u"
      using snapshots_okD(2) [OF ok, of u] next_id by (auto simp: ids_fresh_def sn comp_def)
  qed
  have key: "?h x = x" if "x \<in> set ?rows" "row_key x \<noteq> row_key row" for x
  proof -
    have "sn_id x \<noteq> sn_id row" using id_inject [OF dist that(1) row(1)] that(2) by auto
    moreover have "sn_id x \<noteq> sn_id p" if "prior = Some p" for p
      using id_inject [OF dist \<open>x \<in> set ?rows\<close>] p [OF that] \<open>row_key x \<noteq> row_key row\<close> by auto
    ultimately show ?thesis by (auto simp: flip_row_def split: option.splits)
  qed
  have kh: "for_key l k (?h x) = for_key l k x" for l k x by (simp add: for_key_iff)
  show "filter (for_key l k) (db_snapshots db' t') = filter (for_key l k) (db_snapshots db t')"
    if "(t', l, k) \<noteq> (t, row_key row)"
  proof (cases "t' = t")
    case True
    have "filter (for_key l k) (map ?h ?rows) = filter (for_key l k) ?rows"
      by (rule filter_map_key) (use kh key that True in \<open>auto simp: for_key_iff\<close>)
    then show ?thesis by (simp add: sn True)
  qed (simp add: sn)
  have "find (\<lambda>x. for_key (sn_lea_id row) (sn_key row) x \<and> live x) (map ?h ?rows) = map_option ?h prior"
  proof (rule find_unique)
    fix x assume x: "x \<in> set ?rows"
    have "row_key x = row_key row \<and> live x \<longrightarrow> x = row"
      using one_live_unique [OF one x row(1) _ row(2)] by simp
    then show "for_key (sn_lea_id row) (sn_key row) (?h x) \<and> live (?h x) \<longleftrightarrow> prior = Some x"
      unfolding kh live_h [OF x] using p row(2) by (auto simp: for_key_iff row_key_def)
  qed (use p in blast)
  then show "map_option core (live_row db' (sn_lea_id row) t (sn_key row)) = map_option core prior"
    by (simp add: live_row_def sn option.map_comp comp_def)
qed

section \<open>The rows of one type\<close>

lemma mem_filter_key: "r \<in> set rows \<Longrightarrow> r \<in> set (filter (for_key (fst (row_key r)) (snd (row_key r))) rows)"
  by (simp add: for_key_iff)

lemma revert_row_append_only:
  assumes "revert_row ft job gen now t row (n, db) = Inr (n', db')"
  shows "append_only db db'"
  unfolding append_only_def revert_row_effect(1) [OF assms] by (simp add: comp_def)

definition prior_core :: "db \<Rightarrow> entity_type \<Rightarrow> lea_id \<times> string \<Rightarrow> uuid \<Rightarrow> snapshot option" where
  "prior_core db t k job = map_option core (find_prior_live_snapshot db t (fst k) (snd k) job)"

text \<open>
  Every row after a revert is a row from before, with its supersession as it was, cleared, or
  set to the generation of the revert.
\<close>

definition derived :: "uuid \<Rightarrow> snapshot list \<Rightarrow> snapshot list \<Rightarrow> bool" where
  "derived gen new old \<longleftrightarrow> (\<forall>x \<in> set new. \<exists>y \<in> set old. core x = core y \<and>
     (sn_superseded_by x = sn_superseded_by y \<or> sn_superseded_by x = None \<or> sn_superseded_by x = Some gen))"

lemma derived_refl [simp]: "derived gen rows rows"
  by (auto simp: derived_def)

lemma derived_trans: "derived gen c b \<Longrightarrow> derived gen b a \<Longrightarrow> derived gen c a"
  unfolding derived_def by (metis option.distinct(1))

lemma derived_flip: "derived gen (map (flip_row prior row gen now) rows) rows"
  by (auto simp: derived_def) (auto simp: flip_row_def split: option.splits)

lemma revert_rows:
  assumes "fold_res (revert_row ft job gen now t) rs (n, db) = Inr (n', db')" and "snapshots_ok db"
    and "\<forall>r \<in> set rs. r \<in> set (db_snapshots db t) \<and> live r" and "distinct (map row_key rs)"
  shows "snapshots_ok db' \<and> clear_data db' = clear_data db \<and> append_only db db' \<and>
    rt_restored n' = rt_restored n + int (length rs) \<and>
    (\<forall>t'. t' \<noteq> t \<longrightarrow> db_snapshots db' t' = db_snapshots db t') \<and>
    derived gen (db_snapshots db' t) (db_snapshots db t) \<and>
    (\<forall>k \<in> row_key ` set rs. map_option core (live_row db' (fst k) t (snd k)) = prior_core db t k job) \<and>
    (\<forall>k. k \<notin> row_key ` set rs \<longrightarrow> filter (for_key (fst k) (snd k)) (db_snapshots db' t) =
       filter (for_key (fst k) (snd k)) (db_snapshots db t))"
  using assms
proof (induction rs arbitrary: n db)
  case (Cons r rs)
  from Cons.prems(1) obtain n1 db1 where step: "revert_row ft job gen now t r (n, db) = Inr (n1, db1)"
    and rest: "fold_res (revert_row ft job gen now t) rs (n1, db1) = Inr (n', db')"
    by (auto simp: res_simps)
  note eff = revert_row_effect [OF step]
  have r: "r \<in> set (db_snapshots db t)" "live r" using Cons.prems(3) by auto
  note tab = flip_table [OF Cons.prems(2) r eff(1) refl clear_dataD(2) [OF eff(2)]]
  have same: "filter (for_key (fst k) (snd k)) (db_snapshots db1 t) =
      filter (for_key (fst k) (snd k)) (db_snapshots db t)" if "k \<noteq> row_key r" for k
    using tab(2) [of t "fst k" "snd k"] that by auto
  have dist: "distinct (map row_key rs)" and notin: "row_key r \<notin> row_key ` set rs"
    using Cons.prems(4) by auto
  have mem: "\<forall>x \<in> set rs. x \<in> set (db_snapshots db1 t) \<and> live x"
  proof
    fix x assume x: "x \<in> set rs"
    then have "row_key x \<noteq> row_key r" using notin imageI [of x "set rs" row_key] by metis
    with same [OF this] mem_filter_key [of x "db_snapshots db t"] x Cons.prems(3)
    show "x \<in> set (db_snapshots db1 t) \<and> live x" by (metis filter_is_subset list.set_intros(2) subsetD)
  qed
  note IH = Cons.IH [OF rest tab(1) mem dist]
  have pv: "prior_core db1 t k job = prior_core db t k job" if "k \<noteq> row_key r" for k
    unfolding prior_core_def using find_prior_cong [OF same [OF that]] by simp
  have "map_option core (live_row db' (fst (row_key r)) t (snd (row_key r))) = prior_core db t (row_key r) job"
  proof -
    from IH notin have "filter (for_key (fst (row_key r)) (snd (row_key r))) (db_snapshots db' t) =
        filter (for_key (fst (row_key r)) (snd (row_key r))) (db_snapshots db1 t)" by blast
    from live_row_cong [OF this] tab(3) show ?thesis
      by (simp add: prior_core_def row_key_def)
  qed
  moreover have "\<forall>k \<in> row_key ` set rs. map_option core (live_row db' (fst k) t (snd k)) = prior_core db t k job"
    using IH pv notin by metis
  moreover have "append_only db db'"
    using IH revert_row_append_only [OF step] append_only_trans by blast
  moreover have "derived gen (db_snapshots db1 t) (db_snapshots db t)"
    by (simp add: eff(1) derived_flip)
  then have "derived gen (db_snapshots db' t) (db_snapshots db t)"
    using IH derived_trans by blast
  ultimately show ?case
    using IH eff same by auto
qed simp

lemma set_live_of_job:
  "set (live_of_job db t job) = {sn \<in> set (db_snapshots db t). sn_generation sn = job \<and> live sn}"
  by (auto simp: live_of_job_def order_asc_def with_source_def without_source_def)

lemma distinct_order_asc: "distinct xs \<Longrightarrow> distinct (order_asc xs)"
  by (auto simp: order_asc_def with_source_def without_source_def)

lemma live_of_job_keys:
  assumes "one_live (db_snapshots db t)"
  shows "distinct (map row_key (live_of_job db t job))"
proof -
  let ?xs = "filter (\<lambda>sn. sn_generation sn = job) (filter live (db_snapshots db t))"
  have "distinct (map row_key ?xs)"
    using assms unfolding one_live_def by (rule distinct_map_filter)
  then have "distinct ?xs" by (simp add: distinct_map)
  moreover have "?xs = filter (\<lambda>sn. sn_generation sn = job \<and> live sn) (db_snapshots db t)"
    by (simp add: conj_commute)
  ultimately have "distinct (live_of_job db t job)"
    unfolding live_of_job_def by (metis distinct_order_asc)
  then show ?thesis
    using one_live_unique [OF assms] by (auto simp: distinct_map inj_on_def set_live_of_job)
qed

text \<open>
  The specification of the live row of a key after the revert: the row the job superseded when
  the job wrote the live row, otherwise the live row itself.
\<close>

definition reverted_row :: "db \<Rightarrow> uuid \<Rightarrow> lea_id \<Rightarrow> entity_type \<Rightarrow> string \<Rightarrow> snapshot option" where
  "reverted_row db job l t k =
     (case live_row db l t k of
        None \<Rightarrow> None
      | Some sn \<Rightarrow> if sn_generation sn = job then prior_core db t (l, k) job else Some (core sn))"

lemma live_row_table: "db_snapshots a t = db_snapshots b t \<Longrightarrow> live_row a l t k = live_row b l t k"
  by (simp add: live_row_def)

lemma reverted_row_table:
  "db_snapshots a t = db_snapshots b t \<Longrightarrow> reverted_row a job l t k = reverted_row b job l t k"
  unfolding reverted_row_def prior_core_def find_prior_live_snapshot_def live_row_def
  by (simp only:)

lemma live_row_mem:
  "live_row db l t k = Some sn \<Longrightarrow> sn \<in> set (db_snapshots db t) \<and> row_key sn = (l, k) \<and> live sn"
  unfolding live_row_def by (auto simp: for_key_iff find_Some_iff)

lemma live_row_unique:
  assumes "one_live (db_snapshots db t)" and "sn \<in> set (db_snapshots db t)" and "live sn"
  shows "live_row db (fst (row_key sn)) t (snd (row_key sn)) = Some sn"
proof (cases "live_row db (fst (row_key sn)) t (snd (row_key sn))")
  case None
  then show ?thesis using assms(2,3) by (auto simp: live_row_def find_None_iff for_key_iff)
next
  case (Some x)
  with live_row_mem [OF Some] one_live_unique [OF assms(1) _ assms(2) _ assms(3), of x] show ?thesis by simp
qed

lemma revert_type_effect:
  assumes "revert_type ft job gen now t (n, db) = Inr (n', db')" and "snapshots_ok db"
  shows "snapshots_ok db' \<and> clear_data db' = clear_data db \<and> append_only db db' \<and>
    rt_restored n' = rt_restored n + int (length (live_of_job db t job)) \<and>
    (\<forall>t'. t' \<noteq> t \<longrightarrow> db_snapshots db' t' = db_snapshots db t') \<and>
    derived gen (db_snapshots db' t) (db_snapshots db t) \<and>
    (\<forall>l k. map_option core (live_row db' l t k) = reverted_row db job l t k)"
proof -
  let ?rs = "live_of_job db t job"
  have one: "one_live (db_snapshots db t)" using snapshots_okD(1) [OF assms(2)] .
  have "fold_res (revert_row ft job gen now t) ?rs (n, db) = Inr (n', db')"
    using assms(1) by (simp add: revert_type_def)
  note r = revert_rows [OF this assms(2) _ live_of_job_keys [OF one]]
  have mem: "\<forall>x \<in> set ?rs. x \<in> set (db_snapshots db t) \<and> live x" by (simp add: set_live_of_job)
  note r = r [OF mem]
  have "map_option core (live_row db' l t k) = reverted_row db job l t k" for l k
  proof (cases "(l, k) \<in> row_key ` set ?rs")
    case True
    then obtain x where x: "x \<in> set (db_snapshots db t)" "live x" "sn_generation x = job" "row_key x = (l, k)"
      by (auto simp: set_live_of_job)
    with live_row_unique [OF one x(1,2)] have "live_row db l t k = Some x" by simp
    with x(3) have "reverted_row db job l t k = prior_core db t (l, k) job"
      by (simp add: reverted_row_def)
    with r True show ?thesis by (metis fst_conv snd_conv)
  next
    case False
    with r have "filter (for_key l k) (db_snapshots db' t) = filter (for_key l k) (db_snapshots db t)"
      by force
    then have "live_row db' l t k = live_row db l t k" by (rule live_row_cong)
    moreover have "sn_generation x \<noteq> job" if "live_row db l t k = Some x" for x
      using live_row_mem [OF that] False by (force simp: set_live_of_job)
    ultimately show ?thesis by (auto simp: reverted_row_def split: option.splits)
  qed
  with r show ?thesis by blast
qed

section \<open>The whole revert\<close>

lemma revert_body_cases:
  assumes "revert_body ft job op reason gen now db = Inr (out, db')" and "snapshots_ok db"
  obtains target and n :: revert_tally and db2 where "lookup_by sj_id job (db_sync_jobs db) = Some target"
    and "\<And>t. \<not> superseded_by_newer db job t" and "gen \<notin> job_ids db"
    and "db' = insert_revert_action job gen op reason now (rt_restored n) db2"
    and "ro_restored out = rt_restored n"
    and "clear_data db2 = clear_data (db\<lparr>db_sync_jobs := db_sync_jobs db @ [revert_job_row gen job target now]\<rparr>)"
    and "snapshots_ok db2" and "append_only db db2"
    and "\<And>t. derived gen (db_snapshots db2 t) (db_snapshots db t)"
    and "\<And>l t k. map_option core (live_row db2 l t k) = reverted_row db job l t k"
    and "rt_restored n = (\<Sum>t\<leftarrow>[STUDENT, ENROLLMENT, LEA]. int (length (live_of_job db t job)))"
proof -
  let ?zero = "\<lparr>rt_restored = 0, rt_updated = 0, rt_soft_deleted = 0\<rparr>"
  from assms(1) obtain target where target: "lookup_by sj_id job (db_sync_jobs db) = Some target"
    by (auto simp: revert_body_def split: option.splits)
  let ?start = "db\<lparr>db_sync_jobs := db_sync_jobs db @ [revert_job_row gen job target now]\<rparr>"
  from assms(1) target obtain n1 d1 n2 d2 n3 d3 where
    ref: "refuse_if_superseded_by_newer_sync db job = Inr ()"
    and fresh: "gen \<notin> job_ids db"
    and 1: "revert_type ft job gen now STUDENT (?zero, ?start) = Inr (n1, d1)"
    and 2: "revert_type ft job gen now ENROLLMENT (n1, d1) = Inr (n2, d2)"
    and 3: "revert_type ft job gen now LEA (n2, d2) = Inr (n3, d3)"
    and out: "ro_restored out = rt_restored n3"
      "db' = insert_revert_action job gen op reason now (rt_restored n3) d3"
    by (auto simp: revert_body_def res_simps insert_sync_job_def revert_job_row_def split: if_splits)
  have ok: "snapshots_ok ?start" by (rule snapshots_ok_same [OF assms(2)]) simp_all
  note e1 = revert_type_effect [OF 1 ok]
  note e2 = revert_type_effect [OF 2 e1 [THEN conjunct1]]
  note e3 = revert_type_effect [OF 3 e2 [THEN conjunct1]]
  have tables: "db_snapshots d1 ENROLLMENT = db_snapshots db ENROLLMENT"
    "db_snapshots d2 LEA = db_snapshots db LEA" "db_snapshots d3 STUDENT = db_snapshots d1 STUDENT"
    "db_snapshots d3 ENROLLMENT = db_snapshots d2 ENROLLMENT"
    using e1 e2 e3 by simp_all
  have live_len: "live_of_job a t job = live_of_job b t job" if "db_snapshots a t = db_snapshots b t" for a b t
    using that by (simp add: live_of_job_def)
  show ?thesis
  proof (rule that [of target n3 d3])
    show "\<not> superseded_by_newer db job t" for t
      using ref by (cases t) (simp_all add: refuse_if_superseded_by_newer_sync_def res_simps)
    show "lookup_by sj_id job (db_sync_jobs db) = Some target" "gen \<notin> job_ids db" by fact+
    show "db' = insert_revert_action job gen op reason now (rt_restored n3) d3"
      "ro_restored out = rt_restored n3" by fact+
    show "clear_data d3 = clear_data ?start" using e1 e2 e3 by simp
    show "snapshots_ok d3" using e3 by blast
    from e1 e2 e3 have a: "append_only ?start d1" "append_only d1 d2" "append_only d2 d3" by simp_all
    have "append_only ?start d3" by (rule append_only_trans [OF append_only_trans [OF a(1,2)] a(3)])
    then show "append_only db d3" by (simp add: append_only_def)
    show "derived gen (db_snapshots d3 t) (db_snapshots db t)" for t
      using e1 e2 e3 tables by (cases t) simp_all
    show "map_option core (live_row d3 l t k) = reverted_row db job l t k" for l t k
    proof (cases t)
      case LEA
      have "reverted_row d2 job l LEA k = reverted_row db job l LEA k"
        by (rule reverted_row_table) (simp add: tables)
      with e3 LEA show ?thesis by simp
    next
      case STUDENT
      have "reverted_row ?start job l STUDENT k = reverted_row db job l STUDENT k"
        by (rule reverted_row_table) simp
      with e1 STUDENT live_row_table [OF tables(3), of l k] show ?thesis by simp
    next
      case ENROLLMENT
      have "reverted_row d1 job l ENROLLMENT k = reverted_row db job l ENROLLMENT k"
        by (rule reverted_row_table) (simp add: tables)
      with e2 ENROLLMENT live_row_table [OF tables(4), of l k] show ?thesis by simp
    qed
    show "rt_restored n3 = (\<Sum>t\<leftarrow>[STUDENT, ENROLLMENT, LEA]. int (length (live_of_job db t job)))"
      using e1 e2 e3 live_len [of ?start STUDENT db] live_len [OF tables(1)] live_len [OF tables(2)]
      by simp
  qed
qed

lemma insert_revert_action_sel [simp]:
  "db_snapshots (insert_revert_action job gen op reason now r db) = db_snapshots db"
  "db_sync_jobs (insert_revert_action job gen op reason now r db) = db_sync_jobs db"
  "db_cursors (insert_revert_action job gen op reason now r db) = db_cursors db"
  "db_next_id (insert_revert_action job gen op reason now r db) = Suc (db_next_id db)"
  "db_students (insert_revert_action job gen op reason now r db) = db_students db"
  "db_enrollments (insert_revert_action job gen op reason now r db) = db_enrollments db"
  "db_leas (insert_revert_action job gen op reason now r db) = db_leas db"
  by (simp_all add: insert_revert_action_def)

section \<open>Properties\<close>

text \<open>
  C7. A revert that succeeds rewinds the snapshots of the job and nothing else of them: for every
  key, when the job wrote the live row, the row it had superseded is live again, or the key has
  no live row when there was none; every other live row stays live. No snapshot is lost or
  rewritten, one live row per key is kept, the cursors are not rewound, and the audit row counts
  the rows taken back.
\<close>

theorem revert_rewinds_snapshots:
  assumes "revert ft job op reason gen now db = (db', Inr out)" and "snapshots_ok db"
  shows "snapshots_ok db' \<and> append_only db db' \<and> db_cursors db' = db_cursors db \<and>
    (\<forall>l t k. map_option core (live_row db' l t k) =
       (case live_row db l t k of
          None \<Rightarrow> None
        | Some sn \<Rightarrow> if sn_generation sn = job
                    then map_option core (find_prior_live_snapshot db t l k job) else Some (core sn))) \<and>
    ro_restored out = (\<Sum>t\<leftarrow>[STUDENT, ENROLLMENT, LEA]. int (length (live_of_job db t job))) \<and>
    (\<exists>ra. db_revert_actions db' = db_revert_actions db @ [ra] \<and> ra_sync_job_id ra = job \<and>
       ra_snapshots_restored ra = ro_restored out)"
proof -
  from assms(1) have "revert_body ft job op reason gen now db = Inr (out, db')"
    by (simp add: revert_def transaction_Inr)
  then show ?thesis
  proof (rule revert_body_cases [OF _ assms(2)])
    fix target and n :: revert_tally and db2
    assume db': "db' = insert_revert_action job gen op reason now (rt_restored n) db2"
      and out: "ro_restored out = rt_restored n"
      and frame: "clear_data db2 = clear_data (db\<lparr>db_sync_jobs := db_sync_jobs db @ [revert_job_row gen job target now]\<rparr>)"
      and ok: "snapshots_ok db2" and app: "append_only db db2"
      and rows: "\<And>l t k. map_option core (live_row db2 l t k) = reverted_row db job l t k"
      and n: "rt_restored n = (\<Sum>t\<leftarrow>[STUDENT, ENROLLMENT, LEA]. int (length (live_of_job db t job)))"
    have "snapshots_ok db'" by (rule snapshots_ok_same [OF ok]) (simp_all add: db')
    moreover have "append_only db db'" using app by (simp add: append_only_def db')
    moreover have "live_row db' = live_row db2" by (simp add: live_row_def db' fun_eq_iff)
    moreover have "db_cursors db' = db_cursors db" "db_revert_actions db2 = db_revert_actions db"
      using clear_dataD(3,4) [OF frame] by (simp_all add: db')
    moreover have "\<exists>ra. db_revert_actions db' = db_revert_actions db2 @ [ra] \<and>
        ra_sync_job_id ra = job \<and> ra_snapshots_restored ra = rt_restored n"
      by (simp add: db' insert_revert_action_def)
    ultimately show ?thesis
      using rows [unfolded reverted_row_def prior_core_def fst_conv snd_conv] n
      by (simp only: out simp_thms)
  qed
qed

lemma nothing_live_after:
  assumes "\<And>t. \<not> superseded_by_newer db job t" and "job \<in> job_ids db"
    and "\<forall>j \<in> set (db_sync_jobs db). sj_id j = job \<longrightarrow> sj_status j \<noteq> ''revert''"
    and "one_live (db_snapshots db2 t)"
    and "\<And>l t k. map_option core (live_row db2 l t k) = reverted_row db job l t k"
  shows "live_of_job db2 t job = []"
proof -
  have False if x: "x \<in> set (db_snapshots db2 t)" "sn_generation x = job" "live x" for x
  proof -
    obtain l k where k: "row_key x = (l, k)" by (cases "row_key x")
    from live_row_unique [OF assms(4) x(1,3)] k have "live_row db2 l t k = Some x" by simp
    with assms(5) [of l t k] have rev: "reverted_row db job l t k = Some (core x)" by simp
    then obtain sn where sn: "live_row db l t k = Some sn" by (auto simp: reverted_row_def split: option.splits)
    show False
    proof (cases "sn_generation sn = job")
      case True
      with rev sn obtain p where p: "find_prior_live_snapshot db t l k job = Some p" "core p = core x"
        by (auto simp: reverted_row_def prior_core_def)
      from p(2) x(2) have "sn_generation p = job" by (metis core_sel(4))
      moreover obtain j where "j \<in> set (db_sync_jobs db)" "sj_id j = job"
        using assms(2) by (auto simp: job_ids_def)
      ultimately have "superseded_by_newer db job t"
        unfolding superseded_by_newer_def using find_prior_mem [OF p(1)] assms(3)
        by (intro bexI [of _ p] conjI bexI [of _ j]) simp_all
      with assms(1) show False by blast
    next
      case False
      with rev sn have "core sn = core x" by (simp add: reverted_row_def)
      with False x(2) show False by (metis core_sel(4))
    qed
  qed
  then have "set (live_of_job db2 t job) = {}" by (auto simp: set_live_of_job)
  then show ?thesis by simp
qed

text \<open>
  Reverting twice: a second revert of the same job succeeds, takes back no snapshot and
  changes no snapshot and no canonical row; it leaves its own audit row with the count zero.
\<close>

theorem second_revert_noop:
  assumes "revert ft job op reason gen now db = (db', Inr out)" and "snapshots_ok db"
    and "\<forall>j \<in> set (db_sync_jobs db). sj_id j = job \<longrightarrow> sj_status j \<noteq> ''revert''"
    and "gen' \<notin> job_ids db'"
  shows "\<exists>db'' out'. revert ft job op' reason' gen' now' db' = (db'', Inr out') \<and>
    ro_restored out' = 0 \<and> db_snapshots db'' = db_snapshots db' \<and>
    db_students db'' = db_students db' \<and> db_enrollments db'' = db_enrollments db' \<and>
    db_leas db'' = db_leas db' \<and>
    (\<exists>ra. db_revert_actions db'' = db_revert_actions db' @ [ra] \<and> ra_snapshots_restored ra = 0)"
proof -
  from assms(1) have "revert_body ft job op reason gen now db = Inr (out, db')"
    by (simp add: revert_def transaction_Inr)
  then show ?thesis
  proof (rule revert_body_cases [OF _ assms(2)])
    fix target and n :: revert_tally and db2
    assume target: "lookup_by sj_id job (db_sync_jobs db) = Some target"
      and newer: "\<And>t. \<not> superseded_by_newer db job t" and fresh: "gen \<notin> job_ids db"
      and db': "db' = insert_revert_action job gen op reason now (rt_restored n) db2"
      and frame: "clear_data db2 = clear_data (db\<lparr>db_sync_jobs := db_sync_jobs db @ [revert_job_row gen job target now]\<rparr>)"
      and ok: "snapshots_ok db2"
      and der: "\<And>t. derived gen (db_snapshots db2 t) (db_snapshots db t)"
      and rows: "\<And>l t k. map_option core (live_row db2 l t k) = reverted_row db job l t k"
    have jobs: "db_sync_jobs db' = db_sync_jobs db @ [revert_job_row gen job target now]"
      using clear_dataD(1) [OF frame] by (simp add: db')
    have snaps: "db_snapshots db' = db_snapshots db2" by (simp add: db')
    have job: "job \<in> job_ids db" using lookup_by_SomeD [OF target] by (auto simp: job_ids_def)
    have none: "live_of_job db' t job = []" for t
      using nothing_live_after [OF newer job assms(3) snapshots_okD(1) [OF ok] rows, of t]
      by (simp add: live_of_job_def snaps)
    have "\<not> superseded_by_newer db' job t" for t
    proof
      assume "superseded_by_newer db' job t"
      then obtain x j where x: "x \<in> set (db_snapshots db2 t)" "sn_generation x = job"
        "sn_superseded_by x = Some (sj_id j)" "sj_status j \<noteq> ''revert''" "j \<in> set (db_sync_jobs db')"
        by (auto simp: superseded_by_newer_def snaps)
      from x(4,5) have j: "j \<in> set (db_sync_jobs db)" by (auto simp: jobs revert_job_row_def)
      with fresh have "sj_id j \<noteq> gen" by (auto simp: job_ids_def)
      with der [of t] x(1,3) obtain y where "y \<in> set (db_snapshots db t)" "core x = core y"
        "sn_superseded_by y = Some (sj_id j)" unfolding derived_def by (metis option.distinct(1) option.inject)
      with x(2,4) j newer show False unfolding superseded_by_newer_def by (metis core_sel(4))
    qed
    then have ref: "refuse_if_superseded_by_newer_sync db' job = Inr ()"
      by (simp add: refuse_if_superseded_by_newer_sync_def res_simps)
    have target': "lookup_by sj_id job (db_sync_jobs db') = Some target"
      by (simp add: jobs lookup_by_append target)
    let ?zero = "\<lparr>rt_restored = 0, rt_updated = 0, rt_soft_deleted = 0\<rparr>"
    let ?start = "db'\<lparr>db_sync_jobs := db_sync_jobs db' @ [revert_job_row gen' job target now']\<rparr>"
    have "live_of_job ?start t job = []" for t using none [of t] by (simp add: live_of_job_def)
    then have "revert_body ft job op' reason' gen' now' db' =
        Inr (\<lparr>ro_sync_job_id = job, ro_generation_id = gen', ro_restored = 0, ro_updated = 0,
              ro_soft_deleted = 0\<rparr>, insert_revert_action job gen' op' reason' now' 0 ?start)"
      using assms(4) by (simp add: revert_body_def target' ref insert_sync_job_def revert_job_row_def
          revert_type_def)
    then show ?thesis by (simp add: revert_def transaction_def insert_revert_action_def)
  qed
qed

section \<open>A page and its revert\<close>

text \<open>
  The foreign keys of the snapshot tables: every generation is a job. A job with a fresh id has
  no snapshots and superseded none.
\<close>

definition gens_known :: "db \<Rightarrow> bool" where
  "gens_known db \<longleftrightarrow> (\<forall>t. \<forall>sn \<in> set (db_snapshots db t). sn_generation sn \<in> job_ids db \<and>
     (\<forall>g. sn_superseded_by sn = Some g \<longrightarrow> g \<in> job_ids db))"

definition event_key :: "normalized_event \<Rightarrow> entity_type \<times> string" where
  "event_key ev = (ev_entity_type ev, natural_key ev)"

text \<open>The rows of a key are as in \<open>a\<close>, or the job replaced the live row of \<open>a\<close> in \<open>b\<close>.\<close>

definition same_rows :: "db \<Rightarrow> db \<Rightarrow> lea_id \<Rightarrow> entity_type \<Rightarrow> string \<Rightarrow> bool" where
  "same_rows a b l t k \<longleftrightarrow> filter (for_key l k) (db_snapshots b t) = filter (for_key l k) (db_snapshots a t)"

definition replaced_by :: "uuid \<Rightarrow> db \<Rightarrow> db \<Rightarrow> lea_id \<Rightarrow> entity_type \<Rightarrow> string \<Rightarrow> bool" where
  "replaced_by job a b l t k \<longleftrightarrow> (\<exists>r. live_row b l t k = Some r \<and> sn_generation r = job) \<and>
     map_option core (find_prior_live_snapshot b t l k job) = map_option core (live_row a l t k)"

lemma same_or_replaced_tables:
  assumes "db_snapshots c = db_snapshots b"
  shows "same_rows a c l t k = same_rows a b l t k" and "replaced_by job a c l t k = replaced_by job a b l t k"
  using assms by (simp_all add: same_rows_def replaced_by_def live_row_def find_prior_live_snapshot_def)

lemma same_value:
  assumes "map_option core x = map_option core y"
  shows "map_option snapshot_value x = map_option snapshot_value y"
proof (cases x)
  case (Some a)
  with assms obtain b where "y = Some b" "core a = core b" by (cases y) auto
  moreover have "snapshot_value (core x) = snapshot_value x" for x
    by (simp add: snapshot_value_def core_def)
  ultimately have "snapshot_value a = snapshot_value b" by metis
  with Some \<open>y = Some b\<close> show ?thesis by simp
qed (use assms in simp)

lemma same_rows_cong:
  assumes "filter (for_key l k) (db_snapshots c t) = filter (for_key l k) (db_snapshots b t)"
  shows "same_rows a c l t k = same_rows a b l t k" and "replaced_by job a c l t k = replaced_by job a b l t k"
  using live_row_cong [OF assms] find_prior_cong [OF assms]
  by (simp_all add: same_rows_def replaced_by_def assms)

lemma order_desc_single: "order_desc [x] = [x]" "order_desc [] = []"
  by (simp_all add: order_desc_def with_source_def without_source_def)

lemma write_event_replaces:
  assumes w: "write_event job l now ev db = Inr db'" and own: "own_lea l ev" and ok: "snapshots_ok db"
    and fresh: "\<forall>sn \<in> set (db_snapshots db (ev_entity_type ev)).
      for_key l (natural_key ev) sn \<longrightarrow> sn_superseded_by sn \<noteq> Some job"
  shows "replaced_by job db db' l (ev_entity_type ev) (natural_key ev)"
proof -
  let ?t = "ev_entity_type ev" and ?k = "natural_key ev"
  from own obtain row where row: "live row" "for_key l ?k row" "sn_generation row = job"
    and sn: "db_snapshots db' = (db_snapshots db)(?t :=
      supersede_live l ?k job now (db_snapshots db ?t) @ [row])"
    by (blast intro: write_event_parts [OF w])
  have live: "live_row db' l ?t ?k = Some row"
    by (simp add: live_row_def sn find_live_replace [OF row(1,2)])
  have "filter (\<lambda>x. for_key l ?k x \<and> sn_superseded_by x = Some job) (supersede_live l ?k job now rows @ [row]) =
      map (supersede_row (Some job) (Some now)) (filter (\<lambda>x. for_key l ?k x \<and> live x) rows)"
    if "\<forall>x \<in> set rows. for_key l ?k x \<longrightarrow> sn_superseded_by x \<noteq> Some job" for rows
    using that row(1) by (induction rows) (auto simp: supersede_live_def update_where_def live_def)
  from this [OF fresh] have "find_prior_live_snapshot db' ?t l ?k job =
      map_option (supersede_row (Some job) (Some now)) (live_row db l ?t ?k)"
    using one_live_filter [OF snapshots_okD(1) [OF ok], of l ?k ?t]
    by (simp add: find_prior_live_snapshot_def sn live_row_def order_desc_single split: option.split)
  with live row(3) show ?thesis by (simp add: replaced_by_def option.map_comp comp_def)
qed

lemma loop_replaces:
  assumes "fold_res (process_event rp job l now) evs (n, db) = Inr (n', db')" and "snapshots_ok db"
    and "\<forall>ev \<in> set evs. to_write rp ev \<longrightarrow> own_lea l ev"
    and "distinct (map event_key (filter (to_write rp) evs))"
    and "\<forall>t. \<forall>sn \<in> set (db_snapshots a t). sn_superseded_by sn \<noteq> Some job"
    and "\<forall>l t k. same_rows a db l t k \<or> replaced_by job a db l t k"
    and "\<forall>ev \<in> set (filter (to_write rp) evs). same_rows a db l (ev_entity_type ev) (natural_key ev)"
  shows "\<forall>l t k. same_rows a db' l t k \<or> replaced_by job a db' l t k"
  using assms
proof (induction evs arbitrary: n db)
  case (Cons ev evs)
  from Cons.prems(1) obtain n1 db1 where step: "process_event rp job l now ev (n, db) = Inr (n1, db1)"
    and rest: "fold_res (process_event rp job l now) evs (n1, db1) = Inr (n', db')"
    by (auto simp: res_simps)
  have ok1: "snapshots_ok db1"
    using process_event_refines [OF step _ Cons.prems(2)] Cons.prems(3) by simp
  have dist: "distinct (map event_key (filter (to_write rp) evs))"
    using Cons.prems(4) by (simp split: if_splits)
  have own: "\<forall>ev \<in> set evs. to_write rp ev \<longrightarrow> own_lea l ev" using Cons.prems(3) by simp
  note IH = Cons.IH [OF rest ok1 own dist Cons.prems(5)]
  from step show ?case
  proof (cases rule: process_event_cases)
    case quarantine
    note t = same_or_replaced_tables [OF write_quarantine_row_sel(1) [OF quarantine(3)]]
    show ?thesis by (rule IH) (use Cons.prems(6,7) t in \<open>simp_all split: if_splits\<close>)
  next
    case skip
    show ?thesis by (rule IH) (use Cons.prems(6,7) skip(1) in \<open>auto split: if_splits\<close>)
  next
    case applied
    let ?t = "ev_entity_type ev" and ?k = "natural_key ev"
    have ev: "own_lea l ev" using Cons.prems(3) applied(1) by simp
    have same: "same_rows a db l ?t ?k" using Cons.prems(7) applied(1) by simp
    have other: "filter (for_key l' k) (db_snapshots db1 t) = filter (for_key l' k) (db_snapshots db t)"
      if "(t, l', k) \<noteq> (?t, l, ?k)" for l' t k
      using event_writer.put_other_key [OF applied(3) ev that] .
    have "\<forall>sn \<in> set (db_snapshots db ?t). for_key l ?k sn \<longrightarrow> sn_superseded_by sn \<noteq> Some job"
    proof (intro ballI impI)
      fix sn assume "sn \<in> set (db_snapshots db ?t)" "for_key l ?k sn"
      then have "sn \<in> set (filter (for_key l ?k) (db_snapshots db ?t))" by simp
      with same have "sn \<in> set (db_snapshots a ?t)" by (simp add: same_rows_def)
      with Cons.prems(5) show "sn_superseded_by sn \<noteq> Some job" by blast
    qed
    from write_event_replaces [OF applied(3) ev Cons.prems(2) this]
    have "replaced_by job db db1 l ?t ?k" .
    moreover have "live_row db l ?t ?k = live_row a l ?t ?k"
      using same by (intro live_row_cong) (simp add: same_rows_def)
    ultimately have new: "replaced_by job a db1 l ?t ?k" by (simp add: replaced_by_def)
    show ?thesis
    proof (rule IH)
      show "\<forall>l' t k. same_rows a db1 l' t k \<or> replaced_by job a db1 l' t k"
      proof (intro allI)
        fix l' t k
        show "same_rows a db1 l' t k \<or> replaced_by job a db1 l' t k"
        proof (cases "(t, l', k) = (?t, l, ?k)")
          case False
          with Cons.prems(6) same_rows_cong [OF other [OF False]] show ?thesis by simp
        qed (use new in simp)
      qed
      show "\<forall>e \<in> set (filter (to_write rp) evs). same_rows a db1 l (ev_entity_type e) (natural_key e)"
      proof
        fix e assume e: "e \<in> set (filter (to_write rp) evs)"
        have "event_key ev \<notin> event_key ` set (filter (to_write rp) evs)"
          using Cons.prems(4) applied(1) by simp
        then have "event_key e \<noteq> event_key ev" using imageI [OF e, of event_key] by metis
        then have "(ev_entity_type e, l, natural_key e) \<noteq> (?t, l, ?k)" by (auto simp: event_key_def)
        from same_rows_cong(1) [OF other [OF this]] Cons.prems(7) e
        show "same_rows a db1 l (ev_entity_type e) (natural_key e)" by simp
      qed
    qed
  qed
qed (simp add: same_rows_def)


section \<open>Payloads\<close>

text \<open>The dates of an enrollment are dates of the calendar.\<close>

definition proper_dates :: "entity \<Rightarrow> bool" where
  "proper_dates x = (case x of
     EEnrollment e \<Rightarrow> (case en_begin e of DDate b \<Rightarrow> valid_date b | _ \<Rightarrow> False) \<and>
       (case en_end e of None \<Rightarrow> True | Some (DDate f) \<Rightarrow> valid_date f | _ \<Rightarrow> False)
   | _ \<Rightarrow> True)"

definition canonical_ids :: "entity_type \<Rightarrow> db \<Rightarrow> string set" where
  "canonical_ids t db = (case t of
     LEA \<Rightarrow> lr_id ` set (db_leas db) | STUDENT \<Rightarrow> sr_id ` set (db_students db)
   | ENROLLMENT \<Rightarrow> er_id ` set (db_enrollments db))"

lemma text_param_opt [simp]: "text_param (json_of_opt so) = Inr so"
  by (cases so) (simp_all add: json_of_opt_def)

lemma proper_end_date:
  assumes "proper_dates (EEnrollment e)"
  shows "\<exists>f. parse_iso_date ft (case en_end e of None \<Rightarrow> JNull | Some d \<Rightarrow> json_of_date d) = Inr f \<and>
      (case en_end e of None \<Rightarrow> Inr None
       | Some d \<Rightarrow> res_bind (date_param d) (\<lambda>f. Inr (Some f))) = Inr f"
proof (cases "en_end e")
  case (Some d)
  with assms obtain f where "d = DDate f" "valid_date f"
    by (cases d) (simp_all add: proper_dates_def split: date_field.splits)
  with Some show ?thesis by (simp add: parse_iso_date_def fromisoformat_isoformat)
qed (simp add: parse_iso_date_def)

lemma not_null_Some [simp]: "not_null c (Some x) = Inr x"
  by (simp add: not_null_def)

text \<open>
  The payload of a snapshot loses nothing the canonical row needs: rewinding an existing
  canonical row to the payload the worker stored for an event gives exactly the database that
  applying the event gives, dates included.
\<close>

theorem payload_rewinds_row:
  assumes "type_matches (ev_entity_type ev) (ev_entity ev)" and "proper_dates (ev_entity ev)"
    and "natural_key ev \<in> canonical_ids (ev_entity_type ev) db"
  shows "restore_canonical_from_payload ft (ev_entity_type ev) (natural_key ev) l
      (entity_payload (ev_entity ev)) del (Some now) db = upsert_canonical ev del now db"
  using assms(1)
proof (cases rule: type_matches_cases)
  case (1 le)
  then have "le_id le \<in> lr_id ` set (db_leas db)"
    using assms(3) by (simp add: canonical_ids_def natural_key_def)
  then have "upsert lr_id merge_lea (new_lea_row (le_id le) n t st c d) (db_leas db) =
      update_where (\<lambda>r. lr_id r = le_id le)
        (\<lambda>r. r\<lparr>lr_name := n, lr_type := t, lr_state := st, lr_nces := c, lr_deleted_at := d\<rparr>) (db_leas db)"
    for n t st c d
    by (simp add: upsert_def new_lea_row_def merge_lea_def)
  with 1 assms(3) show ?thesis
    by (simp add: restore_canonical_from_payload_def restore_lea_def upsert_canonical_def
        upsert_lea_entity_def deleted_stamp_def dict_get_def dict_get_default_def canonical_ids_def
        natural_key_def Let_def)
next
  case (2 s)
  then show ?thesis
    using assms(3)
    by (simp add: restore_canonical_from_payload_def restore_student_def upsert_canonical_def
        upsert_student_def student_row_of_def deleted_stamp_def dict_get_def dict_get_default_def
        canonical_ids_def natural_key_def json_or_def truthy_def Let_def)
next
  case (3 e)
  with assms(2) obtain b where b: "en_begin e = DDate b" "valid_date b"
    by (cases "en_begin e") (simp_all add: proper_dates_def)
  obtain f where f: "parse_iso_date ft (case en_end e of None \<Rightarrow> JNull | Some d \<Rightarrow> json_of_date d) = Inr f"
    "(case en_end e of None \<Rightarrow> Inr None
       | Some d \<Rightarrow> res_bind (date_param d) (\<lambda>f. Inr (Some f))) = Inr f"
    using assms(2) 3 proper_end_date by metis
  have "parse_iso_date ft (JStr (isoformat b)) = Inr (Some b)"
    using b(2) by (simp add: parse_iso_date_def fromisoformat_isoformat)
  with 3 b f assms(3) show ?thesis
    by (simp add: restore_canonical_from_payload_def restore_enrollment_def upsert_canonical_def
        upsert_enrollment_def enrollment_row_of_def deleted_stamp_def dict_get_def
        dict_get_default_def canonical_ids_def natural_key_def Let_def)
qed

section \<open>Witnesses\<close>

definition s_reverted :: "db \<times> (exn + revert_outcome)" where
  "s_reverted = revert (\<lambda>_. []) 1 ''admin'' ''bad page'' 2 200 s_db1"

definition s_db2 :: db where "s_db2 = fst s_reverted"

definition s_revert_out :: revert_outcome where "s_revert_out = projr (snd s_reverted)"

lemma s_reverted_eval:
  "case s_reverted of
     (db, Inr out) \<Rightarrow> ro_restored out = 2 \<and> ro_soft_deleted out = 2 \<and>
       map sj_id (db_sync_jobs db) = [1, 2] \<and>
       list_all (\<lambda>j. sj_status j \<noteq> ''revert'') (db_sync_jobs s_db1)
   | _ \<Rightarrow> False"
  by code_simp

lemma s_reverted_facts:
  "revert (\<lambda>_. []) 1 ''admin'' ''bad page'' 2 200 s_db1 = (s_db2, Inr s_revert_out) \<and>
   ro_restored s_revert_out = 2 \<and> job_ids s_db2 = {1, 2} \<and>
   (\<forall>j \<in> set (db_sync_jobs s_db1). sj_status j \<noteq> ''revert'')"
proof -
  obtain db r where dr: "s_reverted = (db, r)" by (cases s_reverted)
  from s_reverted_eval [unfolded dr] obtain out where r: "r = Inr out" by (cases r) auto
  note eq = dr [unfolded r]
  from s_reverted_eval [unfolded eq] have facts: "ro_restored out = 2"
    "map sj_id (db_sync_jobs db) = [1, 2]"
    "\<forall>j \<in> set (db_sync_jobs s_db1). sj_status j \<noteq> ''revert''"
    by (auto simp: list_all_iff)
  have "job_ids db = set (map sj_id (db_sync_jobs db))" by (simp add: job_ids_def)
  with facts eq show ?thesis by (simp add: s_db2_def s_revert_out_def s_reverted_def)
qed

lemmas s_reverted_run = s_reverted_facts [THEN conjunct1]

lemma s_db1_ok: "snapshots_ok s_db1"
proof -
  have "\<forall>ev \<in> set (pg_events s_page2). own_lea ''lea-1'' ev" by code_simp
  then show ?thesis
    using page_store [OF s_first_run s_first_success s_fetch_page _ empty_db_ok] by blast
qed

theorem revert_rewinds_snapshots_witness:
  "snapshots_ok s_db2 \<and> append_only s_db1 s_db2 \<and> ro_restored s_revert_out = 2"
  using revert_rewinds_snapshots [OF s_reverted_run s_db1_ok] s_reverted_facts by simp

theorem second_revert_noop_witness:
  "\<exists>db out. revert (\<lambda>_. []) 1 ''admin'' ''again'' 3 300 s_db2 = (db, Inr out) \<and> ro_restored out = 0"
proof -
  have "\<forall>j \<in> set (db_sync_jobs s_db1). sj_id j = 1 \<longrightarrow> sj_status j \<noteq> ''revert''" "3 \<notin> job_ids s_db2"
    using s_reverted_facts by simp_all
  from second_revert_noop [OF s_reverted_run s_db1_ok this, of "''admin''" "''again''" 300]
  show ?thesis by blast
qed


theorem payload_rewinds_row_witness:
  "restore_canonical_from_payload (\<lambda>_. []) ENROLLMENT (natural_key s_ev_enrollment) ''lea-1''
     (entity_payload (ev_entity s_ev_enrollment)) False (Some 100) s_db1 =
   upsert_canonical s_ev_enrollment False 100 s_db1"
proof -
  have "ev_entity_type s_ev_enrollment = ENROLLMENT"
    "type_matches (ev_entity_type s_ev_enrollment) (ev_entity s_ev_enrollment)"
    "proper_dates (ev_entity s_ev_enrollment)"
    "natural_key s_ev_enrollment \<in> canonical_ids (ev_entity_type s_ev_enrollment) s_db1"
    by code_simp+
  from payload_rewinds_row [OF this(2-4), of "\<lambda>_. []" "''lea-1''" False 100] this(1)
  show ?thesis by simp
qed

end
