(* ===== verification/EdlinkProperties.thy ===== *)
theory EdlinkProperties
  imports EdlinkConnector RevertProperties
begin

text \<open>
  What the EdLink connector promises to its callers: the walk over the resources and the polling
  of events end and see every row once, the pages it gives to the sync worker are well formed
  and about the LEA asked for, its two readings of a person agree, and what an event it cannot
  read does to an LEA.
\<close>

section \<open>Projections of pages\<close>

lemma map_res_append:
  "map_res f (xs @ ys) = res_bind (map_res f xs) (\<lambda>as. res_bind (map_res f ys) (\<lambda>bs. Inr (as @ bs)))"
proof (induction xs)
  case Nil
  show ?case by (cases "map_res f ys") simp_all
next
  case (Cons x xs)
  then show ?case by (cases "f x"; cases "map_res f xs"; cases "map_res f ys") simp_all
qed

definition collect :: "('a \<Rightarrow> 'e + 'b option) \<Rightarrow> 'a list \<Rightarrow> 'e + 'b list" where
  "collect f xs = res_bind (map_res f xs) (\<lambda>ys. Inr (List.map_filter id ys))"

lemma collect_Nil [simp]: "collect f [] = Inr []"
  by (simp add: collect_def List.map_filter_def)

lemma collect_append:
  "collect f (xs @ ys) = res_bind (collect f xs) (\<lambda>as. res_bind (collect f ys) (\<lambda>bs. Inr (as @ bs)))"
  by (cases "map_res f xs"; cases "map_res f ys")
    (simp_all add: collect_def map_res_append List.map_filter_def)

lemma collect_mem:
  assumes "collect f xs = Inr ys" and "y \<in> set ys"
  shows "\<exists>x \<in> set xs. f x = Inr (Some y)"
  using assms
proof (induction xs arbitrary: ys)
  case (Cons x xs)
  have "res_bind (collect f [x]) (\<lambda>as. res_bind (collect f xs) (\<lambda>bs. Inr (as @ bs))) = Inr ys"
    using Cons.prems(1) collect_append [of f "[x]" xs] by simp
  then obtain as bs where
    as: "collect f [x] = Inr as" and bs: "collect f xs = Inr bs" and ys: "ys = as @ bs"
    unfolding res_bind_Inr_iff by blast
  from as have "y \<in> set as \<Longrightarrow> f x = Inr (Some y)"
    by (auto simp: collect_def res_simps List.map_filter_def split: if_splits)
  with Cons.IH [OF bs] Cons.prems(2) ys show ?case by auto
qed simp

lemma project_page_collect:
  "project_page ft name = collect (\<lambda>v. res_bind (as_dict v) (project_resource ft name))"
  by (simp add: project_page_def collect_def fun_eq_iff)

section \<open>The walk over the resources\<close>

lemma walk_resource_all:
  assumes "0 < first"
  shows "walk_resource ft (get_resources files l resource first) name =
    Some (res_bind (resource_entries files l resource) (project_page ft name))"
proof (cases "resource_entries files l resource")
  case (Inl e)
  then have "get_resources files l resource first None = Inl e" by (simp add: get_resources_def)
  then show ?thesis by (simp add: walk_resource_def follow.simps project_response_def Inl)
next
  case (Inr entries)
  have "resource_token files l resource first None"
    using assms by (simp add: resource_token_def Inr token_offset_def)
  then have "follow (project_response ft name (get_resources files l resource first)) None [] =
      Some (project_page ft name (projr (resource_entries files l resource)))"
    by (intro resource_pages.follow_all)
      (auto simp: project_page_collect collect_append project_response_def)
  with Inr show ?thesis by (simp add: walk_resource_def)
qed

lemma walk_resources_all:
  "walk_resources ft files l = Some (map_res (\<lambda>(resource, name).
     res_bind (resource_entries files l resource) (\<lambda>rows.
     res_bind (project_page ft name rows) (\<lambda>projected. Inr (name, projected)))) RESOURCE_WALK)"
proof -
  have "walk_all ft (\<lambda>resource. get_resources files l resource RESOURCE_PAGE_SIZE) plan =
      Some (map_res (\<lambda>(resource, name). res_bind (resource_entries files l resource) (\<lambda>rows.
        res_bind (project_page ft name rows) (\<lambda>projected. Inr (name, projected)))) plan)" for plan
  proof (induction plan)
    case (Cons rn plan)
    obtain resource name where rn: "rn = (resource, name)" by (cases rn)
    have "walk_resource ft (get_resources files l resource RESOURCE_PAGE_SIZE) name =
        Some (res_bind (resource_entries files l resource) (project_page ft name))"
      by (rule walk_resource_all) (simp add: RESOURCE_PAGE_SIZE_def)
    with Cons rn show ?case
      by (cases "resource_entries files l resource"; cases "project_page ft name (projr (resource_entries files l resource))")
        (auto split: option.splits sum.splits simp: res_simps)
  qed simp
  then show ?thesis by (simp add: walk_resources_def)
qed

text \<open>
  The walk over the partner's resources ends, for every fixture file, and its result is the
  projection of all the rows of every resource, each once and in order, under the canonical
  names: paging changes nothing.
\<close>

theorem walk_resources_complete:
  "walk_resources ft files l = Some (map_res (\<lambda>(resource, name).
     res_bind (resource_entries files l resource) (\<lambda>rows.
     res_bind (project_page ft name rows) (\<lambda>projected. Inr (name, projected)))) RESOURCE_WALK)"
  by (rule walk_resources_all)

section \<open>Polling the events\<close>

text \<open>The poll of a worker: the cursor of the response is the next token.\<close>

definition poll ::
  "(rat \<Rightarrow> string) \<Rightarrow> (string \<Rightarrow> exn + timestamp) \<Rightarrow> file_system \<Rightarrow> nat \<Rightarrow> timestamp \<Rightarrow> lea_id \<Rightarrow>
   string option \<Rightarrow> exn + (normalized_event list \<times> bool \<times> string option)" where
  "poll ft parse_ts files page_size now l tok =
     res_bind (fetch_changes ft parse_ts files page_size now l
         \<lparr>cur_value = opt_or tok [], cur_observed_at = None\<rparr>)
       (\<lambda>page. Inr (pg_events page, pg_has_more page, Some (cur_value (pg_next_cursor page))))"

lemma fetch_changes_eq:
  assumes "get_events ft parse_ts files l (if cur_value since = [] then None else Some (cur_value since)) n = Inr r"
  shows "fetch_changes ft parse_ts files n now l since =
    res_bind (collect (\<lambda>evt. normalize_event ft now evt l) (xr_events r)) (\<lambda>evs.
      Inr \<lparr>pg_events = evs,
         pg_next_cursor =
           \<lparr>cur_value = opt_or (xr_next_token r) (cur_value since),
            cur_observed_at = (if xr_events r = [] then cur_observed_at since
                               else Some (xe_date (last (xr_events r))))\<rparr>,
         pg_has_more = xr_has_more r, pg_retrieved_at = now, pg_layer_1 = xr_layer_1 r\<rparr>)"
  unfolding fetch_changes_def assms collect_def
  by (cases "map_res (\<lambda>evt. normalize_event ft now evt l) (xr_events r)") simp_all

lemma poll_eq:
  assumes "load_lea_events ft parse_ts files l = Inr evts"
    and "event_token evts limit tok"
    and "events_page evts (slice_start evts tok) limit = r"
  shows "poll ft parse_ts files limit now l tok =
    res_bind (collect (\<lambda>evt. normalize_event ft now evt l) (xr_events r))
      (\<lambda>as. Inr (as, xr_has_more r, Some (opt_or (xr_next_token r) (opt_or tok []))))"
proof -
  let ?since = "\<lparr>cur_value = opt_or tok [], cur_observed_at = None\<rparr>"
  have "(if cur_value ?since = [] then None else Some (cur_value ?since)) = tok"
    using event_token_nonempty [OF assms(2)] by (auto simp: opt_or_def split: option.splits)
  then have "get_events ft parse_ts files l
      (if cur_value ?since = [] then None else Some (cur_value ?since)) limit = Inr r"
    using assms(1,3) by (simp only: get_events_def res_bind.simps)
  from fetch_changes_eq [OF this] show ?thesis
    unfolding poll_def
    by (cases "collect (\<lambda>evt. normalize_event ft now evt l) (xr_events r)") simp_all
qed


section \<open>What the pages hold\<close>

lemma make_date_valid: "make_date y m d = Inr x \<Longrightarrow> valid_date x"
  by (auto simp: make_date_def Let_def split: if_splits)

lemma fromisoformat_valid:
  assumes "fromisoformat s = Inr x"
  shows "valid_date x"
proof -
  have "valid_date x" if "iso_week_date y w d = Inr x" for y w d
    using that by (auto simp: iso_week_date_def Let_def make_date_valid split: if_splits prod.splits)
  with assms show ?thesis
    by (auto simp: fromisoformat_def Let_def res_simps make_date_valid split: if_splits prod.splits)
qed

lemma person_student_lea: "person_to_student ft data l = Inr (Some s) \<Longrightarrow> st_lea_id s = l"
  by (auto simp: person_to_student_def res_simps split: if_splits)

lemma enrollment_canonical:
  assumes "enrollment_to_canonical ft data l = Inr e"
  shows "en_lea_id e = l \<and> proper_dates (EEnrollment e)"
proof -
  from assms obtain b f where "en_lea_id e = l" "en_begin e = DDate b" "en_end e = map_option DDate f"
    "parse_date ft (dict_get data ''beginDate'') = Inr b"
    "parse_date_optional ft (dict_get data ''endDate'') = Inr f"
    by (auto simp: enrollment_to_canonical_def res_simps)
  then show ?thesis
    by (auto simp: proper_dates_def parse_date_def parse_date_optional_def res_simps
        split: if_splits option.splits dest!: fromisoformat_valid)
qed

lemma normalize_event_cases:
  assumes "normalize_event ft now evt l = Inr (Some ev)"
  obtains (person) op s where "person_to_student ft (xe_data evt) l = Inr (Some s)"
      "ev_entity_type ev = STUDENT" "ev_entity ev = EStudent s" "ev_operation ev = op"
      "ev_lea_id ev = l" "ev_id ev = xe_id evt" "ev_source_event_id ev = xe_id evt"
    | (enrollment) op e where "enrollment_to_canonical ft (xe_data evt) l = Inr e"
      "ev_entity_type ev = ENROLLMENT" "ev_entity ev = EEnrollment e" "ev_operation ev = op"
      "ev_lea_id ev = l" "ev_id ev = xe_id evt" "ev_source_event_id ev = xe_id evt"
proof -
  obtain w b a where p: "str_partition (CHR ''.'') (xe_type evt) = (w, b, a)"
    by (cases "str_partition (CHR ''.'') (xe_type evt)")
  from assms show thesis
    unfolding normalize_event_def Let_def p
    by (auto simp: res_simps split: if_splits option.splits intro: person enrollment)
qed

lemma fetch_page_good:
  assumes "fetch_changes ft parse_ts files page_size now l since = Inr page"
  shows "l1_ok (pg_layer_1 page) \<and> page_for l page \<and> (\<forall>ev \<in> set (pg_events page).
    type_matches (ev_entity_type ev) (ev_entity ev) \<and> entity_of_lea l (ev_entity ev) \<and>
    proper_dates (ev_entity ev) \<and> ev_source_event_id ev = ev_id ev)"
proof -
  obtain r where r: "get_events ft parse_ts files l
      (if cur_value since = [] then None else Some (cur_value since)) page_size = Inr r"
    using assms unfolding fetch_changes_def res_bind_Inr_iff by blast
  from assms [unfolded fetch_changes_eq [OF r]] have
    evs: "collect (\<lambda>evt. normalize_event ft now evt l) (xr_events r) = Inr (pg_events page)"
    and l1: "pg_layer_1 page = xr_layer_1 r"
    by (auto simp: res_simps)
  have "l1_ok (xr_layer_1 r)"
    using r by (auto simp: get_events_def res_simps events_page_def Let_def layer1_200_def)
  moreover have "ev_lea_id ev = l \<and> own_lea l ev \<and> type_matches (ev_entity_type ev) (ev_entity ev) \<and>
      entity_of_lea l (ev_entity ev) \<and> proper_dates (ev_entity ev) \<and> ev_source_event_id ev = ev_id ev"
    if "ev \<in> set (pg_events page)" for ev
  proof -
    from collect_mem [OF evs that] obtain evt where "normalize_event ft now evt l = Inr (Some ev)" by blast
    then show ?thesis
    proof (cases rule: normalize_event_cases)
      case (person op s)
      then show ?thesis by (simp add: own_lea_def entity_of_lea_def person_student_lea proper_dates_def)
    next
      case (enrollment op e)
      then show ?thesis using enrollment_canonical by (simp add: own_lea_def entity_of_lea_def)
    qed
  qed
  ultimately show ?thesis by (auto simp: page_for_def l1)
qed


section \<open>Events the connector cannot read\<close>

text \<open>An enrollment event without an id, without a reference or with a date that is no date.\<close>

definition unreadable :: "(rat \<Rightarrow> string) \<Rightarrow> edlink_event \<Rightarrow> bool" where
  "unreadable ft evt \<longleftrightarrow> fst (str_partition (CHR ''.'') (xe_type evt)) = ''enrollment'' \<and>
     operation_by_action (snd (snd (str_partition (CHR ''.'') (xe_type evt)))) \<noteq> None \<and>
     isl (enrollment_to_canonical ft (xe_data evt) [])"

lemma enrollment_isl_lea:
  "isl (enrollment_to_canonical ft data l) = isl (enrollment_to_canonical ft data l')"
  unfolding enrollment_to_canonical_def
  by (cases "dict_item data ''sourcedId''"; cases "res_bind (dict_item data ''user'') (extract_ref_id ft)";
      cases "res_bind (dict_item data ''class'') (extract_ref_id ft)";
      cases "parse_date ft (dict_get data ''beginDate'')";
      cases "parse_date_optional ft (dict_get data ''endDate'')") simp_all

lemma normalize_unreadable:
  assumes "unreadable ft evt"
  shows "\<exists>e. normalize_event ft now evt l = Inl e"
proof -
  obtain b a op where p: "str_partition (CHR ''.'') (xe_type evt) = (''enrollment'', b, a)"
    and op: "operation_by_action a = Some op"
    using assms by (cases "str_partition (CHR ''.'') (xe_type evt)") (auto simp: unreadable_def)
  have "isl (enrollment_to_canonical ft (xe_data evt) l)"
    using assms enrollment_isl_lea by (metis unreadable_def)
  then show ?thesis
    by (cases "enrollment_to_canonical ft (xe_data evt) l")
      (simp_all add: normalize_event_def p op HANDLED_ENTITIES_def)
qed

lemma map_res_raises:
  assumes "x \<in> set xs" and "\<exists>e. f x = Inl e"
  shows "\<exists>e. map_res f xs = Inl e"
  using assms
proof (induction xs)
  case (Cons y ys)
  then show ?case by (cases "f y"; cases "map_res f ys") auto
qed simp

text \<open>
  C37. One unreadable enrollment event stops its LEA: while it is within the next page of the
  cursor, every drain ends with an exception before any event of that page is validated, writes
  nothing - no job, no issue, no alert - and leaves the cursor where it is.
\<close>

theorem unreadable_event_stalls:
  assumes "load_lea_events ft parse_ts files l = Inr evts"
    and "evt \<in> set (take page_size (drop (slice_start evts
      (if cur_value (read_cursor db l ''edlink'') = [] then None
       else Some (cur_value (read_cursor db l ''edlink'')))) evts))"
    and "unreadable ft evt" and "0 < max_pages"
  shows "\<exists>e. drain_lea None alerts max_pages ''edlink''
    (\<lambda>i. fetch_changes ft parse_ts files page_size (now i)) ids clock l db = (db, [], Inl e)"
proof -
  let ?c = "read_cursor db l ''edlink''"
  let ?after = "if cur_value ?c = [] then None else Some (cur_value ?c)"
  let ?r = "events_page evts (slice_start evts ?after) page_size"
  have r: "get_events ft parse_ts files l ?after page_size = Inr ?r"
    using assms(1) by (simp only: get_events_def res_bind.simps)
  have "evt \<in> set (xr_events ?r)" using assms(2) by (simp only: events_page_def Let_def events_response.simps)
  then have "\<exists>e. map_res (\<lambda>evt. normalize_event ft t evt l) (xr_events ?r) = Inl e" for t
    by (rule map_res_raises) (rule normalize_unreadable [OF assms(3)])
  then have "\<exists>e. fetch_changes ft parse_ts files page_size t l ?c = Inl e" for t
    unfolding fetch_changes_def r res_bind.simps(2) by (metis res_bind.simps(1))
  then obtain e where e: "fetch_changes ft parse_ts files page_size (now 0) l ?c = Inl e" by blast
  obtain n where n: "max_pages = Suc n" using assms(4) by (cases max_pages) auto
  have "process_one_page ''edlink'' (fetch_changes ft parse_ts files page_size (now 0)) l (ids 0) (clock 0) db =
      (db, Inl e)"
    by (simp add: process_one_page_def transaction_def page_body_def e Let_def)
  then show ?thesis by (simp add: drain_lea_def n Let_def)
qed

section \<open>The two readings of a person\<close>

definition student_columns :: "student \<Rightarrow> json \<Rightarrow> dict" where
  "student_columns s grade =
     [(''id'', JStr (st_id s)), (''given_name'', JStr (st_given_name s)),
      (''family_name'', JStr (st_family_name s)), (''grade'', grade),
      (''preferred_first_name'', json_of_opt (st_preferred s)),
      (''primary_school_id'', json_of_opt (st_school s))]"

text \<open>
  The event path and the resource path read a person alike: a person that is a student in one
  is a student in the other, with the same columns, so that a walk after the events reconciles.
  The exception is a grade list that starts with null: the event path stores no grade, the
  resource path the text \<open>None\<close>.
\<close>

theorem person_readings_agree:
  assumes "person_to_student ft data l = Inr so"
  shows "project_student ft data = Inr (map_option (\<lambda>s. student_columns s
      (if truthy (dict_get data ''grades'') \<and> first_grade data = Inr JNull then JStr ''None''
       else json_of_opt (st_grade s))) so)"
proof -
  from assms obtain stu where role: "has_student_role data = Inr stu"
    by (auto simp: person_to_student_def res_simps)
  show ?thesis
  proof (cases stu)
    case False
    with role assms show ?thesis by (simp add: person_to_student_def project_student_def)
  next
    case True
    with role assms obtain grade school i ids where
      g: "first_grade data = Inr grade" "extract_primary_org_id ft (dict_get data ''primaryOrg'') = Inr school"
        "dict_item data ''sourcedId'' = Inr i" "user_ids data = Inr ids"
      and so: "so = Some \<lparr>st_id = py_str ft i, st_lea_id = l,
           st_given_name = py_str ft (dict_get_default data ''givenName'' (JStr [])),
           st_family_name = py_str ft (dict_get_default data ''familyName'' (JStr [])),
           st_grade = optional_str ft grade,
           st_preferred = optional_str ft (dict_get data ''preferredFirstName''),
           st_school = school, st_external_ids = ids\<rparr>"
      by (auto simp: person_to_student_def res_simps)
    let ?gs = "json_or (dict_get data ''grades'') (JArr [])"
    have t: "truthy ?gs \<longleftrightarrow> truthy (dict_get data ''grades'')"
      by (simp add: json_or_def truthy_def)
    have "(if truthy ?gs then res_bind (json_head ?gs) (\<lambda>g. Inr (JStr (py_str ft g))) else Inr JNull) =
        Inr (if truthy (dict_get data ''grades'') \<and> grade = JNull then JStr ''None''
             else json_of_opt (optional_str ft grade))"
      using g(1) by (auto simp: first_grade_def Let_def t json_of_opt_def optional_str_def py_str_def
          split: if_splits)
    with role True g so show ?thesis
      by (simp add: project_student_def Let_def student_columns_def)
  qed
qed

section \<open>Witnesses\<close>

definition s_person :: json where
  "s_person = JObj [(''sourcedId'', JStr ''stu-1''), (''roles'', JArr [JStr ''student'']),
     (''givenName'', JStr ''Alex''), (''grades'', JArr [JStr ''05''])]"

definition s_edlink_event :: "string \<Rightarrow> string \<Rightarrow> json \<Rightarrow> json" where
  "s_edlink_event i t d = JObj [(''id'', JStr i), (''date'', JStr ''2026-01-05''), (''type'', JStr t), (''data'', d)]"

text \<open>The third event has no begin date.\<close>

definition s_files :: file_system where
  "s_files name = (if name = ''lea-1.events.json'' then Some (JObj [(''events'', JArr
     [s_edlink_event ''evt_1'' ''person.created'' s_person,
      s_edlink_event ''evt_2'' ''enrollment.created'' (JObj [(''sourcedId'', JStr ''enr-1''),
        (''user'', JStr ''stu-1''), (''class'', JStr ''cls-A''), (''beginDate'', JStr ''2026-01-05'')]),
      s_edlink_event ''evt_3'' ''enrollment.created'' (JObj [(''sourcedId'', JStr ''enr-2''),
        (''user'', JStr ''stu-1''), (''class'', JStr ''cls-A'')])])]) else None)"

definition s_ts :: "string \<Rightarrow> exn + timestamp" where
  "s_ts _ = Inr 10"

definition s_feed :: "edlink_event list" where
  "s_feed = projr (load_lea_events (\<lambda>_. []) s_ts s_files ''lea-1'')"

lemma s_feed_run: "load_lea_events (\<lambda>_. []) s_ts s_files ''lea-1'' = Inr s_feed"
proof -
  have "\<not> isl (load_lea_events (\<lambda>_. []) s_ts s_files ''lea-1'')" by code_simp
  then show ?thesis by (simp add: s_feed_def sum.collapse)
qed



theorem unreadable_event_stalls_witness:
  "\<exists>e. drain_lea None True 5 ''edlink'' (\<lambda>i. fetch_changes (\<lambda>_. []) s_ts s_files 500 30) (\<lambda>i. i)
     (\<lambda>_. 30) ''lea-1'' empty_db = (empty_db, [], Inl e)"
proof -
  have "s_feed ! 2 \<in> set (take 500 (drop (slice_start s_feed
      (if cur_value (read_cursor empty_db ''lea-1'' ''edlink'') = [] then None
       else Some (cur_value (read_cursor empty_db ''lea-1'' ''edlink'')))) s_feed))"
    "unreadable (\<lambda>_. []) (s_feed ! 2)"
    by code_simp+
  from unreadable_event_stalls [OF s_feed_run this, of 5 True "\<lambda>_. 30" "\<lambda>i. i" "\<lambda>_. 30"]
  show ?thesis by simp
qed

theorem person_readings_agree_witness:
  "\<exists>s. project_student (\<lambda>_. []) [(''sourcedId'', JStr ''stu-1''), (''roles'', JArr [JStr ''student'']),
     (''grades'', JArr [JNull])] = Inr (Some (student_columns s (JStr ''None'')))"
proof -
  let ?data = "[(''sourcedId'', JStr ''stu-1''), (''roles'', JArr [JStr ''student'']),
     (''grades'', JArr [JNull])]"
  have "(case person_to_student (\<lambda>_. []) ?data ''lea-1'' of Inr (Some s) \<Rightarrow> True | _ \<Rightarrow> False)"
    "truthy (dict_get ?data ''grades'') \<and> first_grade ?data = Inr JNull"
    by code_simp+
  then obtain s where "person_to_student (\<lambda>_. []) ?data ''lea-1'' = Inr (Some s)"
    "truthy (dict_get ?data ''grades'') \<and> first_grade ?data = Inr JNull"
    by (auto split: sum.splits option.splits)
  with person_readings_agree [OF this(1)] show ?thesis by auto
qed

end
