(* ===== verification/Onboarding.thy ===== *)
theory Onboarding
  imports KeyVault LeaAdmin EdlinkProperties
begin

text \<open>
  The onboarding of a LEA from the command line (\<open>cli/commands/onboard_lea.py\<close>): it resolves the
  operator, creates the LEA, stages its token in a fresh secret store, authorizes a fresh
  connector, sets the cursor, counts the partner's resources and activates. Every step commits on
  its own. \<open>clock\<close> gives the reading of the clock at each step, \<open>tick\<close> that of the monotonic
  clock, \<open>environ\<close> the environment of the process. \<open>None\<close> stands for a walk that does not end.
\<close>

section \<open>The command\<close>

text \<open>
  How a command fails: the errors \<open>click\<close> reports, with what they tell, and exceptions of the
  services, refused as a \<open>ClickException\<close> or escaping.
\<close>

datatype cli_error =
    BadParameter string
  | Aborted
  | NoOperator string
  | AuthorizationFailed "string option"
  | SyncNotFound uuid
  | Refused exn
  | Raised exn

record onboard_args =
  oa_params :: create_lea_input
  oa_token :: "string option"
  oa_subject :: string
  oa_activate :: bool
  oa_skip_bulk_load :: bool

definition resolve_operator_id :: "string \<Rightarrow> db \<Rightarrow> cli_error + uuid" where
  "resolve_operator_id subject db =
     (case find (\<lambda>r. op_subject r = subject) (db_operators db) of
        None \<Rightarrow> Inl (NoOperator subject) | Some r \<Rightarrow> Inr (op_id r))"

definition onboard_create :: "onboard_args \<Rightarrow> uuid \<Rightarrow> timestamp \<Rightarrow> db \<Rightarrow> db \<times> (cli_error + unit)" where
  "onboard_create a who now db =
     (case get_lea (ci_id (oa_params a)) db of
        Some existing \<Rightarrow> (db, Inr ())
      | None \<Rightarrow>
          (case create_lea (oa_params a) who (''onboard-lea CLI by '' @ oa_subject a) now db of
             (db', Inl LeaAlreadyExists) \<Rightarrow> (db', Inl (Refused LeaAlreadyExists))
           | (db', Inl e) \<Rightarrow> (db', Inl (Raised e))
           | (db', Inr v) \<Rightarrow> (db', Inr ())))"

definition staged_vault :: "(string \<times> string) list \<Rightarrow> onboard_args \<Rightarrow> key_vault" where
  "staged_vault environ a =
     (case oa_token a of
        Some token \<Rightarrow> put_secret (''edlink-token-'' @ ci_id (oa_params a)) token (new_vault environ)
      | None \<Rightarrow> new_vault environ)"

definition onboard_authorize ::
  "(string \<times> string) list \<Rightarrow> rat \<Rightarrow> timestamp \<Rightarrow> onboard_args \<Rightarrow> cli_error + unit" where
  "onboard_authorize environ tick now a =
     (case authorize_lea (vault_token (staged_vault environ a) tick) now (ci_id (oa_params a)) {} of
        Inl e \<Rightarrow> Inl (Raised e)
      | Inr (out, authorized) \<Rightarrow> if ar_success out then Inr () else Inl (AuthorizationFailed (ar_error out)))"

definition onboard_cursor ::
  "(rat \<Rightarrow> string) \<Rightarrow> (string \<Rightarrow> exn + timestamp) \<Rightarrow> file_system \<Rightarrow> timestamp \<Rightarrow> onboard_args \<Rightarrow> db \<Rightarrow>
   db \<times> (cli_error + unit)" where
  "onboard_cursor ft parse_ts files now a db =
     (if oa_skip_bulk_load a then (db, Inr ())
      else case get_latest_cursor ft parse_ts files now (ci_id (oa_params a)) of
             Inl e \<Rightarrow> (db, Inl (Raised e))
           | Inr latest \<Rightarrow> (set_cursor (ci_id (oa_params a)) latest now db, Inr ()))"

text \<open>The counts printed, by entity type in the order of the names.\<close>

definition onboard_counts ::
  "(rat \<Rightarrow> string) \<Rightarrow> file_system \<Rightarrow> onboard_args \<Rightarrow> (cli_error + (string \<times> nat) list) option" where
  "onboard_counts ft files a =
     (if oa_skip_bulk_load a then Some (Inr [])
      else case walk_resources ft files (ci_id (oa_params a)) of
             None \<Rightarrow> None
           | Some (Inl e) \<Rightarrow> Some (Inl (Raised e))
           | Some (Inr snap) \<Rightarrow> Some (Inr (sort_key fst (map (\<lambda>(name, rows). (name, length rows)) snap))))"

definition onboard_activate :: "onboard_args \<Rightarrow> uuid \<Rightarrow> timestamp \<Rightarrow> db \<Rightarrow> db \<times> (cli_error + unit)" where
  "onboard_activate a who now db =
     (if \<not> oa_activate a then (db, Inr ())
      else case transition_status (ci_id (oa_params a)) ''active'' who
                  (''onboard-lea --activate by '' @ oa_subject a) now db of
             (db', Inl (InvalidStatusTransition s t)) \<Rightarrow> (db', Inr ())
           | (db', Inl e) \<Rightarrow> (db', Inl (Raised e))
           | (db', Inr v) \<Rightarrow> (db', Inr ()))"

text \<open>The next step of the command runs when the one before did not raise.\<close>

definition next_step :: "db \<times> (cli_error + 'a) \<Rightarrow> (db \<Rightarrow> 'a \<Rightarrow> (db \<times> (cli_error + 'b)) option) \<Rightarrow>
    (db \<times> (cli_error + 'b)) option" where
  "next_step r f = (case r of (db, Inl e) \<Rightarrow> Some (db, Inl e) | (db, Inr x) \<Rightarrow> f db x)"

definition onboard_lea ::
  "(rat \<Rightarrow> string) \<Rightarrow> (string \<Rightarrow> exn + timestamp) \<Rightarrow> file_system \<Rightarrow> (string \<times> string) list \<Rightarrow> rat \<Rightarrow>
   (nat \<Rightarrow> timestamp) \<Rightarrow> onboard_args \<Rightarrow> db \<Rightarrow> (db \<times> (cli_error + (string \<times> nat) list)) option" where
  "onboard_lea ft parse_ts files environ tick clock a db =
     next_step (db, resolve_operator_id (oa_subject a) db) (\<lambda>db who.
     next_step (onboard_create a who (clock 0) db) (\<lambda>db _.
     next_step (db, onboard_authorize environ tick (clock 1) a) (\<lambda>db _.
     next_step (onboard_cursor ft parse_ts files (clock 2) a db) (\<lambda>db _.
       case onboard_counts ft files a of
         None \<Rightarrow> None
       | Some r \<Rightarrow>
           next_step (db, r) (\<lambda>db counts.
           next_step (onboard_activate a who (clock 3) db) (\<lambda>db _. Some (db, Inr counts)))))))"

section \<open>What the steps touch\<close>

text \<open>The tables a command on a LEA leaves alone: the roster, its history and the authorizations.\<close>

definition roster_kept :: "db \<Rightarrow> db \<Rightarrow> bool" where
  "roster_kept db db' \<longleftrightarrow>
     db_students db' = db_students db \<and> db_enrollments db' = db_enrollments db \<and>
     db_schools db' = db_schools db \<and> db_classes db' = db_classes db \<and> db_sessions db' = db_sessions db \<and>
     db_snapshots db' = db_snapshots db \<and> db_sync_jobs db' = db_sync_jobs db \<and>
     db_authorizations db' = db_authorizations db"

lemma roster_kept_refl [simp]: "roster_kept db db"
  by (simp add: roster_kept_def)

lemma roster_kept_trans: "roster_kept a b \<Longrightarrow> roster_kept b c \<Longrightarrow> roster_kept a c"
  by (simp add: roster_kept_def)

lemma lea_writers_keep:
  "create_lea params who reason now db = (db', r) \<Longrightarrow> roster_kept db db' \<and> db_cursors db' = db_cursors db"
  "transition_status l target who reason now db = (db', r) \<Longrightarrow> roster_kept db db' \<and> db_cursors db' = db_cursors db"
  by (auto simp: create_lea_def transition_status_def transaction_def write_audit_log_def insert_lea_def
      set_lea_status_def roster_kept_def res_simps split: sum.splits option.splits if_splits)

lemma onboard_create_keeps:
  "onboard_create a who now db = (db', r) \<Longrightarrow> roster_kept db db' \<and> db_cursors db' = db_cursors db"
  by (auto simp: onboard_create_def split: option.splits prod.splits sum.splits exn.splits dest: lea_writers_keep)

lemma onboard_activate_keeps:
  "onboard_activate a who now db = (db', r) \<Longrightarrow> roster_kept db db' \<and> db_cursors db' = db_cursors db"
  by (auto simp: onboard_activate_def split: if_splits prod.splits sum.splits exn.splits dest: lea_writers_keep)

interpretation reset_table: keyed_table cursor_key
  "\<lambda>old new. old\<lparr>cs_last_event_id := cs_last_event_id new, cs_last_event_at := cs_last_event_at new,
     cs_updated_at := cs_updated_at new\<rparr>"
  by unfold_locales (simp add: cursor_key_def)

lemma set_cursor_keeps: "roster_kept db (set_cursor l c now db)"
  by (simp add: set_cursor_def write_cursor_def roster_kept_def)

lemma read_cursor_set:
  "read_cursor (set_cursor l c now db) l ''edlink'' =
     \<lparr>cur_value = cur_value c, cur_observed_at = Some (case cur_observed_at c of None \<Rightarrow> now | Some t \<Rightarrow> t)\<rparr>"
proof -
  define new where "new = \<lparr>cs_lea_id = l, cs_partner = ''edlink'', cs_last_event_id = Some (cur_value c),
    cs_last_event_at = Some (case cur_observed_at c of None \<Rightarrow> now | Some t \<Rightarrow> t),
    cs_last_poll_at = None, cs_cold_start_required = False, cs_updated_at = now\<rparr>"
  have "cursor_key new = (l, ''edlink'')" by (simp add: new_def cursor_key_def)
  from reset_table.lookup_upsert_same [of new "db_cursors db", unfolded this] show ?thesis
    by (simp add: read_cursor_def set_cursor_def cursor_of_def write_cursor_def new_def [symmetric]
        split: option.splits) (auto simp: new_def opt_or_def)
qed

lemma read_cursor_set_other:
  "(l', p) \<noteq> (l, ''edlink'') \<Longrightarrow> read_cursor (set_cursor l c now db) l' p = read_cursor db l' p"
  by (simp add: read_cursor_def set_cursor_def cursor_of_def write_cursor_def
      reset_table.lookup_upsert_other cursor_key_def)

lemma read_cursor_kept: "db_cursors db' = db_cursors db \<Longrightarrow> read_cursor db' = read_cursor db"
  by (simp add: fun_eq_iff read_cursor_def cursor_of_def)

lemma next_step_Inr:
  "next_step r f = Some (db', Inr y) \<longleftrightarrow> (\<exists>db x. r = (db, Inr x) \<and> f db x = Some (db', Inr y))"
  by (auto simp: next_step_def split: prod.splits sum.splits)

text \<open>A successful run, step by step.\<close>

lemma onboard_lea_Inr:
  assumes "onboard_lea ft parse_ts files environ tick clock a db = Some (db', Inr counts)"
  obtains who db1 db2 where "resolve_operator_id (oa_subject a) db = Inr who"
    "onboard_create a who (clock 0) db = (db1, Inr ())" "onboard_authorize environ tick (clock 1) a = Inr ()"
    "onboard_cursor ft parse_ts files (clock 2) a db1 = (db2, Inr ())"
    "onboard_counts ft files a = Some (Inr counts)" "onboard_activate a who (clock 3) db2 = (db', Inr ())"
  using assms by (auto simp: onboard_lea_def next_step_Inr split: option.splits)

lemma onboard_cursor_Inr:
  assumes "onboard_cursor ft parse_ts files now a db = (db', Inr ())" and "l = ci_id (oa_params a)"
  shows "roster_kept db db' \<and>
    (if oa_skip_bulk_load a then db' = db
     else get_latest_cursor ft parse_ts files now l = Inr (read_cursor db' l ''edlink'')) \<and>
    (\<forall>l' p. (l', p) \<noteq> (l, ''edlink'') \<longrightarrow> read_cursor db' l' p = read_cursor db l' p)"
proof (cases "oa_skip_bulk_load a")
  case False
  with assms obtain latest where latest: "get_latest_cursor ft parse_ts files now l = Inr latest"
    and db': "db' = set_cursor l latest now db"
    by (auto simp: onboard_cursor_def split: sum.splits)
  from latest have "\<exists>t. cur_observed_at latest = Some t"
    by (auto simp: get_latest_cursor_def res_simps split: option.splits)
  then have "read_cursor db' l ''edlink'' = latest" by (cases latest) (auto simp: db' read_cursor_set)
  with False latest show ?thesis by (simp add: db' set_cursor_keeps read_cursor_set_other)
qed (use assms in \<open>simp add: onboard_cursor_def\<close>)

section \<open>Properties\<close>

text \<open>
  C24. A successful onboarding loads no roster: the students, enrollments, schools, classes and
  sessions, the snapshots and the sync jobs are what they were, and so are the authorizations, so
  that the daily sweep has the targets it had. It moves the cursor of the LEA, and no other, to
  the latest event, wherever it was before; with \<open>--skip-bulk-load\<close> it moves none.
\<close>
theorem onboarding_loads_nothing:
  assumes "onboard_lea ft parse_ts files environ tick clock a db = Some (db', Inr counts)"
    and "l = ci_id (oa_params a)"
  shows "roster_kept db db' \<and> active_authorizations db' = active_authorizations db \<and>
    (if oa_skip_bulk_load a then read_cursor db' l ''edlink'' = read_cursor db l ''edlink''
     else get_latest_cursor ft parse_ts files (clock 2) l = Inr (read_cursor db' l ''edlink'')) \<and>
    (\<forall>l' p. (l', p) \<noteq> (l, ''edlink'') \<longrightarrow> read_cursor db' l' p = read_cursor db l' p)"
proof -
  from onboard_lea_Inr [OF assms(1)] obtain who db1 db2 where
    create: "onboard_create a who (clock 0) db = (db1, Inr ())"
    and cursor: "onboard_cursor ft parse_ts files (clock 2) a db1 = (db2, Inr ())"
    and activate: "onboard_activate a who (clock 3) db2 = (db', Inr ())" .
  note c = onboard_create_keeps [OF create] and u = onboard_cursor_Inr [OF cursor assms(2)]
    and v = onboard_activate_keeps [OF activate]
  have "roster_kept db db'"
    by (rule roster_kept_trans [OF conjunct1 [OF c] roster_kept_trans [OF conjunct1 [OF u] conjunct1 [OF v]]])
  moreover have "read_cursor db1 = read_cursor db" "read_cursor db' = read_cursor db2"
    by (rule read_cursor_kept [OF conjunct2 [OF c]], rule read_cursor_kept [OF conjunct2 [OF v]])
  moreover have "active_authorizations db' = active_authorizations db"
    using calculation(1) by (simp add: active_authorizations_def roster_kept_def)
  ultimately show ?thesis using u by (cases "oa_skip_bulk_load a") simp_all
qed

text \<open>
  The events a partner already serves are skipped: after a successful onboarding that sets the
  cursor, the next poll of the LEA gives an empty, last page, however many events the feed holds
  and whatever the LEA had polled before.
\<close>
theorem onboarding_skips_feed:
  assumes "onboard_lea ft parse_ts files environ tick clock a db = Some (db', Inr counts)"
    and "\<not> oa_skip_bulk_load a" and "l = ci_id (oa_params a)"
    and "load_lea_events ft parse_ts files l = Inr feed" and "feed_ok feed"
  shows "\<exists>page. fetch_changes ft parse_ts files page_size now l (read_cursor db' l ''edlink'') = Inr page \<and>
    pg_events page = [] \<and> \<not> pg_has_more page \<and> pg_next_cursor page = read_cursor db' l ''edlink''"
proof -
  from onboard_lea_Inr [OF assms(1)] obtain who db1 db2 where
    cursor: "onboard_cursor ft parse_ts files (clock 2) a db1 = (db2, Inr ())"
    and activate: "onboard_activate a who (clock 3) db2 = (db', Inr ())" .
  define c where "c = read_cursor db' l ''edlink''"
  have "read_cursor db' = read_cursor db2"
    by (rule read_cursor_kept [OF onboard_activate_keeps [OF activate, THEN conjunct2]])
  then have latest: "get_latest_cursor ft parse_ts files (clock 2) l = Inr c"
    using onboard_cursor_Inr [OF cursor assms(3)] assms(2) by (simp add: c_def)
  let ?after = "if cur_value c = [] then None else Some (cur_value c)"
  have start: "slice_start feed ?after = length feed"
  proof (cases "feed = []")
    case False
    then have v: "cur_value c = xe_id (feed ! (length feed - 1))"
      using latest assms(4) by (auto simp: get_latest_cursor_def get_latest_event_def last_conv_nth)
    moreover have i: "length feed - 1 < length feed" using False by simp
    ultimately have "cur_value c \<noteq> []" using feed_okD [OF assms(5) nth_mem] by simp
    with slice_start_nth [OF assms(5) i] v i show ?thesis by simp
  qed (simp add: slice_start_def)
  have "get_events ft parse_ts files l ?after page_size = Inr (events_page feed (length feed) page_size)"
    unfolding get_events_def assms(4) by (simp only: res_bind.simps start)
  from fetch_changes_eq [OF this] show ?thesis
    unfolding c_def [symmetric] by (simp add: events_page_def Let_def collect_def opt_or_def List.map_filter_simps)
qed

section \<open>Witnesses\<close>

definition s_onboard :: onboard_args where
  "s_onboard = \<lparr>oa_params = s_params\<lparr>ci_id := ''lea-1''\<rparr>, oa_token = Some ''tok'', oa_subject = ''sub'',
     oa_activate = True, oa_skip_bulk_load = False\<rparr>"

definition s_onboarding :: "(db \<times> (cli_error + (string \<times> nat) list)) option" where
  "s_onboarding = onboard_lea (\<lambda>_. []) s_ts s_files [] 0 (\<lambda>i. 40) s_onboard s_authz_db"

lemma s_counts:
  "onboard_counts (\<lambda>_. []) s_files s_onboard = Some (Inr
     [(''academic_sessions'', 0), (''classes'', 0), (''enrollments'', 0), (''schools'', 0), (''students'', 0)])"
proof -
  have "walk_resources (\<lambda>_. []) s_files ''lea-1'' = Some (Inr
      [(''students'', []), (''enrollments'', []), (''classes'', []), (''academic_sessions'', []), (''schools'', [])])"
    unfolding walk_resources_all by code_simp
  then have counts: "onboard_counts (\<lambda>_. []) s_files s_onboard = Some (Inr (sort_key fst
      [(''students'', 0), (''enrollments'', 0), (''classes'', 0), (''academic_sessions'', 0), (''schools'', 0)]))"
    by (simp add: onboard_counts_def s_onboard_def)
  show ?thesis unfolding counts by code_simp
qed

lemma s_onboarding_run:
  "onboard_lea (\<lambda>_. []) s_ts s_files [] 0 (\<lambda>i. 40) s_onboard s_authz_db =
     Some (fst (the s_onboarding), Inr (projr (snd (the s_onboarding))))"
proof -
  have "s_onboarding \<noteq> None" "\<not> isl (snd (the s_onboarding))"
    unfolding s_onboarding_def onboard_lea_def s_counts by code_simp+
  then show ?thesis by (auto simp: s_onboarding_def sum.collapse)
qed

theorem onboarding_loads_nothing_witness:
  "active_authorizations (fst (the s_onboarding)) = active_authorizations s_authz_db"
  using onboarding_loads_nothing [OF s_onboarding_run refl] by blast

theorem onboarding_skips_feed_witness:
  "\<exists>page. fetch_changes (\<lambda>_. []) s_ts s_files 500 50 ''lea-1''
     (read_cursor (fst (the s_onboarding)) ''lea-1'' ''edlink'') = Inr page \<and> pg_events page = []"
proof -
  have "feed_ok s_feed" by code_simp
  moreover have "\<not> oa_skip_bulk_load s_onboard" "''lea-1'' = ci_id (oa_params s_onboard)" by (simp_all add: s_onboard_def)
  ultimately show ?thesis
    using onboarding_skips_feed [OF s_onboarding_run _ _ s_feed_run, where page_size = 500 and now = 50] by blast
qed

end
