(* ===== verification/Quarantine.thy ===== *)
theory Quarantine
  imports RevertProperties
begin

text \<open>
  The review of quarantined events, \<open>services/quarantine.py\<close>: the listing, the release (the
  stored payload is written to the snapshots and the canonical table once its student exists) and
  the rejection. \<open>ft\<close> is the text of a float, for the \<open>str\<close> of a date field.
\<close>

section \<open>The listing\<close>

definition q_row_in_scope :: "lea_id option \<Rightarrow> lea_id set option \<Rightarrow> quarantine_row \<Rightarrow> bool" where
  "q_row_in_scope lea authorized r \<longleftrightarrow> qr_resolved_at r = None \<and>
     (case lea of None \<Rightarrow> True | Some l \<Rightarrow> qr_lea_id r = l) \<and>
     (case authorized of None \<Rightarrow> True | Some ls \<Rightarrow> qr_lea_id r \<in> ls)"

definition list_unresolved ::
  "lea_id option \<Rightarrow> lea_id set option \<Rightarrow> nat \<Rightarrow> db \<Rightarrow> quarantine_row list" where
  "list_unresolved lea authorized limit db =
     take limit (sort_key qr_created_at (filter (q_row_in_scope lea authorized) (db_quarantine db)))"

section \<open>Release and reject\<close>

record release_outcome =
  lo_quarantine_id :: uuid
  lo_sync_job_id :: uuid
  lo_release_generation_id :: uuid
  lo_entity_type :: string
  lo_entity_id :: string

record reject_outcome =
  jo_quarantine_id :: uuid
  jo_rejected_at :: timestamp
  jo_reason :: string

definition load_unresolved :: "uuid \<Rightarrow> db \<Rightarrow> exn + quarantine_row" where
  "load_unresolved q db =
     (case lookup_by qr_id q (db_quarantine db) of
        None \<Rightarrow> Inl QuarantineNotFound
      | Some r \<Rightarrow> if qr_resolved_at r \<noteq> None then Inl QuarantineAlreadyResolved else Inr r)"

definition mark_resolved ::
  "uuid \<Rightarrow> timestamp \<Rightarrow> string \<Rightarrow> string \<Rightarrow> string option \<Rightarrow> db \<Rightarrow> db" where
  "mark_resolved q now status operator reason_override db =
     db\<lparr>db_quarantine := update_where (\<lambda>r. qr_id r = q)
       (\<lambda>r. r\<lparr>qr_resolved_at := Some now, qr_resolution_status := Some status,
              qr_resolution_operator := Some operator,
              qr_reason := (case reason_override of None \<Rightarrow> qr_reason r | Some s \<Rightarrow> s)\<rparr>)
       (db_quarantine db)\<rparr>"

definition release_job_row :: "uuid \<Rightarrow> lea_id \<Rightarrow> timestamp \<Rightarrow> uuid \<Rightarrow> sync_job" where
  "release_job_row gen l now q =
     \<lparr>sj_id = gen, sj_lea_id = l, sj_partner = ''operator'', sj_status = ''quarantine_release'',
      sj_started_at = now, sj_completed_at = Some now, sj_event_count = 1, sj_error_count = 0,
      sj_warning_count = 0, sj_cursor_before = None, sj_cursor_after = None,
      sj_error_summary = Some (''release of quarantine row '' @ uuid_str q)\<rparr>"

definition insert_enrollment_snapshot ::
  "uuid \<Rightarrow> lea_id \<Rightarrow> dict \<Rightarrow> timestamp \<Rightarrow> db \<Rightarrow> exn + db" where
  "insert_enrollment_snapshot gen l p now db =
     res_bind (text_param (dict_get p ''id'')) (\<lambda>nk.
     res_bind (text_param (dict_get p ''source_event_id'')) (\<lambda>sev.
     res_bind (not_null ''enrollment_id'' nk) (\<lambda>nk.
       insert_snapshot_row ENROLLMENT
         \<lparr>sn_id = 0, sn_key = nk, sn_lea_id = l, sn_generation = gen, sn_superseded_by = None,
          sn_superseded_at = None, sn_deleted_upstream = False, sn_source_event_id = sev,
          sn_source_event_at = Some now, sn_created_at = now, sn_payload = p\<rparr> db)))"

definition upsert_enrollment_canonical ::
  "(rat \<Rightarrow> string) \<Rightarrow> lea_id \<Rightarrow> dict \<Rightarrow> db \<Rightarrow> exn + db" where
  "upsert_enrollment_canonical ft l p db =
     res_bind (parse_iso_date ft (dict_get p ''begin_date'')) (\<lambda>begin_date.
     res_bind (parse_iso_date ft (dict_get p ''end_date'')) (\<lambda>end_date.
     res_bind (text_param (dict_get p ''id'')) (\<lambda>nk.
     res_bind (text_param (dict_get p ''student_id'')) (\<lambda>stu.
     res_bind (text_param (dict_get p ''class_id'')) (\<lambda>cls.
     res_bind (not_null ''id'' nk) (\<lambda>nk.
     res_bind (not_null ''student_id'' stu) (\<lambda>stu.
     res_bind (not_null ''class_id'' cls) (\<lambda>cls.
     res_bind (not_null ''begin_date'' begin_date) (\<lambda>b.
       write_enrollment (\<lambda>_ new. new)
         \<lparr>er_id = nk, er_lea_id = l, er_student_id = stu, er_class_id = cls, er_begin = b,
          er_end = end_date, er_deleted_at = None\<rparr> db)))))))))"

text \<open>The checks of a release before it writes: the payload and the student it needs.\<close>

definition released_payload :: "quarantine_row \<Rightarrow> db \<Rightarrow> exn + dict" where
  "released_payload r db =
     (case qr_raw_payload r of
        JObj p \<Rightarrow>
          if qr_entity_type r \<noteq> ''enrollment'' then Inl QuarantineRefused
          else (case dict_get p ''student_id'' of
                  JStr s \<Rightarrow> if student_in_lea db (qr_lea_id r) s then Inr p else Inl QuarantineRefused
                | _ \<Rightarrow> Inl QuarantineRefused)
      | _ \<Rightarrow> Inl QuarantineRefused)"

definition release_body ::
  "(rat \<Rightarrow> string) \<Rightarrow> uuid \<Rightarrow> string \<Rightarrow> uuid \<Rightarrow> timestamp \<Rightarrow> db \<Rightarrow> exn + (release_outcome \<times> db)" where
  "release_body ft q operator gen now db =
     res_bind (load_unresolved q db) (\<lambda>r.
     res_bind (released_payload r db) (\<lambda>p.
     res_bind (insert_sync_job (release_job_row gen (qr_lea_id r) now q) db) (\<lambda>db1.
     res_bind (insert_enrollment_snapshot gen (qr_lea_id r) p now db1) (\<lambda>db2.
     res_bind (upsert_enrollment_canonical ft (qr_lea_id r) p db2) (\<lambda>db3.
       Inr (\<lparr>lo_quarantine_id = q, lo_sync_job_id = qr_sync_job_id r,
             lo_release_generation_id = gen, lo_entity_type = qr_entity_type r,
             lo_entity_id = qr_entity_id r\<rparr>,
            mark_resolved q now ''released'' operator None db3))))))"

definition release ::
  "(rat \<Rightarrow> string) \<Rightarrow> uuid \<Rightarrow> string \<Rightarrow> uuid \<Rightarrow> timestamp \<Rightarrow> db \<Rightarrow> db \<times> (exn + release_outcome)" where
  "release ft q operator gen now = transaction (release_body ft q operator gen now)"

definition reject_body ::
  "uuid \<Rightarrow> string \<Rightarrow> string \<Rightarrow> timestamp \<Rightarrow> db \<Rightarrow> exn + (reject_outcome \<times> db)" where
  "reject_body q operator reason now db =
     res_bind (load_unresolved q db) (\<lambda>r.
       Inr (\<lparr>jo_quarantine_id = q, jo_rejected_at = now, jo_reason = reason\<rparr>,
            mark_resolved q now ''rejected'' operator
              (Some (''rejected: '' @ reason @ ''; original: '' @ qr_reason r)) db))"

definition reject :: "uuid \<Rightarrow> string \<Rightarrow> string \<Rightarrow> timestamp \<Rightarrow> db \<Rightarrow> db \<times> (exn + reject_outcome)" where
  "reject q operator reason now = transaction (reject_body q operator reason now)"

section \<open>The listing\<close>

lemma take_short: "length (take n xs) < n \<Longrightarrow> take n xs = xs"
  by (rule take_all) (metis le_cases length_take min.absorb2 order_less_irrefl)

text \<open>
  The listing shows an operator unresolved rows of the LEAs in scope only, oldest first and at
  most \<open>limit\<close> of them; when it is shorter than the limit it shows every such row.
\<close>

theorem list_unresolved_scope:
  "(\<forall>r \<in> set (list_unresolved lea authorized limit db). r \<in> set (db_quarantine db) \<and>
      qr_resolved_at r = None \<and> (lea = None \<or> lea = Some (qr_lea_id r)) \<and>
      (authorized = None \<or> qr_lea_id r \<in> the authorized)) \<and>
   sorted (map qr_created_at (list_unresolved lea authorized limit db)) \<and>
   length (list_unresolved lea authorized limit db) \<le> limit \<and>
   (length (list_unresolved lea authorized limit db) < limit \<longrightarrow>
      set (list_unresolved lea authorized limit db) =
        {r \<in> set (db_quarantine db). q_row_in_scope lea authorized r})"
proof -
  let ?all = "sort_key qr_created_at (filter (q_row_in_scope lea authorized) (db_quarantine db))"
  have mem: "\<And>r. r \<in> set ?all \<longleftrightarrow> r \<in> set (db_quarantine db) \<and> q_row_in_scope lea authorized r"
    by simp
  have scope: "r \<in> set (db_quarantine db) \<and> qr_resolved_at r = None \<and>
      (lea = None \<or> lea = Some (qr_lea_id r)) \<and> (authorized = None \<or> qr_lea_id r \<in> the authorized)"
    if "r \<in> set (take limit ?all)" for r
    using in_set_takeD [OF that] unfolding mem
    by (cases lea; cases authorized) (simp_all add: q_row_in_scope_def)
  have order: "sorted (map qr_created_at (take limit ?all))"
    unfolding take_map [symmetric] by (rule sorted_wrt_take) simp
  have short: "length (take limit ?all) \<le> limit" by (simp only: length_take min.cobounded2)
  have complete: "set (take limit ?all) = {r \<in> set (db_quarantine db). q_row_in_scope lea authorized r}"
    if "length (take limit ?all) < limit"
    unfolding take_short [OF that] by (simp only: set_sort set_filter)
  show ?thesis
    unfolding list_unresolved_def
    by (intro conjI ballI impI scope [THEN conjunct1] scope [THEN conjunct2, THEN conjunct1]
        scope [THEN conjunct2, THEN conjunct2, THEN conjunct1]
        scope [THEN conjunct2, THEN conjunct2, THEN conjunct2] order short complete)
qed

section \<open>Resolution\<close>

lemma mark_resolved_lookup:
  "lookup_by qr_id q (db_quarantine (mark_resolved q now st op ro db)) =
     map_option (\<lambda>r. r\<lparr>qr_resolved_at := Some now, qr_resolution_status := Some st,
       qr_resolution_operator := Some op,
       qr_reason := (case ro of None \<Rightarrow> qr_reason r | Some s \<Rightarrow> s)\<rparr>)
       (lookup_by qr_id q (db_quarantine db))"
  unfolding mark_resolved_def by (simp add: lookup_update_where)

lemma mark_resolved_other:
  "filter (\<lambda>r. qr_id r \<noteq> q) (db_quarantine (mark_resolved q now st op ro db)) =
     filter (\<lambda>r. qr_id r \<noteq> q) (db_quarantine db)"
  unfolding mark_resolved_def by (simp add: filter_update_where)

lemma load_unresolved_Inr:
  "load_unresolved q db = Inr r \<longleftrightarrow> lookup_by qr_id q (db_quarantine db) = Some r \<and> qr_resolved_at r = None"
  by (auto simp: load_unresolved_def split: option.splits)

lemma resolved_guard:
  assumes "lookup_by qr_id q (db_quarantine db) = Some r" and "qr_resolved_at r \<noteq> None"
  shows "release ft q op gen now db = (db, Inl QuarantineAlreadyResolved)"
    and "reject q op' reason now db = (db, Inl QuarantineAlreadyResolved)"
  using assms by (simp_all add: release_def reject_def release_body_def reject_body_def
      transaction_def load_unresolved_def)

lemma quarantine_frame:
  "insert_sync_job j db = Inr db1 \<Longrightarrow> db_quarantine db1 = db_quarantine db"
  "insert_snapshot_row t sn db = Inr db1 \<Longrightarrow> db_quarantine db1 = db_quarantine db"
  "write_enrollment m row db = Inr db1 \<Longrightarrow> db_quarantine db1 = db_quarantine db"
  by (auto simp: insert_sync_job_def insert_snapshot_row_def write_enrollment_def set_snapshots_def
      split: if_splits)

lemma release_cases:
  assumes "release ft q op gen now db = (db', Inr out)"
  obtains r p nk sev db1 db2 db3 where "lookup_by qr_id q (db_quarantine db) = Some r"
    and "qr_resolved_at r = None" and "released_payload r db = Inr p"
    and "insert_sync_job (release_job_row gen (qr_lea_id r) now q) db = Inr db1"
    and "dict_get p ''id'' = JStr nk" and "text_param (dict_get p ''source_event_id'') = Inr sev"
    and "insert_snapshot_row ENROLLMENT
         \<lparr>sn_id = 0, sn_key = nk, sn_lea_id = qr_lea_id r, sn_generation = gen, sn_superseded_by = None,
          sn_superseded_at = None, sn_deleted_upstream = False, sn_source_event_id = sev,
          sn_source_event_at = Some now, sn_created_at = now, sn_payload = p\<rparr> db1 = Inr db2"
    and "upsert_enrollment_canonical ft (qr_lea_id r) p db2 = Inr db3"
    and "db' = mark_resolved q now ''released'' op None db3"
proof -
  from assms have "release_body ft q op gen now db = Inr (out, db')"
    by (simp add: release_def transaction_Inr)
  moreover have "\<exists>nk. dict_get p ''id'' = JStr nk \<and> x = Some nk"
    if "text_param (dict_get p ''id'') = Inr x" "not_null ''enrollment_id'' x = Inr y" for p x y
    using that by (cases "dict_get p ''id''") (auto simp: not_null_def)
  ultimately show thesis
    using that by (fastforce simp: release_body_def insert_enrollment_snapshot_def load_unresolved_Inr
        res_simps not_null_def)
qed

lemma upsert_enrollment_canonical_Inr:
  assumes "upsert_enrollment_canonical ft l p db = Inr db'"
  obtains nk stu cls b f where "dict_get p ''id'' = JStr nk" and "dict_get p ''student_id'' = JStr stu"
    and "write_enrollment (\<lambda>_ new. new)
         \<lparr>er_id = nk, er_lea_id = l, er_student_id = stu, er_class_id = cls, er_begin = b,
          er_end = f, er_deleted_at = None\<rparr> db = Inr db'"
proof -
  have str: "\<exists>s. dict_get p k = JStr s \<and> x = Some s \<and> y = s"
    if "text_param (dict_get p k) = Inr x" "not_null c x = Inr y" for k c x y
    using that by (cases "dict_get p k") (auto simp: not_null_def)
  from assms show thesis
    by (auto simp: upsert_enrollment_canonical_def res_simps dest!: str intro: that)
qed

lemma write_enrollment_mem:
  assumes "write_enrollment (\<lambda>_ new. new) row db = Inr db'"
  shows "row \<in> set (db_enrollments db')" and "student_in_lea db (er_lea_id row) (er_student_id row)"
    and "\<exists>rows. db' = db\<lparr>db_enrollments := rows\<rparr>"
  using assms by (auto simp: write_enrollment_def upsert_replace_mem split: if_splits)

text \<open>
  What a successful release does: the row was unresolved and is now resolved as released; its
  enrollment is in the canonical table, not deleted, under a student of its own LEA; one live
  snapshot with the stored payload and the generation of the release is appended and no other
  snapshot changes; other quarantine rows, students and LEAs stay; and a second release or a
  rejection of the row is refused and changes nothing.
\<close>

theorem release_effect:
  assumes "release ft q op gen now db = (db', Inr out)"
  shows "\<exists>r p row sn. lookup_by qr_id q (db_quarantine db) = Some r \<and> qr_resolved_at r = None \<and>
    qr_raw_payload r = JObj p \<and> dict_get p ''id'' = JStr (er_id row) \<and>
    lookup_by qr_id q (db_quarantine db') = Some (r\<lparr>qr_resolved_at := Some now,
      qr_resolution_status := Some ''released'', qr_resolution_operator := Some op\<rparr>) \<and>
    filter (\<lambda>x. qr_id x \<noteq> q) (db_quarantine db') = filter (\<lambda>x. qr_id x \<noteq> q) (db_quarantine db) \<and>
    row \<in> set (db_enrollments db') \<and> er_deleted_at row = None \<and> er_lea_id row = qr_lea_id r \<and>
    student_in_lea db (qr_lea_id r) (er_student_id row) \<and>
    db_snapshots db' = (db_snapshots db)(ENROLLMENT := db_snapshots db ENROLLMENT @ [sn]) \<and>
    live sn \<and> for_key (qr_lea_id r) (er_id row) sn \<and> sn_payload sn = p \<and> sn_generation sn = gen \<and>
    db_students db' = db_students db \<and> db_leas db' = db_leas db \<and>
    (\<forall>op' gen' now'. release ft q op' gen' now' db' = (db', Inl QuarantineAlreadyResolved)) \<and>
    (\<forall>op' reason now'. reject q op' reason now' db' = (db', Inl QuarantineAlreadyResolved))"
  using assms
proof (rule release_cases)
  fix r :: quarantine_row and p nk sev db1 db2 db3
  let ?sn = "\<lparr>sn_id = 0, sn_key = nk, sn_lea_id = qr_lea_id r, sn_generation = gen, sn_superseded_by = None,
          sn_superseded_at = None, sn_deleted_upstream = False, sn_source_event_id = sev,
          sn_source_event_at = Some now, sn_created_at = now, sn_payload = p\<rparr>"
  assume row: "lookup_by qr_id q (db_quarantine db) = Some r" "qr_resolved_at r = None"
    and p: "released_payload r db = Inr p"
    and job: "insert_sync_job (release_job_row gen (qr_lea_id r) now q) db = Inr db1"
    and nk: "dict_get p ''id'' = JStr nk"
    and sn: "insert_snapshot_row ENROLLMENT ?sn db1 = Inr db2"
    and up: "upsert_enrollment_canonical ft (qr_lea_id r) p db2 = Inr db3"
    and db': "db' = mark_resolved q now ''released'' op None db3"
  have raw: "qr_raw_payload r = JObj p"
    using p by (auto simp: released_payload_def split: json.splits if_splits)
  have db1: "db1 = db\<lparr>db_sync_jobs := db_sync_jobs db @ [release_job_row gen (qr_lea_id r) now q]\<rparr>"
    using job by (simp add: insert_sync_job_def split: if_splits)
  have db2: "db2 = (set_snapshots ENROLLMENT (db_snapshots db1 ENROLLMENT @ [?sn\<lparr>sn_id := db_next_id db1\<rparr>]) db1)
      \<lparr>db_next_id := Suc (db_next_id db1)\<rparr>"
    using sn by (simp add: insert_snapshot_row_def split: if_splits)
  from up obtain stu cls b f where
    w: "write_enrollment (\<lambda>_ new. new)
         \<lparr>er_id = nk, er_lea_id = qr_lea_id r, er_student_id = stu, er_class_id = cls, er_begin = b,
          er_end = f, er_deleted_at = None\<rparr> db2 = Inr db3"
    by (rule upsert_enrollment_canonical_Inr) (use nk in auto)
  note wm = write_enrollment_mem [OF w]
  from wm(3) obtain rows where db3: "db3 = db2\<lparr>db_enrollments := rows\<rparr>" by blast
  have q3: "db_quarantine db3 = db_quarantine db" by (simp add: db3 db2 db1 set_snapshots_def)
  have same: "db_enrollments db' = db_enrollments db3" "db_snapshots db' = db_snapshots db2"
    "db_students db' = db_students db" "db_leas db' = db_leas db"
    by (simp_all add: db' mark_resolved_def db3 db2 db1 set_snapshots_def)
  have stu: "student_in_lea db (qr_lea_id r) stu"
    using wm(2) by (simp add: student_in_lea_def db2 db1 set_snapshots_def)
  have r': "lookup_by qr_id q (db_quarantine db') = Some (r\<lparr>qr_resolved_at := Some now,
      qr_resolution_status := Some ''released'', qr_resolution_operator := Some op\<rparr>)"
    unfolding db' mark_resolved_lookup q3 row(1) by simp
  have others: "filter (\<lambda>x. qr_id x \<noteq> q) (db_quarantine db') = filter (\<lambda>x. qr_id x \<noteq> q) (db_quarantine db)"
    unfolding db' mark_resolved_other q3 ..
  note guard = resolved_guard [OF r']
  let ?row = "\<lparr>er_id = nk, er_lea_id = qr_lea_id r, er_student_id = stu, er_class_id = cls, er_begin = b,
    er_end = f, er_deleted_at = None\<rparr>"
  let ?new = "?sn\<lparr>sn_id := db_next_id db1\<rparr>"
  have "db_snapshots db' = (db_snapshots db)(ENROLLMENT := db_snapshots db ENROLLMENT @ [?new])"
    unfolding same(2) by (simp add: db2 db1 set_snapshots_def)
  then show ?thesis
    by (intro exI [of _ r] exI [of _ p] exI [of _ ?row] exI [of _ ?new])
      (simp add: row raw nk r' others stu wm(1) same guard live_def for_key_def)
qed


text \<open>
  C36. A release does not supersede: when the enrollment already has a live snapshot, a successful
  release leaves two live snapshots for its key, and the invariant of one live row per key is
  lost.
\<close>

theorem release_breaks_one_live:
  assumes "release ft q op gen now db = (db', Inr out)"
    and "lookup_by qr_id q (db_quarantine db) = Some r" and "qr_raw_payload r = JObj p"
    and "dict_get p ''id'' = JStr nk" and "live_row db (qr_lea_id r) ENROLLMENT nk \<noteq> None"
  shows "\<not> one_live (db_snapshots db' ENROLLMENT)"
  using assms(1)
proof (rule release_cases)
  fix r' :: quarantine_row and p' nk' sev db1 db2 db3
  assume row: "lookup_by qr_id q (db_quarantine db) = Some r'"
    and p: "released_payload r' db = Inr p'" and nk: "dict_get p' ''id'' = JStr nk'"
    and job: "insert_sync_job (release_job_row gen (qr_lea_id r') now q) db = Inr db1"
    and sn: "insert_snapshot_row ENROLLMENT
         \<lparr>sn_id = 0, sn_key = nk', sn_lea_id = qr_lea_id r', sn_generation = gen, sn_superseded_by = None,
          sn_superseded_at = None, sn_deleted_upstream = False, sn_source_event_id = sev,
          sn_source_event_at = Some now, sn_created_at = now, sn_payload = p'\<rparr> db1 = Inr db2"
    and up: "upsert_enrollment_canonical ft (qr_lea_id r') p' db2 = Inr db3"
    and db': "db' = mark_resolved q now ''released'' op None db3"
  have r: "r' = r" using row assms(2) by simp
  have "p' = p" using p assms(3) by (auto simp: r released_payload_def split: json.splits if_splits)
  with nk assms(4) have nk': "nk' = nk" by simp
  from up have "db_snapshots db3 = db_snapshots db2"
    by (rule upsert_enrollment_canonical_Inr) (auto dest: write_enrollment_mem(3))
  then have tab: "\<exists>new. db_snapshots db' ENROLLMENT = db_snapshots db ENROLLMENT @ [new] \<and>
      live new \<and> row_key new = (qr_lea_id r, nk)"
    using sn job by (auto simp: db' mark_resolved_def insert_snapshot_row_def insert_sync_job_def
        set_snapshots_def live_def row_key_def r nk' split: if_splits)
  from assms(5) obtain old where "old \<in> set (db_snapshots db ENROLLMENT)" "live old"
    "row_key old = (qr_lea_id r, nk)"
    by (auto simp: live_row_def find_None_iff for_key_iff)
  with tab show ?thesis by (force simp: one_live_def)
qed

section \<open>Witnesses\<close>

text \<open>An enrollment event of the first page, quarantined again after the page.\<close>

definition s_quarantined :: "exn + db" where
  "s_quarantined = write_quarantine_row 1 ''lea-1'' s_ev_enrollment 100 s_db1"

definition s_qdb :: db where "s_qdb = projr s_quarantined"

definition s_released :: "db \<times> (exn + release_outcome)" where
  "s_released = release (\<lambda>_. []) (db_next_id s_db1) ''admin'' 2 200 s_qdb"

text \<open>One evaluation of the page, the quarantine and the release; the facts follow.\<close>

lemma s_release_eval:
  "case s_first of (db, _) \<Rightarrow>
     lookup_by qr_id (db_next_id db) (db_quarantine db) = None \<and>
     (case write_quarantine_row 1 ''lea-1'' s_ev_enrollment 100 db of
        Inl _ \<Rightarrow> False
      | Inr qdb \<Rightarrow> lea_exists qdb ''lea-1'' \<and> student_in_lea qdb ''lea-1'' ''stu-1'' \<and>
          map sj_id (db_sync_jobs qdb) = [1] \<and>
          length (list_unresolved (Some ''lea-1'') None 5 qdb) < 5 \<and>
          (case lookup_by qr_id (db_next_id db) (db_quarantine qdb) of
             None \<Rightarrow> False
           | Some r \<Rightarrow> (case qr_raw_payload r of
                 JObj p \<Rightarrow> dict_get p ''id'' = JStr ''enr-1'' \<and>
                   \<not> Option.is_none (live_row qdb (qr_lea_id r) ENROLLMENT ''enr-1'')
               | _ \<Rightarrow> False)) \<and>
          \<not> isl (snd (release (\<lambda>_. []) (db_next_id db) ''admin'' 2 200 qdb)))"
  by code_simp

lemma s_quarantined_facts:
  "s_quarantined = Inr s_qdb \<and> lookup_by qr_id (db_next_id s_db1) (db_quarantine s_db1) = None \<and>
   lea_exists s_qdb ''lea-1'' \<and> student_in_lea s_qdb ''lea-1'' ''stu-1'' \<and>
   map sj_id (db_sync_jobs s_qdb) = [1] \<and> \<not> isl (snd s_released) \<and>
   length (list_unresolved (Some ''lea-1'') None 5 s_qdb) < 5 \<and>
   (\<exists>r p. lookup_by qr_id (db_next_id s_db1) (db_quarantine s_qdb) = Some r \<and>
      qr_raw_payload r = JObj p \<and> dict_get p ''id'' = JStr ''enr-1'' \<and>
      live_row s_qdb (qr_lea_id r) ENROLLMENT ''enr-1'' \<noteq> None)"
proof (cases "s_quarantined")
  case (Inl e)
  then show ?thesis
    using s_release_eval by (simp add: s_quarantined_def s_db1_def case_prod_beta)
next
  case (Inr qdb)
  have q: "s_qdb = qdb" unfolding s_qdb_def Inr by simp
  note eval = s_release_eval [unfolded case_prod_beta, folded s_db1_def,
      unfolded Inr [unfolded s_quarantined_def], simplified, folded q]
  show ?thesis
    using eval unfolding Inr q [symmetric] s_released_def [folded One_nat_def]
    by (simp split: option.splits json.splits add: Option.is_none_def)
qed

lemmas s_quarantined_eval = s_quarantined_facts [THEN conjunct2, THEN conjunct1]
  s_quarantined_facts [THEN conjunct2, THEN conjunct2, THEN conjunct1]
  s_quarantined_facts [THEN conjunct2, THEN conjunct2, THEN conjunct2, THEN conjunct1]
  s_quarantined_facts [THEN conjunct2, THEN conjunct2, THEN conjunct2, THEN conjunct2, THEN conjunct1]
  s_quarantined_facts [THEN conjunct2, THEN conjunct2, THEN conjunct2, THEN conjunct2, THEN conjunct2, THEN conjunct1]
  s_quarantined_facts [THEN conjunct2, THEN conjunct2, THEN conjunct2, THEN conjunct2, THEN conjunct2,
    THEN conjunct2, THEN conjunct1]

lemma s_quarantine_run: "write_quarantine_row 1 ''lea-1'' s_ev_enrollment 100 s_db1 = Inr s_qdb"
  using s_quarantined_facts by (simp add: s_quarantined_def)

lemma s_release_run:
  "release (\<lambda>_. []) (db_next_id s_db1) ''admin'' 2 200 s_qdb =
     (fst s_released, Inr (projr (snd s_released)))"
  using result_split [of s_released] s_quarantined_eval by (simp add: s_released_def)

theorem list_unresolved_scope_witness:
  "set (list_unresolved (Some ''lea-1'') None 5 s_qdb) =
     {r \<in> set (db_quarantine s_qdb). q_row_in_scope (Some ''lea-1'') None r}"
  using list_unresolved_scope [of "Some ''lea-1''" None 5 s_qdb] s_quarantined_eval(6) by blast

theorem release_effect_witness:
  "reject (db_next_id s_db1) ''admin'' ''late'' 300 (fst s_released) =
     (fst s_released, Inl QuarantineAlreadyResolved)"
  using release_effect [OF s_release_run] by blast


theorem release_breaks_one_live_witness: "\<not> one_live (db_snapshots (fst s_released) ENROLLMENT)"
proof -
  from s_quarantined_facts obtain r p where
    "lookup_by qr_id (db_next_id s_db1) (db_quarantine s_qdb) = Some r" "qr_raw_payload r = JObj p"
    "dict_get p ''id'' = JStr ''enr-1''" "live_row s_qdb (qr_lea_id r) ENROLLMENT ''enr-1'' \<noteq> None"
    by blast
  from release_breaks_one_live [OF s_release_run this] show ?thesis .
qed

end
