(* ===== verification/Queries.thy ===== *)
theory Queries
  imports ConnectorAuthz Quarantine
begin

text \<open>
  The read models behind the admin API (\<open>services/queries/\<close>): cursors, the LEA roll-up,
  reconciliation history, and the list, detail and activity of sync jobs. A query is a function
  of the database and of the reading of the clock. A scope of \<open>None\<close> means no filter. Days are
  exact here, where the code divides floats; rows with equal ORDER BY keys come in insertion
  order, of which Postgres promises nothing.
\<close>

section \<open>Scopes and orders\<close>

definition in_scope :: "lea_id set option \<Rightarrow> lea_id \<Rightarrow> bool" where
  "in_scope leas l = (case leas of None \<Rightarrow> True | Some s \<Rightarrow> l \<in> s)"

lemma in_scope_simps [simp]: "in_scope None l" "in_scope (Some s) l \<longleftrightarrow> l \<in> s"
  by (simp_all add: in_scope_def)

text \<open>\<open>ORDER BY k DESC\<close>.\<close>

definition sort_desc :: "('r \<Rightarrow> 'k::linorder) \<Rightarrow> 'r list \<Rightarrow> 'r list" where
  "sort_desc k rows = rev (sort_key k rows)"

lemma set_sort_desc [simp]: "set (sort_desc k rows) = set rows"
  by (simp add: sort_desc_def)

lemma length_sort_desc [simp]: "length (sort_desc k rows) = length rows"
  by (simp add: sort_desc_def)

section \<open>Cursors\<close>

record cursor_state_row =
  cv_lea_id :: lea_id
  cv_partner :: string
  cv_last_event_id :: "string option"
  cv_last_event_at :: "timestamp option"
  cv_last_poll_at :: "timestamp option"
  cv_cold_start_required :: bool
  cv_days_behind :: "rat option"

definition days_since :: "timestamp \<Rightarrow> timestamp \<Rightarrow> rat" where
  "days_since now t = of_int (now - t) / 86400000000"

definition to_cursor_row :: "timestamp \<Rightarrow> cursor_row \<Rightarrow> cursor_state_row" where
  "to_cursor_row now c =
     \<lparr>cv_lea_id = cs_lea_id c, cv_partner = cs_partner c, cv_last_event_id = cs_last_event_id c,
      cv_last_event_at = cs_last_event_at c, cv_last_poll_at = cs_last_poll_at c,
      cv_cold_start_required = cs_cold_start_required c,
      cv_days_behind = map_option (days_since now) (cs_last_event_at c)\<rparr>"

definition list_cursors ::
  "lea_id option \<Rightarrow> lea_id set option \<Rightarrow> timestamp \<Rightarrow> db \<Rightarrow> cursor_state_row list" where
  "list_cursors only_lea authorized_leas now db =
     map (to_cursor_row now)
       (sort_key (\<lambda>c. (cs_lea_id c, cs_partner c))
         (filter (\<lambda>c. (case only_lea of None \<Rightarrow> True | Some l \<Rightarrow> cs_lea_id c = l) \<and>
              in_scope authorized_leas (cs_lea_id c)) (db_cursors db)))"

section \<open>The roll-up of the LEAs\<close>

record lea_summary_row =
  ls_id :: lea_id
  ls_name :: string
  ls_type :: string
  ls_state :: string
  ls_status :: string
  ls_student_count :: nat
  ls_enrollment_count :: nat
  ls_latest_sync_at :: "timestamp option"
  ls_latest_sync_status :: "string option"
  ls_cursor_lag_days :: "rat option"
  ls_in_flight_count :: nat

text \<open>The last sync job of a LEA by its start, the jobs of reverts apart.\<close>

definition latest_sync :: "db \<Rightarrow> lea_id \<Rightarrow> sync_job option" where
  "latest_sync db l =
     (case sort_desc sj_started_at
         (filter (\<lambda>j. sj_lea_id j = l \<and> sj_status j \<noteq> ''revert'') (db_sync_jobs db)) of
        [] \<Rightarrow> None | j # _ \<Rightarrow> Some j)"

definition to_lea_summary :: "timestamp \<Rightarrow> db \<Rightarrow> lea_row \<Rightarrow> lea_summary_row" where
  "to_lea_summary now db r =
     (let l = lr_id r in
      \<lparr>ls_id = l, ls_name = lr_name r, ls_type = lr_type r, ls_state = lr_state r,
       ls_status = lr_status r,
       ls_student_count = count_where (\<lambda>s. sr_lea_id s = l \<and> sr_deleted_at s = None) (db_students db),
       ls_enrollment_count =
         count_where (\<lambda>e. er_lea_id e = l \<and> er_deleted_at e = None) (db_enrollments db),
       ls_latest_sync_at = map_option sj_started_at (latest_sync db l),
       ls_latest_sync_status = map_option sj_status (latest_sync db l),
       ls_cursor_lag_days =
         (case find (\<lambda>c. cs_lea_id c = l) (db_cursors db) of
            None \<Rightarrow> None | Some c \<Rightarrow> map_option (days_since now) (cs_last_event_at c)),
       ls_in_flight_count =
         count_where (\<lambda>j. sj_lea_id j = l \<and> sj_status j = ''running'') (db_sync_jobs db)\<rparr>)"

definition list_leas :: "lea_id set option \<Rightarrow> timestamp \<Rightarrow> db \<Rightarrow> lea_summary_row list" where
  "list_leas authorized_leas now db =
     map (to_lea_summary now db)
       (sort_key lr_id
         (filter (\<lambda>r. lr_deleted_at r = None \<and> in_scope authorized_leas (lr_id r)) (db_leas db)))"

section \<open>Reconciliation history\<close>

record drift_detail_row =
  dr_entity_type :: string
  dr_canonical_only_ids :: "json list"
  dr_partner_only_ids :: "json list"
  dr_canonical_mid_hash :: string
  dr_partner_mid_hash :: string

record reconciliation_run_row =
  rn_id :: uuid
  rn_lea_id :: lea_id
  rn_partner :: string
  rn_started_at :: timestamp
  rn_completed_at :: "timestamp option"
  rn_status :: string
  rn_canonical_root_hash :: string
  rn_partner_root_hash :: "string option"
  rn_drift :: "drift_detail_row list"
  rn_error_message :: "string option"

text \<open>\<open>list(d.get(k) or [])\<close> for the arrays the runs write; anything else is no list of ids.\<close>

definition json_items :: "json \<Rightarrow> json list" where
  "json_items v = (case v of JArr xs \<Rightarrow> xs | _ \<Rightarrow> [])"

definition to_drift :: "(rat \<Rightarrow> string) \<Rightarrow> dict \<Rightarrow> drift_detail_row" where
  "to_drift ft d =
     \<lparr>dr_entity_type = py_str ft (dict_get_default d ''entity_type'' (JStr [])),
      dr_canonical_only_ids = json_items (dict_get d ''canonical_only_ids''),
      dr_partner_only_ids = json_items (dict_get d ''partner_only_ids''),
      dr_canonical_mid_hash = py_str ft (dict_get_default d ''canonical_mid_hash'' (JStr [])),
      dr_partner_mid_hash = py_str ft (dict_get_default d ''partner_mid_hash'' (JStr []))\<rparr>"

definition to_run_row :: "(rat \<Rightarrow> string) \<Rightarrow> reconciliation_row \<Rightarrow> reconciliation_run_row" where
  "to_run_row ft r =
     \<lparr>rn_id = rr_id r, rn_lea_id = rr_lea_id r, rn_partner = rr_partner r,
      rn_started_at = rr_started_at r, rn_completed_at = rr_completed_at r, rn_status = rr_status r,
      rn_canonical_root_hash = rr_canonical_root_hash r,
      rn_partner_root_hash = rr_partner_root_hash r, rn_drift = map (to_drift ft) (rr_drift_summary r),
      rn_error_message = rr_error_message r\<rparr>"

definition list_reconciliation_runs_for_lea ::
  "(rat \<Rightarrow> string) \<Rightarrow> lea_id \<Rightarrow> string \<Rightarrow> nat \<Rightarrow> db \<Rightarrow> reconciliation_run_row list" where
  "list_reconciliation_runs_for_lea ft l partner limit db =
     map (to_run_row ft) (take limit (sort_desc rr_started_at
       (filter (\<lambda>r. rr_lea_id r = l \<and> rr_partner r = partner) (db_reconciliation_runs db))))"

section \<open>Sync jobs\<close>

definition list_syncs_for_lea :: "lea_id \<Rightarrow> string \<Rightarrow> nat \<Rightarrow> db \<Rightarrow> sync_job list" where
  "list_syncs_for_lea l partner limit db =
     take limit (sort_desc sj_started_at
       (filter (\<lambda>j. sj_lea_id j = l \<and> sj_partner j = partner) (db_sync_jobs db)))"

record sync_detail =
  sy_sync :: sync_job
  sy_validation_issues :: "validation_result list"
  sy_quarantined_entity_ids :: "string list"
  sy_revert_history :: "revert_action list"
  sy_retry_history :: "retry_action list"

definition get_sync_detail :: "uuid \<Rightarrow> db \<Rightarrow> sync_detail option" where
  "get_sync_detail job db =
     map_option (\<lambda>j.
       \<lparr>sy_sync = j,
        sy_validation_issues = sort_key (\<lambda>v. (vr_layer v, vr_created_at v))
          (filter (\<lambda>v. vr_sync_job_id v = job) (db_validation_results db)),
        sy_quarantined_entity_ids =
          map qr_entity_id (filter (\<lambda>q. qr_sync_job_id q = job) (db_quarantine db)),
        sy_revert_history = sort_key ra_reverted_at
          (filter (\<lambda>r. ra_sync_job_id r = job) (db_revert_actions db)),
        sy_retry_history = sort_key ry_retried_at
          (filter (\<lambda>r. ry_sync_job_id r = job) (db_retry_actions db))\<rparr>)
       (lookup_by sj_id job (db_sync_jobs db))"

record sync_activity_bucket =
  sb_hour :: timestamp
  sb_success :: nat
  sb_warning :: nat
  sb_failed :: nat

text \<open>\<open>DATE_TRUNC('hour', t)\<close> of a time in microseconds, in UTC.\<close>

definition hour_of :: "timestamp \<Rightarrow> timestamp" where
  "hour_of t = t div 3600000000 * 3600000000"

definition in_activity :: "timestamp \<Rightarrow> sync_job \<Rightarrow> bool" where
  "in_activity now j \<longleftrightarrow> sj_started_at j \<ge> now - 86400000000 \<and> sj_status j \<noteq> ''running''"

definition activity_bucket :: "sync_job list \<Rightarrow> timestamp \<Rightarrow> sync_activity_bucket" where
  "activity_bucket jobs h =
     (let js = filter (\<lambda>j. hour_of (sj_started_at j) = h) jobs in
      \<lparr>sb_hour = h,
       sb_success = count_where (\<lambda>j. sj_status j = ''success'' \<and> sj_warning_count j = 0) js,
       sb_warning = count_where (\<lambda>j. sj_status j = ''success'' \<and> sj_warning_count j > 0) js,
       sb_failed = count_where (\<lambda>j. sj_status j = ''failed'') js\<rparr>)"

definition get_sync_activity :: "timestamp \<Rightarrow> db \<Rightarrow> sync_activity_bucket list" where
  "get_sync_activity now db =
     (let jobs = filter (in_activity now) (db_sync_jobs db) in
      map (activity_bucket jobs) (sort (remdups (map (\<lambda>j. hour_of (sj_started_at j)) jobs))))"

end
