(* ===== verification/Retry.thy ===== *)
theory Retry
  imports SyncProperties
begin

text \<open>
  The operator's retry of a sync job, \<open>services/retry.py\<close>: the cursor of the job's LEA and
  partner goes back to where the job started, and an audit row is written. The worker's next
  poll replays the events.
\<close>

record retry_outcome =
  to_sync_job_id :: uuid
  to_lea_id :: lea_id
  to_partner :: string
  to_cursor_rewound_to :: "string option"
  to_forced :: bool

definition load_sync_job :: "uuid \<Rightarrow> db \<Rightarrow> exn + sync_job" where
  "load_sync_job job db =
     (case lookup_by sj_id job (db_sync_jobs db) of
        None \<Rightarrow> Inl RetrySyncJobNotFound | Some j \<Rightarrow> Inr j)"

text \<open>The \<open>DO UPDATE SET\<close> names three columns; the others keep their values.\<close>

definition merge_rewind :: "cursor_row \<Rightarrow> cursor_row \<Rightarrow> cursor_row" where
  "merge_rewind old new =
     old\<lparr>cs_last_event_id := cs_last_event_id new, cs_last_event_at := None,
         cs_updated_at := cs_updated_at new\<rparr>"

definition rewind_cursor :: "lea_id \<Rightarrow> string \<Rightarrow> string option \<Rightarrow> timestamp \<Rightarrow> db \<Rightarrow> db" where
  "rewind_cursor l partner v now =
     write_cursor merge_rewind
       \<lparr>cs_lea_id = l, cs_partner = partner, cs_last_event_id = v, cs_last_event_at = None,
        cs_last_poll_at = None, cs_cold_start_required = False, cs_updated_at = now\<rparr>"

definition insert_retry_action ::
  "uuid \<Rightarrow> lea_id \<Rightarrow> string \<Rightarrow> string \<Rightarrow> string \<Rightarrow> timestamp \<Rightarrow> string option \<Rightarrow> bool \<Rightarrow> db \<Rightarrow> exn + db" where
  "insert_retry_action job l partner operator reason now v forced db =
     (if job \<notin> job_ids db then Inl (ForeignKeyViolation ''retry_actions_sync_job_id_fkey'')
      else Inr (db\<lparr>db_retry_actions := db_retry_actions db @
        [\<lparr>ry_id = db_next_id db, ry_sync_job_id = job, ry_lea_id = l, ry_partner = partner, ry_operator = operator,
          ry_reason = reason, ry_retried_at = now, ry_cursor_rewound_to = v,
          ry_forced = forced\<rparr>], db_next_id := Suc (db_next_id db)\<rparr>))"

definition retry_body ::
  "uuid \<Rightarrow> string \<Rightarrow> string \<Rightarrow> bool \<Rightarrow> timestamp \<Rightarrow> db \<Rightarrow> exn + (retry_outcome \<times> db)" where
  "retry_body job operator reason forced now db =
     res_bind (load_sync_job job db) (\<lambda>target.
     res_bind (ensure (sj_status target \<noteq> ''revert'') RetryRefused) (\<lambda>_.
     res_bind (ensure (\<not> (sj_status target = ''success'' \<and> \<not> forced)) RetryRefused) (\<lambda>_.
       let v = sj_cursor_before target;
           db1 = rewind_cursor (sj_lea_id target) (sj_partner target) v now db in
       res_bind (insert_retry_action job (sj_lea_id target) (sj_partner target) operator reason
           now v forced db1) (\<lambda>db2.
         Inr (\<lparr>to_sync_job_id = job, to_lea_id = sj_lea_id target, to_partner = sj_partner target,
               to_cursor_rewound_to = v, to_forced = forced\<rparr>, db2)))))"

definition retry ::
  "uuid \<Rightarrow> string \<Rightarrow> string \<Rightarrow> bool \<Rightarrow> timestamp \<Rightarrow> db \<Rightarrow> db \<times> (exn + retry_outcome)" where
  "retry job operator reason forced now = transaction (retry_body job operator reason forced now)"

interpretation rewind_table: keyed_table cursor_key merge_rewind
  by unfold_locales (simp add: cursor_key_def merge_rewind_def)

lemma read_cursor_rewind:
  "read_cursor (rewind_cursor l p v now db) l p = \<lparr>cur_value = opt_or v [], cur_observed_at = None\<rparr>"
proof -
  define new where "new = \<lparr>cs_lea_id = l, cs_partner = p, cs_last_event_id = v, cs_last_event_at = None,
    cs_last_poll_at = None, cs_cold_start_required = False, cs_updated_at = now\<rparr>"
  have "cursor_key new = (l, p)" by (simp add: new_def cursor_key_def)
  from rewind_table.lookup_upsert_same [of new "db_cursors db", unfolded this] show ?thesis
    by (simp add: read_cursor_def rewind_cursor_def cursor_of_def write_cursor_def new_def [symmetric]
        split: option.splits) (simp_all add: new_def merge_rewind_def)
qed

lemma read_cursor_rewind_other:
  "(l', p') \<noteq> (l, p) \<Longrightarrow> read_cursor (rewind_cursor l p v now db) l' p' = read_cursor db l' p'"
  by (simp add: read_cursor_def rewind_cursor_def cursor_of_def write_cursor_def
      rewind_table.lookup_upsert_other cursor_key_def)

lemma rewind_cursor_frame: "\<exists>rows. rewind_cursor l p v now db = db\<lparr>db_cursors := rows\<rparr>"
  by (auto simp: rewind_cursor_def write_cursor_def)

lemma rewind_cursor_sel [simp]: "db_sync_jobs (rewind_cursor l p v now db) = db_sync_jobs db"
  by (simp_all add: rewind_cursor_def write_cursor_def)

definition retryable :: "sync_job \<Rightarrow> bool \<Rightarrow> bool" where
  "retryable j forced \<longleftrightarrow> sj_status j \<noteq> ''revert'' \<and> (sj_status j = ''success'' \<longrightarrow> forced)"

lemma retry_eq:
  assumes "lookup_by sj_id job (db_sync_jobs db) = Some j" and "retryable j forced"
  shows "retry job op reason forced now db =
    ((rewind_cursor (sj_lea_id j) (sj_partner j) (sj_cursor_before j) now db)
       \<lparr>db_retry_actions := db_retry_actions db @
          [\<lparr>ry_id = db_next_id db, ry_sync_job_id = job, ry_lea_id = sj_lea_id j,
            ry_partner = sj_partner j, ry_operator = op, ry_reason = reason, ry_retried_at = now, ry_cursor_rewound_to = sj_cursor_before j,
            ry_forced = forced\<rparr>], db_next_id := Suc (db_next_id db)\<rparr>,
     Inr \<lparr>to_sync_job_id = job, to_lea_id = sj_lea_id j, to_partner = sj_partner j,
          to_cursor_rewound_to = sj_cursor_before j, to_forced = forced\<rparr>)"
proof -
  have "job \<in> job_ids db" using lookup_by_SomeD [OF assms(1)] by (auto simp: job_ids_def)
  moreover have "db_retry_actions (rewind_cursor l p v now db) = db_retry_actions db"
    "db_next_id (rewind_cursor l p v now db) = db_next_id db" for l p v
    by (simp_all add: rewind_cursor_def write_cursor_def)
  ultimately show ?thesis
    using assms by (auto simp: retry_def transaction_def retry_body_def load_sync_job_def ensure_def
        retryable_def insert_retry_action_def job_ids_def Let_def)
qed

lemma retry_refused:
  "retry job op reason forced now db =
     (case lookup_by sj_id job (db_sync_jobs db) of
        None \<Rightarrow> (db, Inl RetrySyncJobNotFound)
      | Some j \<Rightarrow> if retryable j forced then retry job op reason forced now db else (db, Inl RetryRefused))"
  by (auto simp: retry_def transaction_def retry_body_def load_sync_job_def ensure_def retryable_def
      split: option.splits)

text \<open>
  What a retry does: it is refused, with the database unchanged, when the job does not exist,
  is a revert, or succeeded and the operator did not force it. Otherwise the next poll of the
  job's LEA and partner starts where the job started, the polls of all others start where they
  did, one audit row is added, and nothing but cursors and audit rows changes.
\<close>

theorem retry_rewinds_cursor:
  "case retry job op reason forced now db of
     (db', Inl e) \<Rightarrow> db' = db \<and>
       (case lookup_by sj_id job (db_sync_jobs db) of
          None \<Rightarrow> e = RetrySyncJobNotFound
        | Some j \<Rightarrow> e = RetryRefused \<and>
            (sj_status j = ''revert'' \<or> sj_status j = ''success'' \<and> \<not> forced))
   | (db', Inr out) \<Rightarrow>
       (\<exists>j. lookup_by sj_id job (db_sync_jobs db) = Some j \<and>
          read_cursor db' (sj_lea_id j) (sj_partner j) =
            \<lparr>cur_value = opt_or (sj_cursor_before j) [], cur_observed_at = None\<rparr> \<and>
          (\<forall>l p. (l, p) \<noteq> (sj_lea_id j, sj_partner j) \<longrightarrow> read_cursor db' l p = read_cursor db l p) \<and>
          to_cursor_rewound_to out = sj_cursor_before j) \<and>
       (\<exists>ra. db_retry_actions db' = db_retry_actions db @ [ra] \<and> ry_forced ra = forced) \<and>
       (\<exists>cs ras i. db' = db\<lparr>db_cursors := cs, db_retry_actions := ras, db_next_id := i\<rparr>)"
proof (cases "lookup_by sj_id job (db_sync_jobs db)")
  case None
  then show ?thesis by (subst retry_refused) simp
next
  case (Some j)
  show ?thesis
  proof (cases "retryable j forced")
    case False
    with Some show ?thesis by (subst retry_refused) (auto simp: retryable_def)
  next
    case True
    have cursor: "read_cursor (d\<lparr>db_retry_actions := ras, db_next_id := i\<rparr>) l p = read_cursor d l p" for d ras i l p
      by (simp add: read_cursor_def cursor_of_def)
    have "\<exists>cs ras' i'. (rewind_cursor l p v now db)\<lparr>db_retry_actions := ras, db_next_id := i\<rparr> =
        db\<lparr>db_cursors := cs, db_retry_actions := ras', db_next_id := i'\<rparr>" for l p v ras i
      using rewind_cursor_frame [of l p v now db] by fastforce
    then show ?thesis
      unfolding retry_eq [OF Some True]
      by (simp add: Some cursor read_cursor_rewind read_cursor_rewind_other)
  qed
qed


section \<open>Witness\<close>

definition s_retried :: "db \<times> (exn + retry_outcome)" where
  "s_retried = retry 1 ''admin'' ''replay'' True 150 s_db1"

lemma s_retried_eval:
  "\<not> isl (snd s_retried) \<and> map sj_id (db_sync_jobs (fst s_retried)) = [1]"
  by code_simp

lemma s_retried_job:
  "case lookup_by sj_id 1 (db_sync_jobs s_db1) of
     Some j \<Rightarrow> sj_lea_id j = ''lea-1'' \<and> sj_partner j = ''edlink'' \<and> sj_cursor_before j = Some []
   | None \<Rightarrow> False"
  by code_simp

theorem retry_rewinds_cursor_witness:
  "read_cursor (fst s_retried) ''lea-1'' ''edlink'' = \<lparr>cur_value = [], cur_observed_at = None\<rparr>"
proof -
  have run: "retry 1 ''admin'' ''replay'' True 150 s_db1 = (fst s_retried, Inr (projr (snd s_retried)))"
    using result_split [OF s_retried_eval [THEN conjunct1]] by (simp add: s_retried_def)
  from retry_rewinds_cursor [where job = 1 and op = "''admin''" and reason = "''replay''" and forced = True
    and now = 150 and db = s_db1, unfolded run] s_retried_job
  show ?thesis by (auto simp: opt_or_def split: option.splits)
qed


end
