(* ===== verification/CommandLine.thy ===== *)
theory CommandLine
  imports Onboarding Queries Alerts Retry ReconciliationScheduler
begin

text \<open>
  The other commands of the operator CLI (\<open>cli/commands/\<close>, \<open>cli/_snapshot.py\<close>): the views on syncs,
  cursors and quarantine, the four verbs with their confirmation, and reconciliation. A view is
  the rows it prints; the layout of the columns is left out. \<open>parse\<close> reads a UUID, \<open>answer\<close> is
  what the operator answers to the prompt and \<open>user\<close> the name of the OS user.
\<close>

section \<open>Views\<close>

definition list_syncs_cmd :: "lea_id \<Rightarrow> string \<Rightarrow> nat \<Rightarrow> db \<Rightarrow> sync_job list" where
  "list_syncs_cmd l partner limit db =
     take limit (sort_desc sj_started_at
       (filter (\<lambda>j. sj_lea_id j = l \<and> sj_partner j = partner) (db_sync_jobs db)))"

definition LAG_ALERT_DAYS :: rat where "LAG_ALERT_DAYS = 20"

text \<open>A cursor, the days it is behind, \<open>None\<close> for infinity, and the flag \<open>ALERT\<close>.\<close>

definition lag_flag :: "timestamp \<Rightarrow> cursor_row \<Rightarrow> cursor_row \<times> rat option \<times> bool" where
  "lag_flag now c =
     (let days_behind = map_option (days_since now) (cs_last_event_at c) in
      (c, days_behind, case days_behind of None \<Rightarrow> True | Some d \<Rightarrow> LAG_ALERT_DAYS < d))"

definition cursor_status ::
  "lea_id option \<Rightarrow> timestamp \<Rightarrow> db \<Rightarrow> (cursor_row \<times> rat option \<times> bool) list" where
  "cursor_status lea now db =
     map (lag_flag now)
       (case lea of
          None \<Rightarrow> sort_key (\<lambda>c. (cs_lea_id c, cs_partner c)) (db_cursors db)
        | Some l \<Rightarrow> sort_key cs_partner (filter (\<lambda>c. cs_lea_id c = l) (db_cursors db)))"

record sync_view =
  vw_sync :: sync_job
  vw_validations :: "validation_result list"
  vw_quarantined :: "quarantine_row list"
  vw_reverts :: "revert_action list"

definition show_sync_cmd :: "(string \<Rightarrow> uuid option) \<Rightarrow> string \<Rightarrow> db \<Rightarrow> cli_error + sync_view" where
  "show_sync_cmd parse sync_job_id db =
     (case parse sync_job_id of
        None \<Rightarrow> Inl (BadParameter sync_job_id)
      | Some job \<Rightarrow>
          (case lookup_by sj_id job (db_sync_jobs db) of
             None \<Rightarrow> Inl (SyncNotFound job)
           | Some j \<Rightarrow> Inr
               \<lparr>vw_sync = j,
                vw_validations = sort_key (\<lambda>v. (vr_layer v, vr_created_at v))
                  (filter (\<lambda>v. vr_sync_job_id v = job) (db_validation_results db)),
                vw_quarantined = filter (\<lambda>q. qr_sync_job_id q = job) (db_quarantine db),
                vw_reverts = sort_key ra_reverted_at
                  (filter (\<lambda>r. ra_sync_job_id r = job) (db_revert_actions db))\<rparr>))"

definition list_quarantine_cmd :: "lea_id option \<Rightarrow> nat \<Rightarrow> db \<Rightarrow> quarantine_row list" where
  "list_quarantine_cmd lea limit db =
     list_unresolved (if lea = Some [] then None else lea) None limit db"

section \<open>Verbs\<close>

definition confirmed_id :: "(string \<Rightarrow> uuid option) \<Rightarrow> bool \<Rightarrow> string \<Rightarrow> bool \<Rightarrow> cli_error + uuid" where
  "confirmed_id parse answer raw yes =
     (case parse raw of
        None \<Rightarrow> Inl (BadParameter raw)
      | Some i \<Rightarrow> if \<not> yes \<and> \<not> answer then Inl Aborted else Inr i)"

text \<open>The exceptions a command names become a \<open>ClickException\<close>.\<close>

definition catching :: "exn list \<Rightarrow> db \<times> (exn + 'a) \<Rightarrow> db \<times> (cli_error + 'a)" where
  "catching named r =
     (case r of
        (db, Inl e) \<Rightarrow> (db, Inl (if e \<in> set named then Refused e else Raised e))
      | (db, Inr x) \<Rightarrow> (db, Inr x))"

definition retry_cmd ::
  "(string \<Rightarrow> uuid option) \<Rightarrow> string \<Rightarrow> bool \<Rightarrow> string \<Rightarrow> string \<Rightarrow> string option \<Rightarrow> bool \<Rightarrow> bool \<Rightarrow> timestamp \<Rightarrow>
   db \<Rightarrow> db \<times> (cli_error + retry_outcome)" where
  "retry_cmd parse user answer sync_job_id reason operator yes force now db =
     (case confirmed_id parse answer sync_job_id yes of
        Inl e \<Rightarrow> (db, Inl e)
      | Inr job \<Rightarrow>
          catching [RetrySyncJobNotFound, RetryRefused] (retry job (opt_or operator user) reason force now db))"

definition revert_cmd ::
  "(rat \<Rightarrow> string) \<Rightarrow> (string \<Rightarrow> uuid option) \<Rightarrow> string \<Rightarrow> bool \<Rightarrow> string \<Rightarrow> string \<Rightarrow> string option \<Rightarrow> bool \<Rightarrow>
   uuid \<Rightarrow> timestamp \<Rightarrow> db \<Rightarrow> db \<times> (cli_error + revert_outcome)" where
  "revert_cmd ft parse user answer sync_job_id reason operator yes gen now db =
     (case confirmed_id parse answer sync_job_id yes of
        Inl e \<Rightarrow> (db, Inl e)
      | Inr job \<Rightarrow>
          catching [RevertSyncJobNotFound, RevertRefused] (revert ft job (opt_or operator user) reason gen now db))"

definition release_quarantine_cmd ::
  "(rat \<Rightarrow> string) \<Rightarrow> (string \<Rightarrow> uuid option) \<Rightarrow> string \<Rightarrow> bool \<Rightarrow> string \<Rightarrow> string option \<Rightarrow> bool \<Rightarrow>
   uuid \<Rightarrow> timestamp \<Rightarrow> db \<Rightarrow> db \<times> (cli_error + release_outcome)" where
  "release_quarantine_cmd ft parse user answer quarantine_id operator yes gen now db =
     (case confirmed_id parse answer quarantine_id yes of
        Inl e \<Rightarrow> (db, Inl e)
      | Inr q \<Rightarrow>
          catching [QuarantineNotFound, QuarantineAlreadyResolved, QuarantineRefused]
            (release ft q (opt_or operator user) gen now db))"

definition reject_quarantine_cmd ::
  "(string \<Rightarrow> uuid option) \<Rightarrow> string \<Rightarrow> bool \<Rightarrow> string \<Rightarrow> string \<Rightarrow> string option \<Rightarrow> bool \<Rightarrow>
   timestamp \<Rightarrow> db \<Rightarrow> db \<times> (cli_error + reject_outcome)" where
  "reject_quarantine_cmd parse user answer quarantine_id reason operator yes now db =
     (case confirmed_id parse answer quarantine_id yes of
        Inl e \<Rightarrow> (db, Inl e)
      | Inr q \<Rightarrow>
          catching [QuarantineNotFound, QuarantineAlreadyResolved]
            (reject q (opt_or operator user) reason now db))"

section \<open>Reconciliation\<close>

text \<open>
  The provider of the partner's rows; the walk always ends (\<open>walk_resources_all\<close>). A
  \<open>ClickException\<close> for another partner is kept as an exception of that partner.
\<close>

definition make_snapshot_provider :: "(rat \<Rightarrow> string) \<Rightarrow> file_system \<Rightarrow> snapshot_provider" where
  "make_snapshot_provider ft files partner l =
     (if partner = ''edlink'' then the (walk_resources ft files l) else Inl (PartnerError partner))"

definition reconcile_cmd ::
  "(string \<Rightarrow> string) \<Rightarrow> (rat \<Rightarrow> string) \<Rightarrow> file_system \<Rightarrow> lea_id \<Rightarrow> string \<Rightarrow> bool \<Rightarrow> uuid \<Rightarrow>
   (nat \<Rightarrow> timestamp) \<Rightarrow> db \<Rightarrow> db \<times> (exn + reconciliation_report)" where
  "reconcile_cmd sha ft files l partner force =
     reconcile_one sha ft (make_snapshot_provider ft files) 60 l partner force"

definition reconcile_sweep_cmd ::
  "(string \<Rightarrow> string) \<Rightarrow> (rat \<Rightarrow> string) \<Rightarrow> file_system \<Rightarrow> (exn \<Rightarrow> string) \<Rightarrow> (nat \<Rightarrow> uuid) \<Rightarrow>
   (nat \<Rightarrow> nat \<Rightarrow> timestamp) \<Rightarrow> (db \<Rightarrow> db \<times> (exn + nat)) \<Rightarrow> db \<Rightarrow> db \<times> sweep_report" where
  "reconcile_sweep_cmd sha ft files = run_daily_sweep sha ft (make_snapshot_provider ft files) 60"

section \<open>The verbs act once or not at all\<close>

lemma services_Inl:
  "retry job who reason force now db = (db', Inl e) \<Longrightarrow> db' = db"
  "revert ft job who reason gen now db = (db', Inl e) \<Longrightarrow> db' = db"
  "release ft q who gen now db = (db', Inl e) \<Longrightarrow> db' = db"
  "reject q who reason now db = (db', Inl e) \<Longrightarrow> db' = db"
  by (simp_all add: retry_def revert_def release_def reject_def transaction_Inl)

text \<open>What a verb of the command line does, given the service behind it.\<close>

definition acts_once ::
  "(string \<Rightarrow> uuid option) \<Rightarrow> bool \<Rightarrow> string \<Rightarrow> bool \<Rightarrow> (uuid \<Rightarrow> db \<Rightarrow> db \<times> (exn + 'a)) \<Rightarrow> db \<Rightarrow>
   db \<times> (cli_error + 'a) \<Rightarrow> bool" where
  "acts_once parse answer raw yes service db r =
     (case r of
        (db', Inr x) \<Rightarrow> (yes \<or> answer) \<and> (\<exists>i. parse raw = Some i \<and> service i db = (db', Inr x))
      | (db', Inl e) \<Rightarrow> db' = db \<and>
          (e = BadParameter raw \<and> parse raw = None \<or> e = Aborted \<and> \<not> yes \<and> \<not> answer \<or>
           (\<exists>i x. parse raw = Some i \<and> service i db = (db, Inl x) \<and> e \<in> {Refused x, Raised x})))"

lemma acts_once_catching:
  assumes "\<And>i db' e. service i db = (db', Inl e) \<Longrightarrow> db' = db"
  shows "acts_once parse answer raw yes service db
    (case confirmed_id parse answer raw yes of Inl e \<Rightarrow> (db, Inl e) | Inr i \<Rightarrow> catching named (service i db))"
proof (cases "confirmed_id parse answer raw yes")
  case (Inl e)
  then show ?thesis by (auto simp: acts_once_def confirmed_id_def split: option.splits if_splits)
next
  case (Inr i)
  then have i: "parse raw = Some i" "yes \<or> answer" by (auto simp: confirmed_id_def split: option.splits if_splits)
  obtain db' r where s: "service i db = (db', r)" by fastforce
  with assms [of i db'] i Inr show ?thesis by (cases r) (auto simp: acts_once_def catching_def)
qed

text \<open>
  Each of the four verbs either reports an error and leaves the database as it was, or has run
  its service once, on the parsed id and in the name of the operator given or else of the OS
  user, after a confirmation or with \<open>--yes\<close>; the errors are a bad id, a refused prompt, and
  what the service raised.
\<close>
theorem cli_verbs_act_once:
  "acts_once parse answer raw yes (\<lambda>j. retry j (opt_or operator user) reason force now) db
     (retry_cmd parse user answer raw reason operator yes force now db)"
  "acts_once parse answer raw yes (\<lambda>j. revert ft j (opt_or operator user) reason gen now) db
     (revert_cmd ft parse user answer raw reason operator yes gen now db)"
  "acts_once parse answer raw yes (\<lambda>q. release ft q (opt_or operator user) gen now) db
     (release_quarantine_cmd ft parse user answer raw operator yes gen now db)"
  "acts_once parse answer raw yes (\<lambda>q. reject q (opt_or operator user) reason now) db
     (reject_quarantine_cmd parse user answer raw reason operator yes now db)"
  unfolding retry_cmd_def revert_cmd_def release_quarantine_cmd_def reject_quarantine_cmd_def
  by (rule acts_once_catching, erule services_Inl)+

section \<open>The two readings of the cursor lag\<close>

text \<open>The pair has a lag alert; the pair is flagged by \<open>cursor-status\<close>.\<close>

definition lag_alerted :: "(timestamp \<Rightarrow> string) \<Rightarrow> timestamp \<Rightarrow> db \<Rightarrow> lea_id \<Rightarrow> string \<Rightarrow> bool" where
  "lag_alerted fmt now db l p \<longleftrightarrow>
     (\<exists>r \<in> set (evaluate_cursor_lag fmt CURSOR_LAG_THRESHOLD_DAYS now db).
        take 2 (ar_properties r) = [(''lea_id'', l), (''partner'', p)])"

definition lag_flagged :: "timestamp \<Rightarrow> db \<Rightarrow> lea_id \<Rightarrow> string \<Rightarrow> bool" where
  "lag_flagged now db l p \<longleftrightarrow> (\<exists>(c, d, flag) \<in> set (cursor_status None now db). cursor_key c = (l, p) \<and> flag)"

lemma lag_alerted_iff:
  "lag_alerted fmt now db l p \<longleftrightarrow>
     (\<exists>c \<in> set (db_cursors db). cursor_key c = (l, p) \<and>
        (\<exists>t. cs_last_event_at c = Some t \<and> t < now - days_us 20))"
  by (force simp: lag_alerted_def evaluate_cursor_lag_def CURSOR_LAG_THRESHOLD_DAYS_def emit_def cursor_key_def
      Let_def split: option.splits)

lemma days_since_above: "20 < days_since now t \<longleftrightarrow> t < now - days_us 20"
proof -
  have "20 < days_since now t \<longleftrightarrow> (of_int 1728000000000 :: rat) < of_int (now - t)"
    by (simp add: days_since_def less_divide_eq)
  then show ?thesis by (simp only: of_int_less_iff) (auto simp: days_us_def)
qed

lemma lag_flagged_iff:
  "lag_flagged now db l p \<longleftrightarrow>
     (\<exists>c \<in> set (db_cursors db). cursor_key c = (l, p) \<and>
        (case cs_last_event_at c of None \<Rightarrow> True | Some t \<Rightarrow> t < now - days_us 20))"
  by (force simp: lag_flagged_def cursor_status_def lag_flag_def Let_def LAG_ALERT_DAYS_def days_since_above
      split: option.splits)

text \<open>
  The flag of \<open>cursor-status\<close> and the 20-day alert agree on every cursor with an event time, to
  the microsecond; a cursor without one is flagged and raises no alert.
\<close>
theorem lag_flag_vs_alert:
  "lag_flagged now db l p \<longleftrightarrow> lag_alerted fmt now db l p \<or>
     (\<exists>c \<in> set (db_cursors db). cursor_key c = (l, p) \<and> cs_last_event_at c = None)"
proof -
  have "(case e of None \<Rightarrow> True | Some t \<Rightarrow> P t) \<longleftrightarrow> (\<exists>t. e = Some t \<and> P t) \<or> e = None" for e :: "int option" and P
    by (cases e) simp_all
  then show ?thesis unfolding lag_flagged_iff lag_alerted_iff by (simp only: conj_disj_distribL bex_disj_distrib)
qed

lemma upserted_rows:
  assumes "c \<in> set (upsert key merge new tbl)" and "key c = key new" and "\<And>old. P (merge old new)" and "P new"
  shows "P c"
proof (cases "key new \<in> key ` set tbl")
  case True
  with assms(1) obtain r where "r \<in> set tbl" "c = (if key r = key new then merge r new else r)"
    by (auto simp: upsert_def set_update_where)
  with assms(2,3) show ?thesis by (auto split: if_splits)
next
  case False
  then have "c = new \<or> c \<in> set tbl" using assms(1) by (auto simp: upsert_def)
  with False assms(2,4) show ?thesis by (metis image_eqI)
qed

lemma rewound_rows:
  assumes "c \<in> set (db_cursors (rewind_cursor l p v now db))" and "cursor_key c = (l, p)"
  shows "cs_last_event_at c = None"
proof -
  define new where "new = \<lparr>cs_lea_id = l, cs_partner = p, cs_last_event_id = v, cs_last_event_at = None,
    cs_last_poll_at = None, cs_cold_start_required = False, cs_updated_at = now\<rparr>"
  have "c \<in> set (upsert cursor_key merge_rewind new (db_cursors db))"
    using assms(1) by (simp add: rewind_cursor_def write_cursor_def new_def)
  then show ?thesis
    by (rule upserted_rows) (use assms(2) in \<open>simp_all add: new_def cursor_key_def merge_rewind_def\<close>)
qed

lemma rewound_row: "\<exists>c \<in> set (db_cursors (rewind_cursor l p v now db)). cursor_key c = (l, p)"
proof -
  have "(l, p) \<in> set (map cursor_key (db_cursors (rewind_cursor l p v now db)))"
    by (simp add: rewind_cursor_def write_cursor_def rewind_table.map_key_upsert del: set_map list.set_map)
      (auto simp: cursor_key_def image_iff)
  then show ?thesis by (simp add: image_iff eq_commute)
qed

text \<open>
  A retry turns the lag alert of its LEA off: after a successful retry no reading of the clock
  gives a lag alert for the pair, however old its events, until a poll writes its cursor; the
  command line flags the pair.
\<close>
theorem retry_mutes_lag_alert:
  assumes "retry job operator reason forced now db = (db', Inr out)"
  shows "\<not> lag_alerted fmt later db' (to_lea_id out) (to_partner out)"
    and "lag_flagged later db' (to_lea_id out) (to_partner out)"
proof -
  from assms obtain v where v: "db_cursors db' =
      db_cursors (rewind_cursor (to_lea_id out) (to_partner out) v now db)"
    by (auto simp: retry_def transaction_Inr retry_body_def insert_retry_action_def Let_def res_simps
        split: if_splits)
  show "\<not> lag_alerted fmt later db' (to_lea_id out) (to_partner out)"
    unfolding lag_alerted_iff v by (metis rewound_rows option.distinct(1))
  show "lag_flagged later db' (to_lea_id out) (to_partner out)"
    unfolding lag_flagged_iff v by (metis rewound_row rewound_rows option.case(1))
qed

theorem retry_mutes_lag_alert_witness:
  "\<exists>out :: retry_outcome. to_lea_id out = ''lea-1'' \<and> \<not> lag_alerted (\<lambda>_. []) 1000000000000000 (fst s_retried) (to_lea_id out) (to_partner out)"
proof -
  have "\<not> isl (snd s_retried)" "to_lea_id (projr (snd s_retried)) = ''lea-1''" by code_simp+
  then have "retry 1 ''admin'' ''replay'' True 150 s_db1 = (fst s_retried, Inr (projr (snd s_retried)))"
    unfolding s_retried_def by (intro result_split)
  from retry_mutes_lag_alert(1) [OF this, where fmt = "\<lambda>_. []" and later = 1000000000000000] \<open>to_lea_id _ = _\<close>
  show ?thesis by (intro exI [of _ "projr (snd s_retried)"]) simp
qed

end
