(* ===== verification/Timeline.thy ===== *)
theory Timeline
  imports Queries
begin

text \<open>
  The activity timeline (\<open>services/admin_timeline.py\<close>) and the page of the audit explorer
  built on it (\<open>api/routers/audit.py\<close>): seven sources are brought to one shape, filtered,
  ordered with the newest first and cut by a limit; the (time, id) of the last entry of a full
  page is the cursor of the next. \<open>ts\<close> is the text Postgres gives a timestamp in JSON.
\<close>

section \<open>Rows of the union\<close>

record timeline_entry =
  te_id :: string
  te_source :: string
  te_occurred_at :: timestamp
  te_actor_kind :: string
  te_actor_email :: "string option"
  te_action :: string
  te_reason :: "string option"
  te_target_kind :: string
  te_target_id :: string
  te_detail :: dict

text \<open>A row of the union also has the operator id that the filter reads and no entry shows.\<close>

record timeline_row = timeline_entry +
  tr_operator_id :: "string option"

record timeline_filter =
  tf_lea_ids :: "lea_id set option"
  tf_operator_id :: "string option"
  tf_action_prefix :: "string option"
  tf_since :: "timestamp option"
  tf_until :: "timestamp option"
  tf_cursor_occurred_at :: "timestamp option"
  tf_cursor_id :: "string option"
  tf_limit :: nat

definition json_time :: "(timestamp \<Rightarrow> string) \<Rightarrow> timestamp option \<Rightarrow> json" where
  "json_time ts t = json_of_opt (map_option ts t)"

section \<open>The branches\<close>

definition audit_branch :: "lea_id set option \<Rightarrow> db \<Rightarrow> timeline_row list" where
  "audit_branch leas db =
     map (\<lambda>al. \<lparr>te_id = uuid_str (al_id al), te_source = ''audit_log'',
         te_occurred_at = al_created_at al, te_actor_kind = ''operator'',
         te_actor_email = operator_email db (Some (al_operator_id al)), te_action = al_action al,
         te_reason = Some (al_reason al), te_target_kind = al_target_kind al,
         te_target_id = al_target_id al, te_detail = al_detail al,
         tr_operator_id = Some (uuid_str (al_operator_id al))\<rparr>)
       (filter (\<lambda>al. case al_lea_id al of None \<Rightarrow> False | Some l \<Rightarrow> in_scope leas l) (db_audit_log db))"

definition syncs_branch :: "(timestamp \<Rightarrow> string) \<Rightarrow> lea_id set option \<Rightarrow> db \<Rightarrow> timeline_row list" where
  "syncs_branch ts leas db =
     map (\<lambda>sj. \<lparr>te_id = uuid_str (sj_id sj), te_source = ''sync_jobs'',
         te_occurred_at = sj_started_at sj, te_actor_kind = ''system'', te_actor_email = None,
         te_action = ''sync.'' @ sj_status sj, te_reason = sj_error_summary sj,
         te_target_kind = ''sync_job'', te_target_id = uuid_str (sj_id sj),
         te_detail = [(''partner'', JStr (sj_partner sj)), (''lea_id'', JStr (sj_lea_id sj)),
           (''event_count'', JInt (sj_event_count sj)), (''error_count'', JInt (sj_error_count sj)),
           (''warning_count'', JInt (sj_warning_count sj)),
           (''completed_at'', json_time ts (sj_completed_at sj)),
           (''cursor_before'', json_of_opt (sj_cursor_before sj)),
           (''cursor_after'', json_of_opt (sj_cursor_after sj))],
         tr_operator_id = None\<rparr>)
       (filter (\<lambda>sj. in_scope leas (sj_lea_id sj)) (db_sync_jobs db))"

text \<open>The JOIN gives a revert the LEA of its sync job; the scope is the one of the job.\<close>

definition revert_row_of :: "lea_id set option \<Rightarrow> db \<Rightarrow> revert_action \<Rightarrow> timeline_row option" where
  "revert_row_of leas db ra =
     (case lookup_by sj_id (ra_sync_job_id ra) (db_sync_jobs db) of
        None \<Rightarrow> None
      | Some sj \<Rightarrow>
          if in_scope leas (sj_lea_id sj) then
            Some \<lparr>te_id = uuid_str (ra_id ra), te_source = ''revert_actions'',
              te_occurred_at = ra_reverted_at ra, te_actor_kind = ''operator'',
              te_actor_email = Some (ra_operator ra), te_action = ''sync.revert'',
              te_reason = Some (ra_reason ra), te_target_kind = ''sync_job'',
              te_target_id = uuid_str (ra_sync_job_id ra),
              te_detail = [(''lea_id'', JStr (sj_lea_id sj)),
                (''snapshots_restored'', JInt (ra_snapshots_restored ra)),
                (''revert_generation_id'', JStr (uuid_str (ra_generation_id ra)))],
              tr_operator_id = None\<rparr>
          else None)"

definition reverts_branch :: "lea_id set option \<Rightarrow> db \<Rightarrow> timeline_row list" where
  "reverts_branch leas db = List.map_filter (revert_row_of leas db) (db_revert_actions db)"

definition retries_branch :: "lea_id set option \<Rightarrow> db \<Rightarrow> timeline_row list" where
  "retries_branch leas db =
     map (\<lambda>rt. \<lparr>te_id = uuid_str (ry_id rt), te_source = ''retry_actions'',
         te_occurred_at = ry_retried_at rt, te_actor_kind = ''operator'',
         te_actor_email = Some (ry_operator rt), te_action = ''sync.retry_requested'',
         te_reason = Some (ry_reason rt), te_target_kind = ''sync_job'',
         te_target_id = uuid_str (ry_sync_job_id rt),
         te_detail = [(''partner'', JStr (ry_partner rt)), (''lea_id'', JStr (ry_lea_id rt)),
           (''forced'', JBool (ry_forced rt)),
           (''cursor_rewound_to'', json_of_opt (ry_cursor_rewound_to rt))],
         tr_operator_id = None\<rparr>)
       (filter (\<lambda>rt. in_scope leas (ry_lea_id rt)) (db_retry_actions db))"

definition quarantine_created_branch :: "lea_id set option \<Rightarrow> db \<Rightarrow> timeline_row list" where
  "quarantine_created_branch leas db =
     map (\<lambda>q. \<lparr>te_id = uuid_str (qr_id q) @ ''#created'', te_source = ''quarantine_created'',
         te_occurred_at = qr_created_at q, te_actor_kind = ''system'', te_actor_email = None,
         te_action = ''quarantine.created'', te_reason = Some (qr_reason q),
         te_target_kind = ''quarantine_row'', te_target_id = uuid_str (qr_id q),
         te_detail = [(''lea_id'', JStr (qr_lea_id q)), (''entity_type'', JStr (qr_entity_type q)),
           (''entity_id'', JStr (qr_entity_id q)),
           (''sync_job_id'', JStr (uuid_str (qr_sync_job_id q)))],
         tr_operator_id = None\<rparr>)
       (filter (\<lambda>q. in_scope leas (qr_lea_id q)) (db_quarantine db))"

definition quarantine_resolved_branch :: "lea_id set option \<Rightarrow> db \<Rightarrow> timeline_row list" where
  "quarantine_resolved_branch leas db =
     map (\<lambda>q. \<lparr>te_id = uuid_str (qr_id q) @ ''#resolved'', te_source = ''quarantine_resolved'',
         te_occurred_at = the (qr_resolved_at q), te_actor_kind = ''operator'',
         te_actor_email = qr_resolution_operator q,
         te_action = ''quarantine.'' @ (case qr_resolution_status q of None \<Rightarrow> ''resolved'' | Some s \<Rightarrow> s),
         te_reason = None, te_target_kind = ''quarantine_row'', te_target_id = uuid_str (qr_id q),
         te_detail = [(''lea_id'', JStr (qr_lea_id q)), (''entity_type'', JStr (qr_entity_type q)),
           (''entity_id'', JStr (qr_entity_id q)),
           (''resolution_status'', json_of_opt (qr_resolution_status q))],
         tr_operator_id = None\<rparr>)
       (filter (\<lambda>q. qr_resolved_at q \<noteq> None \<and> in_scope leas (qr_lea_id q)) (db_quarantine db))"

definition reconciliations_branch ::
  "(timestamp \<Rightarrow> string) \<Rightarrow> lea_id set option \<Rightarrow> db \<Rightarrow> timeline_row list" where
  "reconciliations_branch ts leas db =
     map (\<lambda>rr. \<lparr>te_id = uuid_str (rr_id rr), te_source = ''reconciliation_runs'',
         te_occurred_at = rr_started_at rr, te_actor_kind = ''system'', te_actor_email = None,
         te_action = ''reconciliation.'' @ rr_status rr, te_reason = rr_error_message rr,
         te_target_kind = ''reconciliation_run'', te_target_id = uuid_str (rr_id rr),
         te_detail = [(''partner'', JStr (rr_partner rr)), (''lea_id'', JStr (rr_lea_id rr)),
           (''canonical_root_hash'', JStr (rr_canonical_root_hash rr)),
           (''partner_root_hash'', json_of_opt (rr_partner_root_hash rr)),
           (''completed_at'', json_time ts (rr_completed_at rr)),
           (''drift_count'', JInt (int (length (rr_drift_summary rr))))],
         tr_operator_id = None\<rparr>)
       (filter (\<lambda>rr. in_scope leas (rr_lea_id rr)) (db_reconciliation_runs db))"

definition combined :: "(timestamp \<Rightarrow> string) \<Rightarrow> lea_id set option \<Rightarrow> db \<Rightarrow> timeline_row list" where
  "combined ts leas db =
     audit_branch leas db @ syncs_branch ts leas db @ reverts_branch leas db @
     retries_branch leas db @ quarantine_created_branch leas db @
     quarantine_resolved_branch leas db @ reconciliations_branch ts leas db"

section \<open>The outer query\<close>

text \<open>
  SQL's LIKE with its default escape. The pattern of the code ends in \<open>%\<close>, so no pattern ends in
  a lone escape, which Postgres refuses.
\<close>

fun sql_like :: "string \<Rightarrow> string \<Rightarrow> bool" where
  "sql_like [] s = (s = [])"
| "sql_like (c # p) s =
     (if c = CHR ''%'' then
        sql_like p s \<or> (case s of [] \<Rightarrow> False | d # s' \<Rightarrow> sql_like (c # p) s')
      else if c = CHR ''_'' then (case s of [] \<Rightarrow> False | d # s' \<Rightarrow> sql_like p s')
      else if c = CHR 0x5C then
        (case p of [] \<Rightarrow> False
         | e # p' \<Rightarrow> (case s of [] \<Rightarrow> False | d # s' \<Rightarrow> d = e \<and> sql_like p' s'))
      else (case s of [] \<Rightarrow> False | d # s' \<Rightarrow> d = c \<and> sql_like p s'))"

declare sql_like.simps [simp del]

definition entry_key :: "'a timeline_entry_scheme \<Rightarrow> timestamp \<times> string" where
  "entry_key r = (te_occurred_at r, te_id r)"

definition before_cursor :: "timeline_filter \<Rightarrow> timeline_row \<Rightarrow> bool" where
  "before_cursor f r =
     (case (tf_cursor_occurred_at f, tf_cursor_id f) of
        (Some t, Some i) \<Rightarrow> te_occurred_at r < t \<or> (te_occurred_at r = t \<and> te_id r < i)
      | _ \<Rightarrow> True)"

definition outer_where :: "timeline_filter \<Rightarrow> timeline_row \<Rightarrow> bool" where
  "outer_where f r \<longleftrightarrow>
     (case tf_operator_id f of None \<Rightarrow> True | Some i \<Rightarrow> tr_operator_id r = Some i) \<and>
     (case tf_action_prefix f of None \<Rightarrow> True | Some p \<Rightarrow> sql_like (p @ ''%'') (te_action r)) \<and>
     (case tf_since f of None \<Rightarrow> True | Some t \<Rightarrow> t \<le> te_occurred_at r) \<and>
     (case tf_until f of None \<Rightarrow> True | Some t \<Rightarrow> te_occurred_at r \<le> t) \<and>
     before_cursor f r"

definition list_timeline ::
  "(timestamp \<Rightarrow> string) \<Rightarrow> timeline_filter \<Rightarrow> db \<Rightarrow> timeline_entry list" where
  "list_timeline ts f db =
     map timeline_entry.truncate (take (tf_limit f) (sort_desc entry_key
       (filter (outer_where f) (combined ts (tf_lea_ids f) db))))"

definition list_timeline_for_lea ::
  "(timestamp \<Rightarrow> string) \<Rightarrow> lea_id \<Rightarrow> nat \<Rightarrow> db \<Rightarrow> timeline_entry list" where
  "list_timeline_for_lea ts l limit =
     list_timeline ts
       \<lparr>tf_lea_ids = Some {l}, tf_operator_id = None, tf_action_prefix = None, tf_since = None,
        tf_until = None, tf_cursor_occurred_at = None, tf_cursor_id = None, tf_limit = limit\<rparr>"

text \<open>The cursor of the page, from its last entry when the page is full.\<close>

definition next_cursor :: "timeline_entry list \<Rightarrow> nat \<Rightarrow> (timestamp \<times> string) option" where
  "next_cursor entries limit =
     (if length entries < limit then None else Some (entry_key (last entries)))"

end
