(* ===== verification/ApiAuth.thy ===== *)
theory ApiAuth
  imports Timeline
begin

text \<open>
  Who may call the admin API (\<open>api/auth.py\<close>, \<open>api/_lookups.py\<close>) and what a client sees of
  an error (\<open>api/errors.py\<close> and the registrations of \<open>api/app.py\<close>). The validator of tokens
  is an argument: from a token it gives the claims, or the detail of the refusal; \<open>dev_decode\<close> is
  the one of the dev profile on top of the \<open>jwt\<close> package. An answer other than success is the
  exception that FastAPI or the error handlers turn into a response.
\<close>

section \<open>Tokens\<close>

datatype jwt_error = ExpiredSignature | InvalidToken string

definition dev_decode ::
  "(string \<Rightarrow> string \<Rightarrow> jwt_error + dict) \<Rightarrow> string \<Rightarrow> string \<Rightarrow> string + dict" where
  "dev_decode jwt secret token =
     (if secret = [] then
        Inl ''DEV_JWT_SECRET is not set. Set it in .env or use the production JWKS path.''
      else case jwt token secret of
        Inl ExpiredSignature \<Rightarrow> Inl ''Token expired.''
      | Inl (InvalidToken detail) \<Rightarrow> Inl (''Invalid token: '' @ detail)
      | Inr claims \<Rightarrow> Inr claims)"

section \<open>The operator behind a request\<close>

record operator =
  oper_id :: uuid
  oper_subject :: string
  oper_email :: string
  oper_display_name :: string
  oper_role :: string
  oper_status :: string
  oper_authorized_leas :: "lea_id set"

text \<open>
  The unique index on \<open>lower(email)\<close>; the text is lower-cased in ASCII. A known subject keeps its
  row, whatever e-mail the token names.
\<close>

definition lower_char :: "char \<Rightarrow> char" where
  "lower_char c =
     (let n = of_char c :: nat in if 65 \<le> n \<and> n \<le> 90 then char_of (n + 32) else c)"

definition sql_lower :: "string \<Rightarrow> string" where
  "sql_lower s = map lower_char s"

definition load_or_create_operator ::
  "string \<Rightarrow> string \<Rightarrow> string \<Rightarrow> uuid \<Rightarrow> timestamp \<Rightarrow> db \<Rightarrow> exn + ((uuid \<times> string) \<times> db)" where
  "load_or_create_operator subject email display_name new_id now db =
     (case lookup_by op_subject subject (db_operators db) of
        Some r \<Rightarrow> Inr ((op_id r, op_status r), db)
      | None \<Rightarrow>
          if new_id \<in> op_id ` set (db_operators db) then Inl (UniqueViolation ''operator_pkey'')
          else if sql_lower email \<in> (\<lambda>r. sql_lower (op_email r)) ` set (db_operators db) then
            Inl (UniqueViolation ''uq_operator_email_ci'')
          else Inr ((new_id, ''active''),
            db\<lparr>db_operators := db_operators db @
              [\<lparr>op_id = new_id, op_subject = subject, op_display_name = display_name, op_email = email,
                op_status = ''active'', op_created_at = now, op_last_seen_at = None\<rparr>]\<rparr>))"

definition load_active_role :: "uuid \<Rightarrow> db \<Rightarrow> string option" where
  "load_active_role i db =
     map_option ol_role (find (\<lambda>r. ol_operator_id r = i \<and> ol_revoked_at r = None) (db_roles db))"

definition lea_undeleted :: "db \<Rightarrow> lea_id \<Rightarrow> bool" where
  "lea_undeleted db l \<longleftrightarrow> (\<exists>r \<in> set (db_leas db). lr_id r = l \<and> lr_deleted_at r = None)"

definition load_authorized_leas :: "string \<Rightarrow> uuid \<Rightarrow> db \<Rightarrow> lea_id set" where
  "load_authorized_leas role i db =
     (if role \<in> {''owner'', ''admin'', ''auditor''} then
        set (map lr_id (filter (\<lambda>r. lr_deleted_at r = None) (db_leas db)))
      else
        set (map og_lea_id (filter (\<lambda>g. og_operator_id g = i \<and> og_revoked_at g = None \<and>
          lea_undeleted db (og_lea_id g)) (db_grants db))))"

definition touch_operator :: "uuid \<Rightarrow> timestamp \<Rightarrow> db \<Rightarrow> db" where
  "touch_operator i now db =
     db\<lparr>db_operators := update_where (\<lambda>r. op_id r = i) (\<lambda>r. r\<lparr>op_last_seen_at := Some now\<rparr>)
       (db_operators db)\<rparr>"

text \<open>\<open>str(claims.get(k) or d)\<close>.\<close>

definition claim_text :: "(rat \<Rightarrow> string) \<Rightarrow> dict \<Rightarrow> string \<Rightarrow> string \<Rightarrow> string" where
  "claim_text ft claims k d = py_str ft (json_or (dict_get claims k) (JStr d))"

definition token_identity :: "(rat \<Rightarrow> string) \<Rightarrow> dict \<Rightarrow> string \<times> string \<times> string" where
  "token_identity ft claims =
     (let subject = claim_text ft claims ''sub'' [];
          email = claim_text ft claims ''email'' [];
          mailbox = fst (str_partition CHR ''@'' email)
      in (subject, email, claim_text ft claims ''name'' (if mailbox = [] then subject else mailbox)))"

text \<open>
  The session of \<open>current_operator\<close> commits on every path but the one where the insert raises: a
  first-time subject keeps its row although the request is refused for want of a role.
\<close>

definition load_operator ::
  "string \<Rightarrow> string \<Rightarrow> string \<Rightarrow> uuid \<Rightarrow> timestamp \<Rightarrow> db \<Rightarrow> db \<times> (exn + operator)" where
  "load_operator subject email name new_id now db =
     (case load_or_create_operator subject email name new_id now db of
        Inl e \<Rightarrow> (db, Inl e)
      | Inr ((i, status), db1) \<Rightarrow>
          if status \<noteq> ''active'' then (db1, Inl (HTTPException 401 (''Operator '' @ status @ ''.'')))
          else
            let db2 = touch_operator i now db1 in
            (case load_active_role i db2 of
               None \<Rightarrow> (db2, Inl (HTTPException 403
                 ''Operator has no active role. Contact an owner to grant access.''))
             | Some role \<Rightarrow>
                 (db2, Inr \<lparr>oper_id = i, oper_subject = subject, oper_email = email,
                    oper_display_name = name, oper_role = role, oper_status = ''active'',
                    oper_authorized_leas = load_authorized_leas role i db2\<rparr>)))"

definition current_operator ::
  "(rat \<Rightarrow> string) \<Rightarrow> (string \<Rightarrow> string + dict) \<Rightarrow> string option \<Rightarrow> uuid \<Rightarrow> timestamp \<Rightarrow> db \<Rightarrow>
   db \<times> (exn + operator)" where
  "current_operator ft decode creds new_id now db =
     (case creds of
        None \<Rightarrow> (db, Inl (HTTPException 401 ''Authorization header required.''))
      | Some token \<Rightarrow>
          if token = [] then (db, Inl (HTTPException 401 ''Authorization header required.''))
          else case decode token of
            Inl detail \<Rightarrow> (db, Inl (HTTPException 401 detail))
          | Inr claims \<Rightarrow>
              let (subject, email, name) = token_identity ft claims in
              if subject = [] then (db, Inl (HTTPException 401 ''Token missing sub claim.''))
              else load_operator subject email name new_id now db)"

section \<open>Roles and scopes\<close>

definition ROLES_SATISFYING :: "(string \<times> string list) list" where
  "ROLES_SATISFYING =
     [(''auditor'', [''auditor'', ''operator'', ''admin'', ''owner'']),
      (''operator'', [''operator'', ''admin'', ''owner'']),
      (''admin'', [''admin'', ''owner'']),
      (''owner'', [''owner''])]"

definition require_role :: "string \<Rightarrow> operator \<Rightarrow> exn + operator" where
  "require_role min_role oper =
     (case map_of ROLES_SATISFYING min_role of
        None \<Rightarrow> Inl ValueError
      | Some allowed \<Rightarrow>
          if oper_role oper \<in> set allowed then Inr oper
          else Inl (HTTPException 403 (''Role '' @ py_repr_str (oper_role oper) @
            '' cannot access an endpoint that requires '' @ py_repr_str min_role @ ''.'')))"

definition not_authorized_for :: "lea_id \<Rightarrow> exn" where
  "not_authorized_for l =
     HTTPException 403 (''Operator is not authorized for LEA '' @ py_repr_str l @ ''.'')"

definition require_lea_scope_at :: "string \<Rightarrow> lea_id \<Rightarrow> operator \<Rightarrow> exn + operator" where
  "require_lea_scope_at min_role l oper =
     res_bind (require_role min_role oper) (\<lambda>op1.
       if oper_role op1 = ''operator'' \<and> l \<notin> oper_authorized_leas op1 then Inl (not_authorized_for l)
       else Inr op1)"

definition load_sync_job_lea :: "uuid \<Rightarrow> db \<Rightarrow> exn + lea_id" where
  "load_sync_job_lea job db =
     (case lookup_by sj_id job (db_sync_jobs db) of
        None \<Rightarrow> Inl (HTTPException 404 (''sync_job '' @ uuid_str job @ '' not found.''))
      | Some j \<Rightarrow> Inr (sj_lea_id j))"

definition load_quarantine_lea :: "uuid \<Rightarrow> db \<Rightarrow> exn + lea_id" where
  "load_quarantine_lea q db =
     (case lookup_by qr_id q (db_quarantine db) of
        None \<Rightarrow> Inl (HTTPException 404 (''quarantine row '' @ uuid_str q @ '' not found.''))
      | Some r \<Rightarrow> Inr (qr_lea_id r))"

definition assert_authorized :: "lea_id set \<Rightarrow> lea_id \<Rightarrow> exn + unit" where
  "assert_authorized op_authorized target = ensure (target \<in> op_authorized) (not_authorized_for target)"

section \<open>Problem details\<close>

record problem_detail =
  pd_type :: string
  pd_title :: string
  pd_status :: nat
  pd_detail :: "string option"
  pd_instance :: "string option"

definition STATUS_TITLES :: "(nat \<times> string) list" where
  "STATUS_TITLES =
     [(400, ''Bad Request''), (401, ''Unauthorized''), (403, ''Forbidden''), (404, ''Not Found''),
      (405, ''Method Not Allowed''), (409, ''Conflict''), (410, ''Gone''),
      (422, ''Unprocessable Entity''), (429, ''Too Many Requests''), (500, ''Internal Server Error''),
      (502, ''Bad Gateway''), (503, ''Service Unavailable''), (504, ''Gateway Timeout'')]"

definition status_title :: "nat \<Rightarrow> string" where
  "status_title n = (case map_of STATUS_TITLES n of None \<Rightarrow> ''HTTP '' @ string_of_nat n | Some t \<Rightarrow> t)"

text \<open>The registry of domain exceptions, as \<open>app.py\<close> fills it.\<close>

fun domain_problem :: "exn \<Rightarrow> (nat \<times> string) option" where
  "domain_problem RetrySyncJobNotFound = Some (404, ''Sync Job Not Found'')"
| "domain_problem RetryRefused = Some (409, ''Retry Refused'')"
| "domain_problem RevertSyncJobNotFound = Some (404, ''Sync Job Not Found'')"
| "domain_problem RevertRefused = Some (409, ''Revert Refused'')"
| "domain_problem QuarantineNotFound = Some (404, ''Quarantine Row Not Found'')"
| "domain_problem QuarantineAlreadyResolved = Some (409, ''Quarantine Already Resolved'')"
| "domain_problem QuarantineRefused = Some (409, ''Quarantine Refused'')"
| "domain_problem ConnectorAuthorizationNotFound = Some (404, ''Connector Authorization Not Found'')"
| "domain_problem IdempotencyConflict = Some (422, ''Idempotency-Key Body Mismatch'')"
| "domain_problem IdempotencyInFlight = Some (409, ''Idempotency-Key In Flight'')"
| "domain_problem _ = None"

definition problem_response :: "nat \<Rightarrow> string \<Rightarrow> string option \<Rightarrow> string option \<Rightarrow> problem_detail" where
  "problem_response status title detail inst =
     \<lparr>pd_type = ''about:blank'', pd_title = title, pd_status = status, pd_detail = detail,
      pd_instance = inst\<rparr>"

text \<open>
  The handlers: of \<open>HTTPException\<close>, of the registered exceptions, and of all others, whose text
  never reaches the client. \<open>message\<close> is \<open>str(exc)\<close>.
\<close>

definition problem_of :: "(exn \<Rightarrow> string) \<Rightarrow> string \<Rightarrow> exn \<Rightarrow> problem_detail" where
  "problem_of message path e =
     (case e of
        HTTPException status detail \<Rightarrow> problem_response status (status_title status) (Some detail) (Some path)
      | _ \<Rightarrow>
          (case domain_problem e of
             Some (status, title) \<Rightarrow>
               problem_response status title (if message e = [] then None else Some (message e)) (Some path)
           | None \<Rightarrow>
               problem_response 500 (status_title 500) (Some ''An unexpected error occurred.'') (Some path)))"

end
