(* ===== verification/Api.thy ===== *)
theory Api
  imports ApiAuth LeaAdmin Retry
begin

text \<open>
  The admin API (\<open>api/routers/\<close>, the constraints of \<open>api/schemas.py\<close>): one definition per route,
  and \<open>handle\<close>, which authenticates, checks role and scope, validates the parameters, as FastAPI
  orders the dependencies before the body, and runs the route. A route with an Idempotency-Key
  answers with the JSON of its response model, which is what the key stores and replays. The
  arguments of the model are in \<open>api_env\<close> (what the process is configured with) and \<open>api_call\<close>
  (what one request brings: credentials, path, key, the readings of the clock, fresh ids, and
  what other sessions do between the two statements of a registration).
\<close>

section \<open>Requests and responses\<close>

datatype request =
    RetrySync uuid string bool
  | RevertSync uuid string
  | ListQuarantine "lea_id option" int
  | ReleaseQuarantine uuid
  | RejectQuarantine uuid string
  | ListConnectors "lea_id option" bool
  | AuthorizeConnector lea_id string string "int option" "string option"
  | RevokeConnector lea_id string string
  | AdjustPollInterval lea_id string int string
  | ListLeas
  | CreateLea create_lea_input
  | TransitionLea lea_id string string
  | ListReconciliation lea_id int string
  | ListCursors "lea_id option"
  | ListAlerts
  | ListAudit "string option" "string option" "timestamp option" "timestamp option"
      "timestamp option" "string option" int
  | LeaTimeline lea_id int
  | SyncActivity
  | ListSyncs lea_id int string
  | SyncDetail uuid

record quarantine_row_out =
  qo_id :: uuid
  qo_sync_job_id :: uuid
  qo_lea_id :: lea_id
  qo_entity_type :: string
  qo_entity_id :: string
  qo_reason :: string
  qo_created_at :: timestamp
  qo_resolved_at :: "timestamp option"
  qo_resolution_status :: "string option"
  qo_resolution_operator :: "string option"

datatype response =
    Outcome dict
  | QuarantineRows "quarantine_row_out list"
  | Connectors "authorization_view list"
  | LeaSummaries "lea_summary_row list"
  | LeaCreated lea_view
  | LeaTransitioned lea_id string string
  | ReconciliationRuns "reconciliation_run_row list"
  | CursorStates "cursor_state_row list"
  | Alerts "alert_record list"
  | AuditPage "timeline_entry list" "(timestamp \<times> string) option"
  | TimelineEntries "timeline_entry list"
  | ActivityBuckets "sync_activity_bucket list"
  | SyncJobs "sync_job list"
  | SyncJobDetail sync_detail

record api_env =
  en_sha :: "string \<Rightarrow> string"
  en_float :: "rat \<Rightarrow> string"
  en_json_time :: "timestamp \<Rightarrow> string"
  en_iso_time :: "timestamp \<Rightarrow> string"
  en_decode :: "string \<Rightarrow> string + dict"
  en_message :: "exn \<Rightarrow> string"
  en_field_errors :: "request \<Rightarrow> string"

record api_call =
  ca_creds :: "string option"
  ca_path :: string
  ca_key :: "string option"
  ca_envs :: "(db \<Rightarrow> db) list"
  ca_clock :: "nat \<Rightarrow> timestamp"
  ca_ids :: "nat \<Rightarrow> uuid"

section \<open>The constraints on parameters\<close>

definition len_between :: "nat \<Rightarrow> nat \<Rightarrow> string \<Rightarrow> bool" where
  "len_between a b s \<longleftrightarrow> a \<le> length s \<and> length s \<le> b"

definition opt_max :: "nat \<Rightarrow> string option \<Rightarrow> bool" where
  "opt_max n so = (case so of None \<Rightarrow> True | Some s \<Rightarrow> length s \<le> n)"

definition valid_create_lea :: "create_lea_input \<Rightarrow> bool" where
  "valid_create_lea b \<longleftrightarrow>
     len_between 1 64 (ci_id b) \<and> len_between 1 200 (ci_name b) \<and> len_between 1 64 (ci_type b) \<and>
     len_between 2 2 (ci_state b) \<and> len_between 1 64 (ci_timezone b) \<and>
     opt_max 32 (ci_nces b) \<and> opt_max 128 (ci_integration b)"

fun valid_request :: "request \<Rightarrow> bool" where
  "valid_request (RetrySync job reason forced) = (reason \<noteq> [])"
| "valid_request (RevertSync job reason) = (reason \<noteq> [])"
| "valid_request (ListQuarantine l limit) = (1 \<le> limit \<and> limit \<le> 500)"
| "valid_request (RejectQuarantine q reason) = (reason \<noteq> [])"
| "valid_request (AuthorizeConnector l p reason seconds notes) =
     (reason \<noteq> [] \<and> (case seconds of None \<Rightarrow> True | Some s \<Rightarrow> 60 \<le> s \<and> s \<le> 3600))"
| "valid_request (RevokeConnector l p reason) = (reason \<noteq> [])"
| "valid_request (AdjustPollInterval l p s reason) = (60 \<le> s \<and> s \<le> 3600 \<and> reason \<noteq> [])"
| "valid_request (CreateLea b) = valid_create_lea b"
| "valid_request (TransitionLea l status reason) = (len_between 1 32 status \<and> reason \<noteq> [])"
| "valid_request (ListReconciliation l limit p) = (1 \<le> limit \<and> limit \<le> 200)"
| "valid_request (ListAudit who pfx since til cur_at cur_id limit) = (1 \<le> limit \<and> limit \<le> 200)"
| "valid_request (LeaTimeline l limit) = (1 \<le> limit \<and> limit \<le> 200)"
| "valid_request (ListSyncs l limit p) = (1 \<le> limit \<and> limit \<le> 200)"
| "valid_request _ = True"

section \<open>Gates\<close>

text \<open>The minimum role that each route names, and the LEA of the routes below \<open>/leas/{lea_id}\<close>.\<close>

fun min_role :: "request \<Rightarrow> string" where
  "min_role (RetrySync job reason forced) = ''operator''"
| "min_role (RevertSync job reason) = ''operator''"
| "min_role (ReleaseQuarantine q) = ''operator''"
| "min_role (RejectQuarantine q reason) = ''operator''"
| "min_role (AuthorizeConnector l p reason seconds notes) = ''admin''"
| "min_role (RevokeConnector l p reason) = ''admin''"
| "min_role (AdjustPollInterval l p s reason) = ''admin''"
| "min_role (CreateLea b) = ''admin''"
| "min_role (TransitionLea l status reason) = ''admin''"
| "min_role _ = ''auditor''"

fun scoped_lea :: "request \<Rightarrow> lea_id option" where
  "scoped_lea (ListReconciliation l limit p) = Some l"
| "scoped_lea (LeaTimeline l limit) = Some l"
| "scoped_lea (ListSyncs l limit p) = Some l"
| "scoped_lea _ = None"

definition gate :: "request \<Rightarrow> operator \<Rightarrow> exn + operator" where
  "gate req oper =
     (case scoped_lea req of
        None \<Rightarrow> require_role (min_role req) oper
      | Some l \<Rightarrow> require_lea_scope_at (min_role req) l oper)"

text \<open>The scope of a listing: the grants of the role \<open>operator\<close>, no filter for the others.\<close>

definition read_scope :: "operator \<Rightarrow> lea_id set option" where
  "read_scope oper = (if oper_role oper = ''operator'' then Some (oper_authorized_leas oper) else None)"

section \<open>The routes that change state\<close>

definition answer :: "db \<times> (exn + dict) \<Rightarrow> db \<times> (exn + response)" where
  "answer x = (case x of (db, Inl e) \<Rightarrow> (db, Inl e) | (db, Inr d) \<Rightarrow> (db, Inr (Outcome d)))"

definition with_body :: "('a \<Rightarrow> dict) \<Rightarrow> db \<times> (exn + 'a) \<Rightarrow> db \<times> (exn + dict)" where
  "with_body dump x = (case x of (db, Inl e) \<Rightarrow> (db, Inl e) | (db, Inr a) \<Rightarrow> (db, Inr (dump a)))"

definition idempotent ::
  "api_env \<Rightarrow> api_call \<Rightarrow> operator \<Rightarrow> string \<Rightarrow> dict option \<Rightarrow> (db \<Rightarrow> db \<times> (exn + dict)) \<Rightarrow> db \<Rightarrow>
   db \<times> (exn + response)" where
  "idempotent env c oper route body work db =
     answer (with_idempotency (en_sha env) (en_float env) (\<lambda>d. d) Inr (ca_envs c) (oper_id oper) route
       (ca_path c) (ca_key c) body work (ca_clock c) db)"

definition retry_sync ::
  "api_env \<Rightarrow> api_call \<Rightarrow> uuid \<Rightarrow> string \<Rightarrow> bool \<Rightarrow> operator \<Rightarrow> db \<Rightarrow> db \<times> (exn + response)" where
  "retry_sync env c job reason forced oper db =
     (case res_bind (load_sync_job_lea job db) (assert_authorized (oper_authorized_leas oper)) of
        Inl e \<Rightarrow> (db, Inl e)
      | Inr _ \<Rightarrow>
          idempotent env c oper ''actions.retry_sync''
            (Some [(''reason'', JStr reason), (''forced'', JBool forced)])
            (\<lambda>d. with_body (\<lambda>o1.
               [(''sync_job_id'', JStr (uuid_str (to_sync_job_id o1))), (''lea_id'', JStr (to_lea_id o1)),
                (''partner'', JStr (to_partner o1)),
                (''cursor_rewound_to'', json_of_opt (to_cursor_rewound_to o1)),
                (''forced'', JBool (to_forced o1))])
              (retry job (oper_subject oper) reason forced (ca_clock c 2) d)) db)"

definition revert_sync ::
  "api_env \<Rightarrow> api_call \<Rightarrow> uuid \<Rightarrow> string \<Rightarrow> operator \<Rightarrow> db \<Rightarrow> db \<times> (exn + response)" where
  "revert_sync env c job reason oper db =
     (case res_bind (load_sync_job_lea job db) (assert_authorized (oper_authorized_leas oper)) of
        Inl e \<Rightarrow> (db, Inl e)
      | Inr _ \<Rightarrow>
          idempotent env c oper ''actions.revert_sync'' (Some [(''reason'', JStr reason)])
            (\<lambda>d. with_body (\<lambda>o1.
               [(''sync_job_id'', JStr (uuid_str (ro_sync_job_id o1))),
                (''revert_generation_id'', JStr (uuid_str (ro_generation_id o1))),
                (''snapshots_restored'', JInt (ro_restored o1)),
                (''canonical_rows_updated'', JInt (ro_updated o1)),
                (''canonical_rows_soft_deleted'', JInt (ro_soft_deleted o1))])
              (revert (en_float env) job (oper_subject oper) reason (ca_ids c 0) (ca_clock c 2) d)) db)"

definition release_quarantine ::
  "api_env \<Rightarrow> api_call \<Rightarrow> uuid \<Rightarrow> operator \<Rightarrow> db \<Rightarrow> db \<times> (exn + response)" where
  "release_quarantine env c q oper db =
     (case res_bind (load_quarantine_lea q db) (assert_authorized (oper_authorized_leas oper)) of
        Inl e \<Rightarrow> (db, Inl e)
      | Inr _ \<Rightarrow>
          idempotent env c oper ''quarantine.release'' None
            (\<lambda>d. with_body (\<lambda>o1.
               [(''quarantine_id'', JStr (uuid_str (lo_quarantine_id o1))),
                (''release_generation_id'', JStr (uuid_str (lo_release_generation_id o1))),
                (''entity_type'', JStr (lo_entity_type o1)), (''entity_id'', JStr (lo_entity_id o1))])
              (release (en_float env) q (oper_subject oper) (ca_ids c 0) (ca_clock c 2) d)) db)"

definition reject_quarantine ::
  "api_env \<Rightarrow> api_call \<Rightarrow> uuid \<Rightarrow> string \<Rightarrow> operator \<Rightarrow> db \<Rightarrow> db \<times> (exn + response)" where
  "reject_quarantine env c q reason oper db =
     (case res_bind (load_quarantine_lea q db) (assert_authorized (oper_authorized_leas oper)) of
        Inl e \<Rightarrow> (db, Inl e)
      | Inr _ \<Rightarrow>
          idempotent env c oper ''quarantine.reject'' (Some [(''reason'', JStr reason)])
            (\<lambda>d. with_body (\<lambda>o1.
               [(''quarantine_id'', JStr (uuid_str (jo_quarantine_id o1))),
                (''rejected_at'', JStr (en_iso_time env (jo_rejected_at o1)))])
              (reject q (oper_subject oper) reason (ca_clock c 2) d)) db)"

definition authorize_connector ::
  "api_env \<Rightarrow> api_call \<Rightarrow> lea_id \<Rightarrow> string \<Rightarrow> string \<Rightarrow> int option \<Rightarrow> string option \<Rightarrow> operator \<Rightarrow> db \<Rightarrow>
   db \<times> (exn + response)" where
  "authorize_connector env c l p reason seconds notes oper =
     idempotent env c oper ''connectors.authorize''
       (Some [(''reason'', JStr reason),
          (''poll_interval_seconds'', case seconds of None \<Rightarrow> JNull | Some s \<Rightarrow> JInt s),
          (''notes'', json_of_opt notes)])
       (\<lambda>d. with_body (\<lambda>o1.
          [(''id'', JStr (uuid_str (ao_id o1))), (''lea_id'', JStr (ao_lea_id o1)),
           (''partner'', JStr (ao_partner o1)), (''status'', JStr (ao_status o1)),
           (''poll_interval_seconds'', JInt (ao_poll_interval o1)),
           (''created_new_row'', JBool (ao_created_new_row o1))])
         (authorize l p (oper_id oper) reason seconds notes (ca_ids c 0) (ca_clock c 2) d))"

definition revoke_connector ::
  "api_env \<Rightarrow> api_call \<Rightarrow> lea_id \<Rightarrow> string \<Rightarrow> string \<Rightarrow> operator \<Rightarrow> db \<Rightarrow> db \<times> (exn + response)" where
  "revoke_connector env c l p reason oper =
     idempotent env c oper ''connectors.revoke'' (Some [(''reason'', JStr reason)])
       (\<lambda>d. with_body (\<lambda>(i, at1).
          [(''id'', JStr (uuid_str i)), (''lea_id'', JStr l), (''partner'', JStr p),
           (''revoked_at'', JStr (en_iso_time env at1))])
         (revoke l p (oper_id oper) reason (ca_clock c 2) d))"

definition adjust_connector ::
  "api_env \<Rightarrow> api_call \<Rightarrow> lea_id \<Rightarrow> string \<Rightarrow> int \<Rightarrow> string \<Rightarrow> operator \<Rightarrow> db \<Rightarrow> db \<times> (exn + response)" where
  "adjust_connector env c l p seconds reason oper =
     idempotent env c oper ''connectors.adjust_poll_interval''
       (Some [(''new_poll_interval_seconds'', JInt seconds), (''reason'', JStr reason)])
       (\<lambda>d. with_body (\<lambda>(i, previous, new).
          [(''id'', JStr (uuid_str i)), (''lea_id'', JStr l), (''partner'', JStr p),
           (''previous_poll_interval_seconds'', JInt previous),
           (''new_poll_interval_seconds'', JInt new)])
         (adjust_poll_interval l p seconds (oper_id oper) reason (ca_clock c 2) d))"

definition create_lea_route ::
  "api_env \<Rightarrow> api_call \<Rightarrow> create_lea_input \<Rightarrow> operator \<Rightarrow> db \<Rightarrow> db \<times> (exn + response)" where
  "create_lea_route env c params oper db =
     (case create_lea params (oper_id oper) ''lea.created via onboarding flow'' (ca_clock c 2) db of
        (db', Inl e) \<Rightarrow>
          (db', Inl (if e = LeaAlreadyExists then HTTPException 409 (en_message env e) else e))
      | (db', Inr v) \<Rightarrow> (db', Inr (LeaCreated v)))"

definition ALLOWED_TARGET_STATUSES :: "string list" where
  "ALLOWED_TARGET_STATUSES = [''onboarding'', ''active'', ''decommissioned'']"

text \<open>\<open>{sorted(_ALLOWED_TARGET_STATUSES)}\<close> in the message is the constant text below.\<close>

definition transition_lea_route ::
  "api_env \<Rightarrow> api_call \<Rightarrow> lea_id \<Rightarrow> string \<Rightarrow> string \<Rightarrow> operator \<Rightarrow> db \<Rightarrow> db \<times> (exn + response)" where
  "transition_lea_route env c l status reason oper db =
     (if status \<notin> set ALLOWED_TARGET_STATUSES then
        (db, Inl (HTTPException 422 (''Unknown target status '' @ py_repr_str status @
          ''. Expected one of ['' @ CHR 0x27 # ''active'' @ CHR 0x27 # '', '' @ CHR 0x27 # ''decommissioned'' @
          CHR 0x27 # '', '' @ CHR 0x27 # ''onboarding'' @ CHR 0x27 # ''].'')))
      else case get_lea l db of
        None \<Rightarrow> (db, Inl (HTTPException 404 (''LEA '' @ py_repr_str l @ '' not found.'')))
      | Some current \<Rightarrow>
          (case transition_status l status (oper_id oper) reason (ca_clock c 2) db of
             (db', Inl (InvalidStatusTransition a b)) \<Rightarrow>
               (db', Inl (HTTPException 422 (en_message env (InvalidStatusTransition a b))))
           | (db', Inl LeaNotFound) \<Rightarrow> (db', Inl (HTTPException 404 (en_message env LeaNotFound)))
           | (db', Inl e) \<Rightarrow> (db', Inl e)
           | (db', Inr v) \<Rightarrow> (db', Inr (LeaTransitioned (lv_id v) (lv_status v) (lv_status current)))))"

section \<open>The routes that read\<close>

definition to_quarantine_out :: "quarantine_row \<Rightarrow> quarantine_row_out" where
  "to_quarantine_out r =
     \<lparr>qo_id = qr_id r, qo_sync_job_id = qr_sync_job_id r, qo_lea_id = qr_lea_id r,
      qo_entity_type = qr_entity_type r, qo_entity_id = qr_entity_id r, qo_reason = qr_reason r,
      qo_created_at = qr_created_at r, qo_resolved_at = qr_resolved_at r,
      qo_resolution_status = qr_resolution_status r, qo_resolution_operator = qr_resolution_operator r\<rparr>"

text \<open>\<open>LeaId(lea_id) if lea_id else None\<close>: an empty parameter is no filter.\<close>

definition lea_param :: "lea_id option \<Rightarrow> lea_id option" where
  "lea_param l = (if l = Some [] then None else l)"

text \<open>A listing of an operator without any grant is empty before the query runs.\<close>

definition no_grants :: "operator \<Rightarrow> bool" where
  "no_grants oper \<longleftrightarrow> oper_role oper = ''operator'' \<and> oper_authorized_leas oper = {}"

definition list_quarantine :: "lea_id option \<Rightarrow> int \<Rightarrow> operator \<Rightarrow> db \<Rightarrow> response" where
  "list_quarantine l limit oper db =
     QuarantineRows (if no_grants oper then []
       else map to_quarantine_out (list_unresolved (lea_param l) (read_scope oper) (nat limit) db))"

definition list_connectors :: "lea_id option \<Rightarrow> bool \<Rightarrow> operator \<Rightarrow> db \<Rightarrow> response" where
  "list_connectors l include_revoked oper db =
     Connectors (list_authorizations (read_scope oper) (lea_param l) include_revoked db)"

definition list_leas_route :: "timestamp \<Rightarrow> operator \<Rightarrow> db \<Rightarrow> response" where
  "list_leas_route now oper db =
     LeaSummaries (if no_grants oper then [] else list_leas (read_scope oper) now db)"

definition list_cursors_route :: "lea_id option \<Rightarrow> timestamp \<Rightarrow> operator \<Rightarrow> db \<Rightarrow> response" where
  "list_cursors_route l now oper db =
     CursorStates (if no_grants oper then [] else list_cursors l (read_scope oper) now db)"

definition list_active_alerts :: "api_env \<Rightarrow> timestamp \<Rightarrow> db \<Rightarrow> exn + response" where
  "list_active_alerts env now db =
     res_bind (evaluate_reconciliation_drift (en_iso_time env) (en_float env) 24 now db) (\<lambda>drift.
       Inr (Alerts (evaluate_cursor_lag (en_iso_time env) CURSOR_LAG_THRESHOLD_DAYS now db @
         evaluate_quarantine_growth QUARANTINE_GROWTH_THRESHOLD 24 now db @ drift)))"

definition list_audit_entries ::
  "api_env \<Rightarrow> string option \<Rightarrow> string option \<Rightarrow> timestamp option \<Rightarrow> timestamp option \<Rightarrow>
   timestamp option \<Rightarrow> string option \<Rightarrow> int \<Rightarrow> operator \<Rightarrow> db \<Rightarrow> response" where
  "list_audit_entries env who pfx since til cur_at cur_id limit oper db =
     (if no_grants oper then AuditPage [] None
      else
        let entries = list_timeline (en_json_time env)
          \<lparr>tf_lea_ids = read_scope oper, tf_operator_id = who, tf_action_prefix = pfx,
           tf_since = since, tf_until = til, tf_cursor_occurred_at = cur_at, tf_cursor_id = cur_id,
           tf_limit = nat limit\<rparr> db
        in AuditPage entries (next_cursor entries (nat limit)))"

definition sync_detail_route :: "uuid \<Rightarrow> db \<Rightarrow> exn + response" where
  "sync_detail_route job db =
     (case get_sync_detail job db of
        None \<Rightarrow> Inl (HTTPException 404 (''sync_job_id '' @ uuid_str job @ '' not found''))
      | Some d \<Rightarrow> Inr (SyncJobDetail d))"

fun read_route :: "api_env \<Rightarrow> timestamp \<Rightarrow> request \<Rightarrow> operator \<Rightarrow> db \<Rightarrow> exn + response" where
  "read_route env now (ListQuarantine l limit) oper db = Inr (list_quarantine l limit oper db)"
| "read_route env now (ListConnectors l revoked) oper db = Inr (list_connectors l revoked oper db)"
| "read_route env now ListLeas oper db = Inr (list_leas_route now oper db)"
| "read_route env now (ListReconciliation l limit p) oper db =
     Inr (ReconciliationRuns (list_reconciliation_runs_for_lea (en_float env) l p (nat limit) db))"
| "read_route env now (ListCursors l) oper db = Inr (list_cursors_route l now oper db)"
| "read_route env now ListAlerts oper db = list_active_alerts env now db"
| "read_route env now (ListAudit who pfx since til cur_at cur_id limit) oper db =
     Inr (list_audit_entries env who pfx since til cur_at cur_id limit oper db)"
| "read_route env now (LeaTimeline l limit) oper db =
     Inr (TimelineEntries (list_timeline_for_lea (en_json_time env) l (nat limit) db))"
| "read_route env now SyncActivity oper db = Inr (ActivityBuckets (get_sync_activity now db))"
| "read_route env now (ListSyncs l limit p) oper db = Inr (SyncJobs (list_syncs_for_lea l p (nat limit) db))"
| "read_route env now (SyncDetail job) oper db = sync_detail_route job db"
| "read_route env now _ oper db = Inl (HTTPException 405 ''Method Not Allowed'')"

section \<open>The application\<close>

fun run_route :: "api_env \<Rightarrow> api_call \<Rightarrow> request \<Rightarrow> operator \<Rightarrow> db \<Rightarrow> db \<times> (exn + response)" where
  "run_route env c (RetrySync job reason forced) oper db = retry_sync env c job reason forced oper db"
| "run_route env c (RevertSync job reason) oper db = revert_sync env c job reason oper db"
| "run_route env c (ReleaseQuarantine q) oper db = release_quarantine env c q oper db"
| "run_route env c (RejectQuarantine q reason) oper db = reject_quarantine env c q reason oper db"
| "run_route env c (AuthorizeConnector l p reason seconds notes) oper db =
     authorize_connector env c l p reason seconds notes oper db"
| "run_route env c (RevokeConnector l p reason) oper db = revoke_connector env c l p reason oper db"
| "run_route env c (AdjustPollInterval l p s reason) oper db = adjust_connector env c l p s reason oper db"
| "run_route env c (CreateLea b) oper db = create_lea_route env c b oper db"
| "run_route env c (TransitionLea l status reason) oper db =
     transition_lea_route env c l status reason oper db"
| "run_route env c req oper db = (db, read_route env (ca_clock c 2) req oper db)"

definition handle :: "api_env \<Rightarrow> api_call \<Rightarrow> request \<Rightarrow> db \<Rightarrow> db \<times> (exn + response)" where
  "handle env c req db =
     (case current_operator (en_float env) (en_decode env) (ca_creds c) (ca_ids c 1) (ca_clock c 3) db of
        (db1, Inl e) \<Rightarrow> (db1, Inl e)
      | (db1, Inr oper) \<Rightarrow>
          (case gate req oper of
             Inl e \<Rightarrow> (db1, Inl e)
           | Inr _ \<Rightarrow>
               if \<not> valid_request req then (db1, Inl (HTTPException 422 (en_field_errors env req)))
               else run_route env c req oper db1))"

text \<open>What the client gets: the response, or the problem document of the exception.\<close>

definition http_answer ::
  "api_env \<Rightarrow> api_call \<Rightarrow> request \<Rightarrow> db \<Rightarrow> db \<times> (problem_detail + response)" where
  "http_answer env c req db =
     (case handle env c req db of
        (db', Inl e) \<Rightarrow> (db', Inl (problem_of (en_message env) (ca_path c) e))
      | (db', Inr r) \<Rightarrow> (db', Inr r))"

end
