(* ===== verification/Tenancy.thy ===== *)
theory Tenancy
  imports Api
begin

text \<open>
  What a read of the API may depend on. Two databases agree on a set of LEAs when the rows that
  belong to these LEAs are the same, table by table, and so are the operators; every query with
  that scope, or about one LEA in it, then gives the same answer on both.
\<close>

section \<open>The rows of a set of LEAs\<close>

definition revert_in :: "lea_id set \<Rightarrow> db \<Rightarrow> revert_action \<Rightarrow> bool" where
  "revert_in S db ra =
     (case lookup_by sj_id (ra_sync_job_id ra) (db_sync_jobs db) of
        None \<Rightarrow> False | Some j \<Rightarrow> sj_lea_id j \<in> S)"

definition audit_in :: "lea_id set \<Rightarrow> audit_row \<Rightarrow> bool" where
  "audit_in S al = (case al_lea_id al of None \<Rightarrow> False | Some l \<Rightarrow> l \<in> S)"

definition agree_on :: "lea_id set \<Rightarrow> db \<Rightarrow> db \<Rightarrow> bool" where
  "agree_on S a b \<longleftrightarrow>
     db_operators a = db_operators b \<and>
     filter (\<lambda>r. lr_id r \<in> S) (db_leas a) = filter (\<lambda>r. lr_id r \<in> S) (db_leas b) \<and>
     filter (\<lambda>r. sr_lea_id r \<in> S) (db_students a) = filter (\<lambda>r. sr_lea_id r \<in> S) (db_students b) \<and>
     filter (\<lambda>r. er_lea_id r \<in> S) (db_enrollments a) = filter (\<lambda>r. er_lea_id r \<in> S) (db_enrollments b) \<and>
     filter (\<lambda>r. sj_lea_id r \<in> S) (db_sync_jobs a) = filter (\<lambda>r. sj_lea_id r \<in> S) (db_sync_jobs b) \<and>
     filter (\<lambda>r. qr_lea_id r \<in> S) (db_quarantine a) = filter (\<lambda>r. qr_lea_id r \<in> S) (db_quarantine b) \<and>
     filter (\<lambda>r. cs_lea_id r \<in> S) (db_cursors a) = filter (\<lambda>r. cs_lea_id r \<in> S) (db_cursors b) \<and>
     filter (\<lambda>r. au_lea_id r \<in> S) (db_authorizations a) = filter (\<lambda>r. au_lea_id r \<in> S) (db_authorizations b) \<and>
     filter (audit_in S) (db_audit_log a) = filter (audit_in S) (db_audit_log b) \<and>
     filter (\<lambda>r. ry_lea_id r \<in> S) (db_retry_actions a) = filter (\<lambda>r. ry_lea_id r \<in> S) (db_retry_actions b) \<and>
     filter (revert_in S a) (db_revert_actions a) = filter (revert_in S b) (db_revert_actions b) \<and>
     filter (\<lambda>r. rr_lea_id r \<in> S) (db_reconciliation_runs a) =
       filter (\<lambda>r. rr_lea_id r \<in> S) (db_reconciliation_runs b)"

text \<open>A filter within the scope sees the same rows.\<close>

lemma filter_within:
  assumes "filter Q xs = filter Q ys" and "\<And>x. P x \<Longrightarrow> Q x"
  shows "filter P xs = filter P ys"
proof -
  have "filter P zs = filter P (filter Q zs)" for zs
    unfolding filter_filter by (rule filter_cong) (use assms(2) in auto)
  with assms(1) show ?thesis by metis
qed

lemma find_hd_filter: "find P xs = (case filter P xs of [] \<Rightarrow> None | x # _ \<Rightarrow> Some x)"
  by (induction xs) auto

lemma find_within:
  assumes "filter Q xs = filter Q ys" and "\<And>x. P x \<Longrightarrow> Q x"
  shows "find P xs = find P ys"
  by (simp add: find_hd_filter filter_within [OF assms])

lemma count_within:
  assumes "filter Q xs = filter Q ys" and "\<And>x. P x \<Longrightarrow> Q x"
  shows "count_where P xs = count_where P ys"
  by (simp add: count_where_def filter_within [OF assms])

lemma map_filter_within:
  "List.map_filter f xs = List.map_filter f (filter (\<lambda>x. f x \<noteq> None) xs)"
  by (induction xs) (auto simp: map_filter_simps split: option.splits)

lemma map_filter_cong_set:
  "(\<And>x. x \<in> set xs \<Longrightarrow> f x = g x) \<Longrightarrow> List.map_filter f xs = List.map_filter g xs"
  by (induction xs) (auto simp: map_filter_simps split: option.splits)


text \<open>The job of a revert, seen from both databases, when job ids are keys.\<close>

definition jobs_keyed :: "db \<Rightarrow> bool" where
  "jobs_keyed db \<longleftrightarrow> distinct (map sj_id (db_sync_jobs db))"

lemma agree_onD:
  assumes "agree_on S a b"
  shows "db_operators a = db_operators b"
    "filter (\<lambda>r. lr_id r \<in> S) (db_leas a) = filter (\<lambda>r. lr_id r \<in> S) (db_leas b)"
    "filter (\<lambda>r. sr_lea_id r \<in> S) (db_students a) = filter (\<lambda>r. sr_lea_id r \<in> S) (db_students b)"
    "filter (\<lambda>r. er_lea_id r \<in> S) (db_enrollments a) = filter (\<lambda>r. er_lea_id r \<in> S) (db_enrollments b)"
    "filter (\<lambda>r. sj_lea_id r \<in> S) (db_sync_jobs a) = filter (\<lambda>r. sj_lea_id r \<in> S) (db_sync_jobs b)"
    "filter (\<lambda>r. qr_lea_id r \<in> S) (db_quarantine a) = filter (\<lambda>r. qr_lea_id r \<in> S) (db_quarantine b)"
    "filter (\<lambda>r. cs_lea_id r \<in> S) (db_cursors a) = filter (\<lambda>r. cs_lea_id r \<in> S) (db_cursors b)"
    "filter (\<lambda>r. au_lea_id r \<in> S) (db_authorizations a) = filter (\<lambda>r. au_lea_id r \<in> S) (db_authorizations b)"
    "filter (audit_in S) (db_audit_log a) = filter (audit_in S) (db_audit_log b)"
    "filter (\<lambda>r. ry_lea_id r \<in> S) (db_retry_actions a) = filter (\<lambda>r. ry_lea_id r \<in> S) (db_retry_actions b)"
    "filter (revert_in S a) (db_revert_actions a) = filter (revert_in S b) (db_revert_actions b)"
    "filter (\<lambda>r. rr_lea_id r \<in> S) (db_reconciliation_runs a) =
       filter (\<lambda>r. rr_lea_id r \<in> S) (db_reconciliation_runs b)"
  using assms unfolding agree_on_def by blast+

lemma agree_on_sym: "agree_on S a b \<Longrightarrow> agree_on S b a"
  unfolding agree_on_def by metis

lemma job_seen:
  assumes "agree_on S a b" and "jobs_keyed b"
    and "lookup_by sj_id i (db_sync_jobs a) = Some j" and "sj_lea_id j \<in> S"
  shows "lookup_by sj_id i (db_sync_jobs b) = Some j"
proof -
  from assms(3,4) have "j \<in> set (filter (\<lambda>r. sj_lea_id r \<in> S) (db_sync_jobs a))" "sj_id j = i"
    using lookup_by_SomeD [OF assms(3)] by auto
  then have "j \<in> set (db_sync_jobs b)" using agree_onD(5) [OF assms(1)] by auto
  with assms(2) \<open>sj_id j = i\<close> show ?thesis
    unfolding jobs_keyed_def by (simp add: lookup_by_Some_iff_distinct)
qed

lemma revert_seen:
  assumes "agree_on S a b" and "jobs_keyed a" and "jobs_keyed b" and "leas = Some T" and "T \<subseteq> S"
  shows "revert_row_of leas a ra = revert_row_of leas b ra"
proof -
  have one: "revert_row_of leas d ra = Some x \<Longrightarrow> revert_row_of leas d' ra = Some x"
    if "agree_on S d d'" "jobs_keyed d'" for d d' x
    using job_seen [OF that] assms(4,5) unfolding revert_row_of_def
    by (fastforce split: option.splits if_splits)
  from one [OF assms(1,3)] one [OF agree_on_sym [OF assms(1)] assms(2)] show ?thesis
    by (metis not_None_eq)
qed

lemma revert_row_in: "revert_row_of (Some T) db ra \<noteq> None \<longleftrightarrow> revert_in T db ra"
  by (auto simp: revert_row_of_def revert_in_def split: option.splits)

lemma reverts_seen:
  assumes "agree_on S a b" and "jobs_keyed a" and "jobs_keyed b" and "T \<subseteq> S"
  shows "reverts_branch (Some T) a = reverts_branch (Some T) b"
proof -
  have in_S: "revert_row_of (Some T) db ra \<noteq> None \<Longrightarrow> revert_in S db ra" for db ra
    using assms(4) unfolding revert_row_in by (auto simp: revert_in_def split: option.splits)
  have "List.map_filter (revert_row_of (Some T) db) xs =
      List.map_filter (revert_row_of (Some T) db) (filter (revert_in S db) xs)" for db xs
    using in_S by (induction xs) (auto simp: map_filter_simps split: option.splits)
  then show ?thesis
    unfolding reverts_branch_def using agree_onD(11) [OF assms(1)]
    by (metis map_filter_cong_set revert_seen [OF assms(1-3) refl assms(4)])
qed

lemma agree_on_mono:
  assumes "agree_on S a b" and "jobs_keyed a" and "jobs_keyed b" and "T \<subseteq> S"
  shows "agree_on T a b"
proof -
  have one: "revert_in T d ra \<Longrightarrow> revert_in T d' ra" if "agree_on S d d'" "jobs_keyed d'" for d d' ra
    using job_seen [OF that] assms(4) by (fastforce simp: revert_in_def split: option.splits)
  have same: "revert_in T a ra = revert_in T b ra" for ra
    using one [OF assms(1,3)] one [OF agree_on_sym [OF assms(1)] assms(2)] by blast
  have up: "revert_in T d ra \<Longrightarrow> revert_in S d ra" for d ra
    using assms(4) by (auto simp: revert_in_def split: option.splits)
  have "filter (revert_in T a) (db_revert_actions a) = filter (revert_in T a) (filter (revert_in S a) (db_revert_actions a))"
    unfolding filter_filter by (rule filter_cong) (use up in auto)
  also have "\<dots> = filter (revert_in T b) (filter (revert_in S b) (db_revert_actions b))"
    unfolding agree_onD(11) [OF assms(1)] by (rule filter_cong) (simp_all add: same)
  also have "\<dots> = filter (revert_in T b) (db_revert_actions b)"
    unfolding filter_filter by (rule filter_cong) (use up in auto)
  finally have reverts: "filter (revert_in T a) (db_revert_actions a) = filter (revert_in T b) (db_revert_actions b)" .
  note d = agree_onD [OF assms(1)]
  show ?thesis
    unfolding agree_on_def
    by (intro conjI d(1) reverts filter_within [OF d(2)] filter_within [OF d(3)] filter_within [OF d(4)]
        filter_within [OF d(5)] filter_within [OF d(6)] filter_within [OF d(7)] filter_within [OF d(8)]
        filter_within [OF d(9)] filter_within [OF d(10)] filter_within [OF d(12)])
       (use assms(4) in \<open>auto simp: audit_in_def split: option.splits\<close>)
qed

section \<open>The interface of a scoped query\<close>

text \<open>
  A listing is given the scope of the caller. The law: within a scope, the answer depends on the
  rows of the scope only. A route that passes the scope of the operator inherits it.
\<close>

locale scoped_query =
  fixes query :: "lea_id set option \<Rightarrow> db \<Rightarrow> 'r"
  assumes within_scope:
    "agree_on S a b \<Longrightarrow> jobs_keyed a \<Longrightarrow> jobs_keyed b \<Longrightarrow> query (Some S) a = query (Some S) b"
begin

lemma route_within_scope:
  assumes "oper_role oper = ''operator''" and "agree_on (oper_authorized_leas oper) a b"
    and "jobs_keyed a" and "jobs_keyed b"
  shows "query (read_scope oper) a = query (read_scope oper) b"
  using within_scope [OF assms(2-4)] assms(1) by (simp add: read_scope_def)

lemma one_lea:
  assumes "agree_on S a b" and "jobs_keyed a" and "jobs_keyed b" and "l \<in> S"
  shows "query (Some {l}) a = query (Some {l}) b"
  by (rule within_scope [OF agree_on_mono [OF assms(1-3)] assms(2,3)]) (use assms(4) in simp)

end

interpretation quarantine_query: scoped_query "\<lambda>s. list_unresolved l s limit"
proof
  fix S a b
  assume "agree_on S a b"
  from filter_within [OF agree_onD(6) [OF this], of "q_row_in_scope l (Some S)"]
  show "list_unresolved l (Some S) limit a = list_unresolved l (Some S) limit b"
    by (simp add: list_unresolved_def q_row_in_scope_def split: option.splits)
qed

interpretation cursor_query: scoped_query "\<lambda>s. list_cursors l s now"
proof
  fix S a b
  assume "agree_on S a b"
  from filter_within [OF agree_onD(7) [OF this],
      of "\<lambda>c. (case l of None \<Rightarrow> True | Some l' \<Rightarrow> cs_lea_id c = l') \<and> in_scope (Some S) (cs_lea_id c)"]
  show "list_cursors l (Some S) now a = list_cursors l (Some S) now b"
    by (simp add: list_cursors_def)
qed

interpretation authorization_query: scoped_query "\<lambda>s. list_authorizations s l revoked"
proof
  fix S a b
  assume ag: "agree_on S a b"
  have rows: "filter (listed (Some S) l revoked) (db_authorizations a) =
      filter (listed (Some S) l revoked) (db_authorizations b)"
    by (rule filter_within [OF agree_onD(8) [OF ag]]) (simp add: listed_def)
  have "operator_email a = operator_email b"
    unfolding operator_email_def agree_onD(1) [OF ag] ..
  then have "view_row a r = view_row b r" if "au_lea_id r \<in> S" for r
    using find_within [OF agree_onD(2) [OF ag], of "\<lambda>x. lr_id x = au_lea_id r"] that
    by (simp add: view_row_def lookup_by_def)
  then have "List.map_filter (view_row a) (filter (listed (Some S) l revoked) (db_authorizations b)) =
      List.map_filter (view_row b) (filter (listed (Some S) l revoked) (db_authorizations b))"
    by (intro map_filter_cong_set) (simp add: listed_def)
  with rows show "list_authorizations (Some S) l revoked a = list_authorizations (Some S) l revoked b"
    by (simp add: list_authorizations_def)
qed

lemma summary_seen:
  assumes "agree_on S a b" and "lr_id r \<in> S"
  shows "to_lea_summary now a r = to_lea_summary now b r"
proof -
  note d = agree_onD [OF assms(1)]
  have "latest_sync a (lr_id r) = latest_sync b (lr_id r)"
    unfolding latest_sync_def
    by (subst filter_within [OF d(5), of "\<lambda>j. sj_lea_id j = lr_id r \<and> sj_status j \<noteq> ''revert''"])
       (use assms(2) in auto)
  moreover have
    "count_where (\<lambda>s. sr_lea_id s = lr_id r \<and> sr_deleted_at s = None) (db_students a) =
     count_where (\<lambda>s. sr_lea_id s = lr_id r \<and> sr_deleted_at s = None) (db_students b)"
    by (rule count_within [OF d(3)]) (use assms(2) in simp)
  moreover have
    "count_where (\<lambda>e. er_lea_id e = lr_id r \<and> er_deleted_at e = None) (db_enrollments a) =
     count_where (\<lambda>e. er_lea_id e = lr_id r \<and> er_deleted_at e = None) (db_enrollments b)"
    by (rule count_within [OF d(4)]) (use assms(2) in simp)
  moreover have
    "count_where (\<lambda>j. sj_lea_id j = lr_id r \<and> sj_status j = ''running'') (db_sync_jobs a) =
     count_where (\<lambda>j. sj_lea_id j = lr_id r \<and> sj_status j = ''running'') (db_sync_jobs b)"
    by (rule count_within [OF d(5)]) (use assms(2) in simp)
  moreover have "find (\<lambda>c. cs_lea_id c = lr_id r) (db_cursors a) = find (\<lambda>c. cs_lea_id c = lr_id r) (db_cursors b)"
    by (rule find_within [OF d(7)]) (use assms(2) in simp)
  ultimately show ?thesis by (simp add: to_lea_summary_def Let_def)
qed

interpretation lea_query: scoped_query "\<lambda>s. list_leas s now"
proof
  fix S a b
  assume ag: "agree_on S a b"
  have rows: "filter (\<lambda>r. lr_deleted_at r = None \<and> in_scope (Some S) (lr_id r)) (db_leas a) =
      filter (\<lambda>r. lr_deleted_at r = None \<and> in_scope (Some S) (lr_id r)) (db_leas b)"
    by (rule filter_within [OF agree_onD(2) [OF ag]]) simp
  show "list_leas (Some S) now a = list_leas (Some S) now b"
    unfolding list_leas_def rows by (rule map_cong) (auto intro: summary_seen [OF ag])
qed

lemma branches_seen:
  assumes "agree_on S a b" and "jobs_keyed a" and "jobs_keyed b"
  shows "combined ts (Some S) a = combined ts (Some S) b"
proof -
  note d = agree_onD [OF assms(1)]
  have audit: "filter (\<lambda>al. case al_lea_id al of None \<Rightarrow> False | Some l \<Rightarrow> in_scope (Some S) l) (db_audit_log a) =
      filter (\<lambda>al. case al_lea_id al of None \<Rightarrow> False | Some l \<Rightarrow> in_scope (Some S) l) (db_audit_log b)"
    by (rule filter_within [OF d(9)]) (simp add: audit_in_def split: option.splits)
  have resolved: "filter (\<lambda>q. qr_resolved_at q \<noteq> None \<and> in_scope (Some S) (qr_lea_id q)) (db_quarantine a) =
      filter (\<lambda>q. qr_resolved_at q \<noteq> None \<and> in_scope (Some S) (qr_lea_id q)) (db_quarantine b)"
    by (rule filter_within [OF d(6)]) simp
  show ?thesis
    unfolding combined_def audit_branch_def syncs_branch_def retries_branch_def quarantine_created_branch_def
      quarantine_resolved_branch_def reconciliations_branch_def audit resolved operator_email_def d(1)
      reverts_seen [OF assms order_refl]
    by (simp add: d)
qed

interpretation timeline_query: scoped_query "\<lambda>s. list_timeline ts (f\<lparr>tf_lea_ids := s\<rparr>)"
proof
  fix S a b
  assume "agree_on S a b" "jobs_keyed a" "jobs_keyed b"
  from branches_seen [OF this]
  show "list_timeline ts (f\<lparr>tf_lea_ids := Some S\<rparr>) a = list_timeline ts (f\<lparr>tf_lea_ids := Some S\<rparr>) b"
    by (simp add: list_timeline_def)
qed

text \<open>The queries about one LEA, as queries whose scope is that LEA.\<close>

lemma syncs_seen:
  assumes "agree_on S a b" and "l \<in> S"
  shows "list_syncs_for_lea l p limit a = list_syncs_for_lea l p limit b"
  unfolding list_syncs_for_lea_def
  by (subst filter_within [OF agree_onD(5) [OF assms(1)]]) (use assms(2) in auto)

lemma runs_seen:
  assumes "agree_on S a b" and "l \<in> S"
  shows "list_reconciliation_runs_for_lea ft l p limit a = list_reconciliation_runs_for_lea ft l p limit b"
  unfolding list_reconciliation_runs_for_lea_def
  by (subst filter_within [OF agree_onD(12) [OF assms(1)]]) (use assms(2) in auto)

lemma lea_timeline_seen:
  assumes "agree_on S a b" and "jobs_keyed a" and "jobs_keyed b" and "l \<in> S"
  shows "list_timeline_for_lea ts l limit a = list_timeline_for_lea ts l limit b"
  unfolding list_timeline_for_lea_def
  using timeline_query.one_lea [OF assms, of ts
      "\<lparr>tf_lea_ids = None, tf_operator_id = None, tf_action_prefix = None, tf_since = None, tf_until = None,
        tf_cursor_occurred_at = None, tf_cursor_id = None, tf_limit = limit\<rparr>"]
  by simp

end
