(* ===== verification/ApiProperties.thy ===== *)
theory ApiProperties
  imports Tenancy
begin

text \<open>
  The properties of the admin API: authentication against the current tables, access control of
  every route, confidentiality of scoped reads, and the reads that have no scope.
\<close>

section \<open>Requests that read\<close>

fun is_read :: "request \<Rightarrow> bool" where
  "is_read (RetrySync job reason forced) = False"
| "is_read (RevertSync job reason) = False"
| "is_read (ReleaseQuarantine q) = False"
| "is_read (RejectQuarantine q reason) = False"
| "is_read (AuthorizeConnector l p reason seconds notes) = False"
| "is_read (RevokeConnector l p reason) = False"
| "is_read (AdjustPollInterval l p s reason) = False"
| "is_read (CreateLea b) = False"
| "is_read (TransitionLea l status reason) = False"
| "is_read _ = True"

lemma run_read: "is_read req \<Longrightarrow> run_route env c req oper db = (db, read_route env (ca_clock c 2) req oper db)"
  by (cases req) simp_all

section \<open>Authentication\<close>

text \<open>What a login may do to the database: the operators, whose names and states it keeps.\<close>

definition same_operator :: "operator_row \<Rightarrow> operator_row \<Rightarrow> bool" where
  "same_operator r r' \<longleftrightarrow> r' = r\<lparr>op_last_seen_at := op_last_seen_at r'\<rparr>"

definition login_only :: "db \<Rightarrow> db \<Rightarrow> bool" where
  "login_only db db' \<longleftrightarrow>
     db' = db\<lparr>db_operators := db_operators db'\<rparr> \<and>
     (\<exists>new. list_all2 same_operator (db_operators db @ new) (db_operators db') \<and>
        length new \<le> 1 \<and> (\<forall>r \<in> set new. op_status r = ''active''))"

lemma same_operator_refl [simp]: "same_operator r r"
  by (simp add: same_operator_def)

lemma login_only_refl [simp]: "login_only db db"
  by (auto simp: login_only_def list_all2_refl intro!: exI [of _ "[]"])

lemma touch_same: "list_all2 same_operator rows (update_where P (\<lambda>r. r\<lparr>op_last_seen_at := Some now\<rparr>) rows)"
  by (induction rows) (auto simp: update_where_def same_operator_def)

lemma login_touch:
  assumes "db1 = db\<lparr>db_operators := db_operators db @ new\<rparr>" and "length new \<le> 1"
    and "\<forall>r \<in> set new. op_status r = ''active''"
  shows "login_only db db1 \<and> login_only db (touch_operator i now db1)"
  using assms touch_same [of "db_operators db @ new"]
  by (auto simp: login_only_def touch_operator_def list_all2_refl intro!: exI [of _ new])

lemma load_or_create_cases:
  assumes "load_or_create_operator subject email name i now db = Inr ((j, status), db1)"
  obtains (known) r where "lookup_by op_subject subject (db_operators db) = Some r" "j = op_id r"
      "status = op_status r" "db1 = db"
  | (new) r where "lookup_by op_subject subject (db_operators db) = None" "j = i" "status = ''active''"
      "i \<notin> op_id ` set (db_operators db)" "op_id r = i" "op_subject r = subject" "op_email r = email"
      "op_status r = ''active''" "db1 = db\<lparr>db_operators := db_operators db @ [r]\<rparr>"
      "sql_lower email \<notin> (\<lambda>r. sql_lower (op_email r)) ` set (db_operators db)"
proof (cases "lookup_by op_subject subject (db_operators db)")
  case (Some r)
  with assms have "j = op_id r" "status = op_status r" "db1 = db"
    by (simp_all add: load_or_create_operator_def)
  with Some show thesis by (rule known)
next
  case None
  with assms have "i \<notin> op_id ` set (db_operators db)"
    "sql_lower email \<notin> (\<lambda>r. sql_lower (op_email r)) ` set (db_operators db)"
    by (auto simp: load_or_create_operator_def split: if_splits)
  with None assms(1) show thesis
    by (intro new [of "\<lparr>op_id = i, op_subject = subject, op_display_name = name, op_email = email,
        op_status = ''active'', op_created_at = now, op_last_seen_at = None\<rparr>"])
       (auto simp: load_or_create_operator_def)
qed

lemma load_or_create_login:
  assumes "load_or_create_operator subject email name i now db = Inr ((j, status), db1)"
  shows "\<exists>new. db1 = db\<lparr>db_operators := db_operators db @ new\<rparr> \<and> length new \<le> 1 \<and>
    (\<forall>r \<in> set new. op_status r = ''active'')"
  using assms by (cases rule: load_or_create_cases) (auto intro: exI [of _ "[]"])

lemma load_operator_login:
  assumes "load_operator subject email name i now db = (db', who)"
  shows "login_only db db'"
proof (cases "load_or_create_operator subject email name i now db")
  case (Inl e)
  with assms show ?thesis by (auto simp: load_operator_def)
next
  case (Inr x)
  obtain j status db1 where x: "x = ((j, status), db1)" by (metis prod.exhaust)
  from load_or_create_login [OF Inr [unfolded x]] login_touch
  have "login_only db db1" "login_only db (touch_operator j now db1)" by blast+
  with assms show ?thesis
    by (auto simp: load_operator_def Inr x Let_def split: if_splits option.splits)
qed

lemma current_operator_login:
  assumes "current_operator ft decode creds i now db = (db', who)"
  shows "login_only db db'"
  using assms load_operator_login
  by (auto simp: current_operator_def split: option.splits if_splits sum.splits prod.splits)

lemma current_operator_Inr:
  "current_operator ft decode creds i now db = (db', Inr oper) \<longleftrightarrow>
     (\<exists>token claims subject email name. creds = Some token \<and> token \<noteq> [] \<and> decode token = Inr claims \<and>
        token_identity ft claims = (subject, email, name) \<and> subject \<noteq> [] \<and>
        load_operator subject email name i now db = (db', Inr oper))"
  by (auto simp: current_operator_def split: option.splits if_splits sum.splits prod.splits)

lemma load_authorized_leas_iff:
  "l \<in> load_authorized_leas role i db \<longleftrightarrow> lea_undeleted db l \<and>
     (role \<in> {''owner'', ''admin'', ''auditor''} \<or>
      (\<exists>g \<in> set (db_grants db). og_operator_id g = i \<and> og_lea_id g = l \<and> og_revoked_at g = None))"
  unfolding load_authorized_leas_def lea_undeleted_def
  by (cases "role \<in> {''owner'', ''admin'', ''auditor''}") (simp_all add: image_iff, blast, metis)

lemma authorized_leas_login:
  "load_authorized_leas role i (touch_operator j now db) = load_authorized_leas role i db"
  "load_active_role i (touch_operator j now db) = load_active_role i db"
  "load_authorized_leas role i (db\<lparr>db_operators := ops\<rparr>) = load_authorized_leas role i db"
  "load_active_role i (db\<lparr>db_operators := ops\<rparr>) = load_active_role i db"
  by (auto simp: set_eq_iff load_authorized_leas_iff lea_undeleted_def touch_operator_def load_active_role_def)

text \<open>Roles belong to operators.\<close>

definition roles_owned :: "db \<Rightarrow> bool" where
  "roles_owned db \<longleftrightarrow> ol_operator_id ` set (db_roles db) \<subseteq> op_id ` set (db_operators db)"

lemma load_operator_Inr:
  assumes "roles_owned db"
  shows "load_operator subject email name i now db = (db', Inr oper) \<longleftrightarrow>
    (\<exists>r role. lookup_by op_subject subject (db_operators db) = Some r \<and> op_status r = ''active'' \<and>
       load_active_role (op_id r) db = Some role \<and> db' = touch_operator (op_id r) now db \<and>
       oper = \<lparr>oper_id = op_id r, oper_subject = subject, oper_email = email, oper_display_name = name,
         oper_role = role, oper_status = ''active'',
         oper_authorized_leas = load_authorized_leas role (op_id r) db\<rparr>)"
proof (cases "lookup_by op_subject subject (db_operators db)")
  case (Some r)
  then show ?thesis
    by (auto simp: load_operator_def load_or_create_operator_def Let_def authorized_leas_login split: option.splits)
next
  case None
  have "load_active_role i db = None" if "i \<notin> op_id ` set (db_operators db)"
    using assms that by (auto simp: load_active_role_def roles_owned_def find_None_iff)
  with None show ?thesis
    by (auto simp: load_operator_def load_or_create_operator_def Let_def authorized_leas_login split: if_splits)
qed

lemma authentication_found:
  assumes "roles_owned db"
  shows "(\<exists>db'. current_operator ft decode creds i now db = (db', Inr oper)) \<longleftrightarrow>
    (\<exists>token claims r. creds = Some token \<and> token \<noteq> [] \<and> decode token = Inr claims \<and>
       token_identity ft claims = (oper_subject oper, oper_email oper, oper_display_name oper) \<and>
       oper_subject oper \<noteq> [] \<and>
       lookup_by op_subject (oper_subject oper) (db_operators db) = Some r \<and>
       op_status r = ''active'' \<and> oper_status oper = ''active'' \<and> oper_id oper = op_id r \<and>
       load_active_role (op_id r) db = Some (oper_role oper) \<and>
       (\<forall>l. l \<in> oper_authorized_leas oper \<longleftrightarrow> lea_undeleted db l \<and>
          (oper_role oper \<in> {''owner'', ''admin'', ''auditor''} \<or>
           (\<exists>g \<in> set (db_grants db). og_operator_id g = op_id r \<and> og_lea_id g = l \<and> og_revoked_at g = None))))"
    (is "?L \<longleftrightarrow> ?R")
proof
  assume ?L
  then show ?R
    unfolding current_operator_Inr load_operator_Inr [OF assms] by (auto simp: load_authorized_leas_iff)
next
  assume ?R
  then obtain token claims r where t: "creds = Some token" "token \<noteq> []" "decode token = Inr claims"
    "token_identity ft claims = (oper_subject oper, oper_email oper, oper_display_name oper)"
    "oper_subject oper \<noteq> []"
    and r: "lookup_by op_subject (oper_subject oper) (db_operators db) = Some r" "op_status r = ''active''"
      "load_active_role (op_id r) db = Some (oper_role oper)" "oper_status oper = ''active''" "oper_id oper = op_id r"
    and leas: "\<And>l. l \<in> oper_authorized_leas oper \<longleftrightarrow> l \<in> load_authorized_leas (oper_role oper) (op_id r) db"
    unfolding load_authorized_leas_iff by blast
  have "oper_authorized_leas oper = load_authorized_leas (oper_role oper) (op_id r) db"
    using leas by blast
  then have "oper = \<lparr>oper_id = op_id r, oper_subject = oper_subject oper, oper_email = oper_email oper,
      oper_display_name = oper_display_name oper, oper_role = oper_role oper, oper_status = ''active'',
      oper_authorized_leas = load_authorized_leas (oper_role oper) (op_id r) db\<rparr>"
    using r by simp
  with r have "load_operator (oper_subject oper) (oper_email oper) (oper_display_name oper) i now db =
      (touch_operator (op_id r) now db, Inr oper)"
    unfolding load_operator_Inr [OF assms] by blast
  with t show ?L unfolding current_operator_Inr by blast
qed

text \<open>The partial unique index of the roles: an operator has at most one that nobody revoked.\<close>

definition one_active_role :: "db \<Rightarrow> bool" where
  "one_active_role db \<longleftrightarrow> (\<forall>x \<in> set (db_roles db). \<forall>y \<in> set (db_roles db).
     ol_operator_id x = ol_operator_id y \<and> ol_revoked_at x = None \<and> ol_revoked_at y = None \<longrightarrow> x = y)"

lemma load_active_role_iff:
  assumes "one_active_role db"
  shows "load_active_role i db = Some role \<longleftrightarrow>
    (\<exists>x \<in> set (db_roles db). ol_operator_id x = i \<and> ol_revoked_at x = None \<and> ol_role x = role)"
proof (cases "find (\<lambda>r. ol_operator_id r = i \<and> ol_revoked_at r = None) (db_roles db)")
  case (Some x)
  then have x: "x \<in> set (db_roles db)" "ol_operator_id x = i" "ol_revoked_at x = None"
    by (auto simp: find_Some_iff)
  with assms have "y = x" if "y \<in> set (db_roles db)" "ol_operator_id y = i" "ol_revoked_at y = None" for y
    using that unfolding one_active_role_def by blast
  then have "(\<exists>y \<in> set (db_roles db). ol_operator_id y = i \<and> ol_revoked_at y = None \<and> ol_role y = role) \<longleftrightarrow>
      ol_role x = role"
    using x by blast
  then show ?thesis by (simp add: load_active_role_def Some)
next
  case None
  then have "\<not> (\<exists>x \<in> set (db_roles db). ol_operator_id x = i \<and> ol_revoked_at x = None)"
    by (auto simp: find_None_iff)
  then show ?thesis by (auto simp: load_active_role_def None)
qed

text \<open>
  C17. Authentication is exact and current: a request gets an operator exactly when its token is
  valid and names the subject of a row that is active and has a role nobody revoked; the role is
  that one, and the LEAs are the undeleted ones, for the role operator those with a grant nobody
  revoked. So a disabled account, a revoked role, a revoked grant and a deleted LEA take effect with
  the next request.
\<close>

theorem authentication_exact:
  assumes "roles_owned db" and "one_active_role db"
  shows "(\<exists>db'. current_operator ft decode creds i now db = (db', Inr oper)) \<longleftrightarrow>
    (\<exists>token claims r. creds = Some token \<and> token \<noteq> [] \<and> decode token = Inr claims \<and>
       token_identity ft claims = (oper_subject oper, oper_email oper, oper_display_name oper) \<and>
       oper_subject oper \<noteq> [] \<and>
       lookup_by op_subject (oper_subject oper) (db_operators db) = Some r \<and>
       op_status r = ''active'' \<and> oper_status oper = ''active'' \<and> oper_id oper = op_id r \<and>
       (\<exists>x \<in> set (db_roles db). ol_operator_id x = op_id r \<and> ol_revoked_at x = None \<and> ol_role x = oper_role oper) \<and>
       (\<forall>l. l \<in> oper_authorized_leas oper \<longleftrightarrow> lea_undeleted db l \<and>
          (oper_role oper \<in> {''owner'', ''admin'', ''auditor''} \<or>
           (\<exists>g \<in> set (db_grants db). og_operator_id g = op_id r \<and> og_lea_id g = l \<and> og_revoked_at g = None))))"
  unfolding authentication_found [OF assms(1)] load_active_role_iff [OF assms(2)] ..

text \<open>
  A second newcomer without an e-mail cannot log in: the first request of an unknown subject
  stores the e-mail of its token, the empty text when the token has none, and the unique index on
  the lower-cased e-mail lets only one such row in. The second subject is not told that it lacks a
  role, as the first one is, but gets an internal error, and so will every later one.
\<close>

theorem second_login_without_email:
  assumes "decode t1 = Inr c1" "decode t2 = Inr c2" "t1 \<noteq> []" "t2 \<noteq> []"
    and "token_identity ft c1 = (s1, [], n1)" "token_identity ft c2 = (s2, [], n2)"
    and "s1 \<noteq> []" "s2 \<noteq> []" "s1 \<noteq> s2" "roles_owned db"
    and "\<forall>r \<in> set (db_operators db). op_subject r \<notin> {s1, s2} \<and> op_email r \<noteq> []"
    and "i1 \<notin> op_id ` set (db_operators db)" "i2 \<notin> op_id ` set (db_operators db)" "i1 \<noteq> i2"
  shows "\<exists>db1. current_operator ft decode (Some t1) i1 now db =
      (db1, Inl (HTTPException 403 ''Operator has no active role. Contact an owner to grant access.'')) \<and>
    current_operator ft decode (Some t2) i2 now' db1 = (db1, Inl (UniqueViolation ''uq_operator_email_ci'')) \<and>
    pd_status (problem_of message path (UniqueViolation ''uq_operator_email_ci'')) = 500"
proof -
  let ?r = "\<lparr>op_id = i1, op_subject = s1, op_display_name = n1, op_email = [], op_status = ''active'',
    op_created_at = now, op_last_seen_at = None\<rparr>"
  let ?db0 = "db\<lparr>db_operators := db_operators db @ [?r]\<rparr>"
  let ?db1 = "touch_operator i1 now ?db0"
  have none: "lookup_by op_subject s (db_operators db) = None" if "s \<in> {s1, s2}" for s
    using assms(11) that by (auto simp: lookup_by_None_iff)
  have "load_or_create_operator s1 [] n1 i1 now db = Inr ((i1, ''active''), ?db0)"
    using assms(11,12) none by (auto simp: load_or_create_operator_def sql_lower_def)
  moreover have "load_active_role i1 db = None"
    using assms(10,12) by (auto simp: load_active_role_def roles_owned_def find_None_iff)
  ultimately have "load_operator s1 [] n1 i1 now db =
      (?db1, Inl (HTTPException 403 ''Operator has no active role. Contact an owner to grant access.''))"
    by (simp add: load_operator_def Let_def authorized_leas_login)
  then have one: "current_operator ft decode (Some t1) i1 now db =
      (?db1, Inl (HTTPException 403 ''Operator has no active role. Contact an owner to grant access.''))"
    using assms(1,3,5,7) by (simp add: current_operator_def)
  have ops: "map op_subject (db_operators ?db1) = map op_subject (db_operators db) @ [s1]"
    "map op_id (db_operators ?db1) = map op_id (db_operators db) @ [i1]"
    "map op_email (db_operators ?db1) = map op_email (db_operators db) @ [[]]"
    by (simp_all add: touch_operator_def update_where_def)
  have "op_id ` set (db_operators ?db1) = insert i1 (op_id ` set (db_operators db))"
    using arg_cong [OF ops(2), of set] by simp
  moreover have "lookup_by op_subject s2 (db_operators ?db1) = None"
    unfolding lookup_by_None_iff using arg_cong [OF ops(1), of set] assms(9,11) by auto
  moreover have "[] \<in> set (map op_email (db_operators ?db1))" unfolding ops by simp
  then have "sql_lower [] \<in> (\<lambda>r. sql_lower (op_email r)) ` set (db_operators ?db1)" by force
  ultimately have "load_or_create_operator s2 [] n2 i2 now' ?db1 = Inl (UniqueViolation ''uq_operator_email_ci'')"
    using assms(13,14) by (simp add: load_or_create_operator_def)
  then have "current_operator ft decode (Some t2) i2 now' ?db1 = (?db1, Inl (UniqueViolation ''uq_operator_email_ci''))"
    using assms(2,4,6,8) by (simp add: current_operator_def load_operator_def)
  with one show ?thesis by (auto simp: problem_of_def problem_response_def)
qed

section \<open>Access control\<close>

text \<open>The routes that name a sync job or a quarantine row act on the LEA of that row.\<close>

fun has_target :: "request \<Rightarrow> bool" where
  "has_target (RetrySync job reason forced) = True"
| "has_target (RevertSync job reason) = True"
| "has_target (ReleaseQuarantine q) = True"
| "has_target (RejectQuarantine q reason) = True"
| "has_target _ = False"

fun target_lea :: "request \<Rightarrow> db \<Rightarrow> lea_id option" where
  "target_lea (RetrySync job reason forced) db = map_option sj_lea_id (lookup_by sj_id job (db_sync_jobs db))"
| "target_lea (RevertSync job reason) db = map_option sj_lea_id (lookup_by sj_id job (db_sync_jobs db))"
| "target_lea (ReleaseQuarantine q) db = map_option qr_lea_id (lookup_by qr_id q (db_quarantine db))"
| "target_lea (RejectQuarantine q reason) db = map_option qr_lea_id (lookup_by qr_id q (db_quarantine db))"
| "target_lea _ db = None"

lemma load_target:
  "res_bind (load_sync_job_lea job db) (assert_authorized S) = Inr u \<longleftrightarrow>
     (\<exists>l. map_option sj_lea_id (lookup_by sj_id job (db_sync_jobs db)) = Some l \<and> l \<in> S)"
  "res_bind (load_quarantine_lea q db) (assert_authorized S) = Inr u \<longleftrightarrow>
     (\<exists>l. map_option qr_lea_id (lookup_by qr_id q (db_quarantine db)) = Some l \<and> l \<in> S)"
  by (auto simp: load_sync_job_lea_def load_quarantine_lea_def assert_authorized_def ensure_def
      split: option.splits)

lemmas target_routes = retry_sync_def revert_sync_def release_quarantine_def reject_quarantine_def

lemma target_gate:
  assumes "has_target req" and "\<not> (\<exists>l. target_lea req db = Some l \<and> l \<in> oper_authorized_leas oper)"
  shows "\<exists>e. run_route env c req oper db = (db, Inl e)"
proof -
  have stop: "\<exists>e. (case x of Inl e \<Rightarrow> (db, Inl e) | Inr u \<Rightarrow> f u) = (db, Inl e)"
    if "\<And>u. x \<noteq> Inr u" for x :: "exn + unit" and f :: "unit \<Rightarrow> db \<times> (exn + response)"
    using that by (cases x) auto
  show ?thesis
    using assms by (cases req) (simp_all add: target_routes, (rule stop, simp only: load_target, simp)+)
qed

lemma require_role_Inr:
  "require_role m oper = Inr oper' \<longleftrightarrow>
     oper' = oper \<and> (\<exists>allowed. map_of ROLES_SATISFYING m = Some allowed \<and> oper_role oper \<in> set allowed)"
  by (auto simp: require_role_def split: option.splits)

lemma gate_Inr:
  "gate req oper = Inr oper' \<longleftrightarrow>
     oper' = oper \<and> (\<exists>allowed. map_of ROLES_SATISFYING (min_role req) = Some allowed \<and> oper_role oper \<in> set allowed) \<and>
     (\<forall>l. scoped_lea req = Some l \<and> oper_role oper = ''operator'' \<longrightarrow> l \<in> oper_authorized_leas oper)"
  by (auto simp: gate_def require_lea_scope_at_def require_role_Inr res_simps split: option.splits if_splits)

text \<open>
  C13. Every request passes the gates before it has any effect: a request authenticates first,
  which touches the operators only; beyond that it changes the database, or succeeds, only for an
  operator whose role the route admits, with parameters within their bounds, for a LEA among its
  grants when the route is scoped to one, and for a LEA among its LEAs when the route acts on a sync
  job or a quarantine row; and a route that reads changes nothing.
\<close>

theorem api_access_control:
  assumes "handle env c req db = (db', res)"
  shows "\<exists>db1 who.
    current_operator (en_float env) (en_decode env) (ca_creds c) (ca_ids c 1) (ca_clock c 3) db = (db1, who) \<and>
    login_only db db1 \<and>
    (db' = db1 \<and> isl res \<or>
     (\<exists>oper. who = Inr oper \<and> valid_request req \<and> (is_read req \<longrightarrow> db' = db1) \<and>
        (\<exists>allowed. map_of ROLES_SATISFYING (min_role req) = Some allowed \<and> oper_role oper \<in> set allowed) \<and>
        (\<forall>l. scoped_lea req = Some l \<and> oper_role oper = ''operator'' \<longrightarrow> l \<in> oper_authorized_leas oper) \<and>
        (has_target req \<longrightarrow> (\<exists>l. target_lea req db1 = Some l \<and> l \<in> oper_authorized_leas oper))))"
proof -
  obtain db1 who where login:
    "current_operator (en_float env) (en_decode env) (ca_creds c) (ca_ids c 1) (ca_clock c 3) db = (db1, who)"
    by (metis prod.exhaust)
  note frame = current_operator_login [OF login]
  show ?thesis
  proof (cases who)
    case (Inl e)
    with assms login frame show ?thesis by (auto simp: handle_def)
  next
    case (Inr oper)
    show ?thesis
    proof (cases "(\<exists>oper'. gate req oper = Inr oper') \<and> valid_request req")
      case False
      with assms login frame Inr show ?thesis by (auto simp: handle_def split: sum.splits)
    next
      case True
      then have run: "run_route env c req oper db1 = (db', res)"
        using assms by (auto simp: handle_def login Inr simp del: One_nat_def)
      have gates: "(\<exists>allowed. map_of ROLES_SATISFYING (min_role req) = Some allowed \<and> oper_role oper \<in> set allowed)"
        "\<forall>l. scoped_lea req = Some l \<and> oper_role oper = ''operator'' \<longrightarrow> l \<in> oper_authorized_leas oper"
        using True unfolding gate_Inr by blast+
      have read: "is_read req \<longrightarrow> db' = db1" using run run_read by auto
      show ?thesis
      proof (cases "has_target req \<longrightarrow> (\<exists>l. target_lea req db1 = Some l \<and> l \<in> oper_authorized_leas oper)")
        case True
        with gates read login frame Inr \<open>(\<exists>oper'. gate req oper = Inr oper') \<and> valid_request req\<close>
        show ?thesis by blast
      next
        case False
        with target_gate [of req db1 oper env c] run have "db' = db1" "isl res" by auto
        with login frame show ?thesis by blast
      qed
    qed
  qed
qed

section \<open>Confidentiality\<close>

fun unscoped :: "request \<Rightarrow> bool" where
  "unscoped ListAlerts = True"
| "unscoped SyncActivity = True"
| "unscoped (SyncDetail job) = True"
| "unscoped _ = False"

text \<open>
  C14. Reads respect the scope: what the role \<open>operator\<close> gets from a read that is not one of the
  three cross-LEA ones depends on the rows of its own LEAs only. Two databases that agree on these
  rows give the same answer, however much they differ on every other LEA.
\<close>

theorem scoped_reads_confidential:
  assumes "oper_role oper = ''operator''" and "gate req oper = Inr oper'"
    and "is_read req" and "\<not> unscoped req"
    and "agree_on (oper_authorized_leas oper) a b" and "jobs_keyed a" and "jobs_keyed b"
  shows "read_route env now req oper a = read_route env now req oper b"
proof -
  note route = assms(1,5,6,7)
  have scope: "scoped_lea req = Some l \<Longrightarrow> l \<in> oper_authorized_leas oper" for l
    using assms(1,2) unfolding gate_Inr by blast
  show ?thesis
  proof (cases req)
    case (ListAudit who pfx since til cur_at cur_id limit)
    let ?f = "\<lparr>tf_lea_ids = None, tf_operator_id = who, tf_action_prefix = pfx, tf_since = since,
      tf_until = til, tf_cursor_occurred_at = cur_at, tf_cursor_id = cur_id, tf_limit = nat limit\<rparr>"
    have "list_timeline (en_json_time env) (?f\<lparr>tf_lea_ids := read_scope oper\<rparr>) a =
        list_timeline (en_json_time env) (?f\<lparr>tf_lea_ids := read_scope oper\<rparr>) b"
      by (rule timeline_query.route_within_scope [OF route])
    then show ?thesis by (simp add: ListAudit list_audit_entries_def)
  qed (use assms(3,4) scope quarantine_query.route_within_scope [OF route]
      authorization_query.route_within_scope [OF route] lea_query.route_within_scope [OF route]
      cursor_query.route_within_scope [OF route] lea_timeline_seen [OF assms(5-7)]
      syncs_seen [OF assms(5)] runs_seen [OF assms(5)] in
      \<open>simp_all add: list_quarantine_def list_connectors_def list_leas_route_def list_cursors_route_def\<close>)
qed

text \<open>
  Three reads have no scope: every role passes their gate, and an operator without a single
  grant gets the detail of any sync job whose id it knows, with the ids of its quarantined
  entities, and an alert that names any LEA whose quarantine grows, as the owner does.
\<close>

theorem unscoped_reads_leak:
  assumes "oper_role oper \<in> {''operator'', ''auditor'', ''admin'', ''owner''}"
    and "lookup_by sj_id job (db_sync_jobs db) = Some j"
    and "evaluate_reconciliation_drift (en_iso_time env) (en_float env) 24 now db = Inr drift"
    and "quarantine_count now 24 (db_quarantine db) l > QUARANTINE_GROWTH_THRESHOLD"
  shows "gate (SyncDetail job) oper = Inr oper \<and> gate ListAlerts oper = Inr oper \<and> gate SyncActivity oper = Inr oper \<and>
    (\<exists>d. read_route env now (SyncDetail job) oper db = Inr (SyncJobDetail d) \<and> sy_sync d = j \<and>
       sy_quarantined_entity_ids d = map qr_entity_id (filter (\<lambda>q. qr_sync_job_id q = job) (db_quarantine db))) \<and>
    (\<exists>alerts. read_route env now ListAlerts oper db = Inr (Alerts alerts) \<and>
       (\<exists>al \<in> set alerts. (''lea_id'', l) \<in> set (ar_properties al)))"
proof -
  have gates: "gate req oper = Inr oper" if "min_role req = ''auditor''" "scoped_lea req = None" for req
    using assms(1) that by (auto simp: gate_Inr ROLES_SATISFYING_def)
  have detail: "\<exists>d. read_route env now (SyncDetail job) oper db = Inr (SyncJobDetail d) \<and> sy_sync d = j \<and>
      sy_quarantined_entity_ids d = map qr_entity_id (filter (\<lambda>q. qr_sync_job_id q = job) (db_quarantine db))"
    using assms(2) by (simp add: sync_detail_route_def get_sync_detail_def)
  let ?al = "emit ''alert.quarantine_growth'' ''warning'' (''alert.quarantine_growth:'' @ l)
      [(''lea_id'', l), (''window_hours'', string_of_int 24),
       (''threshold'', string_of_nat QUARANTINE_GROWTH_THRESHOLD)]
      [(''unresolved_count'', of_nat (quarantine_count now 24 (db_quarantine db) l))]"
  have "l \<in> qr_lea_id ` {q \<in> set (db_quarantine db). recent_unresolved now 24 q}"
  proof -
    from assms(4) have "filter (\<lambda>q. recent_unresolved now 24 q \<and> qr_lea_id q = l) (db_quarantine db) \<noteq> []"
      by (auto simp: quarantine_count_def count_where_def)
    then show ?thesis by (auto simp: filter_empty_conv)
  qed
  with assms(4) have al: "?al \<in> set (evaluate_quarantine_growth QUARANTINE_GROWTH_THRESHOLD 24 now db)"
    by (auto simp: evaluate_quarantine_growth_def Let_def intro!: image_eqI [of _ _ l])
  have "(''lea_id'', l) \<in> set (ar_properties ?al)" by (simp add: emit_def)
  with al have alerts: "\<exists>alerts. read_route env now ListAlerts oper db = Inr (Alerts alerts) \<and>
       (\<exists>al \<in> set alerts. (''lea_id'', l) \<in> set (ar_properties al))"
    unfolding read_route.simps list_active_alerts_def assms(3) by (force simp del: emit_sel)
  show ?thesis
    by (intro conjI gates detail alerts) simp_all
qed

section \<open>Concrete inputs\<close>

text \<open>
  A database of two LEAs with a sync job each and thirty quarantined rows of the second; Ann is an
  operator with a grant for the first, Cid is an administrator. A token is its claims' subject.
\<close>

definition s_operator :: "uuid \<Rightarrow> string \<Rightarrow> operator_row" where
  "s_operator i s =
     \<lparr>op_id = i, op_subject = s, op_display_name = s, op_email = s @ ''@x'', op_status = ''active'',
      op_created_at = 0, op_last_seen_at = None\<rparr>"

definition s_role :: "uuid \<Rightarrow> string \<Rightarrow> role_row" where
  "s_role i r =
     \<lparr>ol_id = i, ol_operator_id = i, ol_role = r, ol_granted_at = 0, ol_granted_by = 2,
      ol_revoked_at = None, ol_revoked_by = None, ol_reason = ''hired''\<rparr>"

definition s_lea :: "lea_id \<Rightarrow> lea_row" where
  "s_lea l = new_lea_row l l ''traditional_district'' ''NY'' None None"

definition s_job :: "uuid \<Rightarrow> lea_id \<Rightarrow> string \<Rightarrow> timestamp \<Rightarrow> sync_job" where
  "s_job i l st t =
     \<lparr>sj_id = i, sj_lea_id = l, sj_partner = ''edlink'', sj_status = st, sj_started_at = t,
      sj_completed_at = Some (t + 1), sj_event_count = 1, sj_error_count = 0, sj_warning_count = 0,
      sj_cursor_before = None, sj_cursor_after = Some ''e9'', sj_error_summary = None\<rparr>"

definition s_orphan :: "uuid \<Rightarrow> lea_id \<Rightarrow> uuid \<Rightarrow> quarantine_row" where
  "s_orphan i l job =
     \<lparr>qr_id = i, qr_sync_job_id = job, qr_lea_id = l, qr_entity_type = ''enrollment'',
      qr_entity_id = ''enr-1'', qr_reason = ''orphan'', qr_raw_payload = JNull, qr_created_at = 90,
      qr_resolved_at = None, qr_resolution_status = None, qr_resolution_operator = None\<rparr>"

definition s_api_db :: db where
  "s_api_db = empty_db
     \<lparr>db_leas := [s_lea ''lea-1'', s_lea ''lea-2''],
      db_operators := [s_operator 1 ''ann'', s_operator 2 ''cid''],
      db_roles := [s_role 1 ''operator'', s_role 2 ''admin''],
      db_grants := [\<lparr>og_id = 1, og_operator_id = 1, og_lea_id = ''lea-1'', og_granted_at = 0,
        og_granted_by = 2, og_revoked_at = None, og_revoked_by = None, og_reason = ''hired''\<rparr>],
      db_sync_jobs := [s_job 10 ''lea-1'' ''success'' 50, s_job 20 ''lea-2'' ''success'' 60],
      db_quarantine := map (\<lambda>i. s_orphan i ''lea-2'' 20) [0..<30],
      db_next_id := 100\<rparr>"

definition s_env :: api_env where
  "s_env = \<lparr>en_sha = (\<lambda>s. s), en_float = (\<lambda>_. ''0.5''), en_json_time = string_of_int,
     en_iso_time = string_of_int, en_decode = (\<lambda>t. Inr [(''sub'', JStr t)]), en_message = (\<lambda>_. ''refused''),
     en_field_errors = (\<lambda>_. ''invalid'')\<rparr>"

definition s_call :: "string \<Rightarrow> api_call" where
  "s_call who = \<lparr>ca_creds = Some who, ca_path = ''/x'', ca_key = Some ''k1'', ca_envs = [],
     ca_clock = (\<lambda>n. 100 + int n), ca_ids = (\<lambda>n. 200 + n)\<rparr>"

definition s_ann :: operator where
  "s_ann = \<lparr>oper_id = 1, oper_subject = ''ann'', oper_email = [], oper_display_name = ''ann'',
     oper_role = ''operator'', oper_status = ''active'', oper_authorized_leas = {''lea-1''}\<rparr>"

lemmas api_samples = s_operator_def s_role_def s_lea_def s_job_def s_orphan_def s_api_db_def s_env_def
  s_call_def s_ann_def empty_db_def new_lea_row_def

lemma s_roles_owned: "roles_owned s_api_db"
  by (simp add: roles_owned_def api_samples)

lemma s_one_role: "one_active_role s_api_db"
  by (simp add: one_active_role_def api_samples s_role_def)

lemma s_identity:
  "token_identity (en_float s_env) [(''sub'', JStr ''ann'')] = (''ann'', [], ''ann'')"
  "token_identity (en_float s_env) [(''sub'', JStr ''dan'')] = (''dan'', [], ''dan'')"
  "token_identity (en_float s_env) [(''sub'', JStr ''eve'')] = (''eve'', [], ''eve'')"
  by code_simp+

lemma s_ann_sel:
  "oper_id s_ann = 1" "oper_subject s_ann = ''ann''" "oper_email s_ann = []" "oper_display_name s_ann = ''ann''"
  "oper_role s_ann = ''operator''" "oper_status s_ann = ''active''" "oper_authorized_leas s_ann = {''lea-1''}"
  by (simp_all add: s_ann_def)

lemma s_ann_grants:
  "lea_undeleted s_api_db ''lea-1''"
  "(\<exists>g \<in> set (db_grants s_api_db). og_operator_id g = 1 \<and> og_lea_id g = l \<and> og_revoked_at g = None) \<longleftrightarrow>
     l = ''lea-1''"
  by (auto simp: api_samples lea_undeleted_def)

theorem authentication_exact_witness:
  "\<exists>db'. current_operator (en_float s_env) (en_decode s_env) (Some ''ann'') 9 100 s_api_db = (db', Inr s_ann)"
proof -
  have "lookup_by op_subject ''ann'' (db_operators s_api_db) = Some (s_operator 1 ''ann'')"
    "\<exists>x \<in> set (db_roles s_api_db). ol_operator_id x = 1 \<and> ol_revoked_at x = None \<and> ol_role x = ''operator''"
    by (simp_all add: api_samples lookup_by_def s_role_def)
  moreover have "op_id (s_operator 1 ''ann'') = 1" "op_status (s_operator 1 ''ann'') = ''active''"
    "en_decode s_env ''ann'' = Inr [(''sub'', JStr ''ann'')]"
    by (simp_all add: s_operator_def s_env_def)
  ultimately show ?thesis
    unfolding authentication_exact [OF s_roles_owned s_one_role]
    by (intro exI [of _ "''ann''"] exI [of _ "[(''sub'', JStr ''ann'')]"] exI [of _ "s_operator 1 ''ann''"])
       (auto simp: s_identity s_ann_sel s_ann_grants simp del: One_nat_def)
qed

theorem second_login_without_email_witness:
  "\<exists>db1. snd (current_operator (en_float s_env) (en_decode s_env) (Some ''dan'') 3 100 s_api_db) =
      Inl (HTTPException 403 ''Operator has no active role. Contact an owner to grant access.'') \<and>
    snd (current_operator (en_float s_env) (en_decode s_env) (Some ''eve'') 4 101 db1) =
      Inl (UniqueViolation ''uq_operator_email_ci'')"
proof -
  have decode: "en_decode s_env t = Inr [(''sub'', JStr t)]" for t by (simp add: s_env_def)
  have ops: "\<forall>r \<in> set (db_operators s_api_db). op_subject r \<notin> {''dan'', ''eve''} \<and> op_email r \<noteq> []"
    "3 \<notin> op_id ` set (db_operators s_api_db)" "4 \<notin> op_id ` set (db_operators s_api_db)"
    by (simp_all add: api_samples)
  obtain db1 where
    "current_operator (en_float s_env) (en_decode s_env) (Some ''dan'') 3 100 s_api_db =
       (db1, Inl (HTTPException 403 ''Operator has no active role. Contact an owner to grant access.''))"
    "current_operator (en_float s_env) (en_decode s_env) (Some ''eve'') 4 101 db1 =
       (db1, Inl (UniqueViolation ''uq_operator_email_ci''))"
    using second_login_without_email [OF decode decode _ _ s_identity(2,3) _ _ _ s_roles_owned ops, of 100 101]
    by auto
  then show ?thesis by (intro exI [of _ db1]) simp
qed

text \<open>Ann retries the job of the other LEA: the route is open to operators, the job is not.\<close>

definition s_login :: "db \<times> (exn + operator)" where
  "s_login = current_operator (en_float s_env) (en_decode s_env) (ca_creds (s_call ''ann''))
      (ca_ids (s_call ''ann'') 1) (ca_clock (s_call ''ann'') 3) s_api_db"

theorem api_access_control_witness:
  "isl (snd (handle s_env (s_call ''ann'') (RetrySync 20 ''again'' True) s_api_db)) \<and>
   \<not> isl (snd (handle s_env (s_call ''ann'') (RetrySync 10 ''again'' True) s_api_db))"
proof -
  obtain db' res where run: "handle s_env (s_call ''ann'') (RetrySync 20 ''again'' True) s_api_db = (db', res)"
    by (metis prod.exhaust)
  have own: "oper_authorized_leas (projr (snd s_login)) = {''lea-1''}"
    "target_lea (RetrySync 20 ''again'' True) (fst s_login) = Some ''lea-2''" by code_simp+
  have "isl res"
  proof (rule ccontr)
    assume "\<not> isl res"
    with api_access_control [OF run] obtain oper where
      "snd s_login = Inr oper"
      "\<exists>l. target_lea (RetrySync 20 ''again'' True) (fst s_login) = Some l \<and> l \<in> oper_authorized_leas oper"
      unfolding s_login_def by (auto simp del: target_lea.simps One_nat_def)
    with own show False by (simp del: target_lea.simps)
  qed
  moreover have "\<not> isl (snd (handle s_env (s_call ''ann'') (RetrySync 10 ''again'' True) s_api_db))" by code_simp
  ultimately show ?thesis by (simp add: run)
qed

text \<open>The two LEAs' databases that differ on the second LEA look the same to Ann.\<close>

theorem scoped_reads_confidential_witness:
  "read_route s_env 100 (ListSyncs ''lea-1'' 10 ''edlink'') s_ann s_api_db =
   read_route s_env 100 (ListSyncs ''lea-1'' 10 ''edlink'') s_ann
     (s_api_db\<lparr>db_quarantine := [], db_sync_jobs := [s_job 10 ''lea-1'' ''success'' 50]\<rparr>)"
proof (rule scoped_reads_confidential)
  show "gate (ListSyncs ''lea-1'' 10 ''edlink'') s_ann = Inr s_ann"
    by (simp add: gate_Inr s_ann_def ROLES_SATISFYING_def)
qed (simp_all add: agree_on_def jobs_keyed_def api_samples revert_in_def)

theorem unscoped_reads_leak_witness:
  "\<exists>alerts. read_route s_env 100 ListAlerts s_ann s_api_db = Inr (Alerts alerts) \<and>
     (\<exists>al \<in> set alerts. (''lea_id'', ''lea-2'') \<in> set (ar_properties al))"
proof -
  have job: "lookup_by sj_id 20 (db_sync_jobs s_api_db) = Some (s_job 20 ''lea-2'' ''success'' 60)"
    by (simp add: api_samples lookup_by_def)
  have "evaluate_reconciliation_drift (en_iso_time s_env) (en_float s_env) 24 100 s_api_db = Inr []"
    by (simp add: evaluate_reconciliation_drift_def latest_runs_def api_samples)
  moreover have "QUARANTINE_GROWTH_THRESHOLD < quarantine_count 100 24 (db_quarantine s_api_db) ''lea-2''"
    by code_simp
  moreover have "oper_role s_ann \<in> {''operator'', ''auditor'', ''admin'', ''owner''}"
    by (simp add: s_ann_def)
  ultimately show ?thesis using unscoped_reads_leak [OF _ job, of s_ann s_env 100 "[]" "''lea-2''"] by blast
qed

end
