(* ===== verification/TimelineProperties.thy ===== *)
theory TimelineProperties
  imports ApiProperties RevertProperties
begin

text \<open>
  The properties of the activity timeline: the audit explorer pages through all of it, every
  operator action is in it, and what it shows of reverts, rejections and releases.
\<close>

section \<open>Paging\<close>

lemma sort_desc_filter: "sort_desc k (filter P rows) = filter P (sort_desc k rows)"
  by (simp add: sort_desc_def filter_sort rev_filter [symmetric])

lemma sort_desc_sorted: "sorted_wrt (\<lambda>a b. k b \<le> k a) (sort_desc k rows)"
  by (simp add: sort_desc_def sorted_wrt_rev sorted_sort_key [unfolded sorted_map])

lemma distinct_sort_desc: "distinct (map k rows) \<Longrightarrow> distinct (map k (sort_desc k rows))"
proof -
  assume "distinct (map k rows)"
  moreover have "mset (map k (sort_desc k rows)) = mset (map k rows)" by (simp add: sort_desc_def)
  ultimately show ?thesis by (metis mset_eq_imp_distinct_iff)
qed

text \<open>In a strictly descending list, the rows below a row are those after it.\<close>

lemma rows_after:
  fixes k :: "'r \<Rightarrow> 'k::linorder"
  assumes "sorted_wrt (\<lambda>a b. k b \<le> k a) rows" and "distinct (map k rows)" and "m < length rows"
  shows "filter (\<lambda>r. k r < k (rows ! m)) rows = drop (Suc m) rows"
proof -
  have split: "rows = take m rows @ rows ! m # drop (Suc m) rows"
    using assms(3) by (rule id_take_nth_drop)
  have above: "\<not> k r < k (rows ! m)" if r: "r \<in> set (take m rows)" for r
  proof -
    from r obtain i where "i < m" "r = rows ! i" by (auto simp: in_set_conv_nth)
    with assms(1,3) have "k (rows ! m) \<le> k r" by (simp add: sorted_wrt_iff_nth_less)
    then show ?thesis by (simp add: not_less)
  qed
  have below: "k r < k (rows ! m)" if r: "r \<in> set (drop (Suc m) rows)" for r
  proof -
    from r obtain i where i: "r = rows ! i" "m < i" "i < length rows"
      by (auto simp: in_set_conv_nth)
    with assms(1) have "k r \<le> k (rows ! m)" by (auto simp: sorted_wrt_iff_nth_less)
    moreover have "map k rows ! i \<noteq> map k rows ! m"
      using assms(2) i by (subst nth_eq_iff_index_eq) auto
    ultimately show ?thesis using i assms(3) by simp
  qed
  have "filter (\<lambda>r. k r < k (rows ! m)) (take m rows @ rows ! m # drop (Suc m) rows) = drop (Suc m) rows"
    using above below by (auto simp: filter_empty_conv filter_id_conv)
  then show ?thesis using split by simp
qed

text \<open>The filter of a request, with the cursor of a page.\<close>

definition audit_filter ::
  "lea_id set option \<Rightarrow> string option \<Rightarrow> string option \<Rightarrow> timestamp option \<Rightarrow> timestamp option \<Rightarrow>
   (timestamp \<times> string) option \<Rightarrow> nat \<Rightarrow> timeline_filter" where
  "audit_filter leas who pfx since til cur limit =
     \<lparr>tf_lea_ids = leas, tf_operator_id = who, tf_action_prefix = pfx, tf_since = since, tf_until = til,
      tf_cursor_occurred_at = map_option fst cur, tf_cursor_id = map_option snd cur, tf_limit = limit\<rparr>"

lemma outer_where_cursor:
  "outer_where (audit_filter leas who pfx since til (Some c) limit) r \<longleftrightarrow>
     outer_where (audit_filter leas who pfx since til None limit') r \<and> entry_key r < c"
  by (cases c) (auto simp: outer_where_def audit_filter_def before_cursor_def entry_key_def)

lemma outer_where_limit:
  "outer_where (audit_filter leas who pfx since til None limit) =
   outer_where (audit_filter leas who pfx since til None 0)"
  by (auto simp: fun_eq_iff outer_where_def audit_filter_def before_cursor_def)

definition all_entries ::
  "(timestamp \<Rightarrow> string) \<Rightarrow> lea_id set option \<Rightarrow> string option \<Rightarrow> string option \<Rightarrow> timestamp option \<Rightarrow>
   timestamp option \<Rightarrow> db \<Rightarrow> timeline_row list" where
  "all_entries ts leas who pfx since til db =
     sort_desc entry_key (filter (outer_where (audit_filter leas who pfx since til None 0)) (combined ts leas db))"

text \<open>
  The client of the audit explorer: it asks for the first page and follows the cursors. \<open>None\<close>
  is a client that ran out of requests.
\<close>

fun audit_walk ::
  "api_env \<Rightarrow> string option \<Rightarrow> string option \<Rightarrow> timestamp option \<Rightarrow> timestamp option \<Rightarrow> int \<Rightarrow> operator \<Rightarrow> db \<Rightarrow>
   nat \<Rightarrow> (timestamp \<times> string) option \<Rightarrow> timeline_entry list option" where
  "audit_walk env who pfx since til limit oper db 0 cur = None"
| "audit_walk env who pfx since til limit oper db (Suc n) cur =
     (case list_audit_entries env who pfx since til (map_option fst cur) (map_option snd cur) limit oper db of
        AuditPage entries None \<Rightarrow> Some entries
      | AuditPage entries (Some c) \<Rightarrow>
          map_option (\<lambda>rest. entries @ rest) (audit_walk env who pfx since til limit oper db n (Some c))
      | _ \<Rightarrow> None)"

lemma entry_key_truncate [simp]: "entry_key (timeline_entry.truncate r) = entry_key (r :: timeline_row)"
  by (simp add: entry_key_def timeline_entry.defs)

lemma combined_nothing [simp]: "combined ts (Some {}) db = []"
  by (auto simp: combined_def audit_branch_def syncs_branch_def reverts_branch_def retries_branch_def
      quarantine_created_branch_def quarantine_resolved_branch_def reconciliations_branch_def revert_row_of_def
      map_filter_def filter_empty_conv split: option.splits)

text \<open>A page is a cut of the list of all entries, whoever asks.\<close>

lemma audit_page:
  assumes "0 < limit" and "list_timeline (en_json_time env)
      (audit_filter (read_scope oper) who pfx since til cur (nat limit)) db = entries"
  shows "list_audit_entries env who pfx since til (map_option fst cur) (map_option snd cur) limit oper db =
    AuditPage entries (next_cursor entries (nat limit))"
proof (cases "no_grants oper")
  case True
  then have "read_scope oper = Some {}" by (simp add: no_grants_def read_scope_def)
  then have "entries = []" using assms(2) by (simp add: list_timeline_def audit_filter_def sort_desc_def)
  with True assms(1) show ?thesis by (simp add: list_audit_entries_def next_cursor_def)
next
  case False
  with assms(2) show ?thesis by (simp add: list_audit_entries_def audit_filter_def Let_def)
qed

lemma timeline_page:
  fixes ts leas who pfx since til db
  defines "rows \<equiv> all_entries ts leas who pfx since til db"
  assumes "distinct (map entry_key rows)" and "m \<le> length rows"
    and "cur = (if m = 0 then None else Some (entry_key (rows ! (m - 1))))"
  shows "list_timeline ts (audit_filter leas who pfx since til cur limit) db =
    map timeline_entry.truncate (take limit (drop m rows))"
proof (cases m)
  case 0
  with assms(4) outer_where_limit [of leas who pfx since til limit] show ?thesis
    by (simp add: list_timeline_def rows_def all_entries_def) (simp add: audit_filter_def)
next
  case (Suc i)
  let ?c = "entry_key (rows ! i)"
  let ?R = "filter (outer_where (audit_filter leas who pfx since til None 0)) (combined ts leas db)"
  have "filter (outer_where (audit_filter leas who pfx since til (Some ?c) limit)) (combined ts leas db) =
      filter (\<lambda>r. entry_key r < ?c) ?R"
    unfolding filter_filter by (rule filter_cong) (simp_all add: outer_where_cursor [where limit' = 0])
  then have "sort_desc entry_key (filter (outer_where (audit_filter leas who pfx since til (Some ?c) limit))
      (combined ts leas db)) = filter (\<lambda>r. entry_key r < ?c) rows"
    by (simp add: sort_desc_filter rows_def all_entries_def)
  also have "\<dots> = drop m rows"
    using rows_after [of entry_key rows i] assms(2,3) Suc
    by (simp add: rows_def all_entries_def sort_desc_sorted)
  finally show ?thesis
    using assms(4) Suc by (simp add: list_timeline_def audit_filter_def)
qed

lemma audit_walk_from:
  fixes env who pfx since til oper db
  defines "rows \<equiv> all_entries (en_json_time env) (read_scope oper) who pfx since til db"
  assumes "distinct (map entry_key rows)" and "0 < limit" and "m \<le> length rows"
    and "length rows - m < n * nat limit"
    and "cur = (if m = 0 then None else Some (entry_key (rows ! (m - 1))))"
  shows "audit_walk env who pfx since til limit oper db n cur =
    Some (map timeline_entry.truncate (drop m rows))"
  using assms(4-6)
proof (induction n arbitrary: m cur)
  case (Suc n)
  let ?page = "map timeline_entry.truncate (take (nat limit) (drop m rows))"
  from audit_page [OF assms(3) timeline_page [OF assms(2) [unfolded rows_def] Suc.prems(1,3) [unfolded rows_def]]]
  have page: "list_audit_entries env who pfx since til (map_option fst cur) (map_option snd cur) limit oper db =
      AuditPage ?page (next_cursor ?page (nat limit))"
    by (simp add: rows_def)
  show ?case
  proof (cases "length (drop m rows) < nat limit")
    case True
    with page show ?thesis by (simp add: next_cursor_def)
  next
    case False
    then have m': "m + nat limit \<le> length rows" using Suc.prems(1) by simp
    have "length ?page = nat limit" using False by simp
    moreover have "entry_key (last ?page) = entry_key (rows ! (m + nat limit - 1))"
      using False assms(3) m' by (simp add: last_map last_conv_nth min_absorb2)
    ultimately have "next_cursor ?page (nat limit) = Some (entry_key (rows ! (m + nat limit - 1)))"
      by (simp add: next_cursor_def)
    moreover have "audit_walk env who pfx since til limit oper db n
        (Some (entry_key (rows ! (m + nat limit - 1)))) =
        Some (map timeline_entry.truncate (drop (m + nat limit) rows))"
      by (rule Suc.IH [OF m']) (use Suc.prems(2) assms(3) m' in simp_all)
    moreover have "drop (m + nat limit) rows = drop (nat limit) (drop m rows)" by (simp add: add.commute)
    ultimately show ?thesis by (simp add: page map_append [symmetric] del: map_append drop_drop)
  qed
qed simp

text \<open>
  C15. The audit explorer shows everything once: a client that follows the cursors, with any limit
  the route admits and any filter, stops after finitely many requests and has then every entry of
  its scope that passes the filter, each once, newest first, as one query without a limit gives
  them; the number of requests is bounded by the number of entries over the limit. The ids of the
  union are unique.
\<close>

theorem audit_pages_complete:
  assumes "distinct (map entry_key (combined (en_json_time env) (read_scope oper) db))" and "0 < limit"
    and "length (combined (en_json_time env) (read_scope oper) db) < n * nat limit"
  shows "\<exists>rows. audit_walk env who pfx since til limit oper db n None =
      Some (map timeline_entry.truncate rows) \<and>
    set rows = {r \<in> set (combined (en_json_time env) (read_scope oper) db).
      outer_where (audit_filter (read_scope oper) who pfx since til None 0) r} \<and>
    distinct rows \<and> sorted_wrt (\<lambda>a b. entry_key b < entry_key a) rows"
proof -
  let ?rows = "all_entries (en_json_time env) (read_scope oper) who pfx since til db"
  let ?R = "filter (outer_where (audit_filter (read_scope oper) who pfx since til None 0))
    (combined (en_json_time env) (read_scope oper) db)"
  have dist: "distinct (map entry_key ?rows)"
    unfolding all_entries_def by (intro distinct_sort_desc distinct_map_filter assms(1))
  have "length ?rows \<le> length (combined (en_json_time env) (read_scope oper) db)"
    by (simp add: all_entries_def)
  with assms(3) have len: "length ?rows - 0 < n * nat limit" by simp
  have "sorted_wrt (\<lambda>a b. entry_key b < entry_key a) ?rows"
    using sort_desc_sorted [of entry_key ?R] dist unfolding all_entries_def
    by (auto simp: sorted_wrt_iff_nth_less distinct_conv_nth order.strict_iff_order)
  with audit_walk_from [OF dist assms(2) le0 len] dist show ?thesis
    by (intro exI [of _ ?rows]) (auto simp: all_entries_def distinct_map)
qed

section \<open>Operator actions\<close>

text \<open>An entry of a LEA's timeline that shows what an operator did, when and why.\<close>

definition shows_action ::
  "(timestamp \<Rightarrow> string) \<Rightarrow> lea_id \<Rightarrow> string \<Rightarrow> string option \<Rightarrow> string option \<Rightarrow> timestamp \<Rightarrow> db \<Rightarrow> bool" where
  "shows_action ts l action actor reason t db \<longleftrightarrow>
     (\<exists>e \<in> set (combined ts (Some {l}) db). te_action e = action \<and> te_actor_kind e = ''operator'' \<and>
        te_actor_email e = actor \<and> te_reason e = reason \<and> te_occurred_at e = t)"

lemma shows_in_branch:
  assumes "\<exists>e \<in> set branch. te_action e = action \<and> te_actor_kind e = ''operator'' \<and> te_actor_email e = actor \<and>
      te_reason e = reason \<and> te_occurred_at e = t"
    and "branch \<in> {audit_branch (Some {l}) db, reverts_branch (Some {l}) db, retries_branch (Some {l}) db,
      quarantine_resolved_branch (Some {l}) db}"
  shows "shows_action ts l action actor reason t db"
proof -
  have "set branch \<subseteq> set (combined ts (Some {l}) db)" using assms(2) by (auto simp: combined_def)
  with assms(1) show ?thesis unfolding shows_action_def by blast
qed

lemma retry_row_shown:
  assumes "rt \<in> set (db_retry_actions db)"
  shows "shows_action ts (ry_lea_id rt) ''sync.retry_requested'' (Some (ry_operator rt)) (Some (ry_reason rt))
    (ry_retried_at rt) db"
  by (rule shows_in_branch [of "retries_branch (Some {ry_lea_id rt}) db"])
     (simp_all add: retries_branch_def, use assms in blast)

lemma resolved_row_shown:
  assumes "q \<in> set (db_quarantine db)" "qr_resolved_at q = Some t" "qr_resolution_status q = Some s"
  shows "shows_action ts (qr_lea_id q) (''quarantine.'' @ s) (qr_resolution_operator q) None t db"
  by (rule shows_in_branch [of "quarantine_resolved_branch (Some {qr_lea_id q}) db"])
     (simp_all add: quarantine_resolved_branch_def, use assms in force)

lemma audit_row_shown:
  assumes "al \<in> set (db_audit_log db)" "al_lea_id al = Some l"
  shows "shows_action ts l (al_action al) (operator_email db (Some (al_operator_id al))) (Some (al_reason al))
    (al_created_at al) db"
  by (rule shows_in_branch [of "audit_branch (Some {l}) db"])
     (simp_all add: audit_branch_def, use assms in \<open>force\<close>)

lemma revert_row_shown:
  assumes "ra \<in> set (db_revert_actions db)" "lookup_by sj_id (ra_sync_job_id ra) (db_sync_jobs db) = Some j"
  shows "shows_action ts (sj_lea_id j) ''sync.revert'' (Some (ra_operator ra)) (Some (ra_reason ra))
    (ra_reverted_at ra) db"
  by (rule shows_in_branch [of "reverts_branch (Some {sj_lea_id j}) db"])
     (simp_all add: reverts_branch_def map_filter_def, use assms in \<open>force simp: revert_row_of_def\<close>)

lemma shows_idempotency [simp]:
  "shows_action ts l action actor reason t (db\<lparr>db_idempotency := rows\<rparr>) = shows_action ts l action actor reason t db"
  by (simp add: shows_action_def combined_def audit_branch_def syncs_branch_def reverts_branch_def
      retries_branch_def quarantine_created_branch_def quarantine_resolved_branch_def
      reconciliations_branch_def revert_row_of_def [abs_def] operator_email_def)

lemma retry_shown:
  assumes "retry job op reason forced now db = (db', Inr out)"
  shows "\<exists>j. lookup_by sj_id job (db_sync_jobs db) = Some j \<and>
    shows_action ts (sj_lea_id j) ''sync.retry_requested'' (Some op) (Some reason) now db'"
proof -
  from assms obtain j where j: "lookup_by sj_id job (db_sync_jobs db) = Some j" "retryable j forced"
    using retry_refused [of job op reason forced now db] by (auto split: option.splits if_splits)
  with retry_row_shown [of "last (db_retry_actions db')" db' ts] assms show ?thesis
    unfolding retry_eq [OF j] by auto
qed

lemma revert_shown:
  assumes "revert ft job op reason gen now db = (db', Inr out)"
  shows "\<exists>j. lookup_by sj_id job (db_sync_jobs db) = Some j \<and>
    db_sync_jobs db' = db_sync_jobs db @ [revert_job_row gen job j now] \<and>
    shows_action ts (sj_lea_id j) ''sync.revert'' (Some op) (Some reason) now db'"
proof -
  from assms obtain j n db2 where j: "lookup_by sj_id job (db_sync_jobs db) = Some j"
    and walk: "fold_res (revert_type ft job gen now) [STUDENT, ENROLLMENT, LEA]
      (\<lparr>rt_restored = 0, rt_updated = 0, rt_soft_deleted = 0\<rparr>,
       db\<lparr>db_sync_jobs := db_sync_jobs db @ [revert_job_row gen job j now]\<rparr>) = Inr (n, db2)"
    and db': "db' = insert_revert_action job gen op reason now (rt_restored n) db2"
    by (auto simp: revert_def transaction_Inr revert_body_def res_simps insert_sync_job_def
        split: option.splits if_splits prod.splits simp del: fold_res.simps)
  have "clear_data (snd (n, db2)) = clear_data (db\<lparr>db_sync_jobs := db_sync_jobs db @ [revert_job_row gen job j now]\<rparr>)"
    using walk
  proof (rule fold_res_invariant)
    fix t s s'
    assume same: "clear_data (snd s) =
        clear_data (db\<lparr>db_sync_jobs := db_sync_jobs db @ [revert_job_row gen job j now]\<rparr>)"
      and "revert_type ft job gen now t s = Inr s'"
    then have "fold_res (revert_row ft job gen now t) (live_of_job (snd s) t job) s = Inr s'"
      by (simp add: revert_type_def split: prod.splits)
    then show "clear_data (snd s') =
        clear_data (db\<lparr>db_sync_jobs := db_sync_jobs db @ [revert_job_row gen job j now]\<rparr>)"
      by (rule fold_res_invariant) (use same revert_row_effect(2) in \<open>fastforce+\<close>)
  qed simp
  from clear_dataD(1) [OF this [simplified]]
  have jobs: "db_sync_jobs db' = db_sync_jobs db @ [revert_job_row gen job j now]"
    by (simp add: db' insert_revert_action_def)
  with j have "lookup_by sj_id job (db_sync_jobs db') = Some j" by (simp add: lookup_by_append)
  with revert_row_shown [of "last (db_revert_actions db')" db' j ts] j jobs show ?thesis
    by (simp add: db' insert_revert_action_def)
qed

lemma mark_resolved_shown:
  assumes "lookup_by qr_id q (db_quarantine db) = Some r"
  shows "shows_action ts (qr_lea_id r) (''quarantine.'' @ s) (Some op) None now (mark_resolved q now s op ov db)"
proof -
  let ?r = "r\<lparr>qr_resolved_at := Some now, qr_resolution_status := Some s, qr_resolution_operator := Some op,
    qr_reason := (case ov of None \<Rightarrow> qr_reason r | Some s \<Rightarrow> s)\<rparr>"
  have "?r \<in> set (db_quarantine (mark_resolved q now s op ov db))"
    using lookup_by_SomeD [OF assms] by (force simp: mark_resolved_def update_where_def)
  from resolved_row_shown [OF this, of now s] show ?thesis by simp
qed

lemma release_shown:
  assumes "release ft q op gen now db = (db', Inr out)"
  shows "\<exists>r. lookup_by qr_id q (db_quarantine db) = Some r \<and>
    shows_action ts (qr_lea_id r) ''quarantine.released'' (Some op) None now db'"
  using assms
proof (rule release_cases)
  fix r p nk sev db1 db2 db3
  assume r: "lookup_by qr_id q (db_quarantine db) = Some r"
    and "insert_sync_job (release_job_row gen (qr_lea_id r) now q) db = Inr db1"
      "insert_snapshot_row ENROLLMENT
         \<lparr>sn_id = 0, sn_key = nk, sn_lea_id = qr_lea_id r, sn_generation = gen, sn_superseded_by = None,
          sn_superseded_at = None, sn_deleted_upstream = False, sn_source_event_id = sev,
          sn_source_event_at = Some now, sn_created_at = now, sn_payload = p\<rparr> db1 = Inr db2"
    and up: "upsert_enrollment_canonical ft (qr_lea_id r) p db2 = Inr db3"
    and db': "db' = mark_resolved q now ''released'' op None db3"
  from up have "db_quarantine db3 = db_quarantine db2"
    by (rule upsert_enrollment_canonical_Inr) (auto dest: write_enrollment_mem(3))
  then have "lookup_by qr_id q (db_quarantine db3) = Some r"
    using r \<open>insert_sync_job _ db = Inr db1\<close> \<open>insert_snapshot_row _ _ db1 = Inr db2\<close>
    by (simp add: quarantine_frame(1,2))
  from mark_resolved_shown [OF this, of ts "''released''"] r show ?thesis by (simp add: db')
qed

lemma reject_shown:
  assumes "reject q op reason now db = (db', Inr out)"
  shows "\<exists>r. lookup_by qr_id q (db_quarantine db) = Some r \<and> qr_resolved_at r = None \<and>
    db' = mark_resolved q now ''rejected'' op (Some (''rejected: '' @ reason @ ''; original: '' @ qr_reason r)) db \<and>
    shows_action ts (qr_lea_id r) ''quarantine.rejected'' (Some op) None now db'"
proof -
  from assms obtain r where r: "lookup_by qr_id q (db_quarantine db) = Some r" "qr_resolved_at r = None"
    "db' = mark_resolved q now ''rejected'' op (Some (''rejected: '' @ reason @ ''; original: '' @ qr_reason r)) db"
    by (auto simp: reject_def transaction_Inr reject_body_def res_simps load_unresolved_Inr)
  with mark_resolved_shown [OF r(1), of ts "''rejected''"] show ?thesis by simp
qed

lemma audited_shown:
  assumes "audited who action l reason now db db'"
  shows "shows_action ts l action (operator_email db' (Some who)) (Some reason) now db'"
  using assms audit_row_shown [of "last (db_audit_log db')" db' l ts] by (auto simp: audited_def)

lemma idempotent_Inr:
  assumes "idempotent env c oper route body work db = (db', Inr resp)"
    and "\<And>key. ca_key c = Some key \<Longrightarrow> row_of db (oper_id oper, route, key) = None"
  obtains keys d1 out keys' where "work (db\<lparr>db_idempotency := keys\<rparr>) = (d1, Inr out)"
    and "db' = d1\<lparr>db_idempotency := keys'\<rparr>"
proof (cases "ca_key c")
  case None
  with assms(1) have "work (db\<lparr>db_idempotency := db_idempotency db\<rparr>) = (db', Inr (case resp of Outcome d \<Rightarrow> d))"
    by (auto simp: idempotent_def answer_def with_idempotency_def split: prod.splits sum.splits)
  then show thesis by (rule that [of _ _ _ "db_idempotency db'"]) simp
next
  case (Some key)
  note run = first_request [OF assms(2) [OF Some], of "en_sha env" "en_float env"]
  from assms(1) obtain d1 out where
    "work (reserved (oper_id oper, route, key) (compute_request_hash (en_sha env) (en_float env) (ca_path c) body)
       (ca_clock c 0) db) = (d1, Inr out)"
    "db' = store_response (oper_id oper, route, key) 200 out (ca_clock c 1) d1"
    unfolding idempotent_def Some run by (auto simp: answer_def split: prod.splits sum.splits)
  then show thesis unfolding reserved_def store_response_def by (rule that)
qed

text \<open>The LEA whose timeline a request is about, and how the timeline shows it.\<close>

fun action_lea :: "request \<Rightarrow> db \<Rightarrow> lea_id option" where
  "action_lea (AuthorizeConnector l p reason seconds notes) db = Some l"
| "action_lea (RevokeConnector l p reason) db = Some l"
| "action_lea (AdjustPollInterval l p s reason) db = Some l"
| "action_lea (CreateLea b) db = Some (ci_id b)"
| "action_lea (TransitionLea l status reason) db = Some l"
| "action_lea req db = target_lea req db"

fun shown_as :: "request \<Rightarrow> string \<times> string option" where
  "shown_as (RetrySync job reason forced) = (''sync.retry_requested'', Some reason)"
| "shown_as (RevertSync job reason) = (''sync.revert'', Some reason)"
| "shown_as (ReleaseQuarantine q) = (''quarantine.released'', None)"
| "shown_as (RejectQuarantine q reason) = (''quarantine.rejected'', None)"
| "shown_as (AuthorizeConnector l p reason seconds notes) = (''connector.authorized'', Some reason)"
| "shown_as (RevokeConnector l p reason) = (''connector.revoked'', Some reason)"
| "shown_as (AdjustPollInterval l p s reason) = (''connector.poll_interval_adjusted'', Some reason)"
| "shown_as (CreateLea b) = (''lea.created'', Some ''lea.created via onboarding flow'')"
| "shown_as (TransitionLea l status reason) = (''lea.status_changed'', Some reason)"
| "shown_as req = ([], None)"

lemma with_body_Inr: "with_body dump x = (db', Inr out) \<longleftrightarrow> (\<exists>a. x = (db', Inr a) \<and> out = dump a)"
  by (auto simp: with_body_def split: prod.splits sum.splits)

lemma operator_email_idempotency [simp]: "operator_email (db\<lparr>db_idempotency := keys\<rparr>) = operator_email db"
  by (rule ext) (simp add: operator_email_def split: option.split)

text \<open>What a verb leaves behind is there after the key is stored, too.\<close>

lemma idempotent_leaves:
  assumes "idempotent env c oper route body (\<lambda>d. with_body dump (verb d)) db = (db', Inr resp)"
    and "\<And>key. ca_key c = Some key \<Longrightarrow> row_of db (oper_id oper, route, key) = None"
    and "\<And>keys d1 a. verb (db\<lparr>db_idempotency := keys\<rparr>) = (d1, Inr a) \<Longrightarrow> P d1"
    and "\<And>d keys. P d \<Longrightarrow> P (d\<lparr>db_idempotency := keys\<rparr>)"
  shows "P db'"
  using assms(1,2)
proof (rule idempotent_Inr)
  fix keys d1 out keys'
  assume "with_body dump (verb (db\<lparr>db_idempotency := keys\<rparr>)) = (d1, Inr out)" "db' = d1\<lparr>db_idempotency := keys'\<rparr>"
  with assms(3,4) show ?thesis by (auto simp: with_body_Inr)
qed

definition shown ::
  "(timestamp \<Rightarrow> string) \<Rightarrow> request \<Rightarrow> operator \<Rightarrow> timestamp \<Rightarrow> db \<Rightarrow> db \<Rightarrow> bool" where
  "shown ts req oper t db d \<longleftrightarrow>
     (\<exists>l. action_lea req db = Some l \<and>
        shows_action ts l (fst (shown_as req))
          (if has_target req then Some (oper_subject oper) else operator_email d (Some (oper_id oper)))
          (snd (shown_as req)) t d)"

lemma shown_keep: "shown ts req oper t db d \<Longrightarrow> shown ts req oper t db (d\<lparr>db_idempotency := keys\<rparr>)"
  unfolding shown_def shows_idempotency operator_email_idempotency .

lemma idempotent_shown:
  assumes "idempotent env c oper route body (\<lambda>d. with_body dump (verb d)) db = (db', Inr resp)"
    and "\<And>route key. ca_key c = Some key \<Longrightarrow> row_of db (oper_id oper, route, key) = None"
    and "\<And>keys d1 a. verb (db\<lparr>db_idempotency := keys\<rparr>) = (d1, Inr a) \<Longrightarrow> shown ts req oper t db d1"
  shows "shown ts req oper t db db'"
  using assms(1)
proof (rule idempotent_leaves)
  show "shown ts req oper t db d \<Longrightarrow> shown ts req oper t db (d\<lparr>db_idempotency := keys\<rparr>)" for d keys
    by (rule shown_keep)
qed (use assms(2,3) in blast)+

lemma target_route_shown:
  assumes "run_route env c req oper db = (db', Inr resp)" and "has_target req"
    and new: "\<And>route key. ca_key c = Some key \<Longrightarrow> row_of db (oper_id oper, route, key) = None"
  shows "shown ts req oper (ca_clock c 2) db db'"
proof (cases req)
  case (RetrySync job reason forced)
  with assms(1) obtain body dump where "idempotent env c oper ''actions.retry_sync'' body
      (\<lambda>d. with_body dump (retry job (oper_subject oper) reason forced (ca_clock c 2) d)) db = (db', Inr resp)"
    by (auto simp: retry_sync_def split: sum.splits)
  note run = this
  show ?thesis
    by (rule idempotent_shown [OF run new], assumption)
       (auto simp: shown_def RetrySync dest!: retry_shown [where ts = ts])
next
  case (RevertSync job reason)
  with assms(1) obtain body dump where "idempotent env c oper ''actions.revert_sync'' body
      (\<lambda>d. with_body dump (revert (en_float env) job (oper_subject oper) reason (ca_ids c 0) (ca_clock c 2) d)) db =
      (db', Inr resp)"
    by (auto simp: revert_sync_def split: sum.splits)
  note run = this
  show ?thesis
    by (rule idempotent_shown [OF run new], assumption)
       (auto simp: shown_def RevertSync dest!: revert_shown [where ts = ts])
next
  case (ReleaseQuarantine q)
  with assms(1) obtain body dump where "idempotent env c oper ''quarantine.release'' body
      (\<lambda>d. with_body dump (release (en_float env) q (oper_subject oper) (ca_ids c 0) (ca_clock c 2) d)) db =
      (db', Inr resp)"
    by (auto simp: release_quarantine_def split: sum.splits)
  note run = this
  show ?thesis
    by (rule idempotent_shown [OF run new], assumption)
       (auto simp: shown_def ReleaseQuarantine dest!: release_shown [where ts = ts])
next
  case (RejectQuarantine q reason)
  with assms(1) obtain body dump where "idempotent env c oper ''quarantine.reject'' body
      (\<lambda>d. with_body dump (reject q (oper_subject oper) reason (ca_clock c 2) d)) db = (db', Inr resp)"
    by (auto simp: reject_quarantine_def split: sum.splits)
  note run = this
  show ?thesis
    by (rule idempotent_shown [OF run new], assumption)
       (auto simp: shown_def RejectQuarantine dest!: reject_shown [where ts = ts])
qed (use assms(2) in simp_all)

lemma admin_route_shown:
  assumes "run_route env c req oper db = (db', Inr resp)" and "\<not> is_read req" and "\<not> has_target req"
    and new: "\<And>route key. ca_key c = Some key \<Longrightarrow> row_of db (oper_id oper, route, key) = None"
  shows "shown ts req oper (ca_clock c 2) db db'"
proof (cases req)
  case (AuthorizeConnector l p reason seconds memo)
  note run = assms(1) [unfolded this run_route.simps authorize_connector_def]
  show ?thesis
    by (rule idempotent_shown [OF run new], assumption)
       (simp add: shown_def AuthorizeConnector, rule audited_shown [OF authorize_Inr [THEN conjunct2]])
next
  case (RevokeConnector l p reason)
  note run = assms(1) [unfolded this run_route.simps revoke_connector_def]
  show ?thesis
    by (rule idempotent_shown [OF run new], assumption)
       (simp add: shown_def RevokeConnector, rule audited_shown [OF revoke_Inr [THEN conjunct2]])
next
  case (AdjustPollInterval l p s reason)
  note run = assms(1) [unfolded this run_route.simps adjust_connector_def]
  show ?thesis
    by (rule idempotent_shown [OF run new], assumption)
       (simp add: shown_def AdjustPollInterval,
        rule audited_shown [OF adjust_Inr [THEN conjunct2, THEN conjunct2, THEN conjunct2]])
next
  case (CreateLea b)
  with assms(1) obtain v where
    "create_lea b (oper_id oper) ''lea.created via onboarding flow'' (ca_clock c 2) db = (db', Inr v)"
    by (auto simp: create_lea_route_def split: prod.splits sum.splits)
  from audited_shown [OF create_lea_Inr [OF this, THEN conjunct2, THEN conjunct2, THEN conjunct2]]
  show ?thesis by (simp add: shown_def CreateLea)
next
  case (TransitionLea l status reason)
  with assms(1) obtain v where "transition_status l status (oper_id oper) reason (ca_clock c 2) db = (db', Inr v)"
    by (auto simp: transition_lea_route_def split: prod.splits sum.splits exn.splits option.splits if_splits)
  from audited_shown [OF transition_status_Inr [OF this, THEN conjunct2, THEN conjunct2]]
  show ?thesis by (simp add: shown_def TransitionLea)
qed (use assms(2,3) in simp_all)


section \<open>What the timeline and the roll-up get wrong\<close>

lemma sort_key_snoc:
  assumes "\<forall>y \<in> set ys. k y < k x"
  shows "sort_key k (ys @ [x]) = sort_key k ys @ [x]"
proof (rule properties_for_sort_key)
  show "sorted (map k (sort_key k ys @ [x]))" using assms by (auto simp: sorted_append)
  have "(\<lambda>y. k a = k y) = (\<lambda>y. k y = k a)" for a by auto
  then show "filter (\<lambda>y. k a = k y) (sort_key k ys @ [x]) = filter (\<lambda>y. k a = k y) (ys @ [x])" for a
    by (simp add: sort_key_stable)
qed simp

lemma latest_sync_snoc:
  assumes "db_sync_jobs db' = jobs @ [j]" and "sj_lea_id j = l" and "sj_status j \<noteq> ''revert''"
    and "\<forall>i \<in> set jobs. sj_lea_id i = l \<longrightarrow> sj_started_at i < sj_started_at j"
  shows "latest_sync db' l = Some j"
  using assms by (simp add: latest_sync_def sort_desc_def sort_key_snoc)

text \<open>
  A rejection rewrites the history it adds to: the quarantine entry of the system, dated at the
  creation of the row, loses its reason and shows the words of the operator who rejected the row
  later, while the entry of the rejection itself has no reason.
\<close>

theorem reject_rewrites_history:
  assumes "reject q op reason now db = (db', Inr out)"
  shows "\<exists>r. lookup_by qr_id q (db_quarantine db) = Some r \<and>
    (\<exists>e \<in> set (combined ts (Some {qr_lea_id r}) db). te_id e = uuid_str q @ ''#created'' \<and>
       te_occurred_at e = qr_created_at r \<and> te_reason e = Some (qr_reason r)) \<and>
    (\<exists>e \<in> set (combined ts (Some {qr_lea_id r}) db'). te_id e = uuid_str q @ ''#created'' \<and>
       te_occurred_at e = qr_created_at r \<and> te_actor_kind e = ''system'' \<and>
       te_reason e = Some (''rejected: '' @ reason @ ''; original: '' @ qr_reason r)) \<and>
    (\<exists>e \<in> set (combined ts (Some {qr_lea_id r}) db'). te_id e = uuid_str q @ ''#resolved'' \<and>
       te_action e = ''quarantine.rejected'' \<and> te_occurred_at e = now \<and> te_reason e = None)"
proof -
  let ?why = "\<lambda>r. ''rejected: '' @ reason @ ''; original: '' @ qr_reason r"
  from reject_shown [OF assms] obtain r where r: "lookup_by qr_id q (db_quarantine db) = Some r"
    and db': "db' = mark_resolved q now ''rejected'' op (Some (?why r)) db" by blast
  note mem = lookup_by_SomeD [OF r]
  let ?r = "r\<lparr>qr_resolved_at := Some now, qr_resolution_status := Some ''rejected'',
    qr_resolution_operator := Some op, qr_reason := ?why r\<rparr>"
  have new: "?r \<in> set (db_quarantine db')"
    using mem by (force simp: db' mark_resolved_def update_where_def)
  have created: "\<exists>e \<in> set (quarantine_created_branch (Some {qr_lea_id x}) d). te_id e = uuid_str (qr_id x) @ ''#created'' \<and>
      te_occurred_at e = qr_created_at x \<and> te_actor_kind e = ''system'' \<and> te_reason e = Some (qr_reason x)"
    if "x \<in> set (db_quarantine d)" for x d
    by (simp add: quarantine_created_branch_def) (use that in blast)
  have resolved: "\<exists>e \<in> set (quarantine_resolved_branch (Some {qr_lea_id ?r}) db').
      te_id e = uuid_str (qr_id ?r) @ ''#resolved'' \<and> te_action e = ''quarantine.rejected'' \<and>
      te_occurred_at e = now \<and> te_reason e = None"
    by (simp add: quarantine_resolved_branch_def) (use new in force)
  from r mem created [of r db] created [OF new] resolved show ?thesis
    unfolding combined_def set_append by (intro exI [of _ r] conjI) auto
qed

text \<open>
  A revert is in the timeline twice, and once without the operator: the sync job it records
  itself as gives a second entry with the same action and time, of the system, whose reason is the
  text of the job.
\<close>

theorem revert_listed_twice:
  assumes "revert ft job op reason gen now db = (db', Inr out)"
  shows "\<exists>l. \<exists>own \<in> set (combined ts (Some {l}) db'). \<exists>other \<in> set (combined ts (Some {l}) db').
    te_action own = ''sync.revert'' \<and> te_actor_kind own = ''operator'' \<and> te_reason own = Some reason \<and>
    te_action other = ''sync.revert'' \<and> te_actor_kind other = ''system'' \<and> te_actor_email other = None \<and>
    te_reason other = Some (''revert of sync_job '' @ uuid_str job) \<and>
    te_occurred_at own = now \<and> te_occurred_at other = now"
proof -
  from revert_shown [OF assms, of ts] obtain j where
    jobs: "db_sync_jobs db' = db_sync_jobs db @ [revert_job_row gen job j now]"
    and own: "shows_action ts (sj_lea_id j) ''sync.revert'' (Some op) (Some reason) now db'" by blast
  have "\<exists>e \<in> set (syncs_branch ts (Some {sj_lea_id j}) db'). te_action e = ''sync.revert'' \<and>
      te_actor_kind e = ''system'' \<and> te_actor_email e = None \<and>
      te_reason e = Some (''revert of sync_job '' @ uuid_str job) \<and> te_occurred_at e = now"
    by (simp add: syncs_branch_def jobs revert_job_row_def)
  then have "\<exists>e \<in> set (combined ts (Some {sj_lea_id j}) db'). te_action e = ''sync.revert'' \<and>
      te_actor_kind e = ''system'' \<and> te_actor_email e = None \<and>
      te_reason e = Some (''revert of sync_job '' @ uuid_str job) \<and> te_occurred_at e = now"
    unfolding combined_def set_append by blast
  with own show ?thesis unfolding shows_action_def by blast
qed

lemma cursor_of_rewind:
  "cursor_of ((rewind_cursor l p v now db)\<lparr>db_retry_actions := rows, db_next_id := i\<rparr>) l p \<noteq> None"
proof -
  have "(l, p) \<in> cursor_key ` set (db_cursors (rewind_cursor l p v now db))"
    by (simp add: rewind_cursor_def write_cursor_def rewind_table.keys_upsert) (simp add: cursor_key_def)
  then show ?thesis by (simp add: cursor_of_def lookup_by_None_iff del: not_None_eq)
qed

text \<open>
  A release hides the last sync of the LEA: until the next sync job starts, the roll-up shows
  the release as the latest sync, at its time and with its status, as it keeps the jobs of reverts
  from doing; and the job of the release can be retried, which writes a cursor of a partner
  \<open>operator\<close> that no connector polls.
\<close>

theorem release_masks_latest_sync:
  assumes "release ft q op gen now db = (db', Inr out)"
    and "lookup_by qr_id q (db_quarantine db) = Some r" and "lr_id lea = qr_lea_id r"
    and "\<forall>j \<in> set (db_sync_jobs db). sj_lea_id j = qr_lea_id r \<longrightarrow> sj_started_at j < now"
  shows "ls_latest_sync_status (to_lea_summary now' db' lea) = Some ''quarantine_release'' \<and>
    ls_latest_sync_at (to_lea_summary now' db' lea) = Some now \<and>
    (\<exists>db'' out'. retry gen op' reason False now'' db' = (db'', Inr out') \<and>
       cursor_of db'' (qr_lea_id r) ''operator'' \<noteq> None)"
proof -
  let ?j = "release_job_row gen (qr_lea_id r) now q"
  from assms(1) have jobs: "db_sync_jobs db' = db_sync_jobs db @ [?j] \<and> gen \<notin> job_ids db"
  proof (rule release_cases)
    fix r' p nk sev db1 db2 db3
    assume r': "lookup_by qr_id q (db_quarantine db) = Some r'"
      and "insert_sync_job (release_job_row gen (qr_lea_id r') now q) db = Inr db1"
        "insert_snapshot_row ENROLLMENT
           \<lparr>sn_id = 0, sn_key = nk, sn_lea_id = qr_lea_id r', sn_generation = gen, sn_superseded_by = None,
            sn_superseded_at = None, sn_deleted_upstream = False, sn_source_event_id = sev,
            sn_source_event_at = Some now, sn_created_at = now, sn_payload = p\<rparr> db1 = Inr db2"
      and up: "upsert_enrollment_canonical ft (qr_lea_id r') p db2 = Inr db3"
      and "db' = mark_resolved q now ''released'' op None db3"
    moreover from up have "db_sync_jobs db3 = db_sync_jobs db2"
      by (rule upsert_enrollment_canonical_Inr) (auto dest: write_enrollment_mem(3))
    ultimately show "db_sync_jobs db' = db_sync_jobs db @ [?j] \<and> gen \<notin> job_ids db"
      using assms(2) by (auto simp: insert_sync_job_def insert_snapshot_row_def mark_resolved_def set_snapshots_def
          release_job_row_def split: if_splits)
  qed
  have j: "sj_id ?j = gen" "sj_lea_id ?j = qr_lea_id r" "sj_status ?j = ''quarantine_release''"
    "sj_started_at ?j = now" "sj_partner ?j = ''operator''"
    by (simp_all add: release_job_row_def)
  have "latest_sync db' (qr_lea_id r) = Some ?j"
    by (rule latest_sync_snoc [OF jobs [THEN conjunct1]]) (use j assms(4) in simp_all)
  moreover have look: "lookup_by sj_id gen (db_sync_jobs db') = Some ?j"
  proof -
    have "lookup_by sj_id gen (db_sync_jobs db) = None"
      using jobs by (auto simp: lookup_by_None_iff job_ids_def)
    with jobs j(1) show ?thesis by (simp add: lookup_by_append) (simp add: lookup_by_def)
  qed
  moreover have "retryable ?j False" by (simp add: retryable_def j)
  ultimately show ?thesis
    using j assms(3) cursor_of_rewind by (simp add: retry_eq [OF look] to_lea_summary_def Let_def del: not_None_eq)
qed

section \<open>The activity chart\<close>

lemma count_by_key:
  assumes "finite A" and "f ` set xs \<subseteq> A"
  shows "(\<Sum>h \<in> A. count_where P (filter (\<lambda>x. f x = h) xs)) = count_where P xs"
  using assms(2)
proof (induction xs)
  case (Cons x xs)
  have "count_where P (filter (\<lambda>y. f y = h) (x # xs)) =
      (if f x = h then if P x then 1 else 0 else 0) + count_where P (filter (\<lambda>y. f y = h) xs)" for h
    by (simp add: count_where_def)
  then have "(\<Sum>h \<in> A. count_where P (filter (\<lambda>y. f y = h) (x # xs))) =
      (\<Sum>h \<in> A. if f x = h then if P x then 1 else 0 else 0) +
      (\<Sum>h \<in> A. count_where P (filter (\<lambda>y. f y = h) xs))"
    by (simp add: sum.distrib)
  also have "\<dots> = (if P x then 1 else 0) + count_where P xs"
    using Cons assms(1) by simp
  finally show ?case by (simp add: count_where_def)
qed (simp add: count_where_def)

lemma hour_of_mono: "s \<le> t \<Longrightarrow> hour_of s \<le> hour_of t"
  by (simp add: hour_of_def zdiv_mono1)

lemma hours_of_window:
  assumes "now - 86400000000 \<le> t" and "t \<le> now"
  shows "hour_of t \<in> (\<lambda>i. hour_of now - int i * 3600000000) ` {0..24}"
proof -
  have "now div 3600000000 - 24 \<le> t div 3600000000" "t div 3600000000 \<le> now div 3600000000"
    using zdiv_mono1 [OF assms(1), of 3600000000] zdiv_mono1 [OF assms(2), of 3600000000] by simp_all
  then show ?thesis
    by (intro image_eqI [of _ _ "nat (now div 3600000000 - t div 3600000000)"])
       (auto simp: hour_of_def algebra_simps)
qed

lemma bucket_total:
  "\<forall>j \<in> set jobs. 0 \<le> sj_warning_count j \<Longrightarrow>
   sb_success (activity_bucket jobs h) + sb_warning (activity_bucket jobs h) + sb_failed (activity_bucket jobs h) =
     count_where (\<lambda>j. sj_status j \<in> {''success'', ''failed''})
       (filter (\<lambda>j. hour_of (sj_started_at j) = h) jobs)"
  unfolding activity_bucket_def Let_def count_where_def by (induction jobs) auto

text \<open>
  C38. The activity chart counts every finished sync once: there are at most 25 buckets, one for
  each hour in which a job started, in order of time, and together they count each job of the last
  24 hours that succeeded, with or without warnings, or failed, whatever its LEA.
\<close>

theorem sync_activity_exact:
  assumes "\<forall>j \<in> set (db_sync_jobs db). sj_started_at j \<le> now \<and> 0 \<le> sj_warning_count j"
  shows "sorted_wrt (<) (map sb_hour (get_sync_activity now db)) \<and> length (get_sync_activity now db) \<le> 25 \<and>
    (\<Sum>b \<leftarrow> get_sync_activity now db. sb_success b + sb_warning b + sb_failed b) =
      count_where (\<lambda>j. now - 86400000000 \<le> sj_started_at j \<and> sj_status j \<in> {''success'', ''failed''})
        (db_sync_jobs db)"
proof -
  let ?jobs = "filter (in_activity now) (db_sync_jobs db)"
  let ?hours = "(\<lambda>j. hour_of (sj_started_at j)) ` set ?jobs"
  let ?finished = "\<lambda>j. sj_status j \<in> {''success'', ''failed''}"
  have hours: "map sb_hour (get_sync_activity now db) = sort (remdups (map (\<lambda>j. hour_of (sj_started_at j)) ?jobs))"
    by (simp add: get_sync_activity_def Let_def comp_def activity_bucket_def)
  have sorted: "sorted_wrt (<) (map sb_hour (get_sync_activity now db))"
    unfolding hours by (simp add: strict_sorted_iff)
  have "?hours \<subseteq> (\<lambda>i. hour_of now - int i * 3600000000) ` {0..24}"
    using assms hours_of_window by (auto simp: in_activity_def)
  then have "card ?hours \<le> 25" using surj_card_le [of "{0..24::nat}" ?hours] by simp
  moreover have "length (get_sync_activity now db) = card ?hours"
    using arg_cong [OF hours, of length] by (simp add: length_remdups_card_conv)
  ultimately have few: "length (get_sync_activity now db) \<le> 25" by simp
  have "(\<Sum>b \<leftarrow> get_sync_activity now db. sb_success b + sb_warning b + sb_failed b) =
      (\<Sum>h \<leftarrow> sort (remdups (map (\<lambda>j. hour_of (sj_started_at j)) ?jobs)).
         count_where ?finished (filter (\<lambda>j. hour_of (sj_started_at j) = h) ?jobs))"
    unfolding get_sync_activity_def Let_def
    by (simp add: comp_def bucket_total assms del: filter_filter cong: map_cong)
  also have "\<dots> = (\<Sum>h \<in> ?hours. count_where ?finished (filter (\<lambda>j. hour_of (sj_started_at j) = h) ?jobs))"
    by (subst sum_list_distinct_conv_sum_set) simp_all
  also have "\<dots> = count_where ?finished ?jobs" by (rule count_by_key) simp_all
  also have "\<dots> = count_where (\<lambda>j. now - 86400000000 \<le> sj_started_at j \<and> ?finished j) (db_sync_jobs db)"
    by (auto simp: count_where_def in_activity_def intro!: arg_cong [where f = length] filter_cong)
  finally show ?thesis using sorted few by simp
qed

section \<open>Witnesses\<close>

definition s_cid :: operator where
  "s_cid = s_ann\<lparr>oper_id := 2, oper_subject := ''cid'', oper_role := ''admin''\<rparr>"

definition s_two_jobs :: db where
  "s_two_jobs = s_api_db\<lparr>db_quarantine := []\<rparr>"

theorem audit_pages_complete_witness:
  "\<exists>rows :: timeline_row list. audit_walk s_env None None None None 1 s_cid s_two_jobs 3 None =
      Some (map timeline_entry.truncate rows) \<and> distinct rows \<and> length rows = 2"
proof -
  have keys: "distinct (map entry_key (combined (en_json_time s_env) (read_scope s_cid) s_two_jobs))"
    "length (combined (en_json_time s_env) (read_scope s_cid) s_two_jobs) < 3 * nat 1" by code_simp+
  have "map_option length (audit_walk s_env None None None None 1 s_cid s_two_jobs 3 None) = Some 2" by code_simp
  moreover obtain rows :: "timeline_row list" where "audit_walk s_env None None None None 1 s_cid s_two_jobs 3 None =
      Some (map timeline_entry.truncate rows)" "distinct rows"
    using audit_pages_complete [OF keys(1) zero_less_one keys(2), of None None None None] by blast
  ultimately show ?thesis by (intro exI [of _ rows]) simp
qed

definition s_retry_call :: "db \<times> (exn + response)" where
  "s_retry_call = run_route s_env (s_call ''ann'') (RetrySync 10 ''again'' True) s_ann s_api_db"


theorem reject_rewrites_history_witness:
  "\<exists>e \<in> set (combined (en_json_time s_env) (Some {''lea-2''}) (fst (reject 3 ''cid'' ''no'' 200 s_api_db))).
     te_occurred_at e = 90 \<and> te_actor_kind e = ''system'' \<and> te_reason e = Some ''rejected: no; original: orphan''"
proof -
  have "\<not> isl (snd (reject 3 ''cid'' ''no'' 200 s_api_db))" by code_simp
  note run = result_split [OF this]
  have "map_option (\<lambda>r. (qr_lea_id r, qr_created_at r, qr_reason r)) (lookup_by qr_id 3 (db_quarantine s_api_db)) =
      Some (''lea-2'', 90, ''orphan'')" by code_simp
  with reject_rewrites_history [OF run, of "en_json_time s_env"] show ?thesis by fastforce
qed

theorem revert_listed_twice_witness:
  "\<exists>l. \<exists>e \<in> set (combined (en_json_time s_env) (Some {l})
      (fst (revert (en_float s_env) 10 ''ann'' ''undo'' 300 200 s_api_db))).
     te_action e = ''sync.revert'' \<and> te_actor_kind e = ''system''"
proof -
  have "\<not> isl (snd (revert (en_float s_env) 10 ''ann'' ''undo'' 300 200 s_api_db))" by code_simp
  note run = result_split [OF this]
  from revert_listed_twice [OF run, of "en_json_time s_env"] show ?thesis by blast
qed

theorem release_masks_latest_sync_witness:
  "\<exists>lea. ls_latest_sync_status (to_lea_summary 300 (fst s_released) lea) = Some ''quarantine_release''"
proof -
  have starts: "list_all (\<lambda>j. sj_started_at j < 200) (db_sync_jobs s_qdb)" by code_simp
  from s_quarantined_facts obtain r where r: "lookup_by qr_id (db_next_id s_db1) (db_quarantine s_qdb) = Some r"
    by blast
  have "lr_id (s_lea (qr_lea_id r)) = qr_lea_id r" by (simp add: s_lea_def new_lea_row_def)
  from release_masks_latest_sync [OF s_release_run r this, of 300 "''admin''" "''x''" 400] starts show ?thesis
    by (auto simp: list_all_iff)
qed

theorem sync_activity_exact_witness:
  "(\<Sum>b \<leftarrow> get_sync_activity 100 s_api_db. sb_success b + sb_warning b + sb_failed b) = 2"
proof -
  have "\<forall>j \<in> set (db_sync_jobs s_api_db). sj_started_at j \<le> 100 \<and> 0 \<le> sj_warning_count j"
    by (simp add: api_samples)
  from sync_activity_exact [OF this] show ?thesis by (simp add: count_where_def api_samples)
qed

end
