(* ===== verification/ServiceBusProperties.thy ===== *)
theory ServiceBusProperties
  imports ServiceBus
begin

text \<open>
  What the broker promises: exclusive sessions, no message lost or duplicated under any
  interleaving of threads, redelivery in order after a crash; what abandoning does to the order;
  and how the retry loop ends.
\<close>

section \<open>Maps with a default\<close>

lemma entries_update [simp]: "entries (AList.update k v d) i = (if i = k then v else entries d i)"
  by (simp add: entries_def update_conv')

lemma entries_delete [simp]: "entries (AList.delete k d) i = (if i = k then [] else entries d i)"
  by (simp add: entries_def delete_conv')

text \<open>Everything a map of lists holds, counted.\<close>

definition held :: "(string \<times> 'a list) list \<Rightarrow> 'a multiset" where
  "held d = mset (concat (map snd d))"

lemma held_simps [simp]: "held [] = {#}" "held ((s, xs) # d) = mset xs + held d"
  by (simp_all add: held_def)

lemma entries_absent: "k \<notin> fst ` set d \<Longrightarrow> entries d k = []"
  by (force simp: entries_def split: option.split dest: map_of_SomeD)

lemma held_update:
  "distinct (map fst d) \<Longrightarrow> held (AList.update k v d) + mset (entries d k) = held d + mset v"
  by (induction d) (auto simp: entries_absent, auto simp: entries_def)

lemma held_append:
  "distinct (map fst d) \<Longrightarrow> held (AList.update k (entries d k @ xs) d) = held d + mset xs"
  using held_update [of d k "entries d k @ xs"] by simp

lemma held_push:
  "distinct (map fst d) \<Longrightarrow> held (AList.update k (m # entries d k) d) = add_mset m (held d)"
  using held_update [of d k "m # entries d k"] by simp

lemma held_keep: "distinct (map fst d) \<Longrightarrow> held (AList.update k (entries d k) d) = held d"
  using held_update [of d k "entries d k"] by simp

lemma held_pop:
  assumes "distinct (map fst d)" and "m \<in> set (entries d k)"
  shows "add_mset m (held (AList.update k (remove1 m (entries d k)) d)) = held d"
proof -
  have "mset (entries d k) = add_mset m (mset (remove1 m (entries d k)))" using assms(2) by simp
  with held_update [OF assms(1), of k "remove1 m (entries d k)"] show ?thesis
    by (metis add_mset_add_single add_right_cancel union_mset_add_mset_left union_mset_add_mset_right)
qed

lemma held_drop:
  assumes "distinct (map fst d)"
  shows "held (AList.update k (drop n (entries d k)) d) + mset (take n (entries d k)) = held d"
proof -
  have "mset (entries d k) = mset (take n (entries d k)) + mset (drop n (entries d k))"
    by (metis append_take_drop_id mset_append)
  with held_update [OF assms, of k "drop n (entries d k)"] show ?thesis
    by (metis add.assoc add_right_cancel)
qed

lemma held_delete: "distinct (map fst d) \<Longrightarrow> held (AList.delete k d) + mset (entries d k) = held d"
proof (induction d)
  case (Cons x d)
  show ?case
  proof (cases "fst x = k")
    case True
    with Cons.prems have "AList.delete k d = d" "entries (x # d) k = snd x"
      by (auto simp: delete_idem entries_def split: prod.splits)
    with True show ?thesis by (cases x) simp
  next
    case False
    then have "entries (x # d) k = entries d k" by (simp add: entries_def)
    with False Cons show ?thesis by (cases x) simp
  qed
qed (simp add: entries_def)

lemma held_remove1:
  "(s, xs) \<in> set d \<Longrightarrow> held (remove1 (s, xs) d) + mset xs = held d"
  by (induction d) auto

section \<open>The broker under threads\<close>

text \<open>
  The queue with what its threads hold: the sessions of the open contexts, the batches taken but
  not yet recorded, and, for the record, the messages sent and completed. A receiver is used
  within its context; the steps of different threads interleave in any order.
\<close>

record bus_state =
  bs_queue :: session_queue
  bs_holders :: "string list"
  bs_hand :: "(string \<times> message list) list"
  bs_sent :: "message list"
  bs_done :: "message list"

definition idle_bus :: bus_state where
  "idle_bus = \<lparr>bs_queue = empty_queue, bs_holders = [], bs_hand = [], bs_sent = [], bs_done = []\<rparr>"

inductive bus_step :: "bus_state \<Rightarrow> bus_state \<Rightarrow> bool" where
  Send: "bus_step b (b\<lparr>bs_queue := send_message m (bs_queue b), bs_sent := m # bs_sent b\<rparr>)"
| Claim: "claim_session sid (bs_queue b) = Inr (s, q) \<Longrightarrow>
    bus_step b (b\<lparr>bs_queue := q, bs_holders := s # bs_holders b\<rparr>)"
| Take: "s \<in> set (bs_holders b) \<Longrightarrow> take_messages s n (bs_queue b) = (out, q) \<Longrightarrow>
    bus_step b (b\<lparr>bs_queue := q, bs_hand := (s, out) # bs_hand b\<rparr>)"
| Mark: "(s, out) \<in> set (bs_hand b) \<Longrightarrow>
    bus_step b (b\<lparr>bs_queue := mark_in_flight s out (bs_queue b), bs_hand := remove1 (s, out) (bs_hand b)\<rparr>)"
| Complete: "s \<in> set (bs_holders b) \<Longrightarrow> m \<in> set (in_flight (bs_queue b) s) \<Longrightarrow>
    bus_step b (b\<lparr>bs_queue := complete_message s m (bs_queue b), bs_done := m # bs_done b\<rparr>)"
| Late: "s \<in> set (bs_holders b) \<Longrightarrow> m \<notin> set (in_flight (bs_queue b) s) \<Longrightarrow>
    bus_step b (b\<lparr>bs_queue := complete_message s m (bs_queue b)\<rparr>)"
| Abandon: "s \<in> set (bs_holders b) \<Longrightarrow>
    bus_step b (b\<lparr>bs_queue := abandon_message s m (bs_queue b)\<rparr>)"
| Release: "s \<in> set (bs_holders b) \<Longrightarrow>
    bus_step b (b\<lparr>bs_queue := release_session s (bs_queue b), bs_holders := remove1 s (bs_holders b)\<rparr>)"

inductive_cases bus_stepE: "bus_step b b'"

text \<open>The invariant: keys are keys, a lock is held by exactly one context, and messages are conserved.\<close>

definition keyed :: "session_queue \<Rightarrow> bool" where
  "keyed q \<longleftrightarrow> distinct (map fst (sq_sessions q)) \<and> distinct (map fst (sq_in_flight q))"

definition everywhere :: "bus_state \<Rightarrow> message multiset" where
  "everywhere b = held (sq_sessions (bs_queue b)) + held (bs_hand b) + held (sq_in_flight (bs_queue b)) + mset (bs_done b)"

definition exclusive :: "bus_state \<Rightarrow> bool" where
  "exclusive b \<longleftrightarrow> distinct (bs_holders b) \<and> (\<forall>s. locked (bs_queue b) s \<longleftrightarrow> s \<in> set (bs_holders b))"

lemmas queue_ops = send_message_def lock_session_def take_messages_def mark_in_flight_def complete_message_def
  abandon_message_def release_session_def

lemma keyed_ops:
  assumes "keyed q"
  shows "keyed (send_message m q)" "keyed (lock_session s q)" "keyed (snd (take_messages s n q))"
    "keyed (mark_in_flight s out q)" "keyed (complete_message s m q)" "keyed (abandon_message s m q)"
    "keyed (release_session s q)"
  using assms by (simp_all add: keyed_def queue_ops Let_def distinct_update distinct_delete)

lemma locked_ops [simp]:
  "locked (send_message m q) i = locked q i" "locked (lock_session s q) i = (i = s \<or> locked q i)"
  "locked (q\<lparr>sq_sessions := d\<rparr>) i = locked q i"
  "locked (mark_in_flight s out q) i = locked q i" "locked (complete_message s m q) i = locked q i"
  "locked (abandon_message s m q) i = locked q i" "locked (release_session s q) i = (i \<noteq> s \<and> locked q i)"
  by (simp_all add: locked_def queue_ops Let_def update_conv')

lemma claimed_free:
  assumes "claim_session sid q = Inr (s, q')"
  shows "q' = lock_session s q" and "\<not> locked q s"
  using assms by (auto simp: claim_session_def find_Some_iff split: option.splits if_splits)

lemma moves:
  assumes "keyed q"
  shows "held (sq_sessions (send_message m q)) = add_mset m (held (sq_sessions q))"
    and "held (sq_sessions (snd (take_messages s n q))) + mset (fst (take_messages s n q)) = held (sq_sessions q)"
    and "held (sq_in_flight (mark_in_flight s out q)) = held (sq_in_flight q) + mset out"
    and "m \<in> set (in_flight q s) \<Longrightarrow>
      add_mset m (held (sq_in_flight (complete_message s m q))) = held (sq_in_flight q)"
    and "m \<notin> set (in_flight q s) \<Longrightarrow> held (sq_in_flight (complete_message s m q)) = held (sq_in_flight q)"
  using assms by (simp_all add: send_message_def take_messages_def mark_in_flight_def complete_message_def
      in_flight_def pending_def keyed_def held_append held_drop held_pop held_keep remove1_idem)

lemma abandon_moves:
  assumes "keyed q"
  shows "held (sq_sessions (abandon_message s m q)) + held (sq_in_flight (abandon_message s m q)) =
    held (sq_sessions q) + held (sq_in_flight q)"
proof (cases "m \<in> set (in_flight q s)")
  case True
  then have "add_mset m (held (AList.update s (remove1 m (entries (sq_in_flight q) s)) (sq_in_flight q))) =
      held (sq_in_flight q)"
    using assms by (intro held_pop) (simp_all add: keyed_def in_flight_def)
  with True assms show ?thesis
    by (simp add: abandon_message_def in_flight_def pending_def keyed_def held_push flip: union_mset_add_mset_right)
next
  case False
  with assms show ?thesis by (simp add: abandon_message_def keyed_def in_flight_def held_keep)
qed

lemma release_moves:
  assumes "keyed q"
  shows "held (sq_sessions (release_session s q)) + held (sq_in_flight (release_session s q)) =
    held (sq_sessions q) + held (sq_in_flight q)"
proof -
  have "fold (#) xs ys = rev xs @ ys" for xs ys :: "message list"
    by (induction xs arbitrary: ys) simp_all
  then have "held (sq_sessions (release_session s q)) = held (sq_sessions q) + mset (in_flight q s)"
    using held_update [of "sq_sessions q" s "in_flight q s @ pending q s"] assms
    by (simp add: release_session_def Let_def keyed_def pending_def)
  with held_delete [of "sq_in_flight q" s] assms show ?thesis
    by (simp add: release_session_def Let_def keyed_def in_flight_def add.assoc add.commute [of "mset _"])
qed

text \<open>Every message stays with the session it was sent to.\<close>

definition addressed :: "bus_state \<Rightarrow> bool" where
  "addressed b \<longleftrightarrow>
     (\<forall>s. \<forall>m \<in> set (pending (bs_queue b) s) \<union> set (in_flight (bs_queue b) s). ms_session_id m = s) \<and>
     (\<forall>(s, ms) \<in> set (bs_hand b). \<forall>m \<in> set ms. ms_session_id m = s)"

definition bus_ok :: "bus_state \<Rightarrow> bool" where
  "bus_ok b \<longleftrightarrow> keyed (bs_queue b) \<and> exclusive b \<and> addressed b \<and> mset (bs_sent b) = everywhere b"

lemma pending_ops:
  "pending (send_message m q) i = (if i = ms_session_id m then pending q i @ [m] else pending q i)"
  "pending (lock_session s q) i = pending q i" "pending (mark_in_flight s out q) i = pending q i"
  "pending (complete_message s m q) i = pending q i"
  "pending (abandon_message s m q) i =
     (if i = s \<and> m \<in> set (in_flight q s) then m # pending q i else pending q i)"
  "pending (release_session s q) i = (if i = s then in_flight q s @ pending q s else pending q i)"
proof -
  have "fold (#) xs ys = rev xs @ ys" for xs ys :: "message list"
    by (induction xs arbitrary: ys) simp_all
  then show "pending (release_session s q) i = (if i = s then in_flight q s @ pending q s else pending q i)"
    by (simp add: release_session_def Let_def pending_def in_flight_def)
qed (simp_all add: queue_ops pending_def)

lemma in_flight_ops:
  "in_flight (send_message m q) i = in_flight q i" "in_flight (lock_session s q) i = in_flight q i"
  "in_flight (mark_in_flight s out q) i = (if i = s then in_flight q s @ out else in_flight q i)"
  "in_flight (complete_message s m q) i = (if i = s then remove1 m (in_flight q s) else in_flight q i)"
  "in_flight (abandon_message s m q) i = (if i = s then remove1 m (in_flight q s) else in_flight q i)"
  "in_flight (release_session s q) i = (if i = s then [] else in_flight q i)"
  by (simp_all add: queue_ops in_flight_def Let_def remove1_idem)

lemma take_messages_parts:
  assumes "take_messages s n q = (out, q')"
  shows "out = take n (pending q s)" "pending q' i = (if i = s then drop n (pending q s) else pending q i)"
    "in_flight q' i = in_flight q i" "locked q' i = locked q i"
  using assms by (auto simp: take_messages_def pending_def in_flight_def)

lemma bus_step_keeps:
  assumes "bus_step b b'" and "bus_ok b"
  shows "exclusive b' \<and> addressed b'"
  using assms
proof (cases rule: bus_step.cases)
  case (Take s n out q)
  note t = take_messages_parts [OF Take(3)]
  show ?thesis
    using assms(2) t unfolding Take(1) bus_ok_def exclusive_def addressed_def
    by (auto dest: in_set_takeD in_set_dropD)
next
  case (Mark s out)
  have "set (remove1 (s, out) (bs_hand b)) \<subseteq> set (bs_hand b)" by (rule set_remove1_subset)
  then show ?thesis
    using assms(2) Mark(2) unfolding Mark(1) bus_ok_def exclusive_def addressed_def
    by (simp add: pending_ops in_flight_ops) blast
next
  case (Claim sid s q)
  with claimed_free [OF Claim(2)] show ?thesis
    using assms(2) unfolding bus_ok_def exclusive_def addressed_def by (auto simp: pending_ops in_flight_ops)
qed (use assms(2) in \<open>auto simp: bus_ok_def exclusive_def addressed_def pending_ops in_flight_ops remove1_idem
    dest: notin_set_remove1\<close>)

text \<open>What each operation leaves alone.\<close>

lemma unmoved:
  "sq_in_flight (send_message m q) = sq_in_flight q"
  "sq_in_flight (lock_session s q) = sq_in_flight q" "sq_sessions (lock_session s q) = sq_sessions q"
  "sq_in_flight (snd (take_messages s n q)) = sq_in_flight q"
  "sq_sessions (mark_in_flight s out q) = sq_sessions q"
  "sq_sessions (complete_message s m q) = sq_sessions q"
  by (simp_all add: queue_ops)

lemma bus_step_conserves:
  assumes "bus_step b b'" and "bus_ok b"
  shows "mset (bs_sent b') = everywhere b'"
proof -
  from assms(2) have k: "keyed (bs_queue b)" and sent: "mset (bs_sent b) = everywhere b"
    by (simp_all add: bus_ok_def)
  show ?thesis
    using assms(1)
  proof (cases rule: bus_step.cases)
    case Send
    with sent moves(1) [OF k] show ?thesis by (simp add: everywhere_def unmoved)
  next
    case (Take s n out q)
    then have "out = fst (take_messages s n (bs_queue b))" "q = snd (take_messages s n (bs_queue b))" by simp_all
    with sent moves(2) [OF k, of s n] show ?thesis unfolding Take(1)
      by (simp add: everywhere_def unmoved ac_simps)
  next
    case (Claim sid s q)
    with claimed_free(1) [OF Claim(2)] sent show ?thesis by (simp add: everywhere_def unmoved)
  next
    case (Mark s out)
    have "held (remove1 (s, out) (bs_hand b)) + mset out = held (bs_hand b)"
      by (rule held_remove1 [OF Mark(2)])
    with sent moves(3) [OF k] show ?thesis unfolding Mark(1) by (simp add: everywhere_def unmoved ac_simps)
  next
    case (Complete s m)
    with sent moves(4) [OF k Complete(3)] show ?thesis by (simp add: everywhere_def unmoved)
  next
    case (Late s m)
    with sent moves(5) [OF k Late(3)] show ?thesis by (simp add: everywhere_def unmoved)
  next
    case (Abandon s m)
    with sent abandon_moves [OF k, of s m] show ?thesis by (simp add: everywhere_def ac_simps)
  next
    case (Release s)
    with sent release_moves [OF k, of s] show ?thesis by (simp add: everywhere_def ac_simps)
  qed
qed

lemma bus_step_keyed: "bus_step b b' \<Longrightarrow> bus_ok b \<Longrightarrow> keyed (bs_queue b')"
  by (erule bus_step.cases)
    (auto simp: bus_ok_def keyed_ops dest: claimed_free, metis keyed_ops(3) snd_conv)

lemma reachable_bus: "bus_step\<^sup>*\<^sup>* idle_bus b \<Longrightarrow> bus_ok b"
proof (induction rule: rtranclp_induct)
  case base
  show ?case
    by (simp add: bus_ok_def keyed_def exclusive_def addressed_def everywhere_def idle_bus_def empty_queue_def
        locked_def pending_def in_flight_def entries_def)
next
  case (step b b')
  then show ?case
    using bus_step_keeps bus_step_conserves bus_step_keyed bus_ok_def by metis
qed

lemma nothing_free:
  assumes "keyed q"
  shows "claim_session None q = Inl NoSessionAvailable \<longleftrightarrow> (\<forall>s. pending q s \<noteq> [] \<longrightarrow> locked q s)"
proof -
  have "(\<exists>(s, ms) \<in> set (sq_sessions q). ms \<noteq> [] \<and> \<not> locked q s) \<longleftrightarrow> (\<exists>s. pending q s \<noteq> [] \<and> \<not> locked q s)"
  proof -
    have "pending q s \<noteq> [] \<longleftrightarrow> (\<exists>ms. (s, ms) \<in> set (sq_sessions q) \<and> ms \<noteq> [])" for s
    proof -
      have "(s, ms) \<in> set (sq_sessions q) \<longleftrightarrow> map_of (sq_sessions q) s = Some ms" for ms
        using assms by (simp add: keyed_def)
      then show ?thesis by (simp add: pending_def entries_def split: option.splits)
    qed
    then show ?thesis by blast
  qed
  moreover have "claim_session None q = Inl NoSessionAvailable \<longleftrightarrow>
      \<not> (\<exists>(s, ms) \<in> set (sq_sessions q). ms \<noteq> [] \<and> \<not> locked q s)"
  proof -
    have "claim_session None q = Inl NoSessionAvailable \<longleftrightarrow>
        find (\<lambda>(s, ms). ms \<noteq> [] \<and> \<not> locked q s) (sq_sessions q) = None"
      unfolding claim_session_def by (simp split: option.split)
    then show ?thesis by (simp only: find_None_iff) blast
  qed
  ultimately show ?thesis by blast
qed

text \<open>
  C20. Under every interleaving of the steps of the threads, from an idle broker: no two contexts
  hold the same session, a session is locked exactly while a context holds it, so that claiming
  it raises exactly then, and an unnamed claim finds a session unless every session with pending
  messages is held; no message is lost or duplicated: the messages sent are those pending, those
  in the hands of a receiver, those in flight and those completed; and every message is in the
  session it was sent to.
\<close>
theorem bus_exclusive_conserving:
  assumes "bus_step\<^sup>*\<^sup>* idle_bus b"
  shows "distinct (bs_holders b) \<and>
    (\<forall>s. claim_session (Some s) (bs_queue b) = Inl (SessionLocked s) \<longleftrightarrow> s \<in> set (bs_holders b)) \<and>
    (claim_session None (bs_queue b) = Inl NoSessionAvailable \<longleftrightarrow>
       (\<forall>s. pending (bs_queue b) s \<noteq> [] \<longrightarrow> s \<in> set (bs_holders b))) \<and>
    mset (bs_sent b) = everywhere b \<and>
    (\<forall>s. \<forall>m \<in> set (pending (bs_queue b) s) \<union> set (in_flight (bs_queue b) s). ms_session_id m = s)"
  using reachable_bus [OF assms] nothing_free [of "bs_queue b"]
  by (simp add: bus_ok_def exclusive_def addressed_def claim_session_def)

definition s_msg :: "string \<Rightarrow> string \<Rightarrow> message" where
  "s_msg s i = \<lparr>ms_body = ''sync'', ms_session_id = s, ms_message_id = i, ms_enqueued_at = 0, ms_properties = []\<rparr>"

definition s_bus :: bus_state where
  "s_bus = (let m = s_msg ''lea-1'' ''m1''; q = snd (take_messages ''lea-1'' 1 (lock_session ''lea-1'' (send_message m empty_queue)))
            in \<lparr>bs_queue = q, bs_holders = [''lea-1''], bs_hand = [(''lea-1'', [m])], bs_sent = [m], bs_done = []\<rparr>)"

lemma s_bus_reachable: "bus_step\<^sup>*\<^sup>* idle_bus s_bus"
proof -
  let ?m = "s_msg ''lea-1'' ''m1''"
  let ?q = "send_message ?m empty_queue"
  have "bus_step idle_bus (idle_bus\<lparr>bs_queue := ?q, bs_sent := [?m]\<rparr>)" (is "bus_step _ ?b")
    using bus_step.Send [of idle_bus ?m] by (simp add: idle_bus_def)
  moreover have "bus_step ?b (?b\<lparr>bs_queue := lock_session ''lea-1'' ?q, bs_holders := [''lea-1'']\<rparr>)" (is "bus_step _ ?c")
    using bus_step.Claim [of "Some ''lea-1''" ?b "''lea-1''" "lock_session ''lea-1'' ?q"]
    by (simp add: idle_bus_def claim_session_def locked_def send_message_def empty_queue_def)
  moreover have "bus_step ?c s_bus"
    using bus_step.Take [of "''lea-1''" ?c 1 "[?m]" "bs_queue s_bus"]
    by (simp add: idle_bus_def s_bus_def Let_def take_messages_def pending_def entries_def lock_session_def
        send_message_def empty_queue_def s_msg_def)
  ultimately show ?thesis by (meson rtranclp.rtrancl_into_rtrancl rtranclp.rtrancl_refl)
qed

theorem bus_exclusive_conserving_witness:
  "claim_session (Some ''lea-1'') (bs_queue s_bus) = Inl (SessionLocked ''lea-1'') \<and> mset (bs_sent s_bus) = everywhere s_bus"
  using bus_exclusive_conserving [OF s_bus_reachable] by (simp add: s_bus_def Let_def)

section \<open>Redelivery\<close>

lemma complete_prefix:
  "in_flight q s = xs @ ys \<Longrightarrow> in_flight (fold (complete_message s) xs q) s = ys"
  by (induction xs arbitrary: q) (simp_all add: in_flight_ops)

lemma completes_elsewhere:
  "pending (fold (complete_message s) xs q) t = pending q t"
  "locked (fold (complete_message s) xs q) t = locked q t"
  "t \<noteq> s \<Longrightarrow> in_flight (fold (complete_message s) xs q) t = in_flight q t"
  by (induction xs arbitrary: q) (simp_all add: pending_ops in_flight_ops)

lemma receive_parts:
  assumes "receive_messages s n q = (batch, q')"
  shows "batch = take n (pending q s)" "pending q' t = (if t = s then drop n (pending q s) else pending q t)"
    "in_flight q' t = (if t = s then in_flight q s @ batch else in_flight q t)" "locked q' t = locked q t"
proof -
  obtain q1 where t: "take_messages s n q = (batch, q1)" and q': "q' = mark_in_flight s batch q1"
    using assms by (auto simp: receive_messages_def split: prod.splits)
  note take_messages_parts [OF t]
  then show "batch = take n (pending q s)" "pending q' t = (if t = s then drop n (pending q s) else pending q t)"
    "in_flight q' t = (if t = s then in_flight q s @ batch else in_flight q t)" "locked q' t = locked q t"
    by (simp_all add: q' pending_ops in_flight_ops)
qed

text \<open>
  C21. A worker that claims a free session, receives up to \<open>n\<close> messages, completes the first \<open>k\<close> of
  them and leaves its context, by an exception as well, leaves in the session exactly the
  messages it did not complete, in their order before those it did not receive; the session is
  free again, and the other sessions are as they were.
\<close>
theorem crash_redelivers_in_order:
  assumes "claim_session (Some s) q = Inr (s, q1)" and "in_flight q s = []"
    and "receive_messages s n q1 = (batch, q2)" and "k \<le> length batch"
    and "q3 = release_session s (fold (complete_message s) (take k batch) q2)"
  shows "pending q3 s = drop k (pending q s) \<and> in_flight q3 s = [] \<and>
    claim_session (Some s) q3 = Inr (s, lock_session s q3) \<and>
    (\<forall>t. t \<noteq> s \<longrightarrow> pending q3 t = pending q t \<and> in_flight q3 t = in_flight q t \<and> locked q3 t = locked q t)"
proof -
  have q1: "q1 = lock_session s q" using claimed_free [OF assms(1)] by simp
  note r = receive_parts [OF assms(3), unfolded q1 pending_ops in_flight_ops]
  have "in_flight q2 s = batch" using r(3) assms(2) by simp
  then have "in_flight q2 s = take k batch @ drop k batch" by simp
  from complete_prefix [OF this]
  have "in_flight (fold (complete_message s) (take k batch) q2) s = drop k batch" .
  moreover have "drop k batch @ drop n (pending q s) = drop k (pending q s)"
    using r(1) assms(4) by (metis append_take_drop_id drop_append length_take min.bounded_iff diff_is_0_eq drop_0)
  ultimately show ?thesis
    using r by (simp add: assms(5) pending_ops in_flight_ops completes_elsewhere claim_session_def)
qed

lemma crash_redelivers_in_order_witness:
  "pending (release_session ''l'' (fold (complete_message ''l'') (take 1 [s_msg ''l'' ''1'', s_msg ''l'' ''2''])
     (snd (receive_messages ''l'' 2 (lock_session ''l''
        (send_message (s_msg ''l'' ''3'') (send_message (s_msg ''l'' ''2'') (send_message (s_msg ''l'' ''1'') empty_queue)))))))) ''l'' =
   [s_msg ''l'' ''2'', s_msg ''l'' ''3'']"
proof -
  let ?q = "send_message (s_msg ''l'' ''3'') (send_message (s_msg ''l'' ''2'') (send_message (s_msg ''l'' ''1'') empty_queue))"
  have p: "pending ?q ''l'' = [s_msg ''l'' ''1'', s_msg ''l'' ''2'', s_msg ''l'' ''3'']" and f: "in_flight ?q ''l'' = []"
    by (simp_all add: send_message_def pending_def in_flight_def empty_queue_def entries_def s_msg_def)
  have c: "claim_session (Some ''l'') ?q = Inr (''l'', lock_session ''l'' ?q)"
    by (simp add: claim_session_def, simp add: locked_def empty_queue_def)
  obtain batch q2 where r: "receive_messages ''l'' 2 (lock_session ''l'' ?q) = (batch, q2)" by fastforce
  then have b: "batch = [s_msg ''l'' ''1'', s_msg ''l'' ''2'']" using p by (auto dest: receive_parts(1) simp: pending_ops)
  from crash_redelivers_in_order [OF c f r, of 1] show ?thesis by (simp add: r b p)
qed

lemma abandon_prefix:
  "in_flight q s = xs @ ys \<Longrightarrow> in_flight (fold (abandon_message s) xs q) s = ys"
  "in_flight q s = xs @ ys \<Longrightarrow> pending (fold (abandon_message s) xs q) s = rev xs @ pending q s"
  by (induction xs arbitrary: q) (simp_all add: in_flight_ops pending_ops)

text \<open>
  Abandoning the messages of a batch one by one, in the order received, returns each to the
  head of the session: the session then has the batch reversed before the messages not received,
  so that order in a session is not kept.
\<close>
theorem abandon_reverses:
  assumes "in_flight q s = []" and "receive_messages s n q = (batch, q')"
  shows "pending (fold (abandon_message s) batch q') s = rev (take n (pending q s)) @ drop n (pending q s)"
    and "in_flight (fold (abandon_message s) batch q') s = []"
  using abandon_prefix [of q' s batch "[]"] receive_parts [OF assms(2)] assms(1) by simp_all

theorem abandon_reverses_witness:
  "pending (fold (abandon_message ''l'') [s_msg ''l'' ''1'', s_msg ''l'' ''2'']
     (snd (receive_messages ''l'' 2 (send_message (s_msg ''l'' ''2'') (send_message (s_msg ''l'' ''1'') empty_queue))))) ''l'' =
   [s_msg ''l'' ''2'', s_msg ''l'' ''1'']"
proof -
  let ?q = "send_message (s_msg ''l'' ''2'') (send_message (s_msg ''l'' ''1'') empty_queue)"
  have p: "pending ?q ''l'' = [s_msg ''l'' ''1'', s_msg ''l'' ''2'']" and f: "in_flight ?q ''l'' = []"
    by (simp_all add: send_message_def pending_def in_flight_def empty_queue_def entries_def s_msg_def)
  obtain batch q2 where r: "receive_messages ''l'' 2 ?q = (batch, q2)" by fastforce
  then have "batch = [s_msg ''l'' ''1'', s_msg ''l'' ''2'']" using p by (auto dest: receive_parts(1))
  with abandon_reverses(1) [OF f r] p r show ?thesis by simp
qed

section \<open>The retry loop\<close>

text \<open>The state before attempt \<open>n + 1\<close>, and the attempts that may be made again.\<close>

fun after :: "('s \<Rightarrow> 's \<times> 'r) \<Rightarrow> nat \<Rightarrow> 's \<Rightarrow> 's" where
  "after operation 0 s = s"
| "after operation (Suc n) s = after operation n (fst (operation s))"

definition failed_with :: "('e \<Rightarrow> bool) \<Rightarrow> 'e + 'a \<Rightarrow> bool" where
  "failed_with tr r = (case r of Inl e \<Rightarrow> tr e | Inr _ \<Rightarrow> False)"

lemma failed_with_iff:
  "failed_with tr r \<longleftrightarrow> (\<exists>e. r = Inl e \<and> tr e)"
  "\<not> failed_with tr r \<longleftrightarrow> (\<exists>e. r = Inl e \<and> \<not> tr e) \<or> (\<exists>v. r = Inr v)"
  by (auto simp: failed_with_def split: sum.splits)

lemma with_retry_from_bounded:
  "1 \<le> j \<Longrightarrow> j + d = RETRY_STOP \<Longrightarrow>
   \<exists>n \<le> d. with_retry_from (default_policy tr) op j s = Some (op (after op n s)) \<and>
     (\<forall>i < n. failed_with tr (snd (op (after op i s)))) \<and>
     (n = d \<or> \<not> failed_with tr (snd (op (after op n s))))"
proof (induction d arbitrary: j s)
  case 0
  obtain t r where "op s = (t, r)" by fastforce
  with 0 show ?case
    by (subst with_retry_from.simps) (auto simp: default_policy_def split: sum.splits)
next
  case (Suc d)
  obtain t r where op: "op s = (t, r)" by fastforce
  show ?case
  proof (cases "failed_with tr r")
    case True
    then obtain e where e: "r = Inl e" "tr e" by (auto simp: failed_with_iff)
    obtain n where n: "n \<le> d"
      "with_retry_from (default_policy tr) op (Suc j) t = Some (op (after op n t))"
      "\<forall>i < n. failed_with tr (snd (op (after op i t)))"
      "n = d \<or> \<not> failed_with tr (snd (op (after op n t)))"
      using Suc.IH [of "Suc j" t] Suc.prems by fastforce
    have "with_retry_from (default_policy tr) op j s = with_retry_from (default_policy tr) op (Suc j) t"
      using Suc.prems e by (subst with_retry_from.simps) (simp add: op default_policy_def)
    moreover have "failed_with tr (snd (op (after op i s)))" if "i < Suc n" for i
      using that n(3) True op by (cases i) simp_all
    ultimately show ?thesis
      using n by (intro exI [of _ "Suc n"]) (simp add: op)
  next
    case False
    then show ?thesis
      by (intro exI [of _ 0], subst with_retry_from.simps)
        (auto simp: op default_policy_def failed_with_def split: sum.splits)
  qed
qed

text \<open>
  C22. Under the default policy the loop ends, after at most five attempts: its outcome is that of
  attempt \<open>n + 1\<close>, every earlier attempt raised a transient error, and it stops before the fifth
  only at an attempt that raised no transient error. An attempt that returns is such an attempt,
  whatever it returns: no response is ever retried for its status.
\<close>
theorem retry_policy_exact:
  "\<exists>n < 5. with_retry (default_policy tr) op s = Some (op (after op n s)) \<and>
     (\<forall>i < n. \<exists>e. snd (op (after op i s)) = Inl e \<and> tr e) \<and>
     (n = 4 \<or> (\<exists>e. snd (op (after op n s)) = Inl e \<and> \<not> tr e) \<or> (\<exists>v. snd (op (after op n s)) = Inr v))"
proof -
  obtain n where "n \<le> 4" "with_retry (default_policy tr) op s = Some (op (after op n s))"
    "\<forall>i < n. failed_with tr (snd (op (after op i s)))"
    "n = 4 \<or> \<not> failed_with tr (snd (op (after op n s)))"
    using with_retry_from_bounded [of 1 4 tr op s] by (fastforce simp: RETRY_STOP_def with_retry_def)
  then show ?thesis unfolding failed_with_iff(2) unfolding failed_with_iff(1) by (intro exI [of _ n]) simp
qed

text \<open>An operation that fails twice with a transient error: the third attempt decides.\<close>

theorem retry_policy_exact_witness:
  "with_retry (default_policy (\<lambda>e. e)) (\<lambda>s::nat. (Suc s, if s < 2 then Inl True else Inr s)) 0 = Some (3, Inr 2)"
proof -
  let ?op = "\<lambda>s::nat. (Suc s, if s < 2 then Inl True else Inr s)"
  have after: "after ?op n s = n + s" for n s by (induction n arbitrary: s) simp_all
  obtain n where "n < 5" "with_retry (default_policy (\<lambda>e. e)) ?op 0 = Some (?op n)"
    and early: "\<forall>i < n. \<exists>e. snd (?op i) = Inl e \<and> e"
    and stop: "n = 4 \<or> (\<exists>e. snd (?op n) = Inl e \<and> \<not> e) \<or> (\<exists>v. snd (?op n) = Inr v)"
    using retry_policy_exact [of "\<lambda>e. e" ?op 0] unfolding after by (auto simp only: add_0_right)
  moreover have "n \<le> 2"
  proof (rule ccontr)
    assume "\<not> n \<le> 2"
    with early have "\<exists>e. snd (?op 2) = Inl e \<and> e" by (meson not_le)
    then show False by simp
  qed
  moreover from stop \<open>n \<le> 2\<close> have "\<not> n < 2" by (auto split: if_splits)
  ultimately have "n = 2" by simp
  with \<open>with_retry (default_policy (\<lambda>e. e)) ?op 0 = Some (?op n)\<close> show ?thesis by simp
qed

text \<open>
  A send under the retry policy: fewer than five injected failures are absorbed and the
  message is enqueued once; five or more are reported after five attempts, and the queue is
  untouched.
\<close>
theorem send_with_retry_exact:
  "send_message_with_retry queue m c =
     Some (if bc_failures c < 5
           then (c\<lparr>bc_queues := (bc_queues c)(queue := send_message m (bc_queues c queue)),
                   bc_failures := min 0 (bc_failures c)\<rparr>, Inr m)
           else (c\<lparr>bc_failures := bc_failures c - 5\<rparr>, Inl ConnectError))"
proof -
  note [simp] = with_retry_from.simps attempt_send_def default_policy_def RETRY_STOP_def
  have "bc_failures c \<le> 0 \<or> bc_failures c \<in> {1, 2, 3, 4} \<or> 5 \<le> bc_failures c" by auto
  then show ?thesis
    by (auto simp: send_message_with_retry_def with_retry_def)
qed

end
