(* ===== verification/TestEvents.thy ===== *)
theory TestEvents
  imports ApiAuth Reconciliation EdlinkProperties "HOL-Library.AList"
begin

text \<open>
  The dispatcher of test events (\<open>services/test_events.py\<close>) and its two routes
  (\<open>api/routers/dev_test_events.py\<close>): a scenario of the catalog inserts a running job, and a task
  later runs the handler of its kind in one transaction, or marks the job failed. What a
  handler takes from its surroundings is a record: the clock, the date, the uuids it draws, the
  digest and the texts of numbers.
\<close>

section \<open>The catalog\<close>

record scenario =
  sc_id :: string
  sc_label :: string
  sc_section :: string
  sc_kind :: string
  sc_description :: string
  sc_data :: dict

text \<open>\<open>dict(raw.get("data") or {})\<close>; a list of pairs, which \<open>dict\<close> takes too, is refused here.\<close>

definition scenario_data :: "dict \<Rightarrow> exn + dict" where
  "scenario_data raw =
     (case json_or (dict_get raw ''data'') (JObj []) of JObj d \<Rightarrow> Inr d | _ \<Rightarrow> Inl TypeError)"

definition load_scenario :: "(rat \<Rightarrow> string) \<Rightarrow> json \<Rightarrow> exn + scenario" where
  "load_scenario ft v =
     res_bind (as_dict v) (\<lambda>raw.
     res_bind (dict_item raw ''scenario_id'') (\<lambda>i.
     res_bind (dict_item raw ''label'') (\<lambda>label.
     res_bind (dict_item raw ''section'') (\<lambda>sec.
     res_bind (dict_item raw ''kind'') (\<lambda>kind.
     res_bind (dict_item raw ''description'') (\<lambda>description.
     res_bind (scenario_data raw) (\<lambda>data.
       Inr \<lparr>sc_id = py_str ft i, sc_label = py_str ft label, sc_section = py_str ft sec,
            sc_kind = py_str ft kind, sc_description = py_str ft description, sc_data = data\<rparr>)))))))"

text \<open>The files come in the order of their paths; a later file with the same id replaces.\<close>

definition load_scenarios :: "(rat \<Rightarrow> string) \<Rightarrow> json list \<Rightarrow> exn + (string \<times> scenario) list" where
  "load_scenarios ft files =
     fold_res (\<lambda>v scenarios. res_bind (load_scenario ft v) (\<lambda>s. Inr (AList.update (sc_id s) s scenarios))) files []"

definition section_order :: "string \<Rightarrow> nat" where
  "section_order s =
     (case map_of [(''happy'', 0), (''validation'', 1), (''thresholds'', 2), (''other'', 3)] s of
        None \<Rightarrow> 9 | Some n \<Rightarrow> n)"

definition list_scenarios :: "(string \<times> scenario) list \<Rightarrow> scenario list" where
  "list_scenarios scenarios = sort_key (\<lambda>s. (section_order (sc_section s), sc_id s)) (map snd scenarios)"

datatype dispatch_error = ScenarioNotFound string | HandlerError exn

definition get_scenario :: "(string \<times> scenario) list \<Rightarrow> string \<Rightarrow> dispatch_error + scenario" where
  "get_scenario scenarios i = (case map_of scenarios i of None \<Rightarrow> Inl (ScenarioNotFound i) | Some s \<Rightarrow> Inr s)"

section \<open>Statements\<close>

text \<open>The columns the insert leaves out have their defaults.\<close>

definition test_job :: "uuid \<Rightarrow> lea_id \<Rightarrow> timestamp \<Rightarrow> string option \<Rightarrow> sync_job" where
  "test_job job l now cursor_before =
     \<lparr>sj_id = job, sj_lea_id = l, sj_partner = ''edlink'', sj_status = ''running'', sj_started_at = now,
      sj_completed_at = None, sj_event_count = 0, sj_error_count = 0, sj_warning_count = 0,
      sj_cursor_before = cursor_before, sj_cursor_after = None, sj_error_summary = None\<rparr>"

definition insert_running_row :: "uuid \<Rightarrow> lea_id \<Rightarrow> timestamp \<Rightarrow> string option \<Rightarrow> db \<Rightarrow> exn + db" where
  "insert_running_row job l now cursor_before db =
     insert_sync_job (test_job job l now cursor_before) (ensure_lea_exists l db)"

definition read_current_cursor :: "db \<Rightarrow> lea_id \<Rightarrow> string option" where
  "read_current_cursor db l = (case cursor_of db l ''edlink'' of None \<Rightarrow> None | Some c \<Rightarrow> cs_last_event_id c)"

record terminal =
  tm_status :: string
  tm_events :: int
  tm_errors :: int
  tm_warnings :: int
  tm_cursor_after :: "string option"
  tm_summary :: "string option"

definition mark_terminal :: "uuid \<Rightarrow> timestamp \<Rightarrow> terminal \<Rightarrow> db \<Rightarrow> db" where
  "mark_terminal job now t =
     update_sync_job job (\<lambda>j. j\<lparr>sj_status := tm_status t, sj_completed_at := Some now,
       sj_event_count := tm_events t, sj_error_count := tm_errors t, sj_warning_count := tm_warnings t,
       sj_cursor_after := tm_cursor_after t, sj_error_summary := tm_summary t\<rparr>)"

definition write_test_issue ::
  "uuid \<Rightarrow> nat \<Rightarrow> string \<Rightarrow> string option \<Rightarrow> dict \<Rightarrow> timestamp \<Rightarrow> db \<Rightarrow> exn + db" where
  "write_test_issue job layer code event_id detail now db =
     (if job \<notin> job_ids db then Inl (ForeignKeyViolation ''sync_validation_results_sync_job_id_fkey'')
      else Inr (db\<lparr>db_validation_results := db_validation_results db @
        [\<lparr>vr_sync_job_id = job, vr_layer = layer, vr_code = code, vr_payload_reference = event_id,
          vr_detail = detail, vr_created_at = now\<rparr>]\<rparr>))"

text \<open>The cursor upsert that three handlers share.\<close>

definition advance_test_cursor :: "lea_id \<Rightarrow> string \<Rightarrow> timestamp \<Rightarrow> db \<Rightarrow> db" where
  "advance_test_cursor l v now =
     write_cursor merge_cursor
       \<lparr>cs_lea_id = l, cs_partner = ''edlink'', cs_last_event_id = Some v, cs_last_event_at = Some now,
        cs_last_poll_at = Some now, cs_cold_start_required = False, cs_updated_at = now\<rparr>"

section \<open>Handlers\<close>

record handler_env =
  he_float :: "rat \<Rightarrow> string"
  he_int :: "string \<Rightarrow> exn + int"
  he_sha :: "string \<Rightarrow> string"
  he_hex :: "nat \<Rightarrow> string"
  he_run_id :: uuid
  he_now :: timestamp
  he_today :: date

text \<open>\<open>str(data.get(k) or d)\<close>, \<open>int(data.get(k) or n)\<close> and \<open>list(data.get(k) or [])\<close>.\<close>

definition data_text :: "handler_env \<Rightarrow> dict \<Rightarrow> string \<Rightarrow> string \<Rightarrow> string" where
  "data_text e data k d = py_str (he_float e) (json_or (dict_get data k) (JStr d))"

definition data_int :: "handler_env \<Rightarrow> dict \<Rightarrow> string \<Rightarrow> int \<Rightarrow> exn + int" where
  "data_int e data k n =
     (case json_or (dict_get data k) (JInt n) of
        JInt i \<Rightarrow> Inr i
      | JBool b \<Rightarrow> Inr (if b then 1 else 0)
      | JFloat r \<Rightarrow> Inr (if 0 \<le> r then \<lfloor>r\<rfloor> else \<lceil>r\<rceil>)
      | JStr s \<Rightarrow> he_int e s
      | _ \<Rightarrow> Inl TypeError)"

definition data_list :: "dict \<Rightarrow> string \<Rightarrow> exn + json list" where
  "data_list data k = json_iter (json_or (dict_get data k) (JArr []))"

definition test_event_id :: "handler_env \<Rightarrow> nat \<Rightarrow> string" where
  "test_event_id e i = ''evt_test_'' @ take 8 (he_hex e i)"

definition insert_test_student :: "student_row \<Rightarrow> db \<Rightarrow> exn + db" where
  "insert_test_student row db =
     (if \<not> lea_exists db (sr_lea_id row) then Inl (ForeignKeyViolation ''students_lea_id_fkey'')
      else Inr (db\<lparr>db_students := upsert sr_id (\<lambda>old new. old\<lparr>sr_given_name := sr_given_name new,
        sr_family_name := sr_family_name new, sr_grade := sr_grade new, sr_school := sr_school new\<rparr>)
        row (db_students db)\<rparr>))"

definition insert_test_enrollment :: "enrollment_row \<Rightarrow> db \<Rightarrow> exn + db" where
  "insert_test_enrollment row db =
     (if er_id row \<in> er_id ` set (db_enrollments db) then Inr db
      else if \<not> lea_exists db (er_lea_id row) then Inl (ForeignKeyViolation ''enrollments_lea_id_fkey'')
      else if \<not> student_in_lea db (er_lea_id row) (er_student_id row) then
        Inl (ForeignKeyViolation ''fk_enrollments_lea_student'')
      else Inr (db\<lparr>db_enrollments := db_enrollments db @ [row]\<rparr>))"

definition insert_test_snapshot ::
  "entity_type \<Rightarrow> string \<Rightarrow> lea_id \<Rightarrow> uuid \<Rightarrow> string \<Rightarrow> dict \<Rightarrow> timestamp \<Rightarrow> db \<Rightarrow> exn + db" where
  "insert_test_snapshot t nk l job event_id payload now =
     insert_snapshot_row t
       \<lparr>sn_id = 0, sn_key = nk, sn_lea_id = l, sn_generation = job, sn_superseded_by = None,
        sn_superseded_at = None, sn_deleted_upstream = False, sn_source_event_id = Some event_id,
        sn_source_event_at = Some now, sn_created_at = now, sn_payload = payload\<rparr>"

type_synonym handler = "handler_env \<Rightarrow> uuid \<Rightarrow> lea_id \<Rightarrow> string option \<Rightarrow> dict \<Rightarrow> db \<Rightarrow> exn + db"

definition handle_happy_delta :: handler where
  "handle_happy_delta e job l cursor_before data db =
     (let suffix = data_text e data ''student_suffix'' ''tester'';
          student_id = ''stu-test-'' @ suffix @ ''-'' @ take 6 (he_hex e 0);
          enrollment_id = ''enr-test-'' @ suffix @ ''-'' @ take 6 (he_hex e 1);
          cursor_after = test_event_id e 2;
          now = he_now e;
          given = data_text e data ''given_name'' ''Sam'';
          family = data_text e data ''family_name'' ''Quincy'';
          grade = data_text e data ''grade'' ''07'';
          begin_day = he_today e in
      res_bind (insert_test_student
          \<lparr>sr_id = student_id, sr_lea_id = l, sr_given_name = given, sr_family_name = family,
           sr_grade = Some grade, sr_preferred = None,
           sr_school = Some (data_text e data ''primary_school_id'' ''sch-dev''),
           sr_external_ids = JObj [(''sis'', JStr student_id)], sr_deleted_at = None\<rparr> db) (\<lambda>db.
      res_bind (insert_test_snapshot STUDENT student_id l job cursor_after
          [(''id'', JStr student_id), (''lea_id'', JStr l), (''given_name'', JStr given),
           (''family_name'', JStr family), (''grade'', JStr grade)] now db) (\<lambda>db.
      res_bind (insert_test_enrollment
          \<lparr>er_id = enrollment_id, er_lea_id = l, er_student_id = student_id, er_class_id = ''cls-test-A'',
           er_begin = begin_day, er_end = None, er_deleted_at = None\<rparr> db) (\<lambda>db.
      res_bind (insert_test_snapshot ENROLLMENT enrollment_id l job cursor_after
          [(''id'', JStr enrollment_id), (''lea_id'', JStr l), (''student_id'', JStr student_id),
           (''class_id'', JStr ''cls-test-A''), (''begin_date'', JStr (isoformat begin_day))] now db) (\<lambda>db.
        Inr (mark_terminal job now
          \<lparr>tm_status = ''success'', tm_events = 2, tm_errors = 0, tm_warnings = 0,
           tm_cursor_after = Some cursor_after, tm_summary = None\<rparr>
          (advance_test_cursor l cursor_after now db)))))))"

definition handle_l1_failure :: handler where
  "handle_l1_failure e job l cursor_before data db =
     (let code = data_text e data ''code'' ''HTTP_INTEGRITY_FAILED'' in
      res_bind (data_int e data ''http_status'' 200) (\<lambda>http.
      res_bind (write_test_issue job 1 code None
          [(''http_status'', JInt http), (''error'', JStr (data_text e data ''error'' ''Layer 1 failure'')),
           (''severity'', JStr ''error'')] (he_now e) db) (\<lambda>db.
        Inr (mark_terminal job (he_now e)
          \<lparr>tm_status = ''failed'', tm_events = 0, tm_errors = 1, tm_warnings = 0,
           tm_cursor_after = cursor_before, tm_summary = Some (''L1:'' @ code)\<rparr> db))))"

definition handle_l2_failure :: handler where
  "handle_l2_failure e job l cursor_before data db =
     (let code = data_text e data ''code'' ''SCHEMA_MISSING_FIELD'';
          event_id = data_text e data ''event_id'' ''evt_test_l2'' in
      res_bind (write_test_issue job 2 code (Some event_id)
          [(''field'', JStr (data_text e data ''field'' ''givenName'')), (''severity'', JStr ''error'')]
          (he_now e) db) (\<lambda>db.
        Inr (mark_terminal job (he_now e)
          \<lparr>tm_status = ''failed'', tm_events = 0, tm_errors = 1, tm_warnings = 0,
           tm_cursor_after = cursor_before, tm_summary = Some (''L2:'' @ code @ ''@'' @ event_id)\<rparr> db)))"

definition handle_l3_failure :: handler where
  "handle_l3_failure e job l cursor_before data db =
     (let code = data_text e data ''code'' ''PARSE_INVALID_DATE'';
          event_id = data_text e data ''event_id'' ''evt_test_l3'';
          cursor_after = test_event_id e 0 in
      res_bind (write_test_issue job 3 code (Some event_id)
          [(''field'', JStr (data_text e data ''field'' ''beginDate'')),
           (''raw_value'', JStr (data_text e data ''raw_value'' [])), (''severity'', JStr ''error'')]
          (he_now e) db) (\<lambda>db.
        Inr (mark_terminal job (he_now e)
          \<lparr>tm_status = ''success'', tm_events = 0, tm_errors = 1, tm_warnings = 0,
           tm_cursor_after = Some cursor_after, tm_summary = Some (''L3:'' @ code @ ''@'' @ event_id)\<rparr>
          (advance_test_cursor l cursor_after (he_now e) db))))"

definition open_test_quarantine ::
  "uuid \<Rightarrow> lea_id \<Rightarrow> string \<Rightarrow> string \<Rightarrow> dict \<Rightarrow> timestamp \<Rightarrow> db \<Rightarrow> exn + db" where
  "open_test_quarantine job l enrollment_id missing payload now db =
     (if job \<notin> job_ids db then Inl (ForeignKeyViolation ''quarantine_sync_job_id_fkey'')
      else Inr (db\<lparr>db_quarantine := db_quarantine db @
        [\<lparr>qr_id = db_next_id db, qr_sync_job_id = job, qr_lea_id = l, qr_entity_type = ''enrollment'',
          qr_entity_id = enrollment_id,
          qr_reason = ''Layer 4: enrollment references unknown student '' @ missing,
          qr_raw_payload = JObj payload, qr_created_at = now, qr_resolved_at = None,
          qr_resolution_status = None, qr_resolution_operator = None\<rparr>], db_next_id := Suc (db_next_id db)\<rparr>))"

definition handle_l4_orphan :: handler where
  "handle_l4_orphan e job l cursor_before data db =
     (let enrollment_id = data_text e data ''enrollment_id_prefix'' ''enr-test-orph'' @ ''-'' @ take 6 (he_hex e 0);
          missing = data_text e data ''missing_student_id'' ''stu-MISSING'';
          event_id = test_event_id e 1;
          payload = [(''id'', JStr enrollment_id), (''student_id'', JStr missing),
            (''class_id'', JStr ''cls-test-A''), (''begin_date'', JStr (isoformat (he_today e))),
            (''source_event_id'', JStr event_id)] in
      res_bind (open_test_quarantine job l enrollment_id missing payload (he_now e) db) (\<lambda>db.
      res_bind (write_test_issue job 4 ''ENROLLMENT_ORPHAN_STUDENT'' (Some event_id)
          [(''missing_student_id'', JStr missing), (''entity_type'', JStr ''enrollment''),
           (''entity_id'', JStr enrollment_id), (''severity'', JStr ''error'')] (he_now e) db) (\<lambda>db.
        Inr (mark_terminal job (he_now e)
          \<lparr>tm_status = ''success'', tm_events = 0, tm_errors = 1, tm_warnings = 0,
           tm_cursor_after = Some event_id, tm_summary = Some ''L4:ENROLLMENT_ORPHAN_STUDENT''\<rparr>
          (advance_test_cursor l event_id (he_now e) db)))))"

definition THRESHOLD_KEYS :: "string list" where
  "THRESHOLD_KEYS = [''page_event_count'', ''baseline_median'', ''ratio'', ''live_count_before'',
     ''projected_count_after'', ''shift_pct'']"

definition handle_l5_threshold :: handler where
  "handle_l5_threshold e job l cursor_before data db =
     (let code = data_text e data ''code'' ''THRESHOLD_EVENT_VOLUME_SPIKE'';
          detail = dict_set (filter (\<lambda>kv. fst kv \<in> set THRESHOLD_KEYS) data) ''severity'' (JStr ''error'') in
      res_bind (write_test_issue job 5 code None detail (he_now e) db) (\<lambda>db.
        Inr (mark_terminal job (he_now e)
          \<lparr>tm_status = ''failed'', tm_events = 0, tm_errors = 1, tm_warnings = 0,
           tm_cursor_after = cursor_before, tm_summary = Some (''L5:'' @ code)\<rparr> db)))"

definition handle_reconciliation_drift :: handler where
  "handle_reconciliation_drift e job l cursor_before data db =
     (let entity_kind = data_text e data ''entity_type'' ''students'';
          canonical_root = he_sha e (''canonical:'' @ l @ '':'' @ he_hex e 0);
          partner_root = he_sha e (''partner:'' @ l @ '':'' @ he_hex e 1) in
      res_bind (data_list data ''canonical_only_ids'') (\<lambda>canonical_only.
      res_bind (data_list data ''partner_only_ids'') (\<lambda>partner_only.
      res_bind (insert_run
          \<lparr>rr_id = he_run_id e, rr_lea_id = l, rr_partner = ''edlink'', rr_started_at = he_now e - 1000000,
           rr_completed_at = Some (he_now e), rr_status = ''drift_detected'',
           rr_canonical_root_hash = canonical_root, rr_partner_root_hash = Some partner_root,
           rr_drift_summary = [[(''entity_type'', JStr entity_kind),
             (''canonical_only_ids'', JArr canonical_only), (''partner_only_ids'', JArr partner_only),
             (''canonical_mid_hash'', JStr (take 16 canonical_root)),
             (''partner_mid_hash'', JStr (take 16 partner_root))]],
           rr_error_message = None\<rparr> db) (\<lambda>db.
        Inr (mark_terminal job (he_now e)
          \<lparr>tm_status = ''success'', tm_events = 0, tm_errors = 0, tm_warnings = 1,
           tm_cursor_after = cursor_before, tm_summary = Some ''reconciliation_drift: see reconciliation_runs''\<rparr>
          db)))))"

definition HANDLERS :: "(string \<times> handler) list" where
  "HANDLERS =
     [(''happy_delta'', handle_happy_delta), (''l1_failure'', handle_l1_failure),
      (''l2_failure'', handle_l2_failure), (''l3_failure'', handle_l3_failure),
      (''l4_orphan'', handle_l4_orphan), (''l5_threshold'', handle_l5_threshold),
      (''reconciliation_drift'', handle_reconciliation_drift)]"

section \<open>The life of a dispatched job\<close>

definition force_failure :: "uuid \<Rightarrow> timestamp \<Rightarrow> string \<Rightarrow> db \<Rightarrow> db" where
  "force_failure job now summary =
     mark_terminal job now
       \<lparr>tm_status = ''failed'', tm_events = 0, tm_errors = 1, tm_warnings = 0, tm_cursor_after = None,
        tm_summary = Some summary\<rparr>"

definition handle_job ::
  "handler_env \<Rightarrow> uuid \<Rightarrow> lea_id \<Rightarrow> scenario \<Rightarrow> string option \<Rightarrow> db \<Rightarrow> db \<times> (exn + unit)" where
  "handle_job e job l s cursor_before db =
     (case map_of HANDLERS (sc_kind s) of
        None \<Rightarrow> (force_failure job (he_now e) (''unknown scenario kind '' @ py_repr_str (sc_kind s)) db, Inr ())
      | Some handler \<Rightarrow>
          transaction (\<lambda>db. res_bind (handler e job l cursor_before (sc_data s) db) (\<lambda>db'. Inr ((), db'))) db)"

record dispatched =
  dp_job :: uuid
  dp_lea_id :: lea_id
  dp_scenario :: scenario
  dp_cursor_before :: "string option"

text \<open>The background task of a dispatched job: any exception marks the job failed.\<close>

definition run_after_delay :: "handler_env \<Rightarrow> dispatched \<Rightarrow> db \<Rightarrow> db" where
  "run_after_delay e d db =
     (case handle_job e (dp_job d) (dp_lea_id d) (dp_scenario d) (dp_cursor_before d) db of
        (db', Inr ()) \<Rightarrow> db'
      | (db', Inl x) \<Rightarrow> force_failure (dp_job d) (he_now e) ''test_event handler crashed'' db')"

definition start_job ::
  "(string \<times> scenario) list \<Rightarrow> lea_id \<Rightarrow> string \<Rightarrow> uuid \<Rightarrow> timestamp \<Rightarrow> db \<Rightarrow> db \<times> (dispatch_error + dispatched)" where
  "start_job scenarios l scenario_id job now db =
     (case get_scenario scenarios scenario_id of
        Inl x \<Rightarrow> (db, Inl x)
      | Inr s \<Rightarrow>
          (let cursor_before = read_current_cursor db l in
           case insert_running_row job l now cursor_before db of
             Inl x \<Rightarrow> (db, Inl (HandlerError x))
           | Inr db' \<Rightarrow>
               (db', Inr \<lparr>dp_job = job, dp_lea_id = l, dp_scenario = s, dp_cursor_before = cursor_before\<rparr>)))"

text \<open>\<open>enqueue\<close> gives the result for the response and leaves the task to the event loop.\<close>

record dispatch_result =
  dr_sync_job_id :: uuid
  dr_scenario_id :: string
  dr_lea_id :: lea_id
  dr_visibility_seconds :: rat

definition enqueue ::
  "(string \<times> scenario) list \<Rightarrow> rat \<Rightarrow> lea_id \<Rightarrow> string \<Rightarrow> uuid \<Rightarrow> timestamp \<Rightarrow> db \<Rightarrow>
   db \<times> (dispatch_error + (dispatch_result \<times> dispatched))" where
  "enqueue scenarios seconds l scenario_id job now db =
     (case start_job scenarios l scenario_id job now db of
        (db', Inl x) \<Rightarrow> (db', Inl x)
      | (db', Inr d) \<Rightarrow>
          (db', Inr (\<lparr>dr_sync_job_id = job, dr_scenario_id = sc_id (dp_scenario d), dr_lea_id = l,
             dr_visibility_seconds = seconds\<rparr>, d)))"

definition run_immediately ::
  "(string \<times> scenario) list \<Rightarrow> handler_env \<Rightarrow> lea_id \<Rightarrow> string \<Rightarrow> uuid \<Rightarrow> timestamp \<Rightarrow> db \<Rightarrow>
   db \<times> (dispatch_error + dispatch_result)" where
  "run_immediately scenarios e l scenario_id job now db =
     (case start_job scenarios l scenario_id job now db of
        (db', Inl x) \<Rightarrow> (db', Inl x)
      | (db', Inr d) \<Rightarrow>
          (case handle_job e job l (dp_scenario d) (dp_cursor_before d) db' of
             (db'', Inl x) \<Rightarrow> (db'', Inl (HandlerError x))
           | (db'', Inr ()) \<Rightarrow>
               (db'', Inr \<lparr>dr_sync_job_id = job, dr_scenario_id = sc_id (dp_scenario d), dr_lea_id = l,
                  dr_visibility_seconds = 0\<rparr>)))"

section \<open>Routes\<close>

text \<open>
  The routes for an authenticated operator; \<open>dev\<close> says whether the profile is the dev profile. An
  exception escaping the catalog is kept; \<open>ScenarioNotFound\<close> is a 404.
\<close>

definition list_scenarios_route ::
  "(rat \<Rightarrow> string) \<Rightarrow> bool \<Rightarrow> json list \<Rightarrow> operator \<Rightarrow> exn + scenario list" where
  "list_scenarios_route ft dev files oper =
     res_bind (require_role ''admin'' oper) (\<lambda>_.
       if \<not> dev then Inl (HTTPException 404 ''Not found.'')
       else res_bind (load_scenarios ft files) (\<lambda>scenarios. Inr (list_scenarios scenarios)))"

definition DEFAULT_VISIBILITY_SECONDS :: rat where "DEFAULT_VISIBILITY_SECONDS = 6"

definition dispatch_route ::
  "(rat \<Rightarrow> string) \<Rightarrow> bool \<Rightarrow> json list \<Rightarrow> lea_id \<Rightarrow> string \<Rightarrow> uuid \<Rightarrow> timestamp \<Rightarrow> operator \<Rightarrow> db \<Rightarrow>
   db \<times> (exn + (dispatch_result \<times> dispatched))" where
  "dispatch_route ft dev files l scenario_id job now oper db =
     (case require_role ''admin'' oper of
        Inl x \<Rightarrow> (db, Inl x)
      | Inr _ \<Rightarrow>
          if l = [] \<or> scenario_id = [] then (db, Inl (HTTPException 422 ''Unprocessable Entity''))
          else if \<not> dev then (db, Inl (HTTPException 404 ''Not found.''))
          else if l \<notin> oper_authorized_leas oper then
            (db, Inl (HTTPException 403 (''Operator '' @ py_repr_str (oper_subject oper) @
               '' is not authorized for LEA '' @ py_repr_str l @ ''.'')))
          else case load_scenarios ft files of
            Inl x \<Rightarrow> (db, Inl x)
          | Inr scenarios \<Rightarrow>
              (case enqueue scenarios DEFAULT_VISIBILITY_SECONDS l scenario_id job now db of
                 (db', Inl (ScenarioNotFound i)) \<Rightarrow> (db', Inl (HTTPException 404 i))
               | (db', Inl (HandlerError x)) \<Rightarrow> (db', Inl x)
               | (db', Inr r) \<Rightarrow> (db', Inr r)))"

end
