(* ===== verification/TestEventsProperties.thy ===== *)
theory TestEventsProperties
  imports TestEvents Quarantine
begin

text \<open>
  Properties of the test events: a dispatched job always ends, what a failed one leaves alone, how
  the cursor of a test event hides the partner's feed, and the way of a quarantined test enrollment
  back out of quarantine.
\<close>

section \<open>A dispatched job ends\<close>

definition ended :: "timestamp \<Rightarrow> terminal \<Rightarrow> sync_job \<Rightarrow> sync_job" where
  "ended now t j =
     j\<lparr>sj_status := tm_status t, sj_completed_at := Some now, sj_event_count := tm_events t,
       sj_error_count := tm_errors t, sj_warning_count := tm_warnings t,
       sj_cursor_after := tm_cursor_after t, sj_error_summary := tm_summary t\<rparr>"

text \<open>The writes of a handler: the job ended in one of two ways, and only a successful one moved data.\<close>

definition ends_job :: "uuid \<Rightarrow> timestamp \<Rightarrow> db \<Rightarrow> db \<Rightarrow> bool" where
  "ends_job job now db db' \<longleftrightarrow> (\<exists>t. tm_status t \<in> {''success'', ''failed''} \<and>
     db_sync_jobs db' = update_where (\<lambda>j. sj_id j = job) (ended now t) (db_sync_jobs db) \<and>
     (tm_status t = ''failed'' \<longrightarrow> db_cursors db' = db_cursors db \<and> db_students db' = db_students db \<and>
        db_enrollments db' = db_enrollments db \<and> db_snapshots db' = db_snapshots db \<and>
        db_quarantine db' = db_quarantine db))"

lemma mark_terminal_sel [simp]:
  "db_sync_jobs (mark_terminal job now t db) = update_where (\<lambda>j. sj_id j = job) (ended now t) (db_sync_jobs db)"
  "db_cursors (mark_terminal job now t db) = db_cursors db"
  "db_students (mark_terminal job now t db) = db_students db"
  "db_enrollments (mark_terminal job now t db) = db_enrollments db"
  "db_snapshots (mark_terminal job now t db) = db_snapshots db"
  "db_quarantine (mark_terminal job now t db) = db_quarantine db"
  "db_leas (mark_terminal job now t db) = db_leas db"
  "db_next_id (mark_terminal job now t db) = db_next_id db"
  by (simp_all add: mark_terminal_def update_sync_job_def ended_def [abs_def])

lemma advance_test_cursor_sel [simp]:
  "db_sync_jobs (advance_test_cursor l v now db) = db_sync_jobs db"
  "db_quarantine (advance_test_cursor l v now db) = db_quarantine db"
  "db_students (advance_test_cursor l v now db) = db_students db"
  "db_enrollments (advance_test_cursor l v now db) = db_enrollments db"
  "db_leas (advance_test_cursor l v now db) = db_leas db"
  "db_next_id (advance_test_cursor l v now db) = db_next_id db"
  by (simp_all add: advance_test_cursor_def write_cursor_def)

lemmas test_writes = write_test_issue_def insert_test_student_def insert_test_enrollment_def
  insert_test_snapshot_def insert_snapshot_row_def set_snapshots_def open_test_quarantine_def insert_run_def

lemmas handler_defs = handle_happy_delta_def handle_l1_failure_def handle_l2_failure_def handle_l3_failure_def
  handle_l4_orphan_def handle_l5_threshold_def handle_reconciliation_drift_def

lemma lookup_ended:
  "lookup_by sj_id job (update_where (\<lambda>j. sj_id j = job) (ended now t) jobs) =
     map_option (ended now t) (lookup_by sj_id job jobs)"
  by (rule lookup_update_where) (simp add: ended_def)

lemma lookup_not_ended:
  "i \<noteq> job \<Longrightarrow> lookup_by sj_id i (update_where (\<lambda>j. sj_id j = job) (ended now t) jobs) = lookup_by sj_id i jobs"
  by (induction jobs) (auto simp: lookup_by_def update_where_def ended_def)

lemma ends_success:
  assumes "db_sync_jobs db1 = db_sync_jobs db" and "tm_status t = ''success''"
  shows "ends_job job now db (mark_terminal job now t db1)"
  using assms unfolding ends_job_def by (intro exI [of _ t]) simp

lemma ends_failed:
  assumes "db_sync_jobs db1 = db_sync_jobs db" "db_cursors db1 = db_cursors db"
    "db_students db1 = db_students db" "db_enrollments db1 = db_enrollments db"
    "db_snapshots db1 = db_snapshots db" "db_quarantine db1 = db_quarantine db"
    and "tm_status t = ''failed''"
  shows "ends_job job now db (mark_terminal job now t db1)"
  using assms unfolding ends_job_def by (intro exI [of _ t]) simp

lemma happy_ends: "handle_happy_delta e job l c data db = Inr db' \<Longrightarrow> ends_job job (he_now e) db db'"
  by (auto simp: handle_happy_delta_def test_writes Let_def res_simps split: if_splits intro!: ends_success)

lemma l1_ends: "handle_l1_failure e job l c data db = Inr db' \<Longrightarrow> ends_job job (he_now e) db db'"
  by (auto simp: handle_l1_failure_def test_writes Let_def res_simps split: if_splits intro!: ends_failed)

lemma l2_ends: "handle_l2_failure e job l c data db = Inr db' \<Longrightarrow> ends_job job (he_now e) db db'"
  by (auto simp: handle_l2_failure_def test_writes Let_def res_simps split: if_splits intro!: ends_failed)

lemma l3_ends: "handle_l3_failure e job l c data db = Inr db' \<Longrightarrow> ends_job job (he_now e) db db'"
  by (auto simp: handle_l3_failure_def test_writes Let_def res_simps split: if_splits intro!: ends_success)

lemma l4_ends: "handle_l4_orphan e job l c data db = Inr db' \<Longrightarrow> ends_job job (he_now e) db db'"
  by (auto simp: handle_l4_orphan_def test_writes Let_def res_simps split: if_splits intro!: ends_success)

lemma l5_ends: "handle_l5_threshold e job l c data db = Inr db' \<Longrightarrow> ends_job job (he_now e) db db'"
  by (auto simp: handle_l5_threshold_def test_writes Let_def res_simps split: if_splits intro!: ends_failed)

lemma drift_ends: "handle_reconciliation_drift e job l c data db = Inr db' \<Longrightarrow> ends_job job (he_now e) db db'"
  by (auto simp: handle_reconciliation_drift_def test_writes Let_def res_simps split: if_splits intro!: ends_success)

lemma handler_ends:
  assumes "(k, handler) \<in> set HANDLERS" and "handler e job l c data db = Inr db'"
  shows "ends_job job (he_now e) db db'"
  using assms happy_ends l1_ends l2_ends l3_ends l4_ends l5_ends drift_ends
  unfolding HANDLERS_def by auto

lemma force_failure_ends: "ends_job job now db (force_failure job now summary db)"
  unfolding force_failure_def by (rule ends_failed) simp_all

lemma run_after_delay_ends: "ends_job (dp_job d) (he_now e) db (run_after_delay e d db)"
proof (cases "map_of HANDLERS (sc_kind (dp_scenario d))")
  case None
  then show ?thesis by (simp add: run_after_delay_def handle_job_def force_failure_ends split: unit.splits)
next
  case (Some handler)
  show ?thesis
  proof (cases "handler e (dp_job d) (dp_lea_id d) (dp_cursor_before d) (sc_data (dp_scenario d)) db")
    case (Inl x)
    with Some show ?thesis by (simp add: run_after_delay_def handle_job_def transaction_def force_failure_ends)
  next
    case (Inr db')
    with Some handler_ends [OF map_of_SomeD [OF Some] Inr] show ?thesis
      by (simp add: run_after_delay_def handle_job_def transaction_def split: unit.splits)
  qed
qed

text \<open>
  C25. A dispatched test event always ends: whatever the scenario holds, and whatever its handler
  raises, the job that the dispatch inserted becomes a success or a failure with its time of
  completion, every other job stays as it was, and a failed one has moved no cursor and written no
  student, enrollment, snapshot or quarantine row. What happens between the dispatch and the end is
  free, as long as it leaves the row of the job alone.
\<close>

theorem dispatched_job_ends:
  assumes "enqueue scenarios seconds l scenario_id job now db = (db1, Inr (r, d))"
    and "lookup_by sj_id job (db_sync_jobs db2) = lookup_by sj_id job (db_sync_jobs db1)"
  shows "\<exists>j. lookup_by sj_id job (db_sync_jobs (run_after_delay e d db2)) = Some j \<and>
    sj_status j \<in> {''success'', ''failed''} \<and> sj_completed_at j = Some (he_now e) \<and>
    sj_lea_id j = l \<and> sj_started_at j = now \<and> sj_cursor_before j = read_current_cursor db l \<and>
    (\<forall>i. i \<noteq> job \<longrightarrow> lookup_by sj_id i (db_sync_jobs (run_after_delay e d db2)) = lookup_by sj_id i (db_sync_jobs db2)) \<and>
    (sj_status j = ''failed'' \<longrightarrow> db_cursors (run_after_delay e d db2) = db_cursors db2 \<and>
       db_students (run_after_delay e d db2) = db_students db2 \<and>
       db_enrollments (run_after_delay e d db2) = db_enrollments db2 \<and>
       db_snapshots (run_after_delay e d db2) = db_snapshots db2 \<and>
       db_quarantine (run_after_delay e d db2) = db_quarantine db2)"
proof -
  let ?j0 = "test_job job l now (read_current_cursor db l)"
  have d: "dp_job d = job" and start: "insert_running_row job l now (read_current_cursor db l) db = Inr db1"
    using assms(1) by (auto simp: enqueue_def start_job_def Let_def split: sum.splits)
  have "lookup_by sj_id job (db_sync_jobs db1) = Some ?j0"
  proof -
    have "lookup_by sj_id job (db_sync_jobs (ensure_lea_exists l db)) = None"
      and "db_sync_jobs db1 = db_sync_jobs (ensure_lea_exists l db) @ [?j0]"
      using start by (auto simp: insert_running_row_def insert_sync_job_def lookup_by_None_iff job_ids_def
          test_job_def split: if_splits)
    then show ?thesis by (simp add: lookup_by_append) (simp add: lookup_by_def test_job_def)
  qed
  with assms(2) have found: "lookup_by sj_id job (db_sync_jobs db2) = Some ?j0" by simp
  from run_after_delay_ends [of d e db2] d obtain t where t: "tm_status t \<in> {''success'', ''failed''}"
    and jobs: "db_sync_jobs (run_after_delay e d db2) = update_where (\<lambda>j. sj_id j = job) (ended (he_now e) t) (db_sync_jobs db2)"
    and rest: "tm_status t = ''failed'' \<longrightarrow> db_cursors (run_after_delay e d db2) = db_cursors db2 \<and>
       db_students (run_after_delay e d db2) = db_students db2 \<and>
       db_enrollments (run_after_delay e d db2) = db_enrollments db2 \<and>
       db_snapshots (run_after_delay e d db2) = db_snapshots db2 \<and>
       db_quarantine (run_after_delay e d db2) = db_quarantine db2"
    unfolding ends_job_def by auto
  have same: "lookup_by sj_id job (db_sync_jobs (run_after_delay e d db2)) = Some (ended (he_now e) t ?j0)"
    unfolding jobs by (simp add: found lookup_ended)
  show ?thesis
    using same t rest unfolding jobs
    by (intro exI [of _ "ended (he_now e) t ?j0"]) (simp add: lookup_not_ended ended_def test_job_def)
qed

section \<open>Test events and the feed\<close>

lemma index_after_unknown: "a \<notin> xe_id ` set evts \<Longrightarrow> index_after a evts = length evts"
  by (induction evts) auto

lemma fetch_changes_unknown:
  assumes "load_lea_events ft parse_ts files l = Inr evts"
    and "cur_value c \<noteq> []" and "cur_value c \<notin> xe_id ` set evts"
  shows "fetch_changes ft parse_ts files n now l c =
    Inr \<lparr>pg_events = [], pg_next_cursor = c, pg_has_more = False, pg_retrieved_at = now, pg_layer_1 = layer1_200\<rparr>"
proof -
  have "get_events ft parse_ts files l (if cur_value c = [] then None else Some (cur_value c)) n =
      Inr (events_page evts (length evts) n)"
    using assms by (simp add: get_events_def slice_start_def index_after_unknown)
  from fetch_changes_eq [OF this] show ?thesis
    by (simp add: events_page_def Let_def collect_def opt_or_def map_filter_simps)
qed

lemma cursor_after_test_event:
  "read_cursor (mark_terminal job now' t (advance_test_cursor l v now db)) l ''edlink'' =
     \<lparr>cur_value = v, cur_observed_at = Some now\<rparr>"
proof -
  let ?row = "\<lparr>cs_lea_id = l, cs_partner = ''edlink'', cs_last_event_id = Some v, cs_last_event_at = Some now,
    cs_last_poll_at = Some now, cs_cold_start_required = False, cs_updated_at = now\<rparr>"
  have "cursor_key ?row = (l, ''edlink'')" by (simp add: cursor_key_def)
  with cursor_state.lookup_upsert_same [of ?row "db_cursors db"] show ?thesis
    by (simp add: read_cursor_def cursor_of_def) (auto simp: advance_test_cursor_def write_cursor_def
      merge_cursor_def opt_or_def split: option.splits)
qed

lemma cursor_moved:
  assumes "sc_kind s \<in> {''happy_delta'', ''l3_failure'', ''l4_orphan''}"
    and "handle_job e job l s c db = (db', Inr ())"
  shows "\<exists>i. read_cursor db' l ''edlink'' = \<lparr>cur_value = test_event_id e i, cur_observed_at = Some (he_now e)\<rparr>"
  using assms
  by (auto simp: handle_job_def HANDLERS_def transaction_Inr handle_happy_delta_def handle_l3_failure_def
      handle_l4_orphan_def Let_def res_simps cursor_after_test_event split: if_splits)

text \<open>
  After a test event that moves the cursor of a LEA, the partner's events are never polled
  again: the made-up event id is not in the feed, the client takes an unknown id for the end of the
  feed, and every poll gives an empty last page with the same cursor, however the feed grows.
\<close>

theorem test_event_hides_feed:
  assumes "sc_kind s \<in> {''happy_delta'', ''l3_failure'', ''l4_orphan''}"
    and "handle_job e job l s c db = (db', Inr ())"
    and "load_lea_events ft parse_ts files l = Inr evts"
    and "\<forall>i. test_event_id e i \<notin> xe_id ` set evts"
  shows "fetch_changes ft parse_ts files n now l (read_cursor db' l ''edlink'') =
    Inr \<lparr>pg_events = [], pg_next_cursor = read_cursor db' l ''edlink'', pg_has_more = False,
         pg_retrieved_at = now, pg_layer_1 = layer1_200\<rparr>"
proof -
  from cursor_moved [OF assms(1,2)] obtain i where
    "read_cursor db' l ''edlink'' = \<lparr>cur_value = test_event_id e i, cur_observed_at = Some (he_now e)\<rparr>" ..
  with assms(4) show ?thesis by (intro fetch_changes_unknown [OF assms(3)]) (simp_all add: test_event_id_def)
qed

section \<open>The way back from quarantine\<close>

lemma release_run:
  assumes "load_unresolved q db = Inr r" and "qr_raw_payload r = JObj p" and "qr_entity_type r = ''enrollment''"
    and p: "dict_get p ''id'' = JStr i" "dict_get p ''student_id'' = JStr s" "dict_get p ''class_id'' = JStr c"
      "dict_get p ''begin_date'' = JStr (isoformat day)" "dict_get p ''end_date'' = JNull"
      "dict_get p ''source_event_id'' = JStr ev"
    and "valid_date day" and "student_in_lea db (qr_lea_id r) s" and "lea_exists db (qr_lea_id r)"
    and "gen \<notin> job_ids db"
  shows "\<exists>db2 out. release ft q operator gen now db = (db2, Inr out) \<and>
    \<lparr>er_id = i, er_lea_id = qr_lea_id r, er_student_id = s, er_class_id = c, er_begin = day,
     er_end = None, er_deleted_at = None\<rparr> \<in> set (db_enrollments db2) \<and>
    (\<exists>sn \<in> set (db_snapshots db2 ENROLLMENT). sn_key sn = i \<and> live sn \<and> sn_generation sn = gen \<and>
       sn_source_event_id sn = Some ev) \<and>
    map_option qr_resolution_status (lookup_by qr_id q (db_quarantine db2)) = Some (Some ''released'')"
proof -
  let ?l = "qr_lea_id r"
  let ?a = "db\<lparr>db_sync_jobs := db_sync_jobs db @ [release_job_row gen ?l now q]\<rparr>"
  let ?sn = "\<lparr>sn_id = db_next_id ?a, sn_key = i, sn_lea_id = ?l, sn_generation = gen, sn_superseded_by = None,
    sn_superseded_at = None, sn_deleted_upstream = False, sn_source_event_id = Some ev,
    sn_source_event_at = Some now, sn_created_at = now, sn_payload = p\<rparr>"
  let ?b = "(set_snapshots ENROLLMENT (db_snapshots ?a ENROLLMENT @ [?sn]) ?a)\<lparr>db_next_id := Suc (db_next_id ?a)\<rparr>"
  let ?e = "\<lparr>er_id = i, er_lea_id = ?l, er_student_id = s, er_class_id = c, er_begin = day,
     er_end = None, er_deleted_at = None\<rparr>"
  define db2 where "db2 = mark_resolved q now ''released'' operator None
    (?b\<lparr>db_enrollments := upsert er_id (\<lambda>_ new. new) ?e (db_enrollments ?b)\<rparr>)"
  have pay: "released_payload r db = Inr p" using assms by (simp add: released_payload_def)
  have s1: "insert_sync_job (release_job_row gen ?l now q) db = Inr ?a"
    using assms(13) by (simp add: insert_sync_job_def) (simp add: release_job_row_def)
  have "gen \<in> job_ids ?a" by (simp add: job_ids_def) (simp add: release_job_row_def)
  then have s2: "insert_enrollment_snapshot gen ?l p now ?a = Inr ?b"
    using p by (simp add: insert_enrollment_snapshot_def not_null_def insert_snapshot_row_def)
  have "lea_exists ?b ?l" "student_in_lea ?b ?l s"
    using assms(11,12) by (simp_all add: lea_exists_def student_in_lea_def set_snapshots_def)
  then have s3: "upsert_enrollment_canonical ft ?l p ?b =
      Inr (?b\<lparr>db_enrollments := upsert er_id (\<lambda>_ new. new) ?e (db_enrollments ?b)\<rparr>)"
    using p fromisoformat_isoformat [OF assms(10)]
    by (simp add: upsert_enrollment_canonical_def parse_iso_date_def not_null_def write_enrollment_def)
  have run: "\<exists>out. release ft q operator gen now db = (db2, Inr out)"
    unfolding release_def transaction_Inr release_body_def assms(1) pay res_bind.simps db2_def
    using s1 s2 s3 by simp
  have "lookup_by qr_id q (db_quarantine db) = Some r"
    using assms(1) by (auto simp: load_unresolved_def split: option.splits if_splits)
  then have "map_option qr_resolution_status (lookup_by qr_id q (db_quarantine db2)) = Some (Some ''released'')"
    unfolding db2_def mark_resolved_def by (simp add: lookup_update_where set_snapshots_def)
  moreover have "?e \<in> set (db_enrollments db2)" "?sn \<in> set (db_snapshots db2 ENROLLMENT)"
    unfolding db2_def mark_resolved_def by (simp_all add: upsert_replace_mem set_snapshots_def)
  moreover have "sn_key ?sn = i \<and> live ?sn \<and> sn_generation ?sn = gen \<and> sn_source_event_id ?sn = Some ev"
    by (simp add: live_def)
  ultimately show ?thesis using run by blast
qed

text \<open>
  The enrollment that a test event quarantines can be released: once the student it misses is
  in the LEA, the release of its row applies it, and the enrollment and the live snapshot of the
  release hold what the test event made up. So the payload that the dispatcher writes is one that
  the release reads.
\<close>

theorem test_orphan_released:
  assumes "open_test_quarantine job l i missing
      [(''id'', JStr i), (''student_id'', JStr missing), (''class_id'', JStr ''cls-test-A''),
       (''begin_date'', JStr (isoformat day)), (''source_event_id'', JStr ev)] t db = Inr db1"
    and "db_next_id db \<notin> qr_id ` set (db_quarantine db)"
    and "valid_date day" and "student_in_lea db l missing" and "lea_exists db l" and "gen \<notin> job_ids db"
  shows "\<exists>db2 out. release ft (db_next_id db) operator gen now db1 = (db2, Inr out) \<and>
    \<lparr>er_id = i, er_lea_id = l, er_student_id = missing, er_class_id = ''cls-test-A'', er_begin = day,
     er_end = None, er_deleted_at = None\<rparr> \<in> set (db_enrollments db2) \<and>
    (\<exists>sn \<in> set (db_snapshots db2 ENROLLMENT). sn_key sn = i \<and> live sn \<and> sn_generation sn = gen \<and>
       sn_source_event_id sn = Some ev) \<and>
    map_option qr_resolution_status (lookup_by qr_id (db_next_id db) (db_quarantine db2)) = Some (Some ''released'')"
proof -
  let ?p = "[(''id'', JStr i), (''student_id'', JStr missing), (''class_id'', JStr ''cls-test-A''),
       (''begin_date'', JStr (isoformat day)), (''source_event_id'', JStr ev)]"
  from assms(1) obtain r where r: "db1 = db\<lparr>db_quarantine := db_quarantine db @ [r], db_next_id := Suc (db_next_id db)\<rparr>"
    "qr_id r = db_next_id db" "qr_lea_id r = l" "qr_raw_payload r = JObj ?p" "qr_entity_type r = ''enrollment''"
    "qr_resolved_at r = None"
    by (auto simp: open_test_quarantine_def split: if_splits)
  have "lookup_by qr_id (db_next_id db) (db_quarantine db1) = Some r"
    using assms(2) r(1,2) lookup_by_None_iff [of qr_id "db_next_id db" "db_quarantine db"]
    by (simp add: lookup_by_append) (simp add: lookup_by_def)
  then have "load_unresolved (db_next_id db) db1 = Inr r" using r(6) by (simp add: load_unresolved_def)
  moreover have "student_in_lea db1 l missing" "lea_exists db1 l" "gen \<notin> job_ids db1"
    using assms(4-6) by (simp_all add: r(1) student_in_lea_def lea_exists_def job_ids_def)
  ultimately show ?thesis
    using release_run [of "db_next_id db" db1 r ?p i missing "''cls-test-A''" day ev gen ft operator now]
      assms(3) r(3-5) by (simp add: dict_get_def)
qed

section \<open>Witnesses\<close>

definition s_test_day :: date where
  "s_test_day = \<lparr>d_year = 2026, d_month = 1, d_day = 5\<rparr>"

definition s_handler_env :: handler_env where
  "s_handler_env = \<lparr>he_float = (\<lambda>_. []), he_int = (\<lambda>_. Inl ValueError), he_sha = (\<lambda>s. s),
     he_hex = (\<lambda>i. replicate 8 (CHR ''a'')), he_run_id = 9, he_now = 50, he_today = s_test_day\<rparr>"

definition s_catalog :: "(string \<times> scenario) list" where
  "s_catalog = [(''happy_path'', \<lparr>sc_id = ''happy_path'', sc_label = [], sc_section = ''happy'',
     sc_kind = ''happy_delta'', sc_description = [], sc_data = []\<rparr>)]"

definition s_dispatch :: "db \<times> (dispatch_error + (dispatch_result \<times> dispatched))" where
  "s_dispatch = enqueue s_catalog 6 ''lea-1'' ''happy_path'' 5 40 empty_db"

definition s_dispatched :: dispatched where
  "s_dispatched = snd (projr (snd s_dispatch))"

lemma s_dispatch_run:
  "enqueue s_catalog 6 ''lea-1'' ''happy_path'' 5 40 empty_db =
     (fst s_dispatch, Inr (fst (projr (snd s_dispatch)), s_dispatched))"
proof -
  have "\<not> isl (snd s_dispatch)" by code_simp
  from result_split [OF this] show ?thesis
    unfolding s_dispatched_def prod.collapse unfolding s_dispatch_def .
qed

theorem dispatched_job_ends_witness:
  "\<exists>j. lookup_by sj_id 5 (db_sync_jobs (run_after_delay s_handler_env s_dispatched (fst s_dispatch))) = Some j \<and>
     sj_completed_at j = Some 50"
  using dispatched_job_ends [OF s_dispatch_run refl, of s_handler_env] by (auto simp: s_handler_env_def)

theorem test_event_hides_feed_witness:
  "\<exists>db'. fetch_changes (\<lambda>_. []) s_ts s_files 500 60 ''lea-1'' (read_cursor db' ''lea-1'' ''edlink'') =
     Inr \<lparr>pg_events = [], pg_next_cursor = read_cursor db' ''lea-1'' ''edlink'', pg_has_more = False,
          pg_retrieved_at = 60, pg_layer_1 = layer1_200\<rparr>"
proof -
  let ?s = "dp_scenario s_dispatched"
  let ?run = "handle_job s_handler_env 5 ''lea-1'' ?s None (fst s_dispatch)"
  have kind: "sc_kind ?s \<in> {''happy_delta'', ''l3_failure'', ''l4_orphan''}" by code_simp
  have "snd ?run = Inr ()" by code_simp
  then have run: "?run = (fst ?run, Inr ())" by (metis prod.collapse)
  have "test_event_id s_handler_env 0 \<notin> xe_id ` set s_feed" by code_simp
  then have "\<forall>i. test_event_id s_handler_env i \<notin> xe_id ` set s_feed"
    by (simp add: test_event_id_def s_handler_env_def)
  from test_event_hides_feed [OF kind run s_feed_run this, of 500 60] show ?thesis by blast
qed

definition s_orphan_db :: db where
  "s_orphan_db = (fst s_dispatch)\<lparr>db_students :=
     [\<lparr>sr_id = ''stu-1'', sr_lea_id = ''lea-1'', sr_given_name = ''Sam'', sr_family_name = ''Quincy'',
       sr_grade = None, sr_preferred = None, sr_school = None, sr_external_ids = JObj [],
       sr_deleted_at = None\<rparr>]\<rparr>"

theorem test_orphan_released_witness:
  "\<exists>db1 db2 out. release (\<lambda>_. []) (db_next_id s_orphan_db) ''op'' 8 70 db1 = (db2, Inr out)"
proof -
  let ?p = "[(''id'', JStr ''enr-9''), (''student_id'', JStr ''stu-1''), (''class_id'', JStr ''cls-test-A''),
       (''begin_date'', JStr (isoformat s_test_day)), (''source_event_id'', JStr ''evt-9'')]"
  let ?q = "open_test_quarantine 5 ''lea-1'' ''enr-9'' ''stu-1'' ?p 50 s_orphan_db"
  have "\<not> isl ?q" by code_simp
  then have q: "?q = Inr (projr ?q)" by (simp add: sum.collapse)
  have "db_next_id s_orphan_db \<notin> qr_id ` set (db_quarantine s_orphan_db)" "valid_date s_test_day"
    "student_in_lea s_orphan_db ''lea-1'' ''stu-1''" "lea_exists s_orphan_db ''lea-1''"
    "8 \<notin> job_ids s_orphan_db"
    by code_simp+
  from test_orphan_released [OF q this, of "\<lambda>_. []" "''op''" 70] show ?thesis by blast
qed

end
