(* ===== verification/Connectors.thy ===== *)
theory Connectors
  imports EdlinkProperties
begin

text \<open>
  The interface between the sync worker and a connector (\<open>connectors/protocol.py\<close>) as a locale, the
  null connector (\<open>connectors/null_connector.py\<close>), and both connectors as interpretations. The
  first argument of \<open>fetch\<close> counts the calls of a drain: each of them has its own clock.
\<close>

section \<open>The null connector\<close>

record null_connector =
  nu_authorized :: "lea_id set"
  nu_cursors :: "lea_id \<rightharpoonup> cursor"

definition null_authorize_lea :: "timestamp \<Rightarrow> lea_id \<Rightarrow> null_connector \<Rightarrow> auth_result \<times> null_connector" where
  "null_authorize_lea now l c =
     (\<lparr>ar_success = True, ar_lea_id = l, ar_scopes = [''read_roster''],
       ar_expires_at = now + 60 * 60 * 1000000, ar_error = None\<rparr>,
      c\<lparr>nu_authorized := insert l (nu_authorized c)\<rparr>)"

definition null_revoke_lea :: "lea_id \<Rightarrow> null_connector \<Rightarrow> null_connector" where
  "null_revoke_lea l c = c\<lparr>nu_authorized := nu_authorized c - {l}, nu_cursors := (nu_cursors c)(l := None)\<rparr>"

definition null_event :: "timestamp \<Rightarrow> lea_id \<Rightarrow> normalized_event" where
  "null_event now l =
     \<lparr>ev_id = ''null-event-'' @ l @ ''-001'', ev_lea_id = l, ev_entity_type = STUDENT,
      ev_operation = CREATED,
      ev_entity = EStudent \<lparr>st_id = ''null-student-001'', st_lea_id = l, st_given_name = ''Test'',
        st_family_name = ''Student'', st_grade = Some ''05'', st_preferred = None, st_school = None,
        st_external_ids = []\<rparr>,
      ev_source_connector = ''null'', ev_source_event_id = ''null-source-001'',
      ev_occurred_at = now, ev_received_at = now\<rparr>"

definition null_fetch_changes :: "timestamp \<Rightarrow> lea_id \<Rightarrow> cursor \<Rightarrow> exn + event_page" where
  "null_fetch_changes now l since =
     Inr \<lparr>pg_events = [null_event now l],
          pg_next_cursor = \<lparr>cur_value = ''null-cursor-001'', cur_observed_at = Some now\<rparr>,
          pg_has_more = False, pg_retrieved_at = now, pg_layer_1 = layer1_200\<rparr>"

definition null_get_latest_cursor :: "timestamp \<Rightarrow> lea_id \<Rightarrow> cursor" where
  "null_get_latest_cursor now l = \<lparr>cur_value = ''null-cursor-latest'', cur_observed_at = Some now\<rparr>"

definition null_set_cursor :: "lea_id \<Rightarrow> cursor \<Rightarrow> null_connector \<Rightarrow> null_connector" where
  "null_set_cursor l v c = c\<lparr>nu_cursors := (nu_cursors c)(l \<mapsto> v)\<rparr>"

datatype ack_mode = ACK_SYNC | ACK_ASYNC | ACK_PENDING

record write_result =
  wr_success :: bool
  wr_ack_mode :: ack_mode
  wr_source_id :: "string option"
  wr_idempotency_key :: string
  wr_error :: "string option"

definition null_write :: "string \<Rightarrow> write_result" where
  "null_write idempotency_key =
     \<lparr>wr_success = True, wr_ack_mode = ACK_SYNC, wr_source_id = Some ''null-write-001'',
      wr_idempotency_key = idempotency_key, wr_error = None\<rparr>"

record connector_report =
  cp_lea_id :: lea_id
  cp_started_at :: timestamp
  cp_completed_at :: timestamp
  cp_in_sync_count :: int
  cp_drift_count :: int
  cp_drift_details :: "dict list"

definition null_reconcile :: "timestamp \<Rightarrow> lea_id \<Rightarrow> connector_report" where
  "null_reconcile now l =
     \<lparr>cp_lea_id = l, cp_started_at = now, cp_completed_at = now, cp_in_sync_count = 0,
      cp_drift_count = 0, cp_drift_details = []\<rparr>"

record inbound_result =
  ib_events :: "normalized_event list"
  ib_follow_up_required :: bool
  ib_error :: "string option"

definition null_handle_inbound :: inbound_result where
  "null_handle_inbound = \<lparr>ib_events = [], ib_follow_up_required = False, ib_error = None\<rparr>"

datatype health_status = GREEN | YELLOW | RED

definition null_health :: health_status where "null_health = GREEN"

definition make_test_lea :: lea where
  "make_test_lea =
     \<lparr>le_id = ''null-lea-001'', le_name = ''Null Test School District'', le_type = TRADITIONAL_DISTRICT,
      le_state = ''CA'', le_nces = None\<rparr>"

section \<open>Write-back and webhooks of the EdLink connector\<close>

definition edlink_write :: "string \<Rightarrow> write_result" where
  "edlink_write idempotency_key =
     \<lparr>wr_success = False, wr_ack_mode = ACK_SYNC, wr_source_id = None,
      wr_idempotency_key = idempotency_key,
      wr_error = Some ''EdLink rostering is read-only in session 1.''\<rparr>"

definition edlink_handle_inbound :: inbound_result where
  "edlink_handle_inbound =
     \<lparr>ib_events = [], ib_follow_up_required = False,
      ib_error = Some ''EdLink poll-only in session 1; Data Feeds push not wired.''\<rparr>"

definition edlink_reconcile :: "timestamp \<Rightarrow> lea_id \<Rightarrow> connector_report" where
  "edlink_reconcile now l =
     \<lparr>cp_lea_id = l, cp_started_at = now, cp_completed_at = now, cp_in_sync_count = 0,
      cp_drift_count = 0, cp_drift_details = []\<rparr>"

definition edlink_health :: health_status where "edlink_health = GREEN"

section \<open>The interface\<close>

text \<open>
  What the worker relies on: a page that a connector returns passed the check of the response, and
  every event of it is about the LEA asked for and carries an entity of its class and its LEA.
\<close>

locale connector =
  fixes fetch :: "nat \<Rightarrow> lea_id \<Rightarrow> cursor \<Rightarrow> exn + event_page"
  assumes page: "fetch i l c = Inr pg \<Longrightarrow> l1_ok (pg_layer_1 pg) \<and> page_for l pg \<and>
    (\<forall>ev \<in> set (pg_events pg). type_matches (ev_entity_type ev) (ev_entity ev) \<and> entity_of_lea l (ev_entity ev))"
begin

text \<open>A page of a connector is never blocked.\<close>

lemma never_blocked:
  assumes "fetch i l c = Inr pg" and "run_pipeline pg st = Inr rp"
  shows "\<not> rp_page_blocked rp"
  using page [OF assms(1)] blocked_iff [OF assms(2)] by blast

text \<open>One page, and a drain, of an LEA none of whose fetched ids another LEA uses.\<close>

lemma step_isolated:
  assumes "\<forall>i c pg. fetch i l c = Inr pg \<longrightarrow> (\<forall>ev \<in> set (pg_events pg). ids_free l ev db)"
  shows "foreign l (fst (process_one_page p (fetch i) l job now db)) = foreign l db"
proof (cases "process_one_page p (fetch i) l job now db")
  case (Pair db' r)
  show ?thesis
  proof (cases r)
    case (Inl e)
    with Pair have "db' = db" by (simp add: process_one_page_def transaction_Inl)
    with Pair show ?thesis by simp
  next
    case (Inr res)
    with Pair obtain out rp summary where
      run: "process_one_page p (fetch i) l job now db = (db', Inr (out, rp, summary))"
      by (cases res) auto
    then obtain pg where pg: "fetch i l (read_cursor db l p) = Inr pg"
      by (cases "fetch i l (read_cursor db l p)")
        (auto simp: process_one_page_def transaction_def page_body_def Let_def)
    have "foreign l db' = foreign l db"
      by (rule page_isolated [OF run pg]) (use page [OF pg] assms pg in blast)+
    with Pair show ?thesis by simp
  qed
qed

lemma drain_isolated:
  assumes "\<forall>i c pg. fetch i l c = Inr pg \<longrightarrow> (\<forall>ev \<in> set (pg_events pg). ids_free l ev db)"
  shows "foreign l (fst (drain_lea None alerts max_pages p fetch ids clock l db)) = foreign l db"
proof -
  have "foreign l (fst (drain_pages (\<lambda>i. process_one_page p (fetch i) l (ids i) (clock i)) notify n i db)) = foreign l db"
    for n i notify
    using assms
  proof (induction n arbitrary: i db)
    case (Suc n)
    obtain db1 r where step: "process_one_page p (fetch i) l (ids i) (clock i) db = (db1, r)"
      by (cases "process_one_page p (fetch i) l (ids i) (clock i) db")
    have 1: "foreign l db1 = foreign l db"
      using step_isolated [where p = p and l = l and db = db and i = i and job = "ids i" and now = "clock i", OF Suc.prems]
      by (simp add: step)
    then have "\<forall>i c pg. fetch i l c = Inr pg \<longrightarrow> (\<forall>ev \<in> set (pg_events pg). ids_free l ev db1)"
      using Suc.prems ids_free_foreign by blast
    from Suc.IH [OF this, of "Suc i"] 1 show ?case
      by (auto simp: step split: sum.splits prod.splits)
  qed simp
  then show ?thesis by (simp add: drain_lea_def)
qed

end

interpretation edlink: connector "\<lambda>i. fetch_changes ft parse_ts files page_size (clock i)"
  for ft parse_ts files page_size clock
  by unfold_locales (use fetch_page_good in blast)

interpretation null: connector "\<lambda>i. null_fetch_changes (clock i)" for clock
  by unfold_locales
    (auto simp: null_fetch_changes_def null_event_def page_for_def own_lea_def layer1_200_def entity_of_lea_def)

section \<open>A drain through the EdLink connector\<close>

lemma fetched_event:
  assumes "load_lea_events ft parse_ts files l = Inr evts"
    and "fetch_changes ft parse_ts files page_size now l c = Inr pg" and "ev \<in> set (pg_events pg)"
  shows "\<exists>evt \<in> set evts. normalize_event ft now evt l = Inr (Some ev)"
proof -
  let ?after = "if cur_value c = [] then None else Some (cur_value c)"
  have get: "get_events ft parse_ts files l ?after page_size =
      Inr (events_page evts (slice_start evts ?after) page_size)"
    using assms(1) by (simp add: get_events_def)
  from assms(2) [unfolded fetch_changes_eq [OF get]] have
    "collect (\<lambda>evt. normalize_event ft now evt l)
      (xr_events (events_page evts (slice_start evts ?after) page_size)) = Inr (pg_events pg)"
    by (auto simp: res_simps)
  from collect_mem [OF this assms(3)] show ?thesis
    by (auto simp: events_page_def Let_def dest: in_set_takeD in_set_dropD)
qed

text \<open>
  C4. Isolation of a whole drain: however many pages a drain of an LEA through the EdLink connector
  fetches, and however it ends, the rows of the other LEAs are the same rows in the same order,
  provided no other LEA uses the id of a student or an enrollment of the LEA's feed.
\<close>

theorem drain_tenant_isolation:
  assumes "load_lea_events ft parse_ts files l = Inr evts"
    and "\<forall>evt \<in> set evts. \<forall>now ev. normalize_event ft now evt l = Inr (Some ev) \<longrightarrow> ids_free l ev db"
  shows "foreign l (fst (drain_lea None alerts max_pages p
      (\<lambda>i. fetch_changes ft parse_ts files page_size (clock i)) ids now l db)) = foreign l db"
  by (rule edlink.drain_isolated) (use fetched_event [OF assms(1)] assms(2) in blast)

theorem drain_tenant_isolation_witness:
  "foreign ''lea-1'' (fst (drain_lea None True 5 ''edlink''
     (\<lambda>i. fetch_changes (\<lambda>_. []) s_ts s_files 2 (int i)) (\<lambda>i. i) (\<lambda>_. 30) ''lea-1'' empty_db)) =
   foreign ''lea-1'' empty_db"
  by (rule drain_tenant_isolation [OF s_feed_run]) (simp add: ids_free_def empty_db_def)

end
