(* ===== verification/Privileges.thy ===== *)
theory Privileges
  imports Prelude
begin

text \<open>
  The database roles and their privileges (the \<open>GRANT\<close> and \<open>REVOKE\<close> statements of
  \<open>alembic/versions/\<close>), and the statements that each service runs under the role of its engine
  (\<open>infrastructure/db/engine.py\<close>, \<open>cli/_db.py\<close>): the sync worker connects as \<open>edlink_app\<close>, the
  command line and the API as \<open>edlink_ops\<close>. The tables belong to the role that migrates.
\<close>

section \<open>Grants\<close>

datatype db_role = EDLINK_APP | EDLINK_OPS | EDLINK_DBA

datatype privilege = MAY_SELECT | MAY_INSERT | MAY_UPDATE | MAY_DELETE

text \<open>The tables and columns that a grant or a statement names.\<close>

datatype table =
  Leas | Students | Enrollments | LeaSnapshots | StudentSnapshots | EnrollmentSnapshots |
  SyncJobs | SyncValidationResults | Quarantine | CursorState | RevertActions | RetryActions
  | Operator | OperatorRole | ConnectorAuthorization | AuditLog | OperatorLeaGrant |
  ReconciliationRuns | Schools | Classes | AcademicSessions | IdempotencyKeys

datatype column =
  C_last_seen_at | C_status | C_revoked_at | C_revoked_by | C_authorized_at |
  C_authorized_by | C_secret_ref | C_poll_interval_seconds | C_notes | C_integration_status
  | C_sharing_scope | C_integration_status_observed_at | C_superseded_by_generation_id |
  C_superseded_at | C_last_event_id | C_last_event_at | C_last_poll_at | C_updated_at |
  C_lea_id | C_given_name | C_family_name | C_grade | C_preferred_first_name |
  C_primary_school_id | C_external_ids | C_deleted_at | C_student_id | C_class_id |
  C_begin_date | C_end_date | C_name | C_lea_type | C_state | C_nces_lea_id | C_completed_at
  | C_error_count | C_warning_count | C_error_summary | C_event_count | C_cursor_after |
  C_resolved_at | C_resolution_status | C_resolution_operator | C_reason | C_response_status
  | C_response_body

text \<open>A privilege on a table, or on one column of it.\<close>

type_synonym entry = "db_role \<times> privilege \<times> table \<times> column option"

datatype ddl =
    Grant "privilege list" "table list" db_role
  | GrantUpdate "column list" table db_role
  | RevokeUpdate "column list" table db_role
  | DropColumn table column
  | DropTables "table list"

text \<open>Dropping a table or a column drops the privileges on it.\<close>

fun apply_ddl :: "ddl \<Rightarrow> entry list \<Rightarrow> entry list" where
  "apply_ddl (Grant ps tables r) es = es @ concat (map (\<lambda>t. map (\<lambda>p. (r, p, t, None)) ps) tables)"
| "apply_ddl (GrantUpdate cols t r) es = es @ map (\<lambda>c. (r, MAY_UPDATE, t, Some c)) cols"
| "apply_ddl (RevokeUpdate cols t r) es =
     filter (\<lambda>e. \<not> (fst e = r \<and> fst (snd e) = MAY_UPDATE \<and> fst (snd (snd e)) = t \<and>
       snd (snd (snd e)) \<in> Some ` set cols)) es"
| "apply_ddl (DropColumn t c) es = filter (\<lambda>e. \<not> (fst (snd (snd e)) = t \<and> snd (snd (snd e)) = Some c)) es"
| "apply_ddl (DropTables tables) es = filter (\<lambda>e. fst (snd (snd e)) \<notin> set tables) es"

definition run_ddl :: "ddl list \<Rightarrow> entry list \<Rightarrow> entry list" where
  "run_ddl ds es = fold apply_ddl ds es"

definition CANONICAL_TABLES :: "table list" where
  "CANONICAL_TABLES = [Leas, Students, Enrollments]"

definition SNAPSHOT_TABLES :: "table list" where
  "SNAPSHOT_TABLES = [LeaSnapshots, StudentSnapshots, EnrollmentSnapshots]"

definition SYNC_TABLES :: "table list" where
  "SYNC_TABLES = [SyncJobs, SyncValidationResults]"

definition grants_0001 :: "ddl list" where
  "grants_0001 =
     [Grant [MAY_SELECT, MAY_INSERT]
        (CANONICAL_TABLES @ SNAPSHOT_TABLES @ SYNC_TABLES @ [Quarantine, CursorState]) EDLINK_APP,
      Grant [MAY_UPDATE] (CANONICAL_TABLES @ SNAPSHOT_TABLES @ [CursorState]) EDLINK_APP,
      Grant [MAY_SELECT]
        (CANONICAL_TABLES @ SNAPSHOT_TABLES @ SYNC_TABLES @ [RevertActions, Quarantine, CursorState])
        EDLINK_OPS,
      Grant [MAY_INSERT] [RevertActions, Quarantine] EDLINK_OPS,
      Grant [MAY_UPDATE] (SNAPSHOT_TABLES @ [Quarantine, CursorState]) EDLINK_OPS,
      Grant [MAY_SELECT, MAY_INSERT, MAY_UPDATE, MAY_DELETE]
        (CANONICAL_TABLES @ SNAPSHOT_TABLES @ SYNC_TABLES @ [RevertActions, Quarantine, CursorState])
        EDLINK_DBA]"

definition grants_0003 :: "ddl list" where
  "grants_0003 =
     [Grant [MAY_SELECT, MAY_INSERT] [RetryActions] EDLINK_OPS,
      Grant [MAY_SELECT] [RetryActions] EDLINK_APP,
      Grant [MAY_SELECT, MAY_INSERT, MAY_UPDATE, MAY_DELETE] [RetryActions] EDLINK_DBA]"

definition grants_0004 :: "ddl list" where
  "grants_0004 =
     [Grant [MAY_SELECT] [Operator, OperatorRole, ConnectorAuthorization] EDLINK_APP,
      Grant [MAY_SELECT, MAY_INSERT]
        [Operator, OperatorRole, ConnectorAuthorization, AuditLog] EDLINK_OPS,
      GrantUpdate [C_last_seen_at, C_status] Operator EDLINK_OPS,
      GrantUpdate [C_revoked_at, C_revoked_by] OperatorRole EDLINK_OPS,
      GrantUpdate [C_status, C_authorized_at, C_authorized_by, C_revoked_at, C_revoked_by,
        C_secret_ref, C_poll_interval_seconds, C_notes] ConnectorAuthorization EDLINK_OPS,
      Grant [MAY_SELECT, MAY_INSERT, MAY_UPDATE, MAY_DELETE]
        [Operator, OperatorRole, ConnectorAuthorization, AuditLog] EDLINK_DBA]"

definition grants_0005 :: "ddl list" where
  "grants_0005 =
     [Grant [MAY_SELECT] [OperatorLeaGrant] EDLINK_APP,
      Grant [MAY_SELECT, MAY_INSERT] [OperatorLeaGrant] EDLINK_OPS,
      GrantUpdate [C_revoked_at, C_revoked_by] OperatorLeaGrant EDLINK_OPS,
      Grant [MAY_SELECT, MAY_INSERT, MAY_UPDATE, MAY_DELETE] [OperatorLeaGrant] EDLINK_DBA]"

definition grants_0006 :: "ddl list" where
  "grants_0006 =
     [Grant [MAY_SELECT, MAY_INSERT] [ReconciliationRuns] EDLINK_APP,
      Grant [MAY_SELECT] [ReconciliationRuns] EDLINK_OPS,
      Grant [MAY_SELECT, MAY_INSERT, MAY_UPDATE, MAY_DELETE] [ReconciliationRuns] EDLINK_DBA]"

definition BREADTH_TABLES :: "table list" where
  "BREADTH_TABLES = [Schools, Classes, AcademicSessions]"

definition STATUS_COLUMNS :: "column list" where
  "STATUS_COLUMNS = [C_integration_status, C_sharing_scope, C_integration_status_observed_at]"

definition grants_0010 :: "ddl list" where
  "grants_0010 =
     [Grant [MAY_SELECT, MAY_INSERT, MAY_UPDATE] BREADTH_TABLES EDLINK_APP,
      Grant [MAY_SELECT] BREADTH_TABLES EDLINK_OPS,
      Grant [MAY_SELECT, MAY_INSERT, MAY_UPDATE, MAY_DELETE] BREADTH_TABLES EDLINK_DBA,
      GrantUpdate STATUS_COLUMNS ConnectorAuthorization EDLINK_APP]"

text \<open>What the upgrade to a revision, and the downgrade from it, does to privileges.\<close>

definition upgrade_ddl :: "nat \<Rightarrow> ddl list" where
  "upgrade_ddl n =
     (if n = 1 then grants_0001 else if n = 3 then grants_0003 else if n = 4 then grants_0004
      else if n = 5 then grants_0005 else if n = 6 then grants_0006 else if n = 10 then grants_0010
      else if n = 12 then [DropColumn ConnectorAuthorization C_secret_ref] else [])"

definition downgrade_ddl :: "nat \<Rightarrow> ddl list" where
  "downgrade_ddl n =
     (if n = 1 then [DropTables (SYNC_TABLES @ SNAPSHOT_TABLES @ CANONICAL_TABLES @
        [CursorState, Quarantine, RevertActions])]
      else if n = 3 then [DropTables [RetryActions]]
      else if n = 4 then [DropTables [AuditLog, ConnectorAuthorization, OperatorRole, Operator]]
      else if n = 5 then [DropTables [OperatorLeaGrant]]
      else if n = 6 then [DropTables [ReconciliationRuns]]
      else if n = 8 then [DropTables [IdempotencyKeys]]
      else if n = 10 then
        [RevokeUpdate STATUS_COLUMNS ConnectorAuthorization EDLINK_APP,
         DropColumn ConnectorAuthorization C_integration_status_observed_at,
         DropColumn ConnectorAuthorization C_sharing_scope,
         DropColumn ConnectorAuthorization C_integration_status, DropTables BREADTH_TABLES]
      else if n = 12 then [GrantUpdate [C_secret_ref] ConnectorAuthorization EDLINK_OPS]
      else [])"

definition HEAD :: nat where "HEAD = 12"

definition privileges_at :: "nat \<Rightarrow> entry list" where
  "privileges_at n = run_ddl (concat (map upgrade_ddl [1..<Suc n])) []"

section \<open>Statements\<close>

text \<open>An upsert reads the columns it compares and the ones it excludes; so does a \<open>WHERE\<close>.\<close>

datatype statement =
    SelectFrom table
  | SelectForUpdate table
  | InsertInto table
  | InsertOrIgnore table
  | InsertOrUpdate table "column list"
  | UpdateSet table "column list"
  | DeleteFrom table

definition on_table :: "entry list \<Rightarrow> db_role \<Rightarrow> privilege \<Rightarrow> table \<Rightarrow> bool" where
  "on_table es r p t \<longleftrightarrow> (r, p, t, None) \<in> set es"

definition on_columns :: "entry list \<Rightarrow> db_role \<Rightarrow> table \<Rightarrow> column list \<Rightarrow> bool" where
  "on_columns es r t cols \<longleftrightarrow>
     on_table es r MAY_UPDATE t \<or> (\<forall>c \<in> set cols. (r, MAY_UPDATE, t, Some c) \<in> set es)"

fun permitted :: "entry list \<Rightarrow> db_role \<Rightarrow> statement \<Rightarrow> bool" where
  "permitted es r (SelectFrom t) = on_table es r MAY_SELECT t"
| "permitted es r (SelectForUpdate t) =
     (on_table es r MAY_SELECT t \<and> (\<exists>e \<in> set es. fst e = r \<and> fst (snd e) = MAY_UPDATE \<and> fst (snd (snd e)) = t))"
| "permitted es r (InsertInto t) = on_table es r MAY_INSERT t"
| "permitted es r (InsertOrIgnore t) = (on_table es r MAY_INSERT t \<and> on_table es r MAY_SELECT t)"
| "permitted es r (InsertOrUpdate t cols) =
     (on_table es r MAY_INSERT t \<and> on_table es r MAY_SELECT t \<and> on_columns es r t cols)"
| "permitted es r (UpdateSet t cols) = (on_table es r MAY_SELECT t \<and> on_columns es r t cols)"
| "permitted es r (DeleteFrom t) = (on_table es r MAY_SELECT t \<and> on_table es r MAY_DELETE t)"

definition denied :: "entry list \<Rightarrow> db_role \<Rightarrow> statement list \<Rightarrow> statement list" where
  "denied es r stmts = filter (\<lambda>s. \<not> permitted es r s) stmts"

definition SUPERSESSION :: "column list" where
  "SUPERSESSION = [C_superseded_by_generation_id, C_superseded_at]"

definition CURSOR_COLUMNS :: "column list" where
  "CURSOR_COLUMNS = [C_last_event_id, C_last_event_at, C_last_poll_at, C_updated_at]"

definition STUDENT_COLUMNS :: "column list" where
  "STUDENT_COLUMNS = [C_lea_id, C_given_name, C_family_name, C_grade, C_preferred_first_name,
     C_primary_school_id, C_external_ids, C_deleted_at]"

definition ENROLLMENT_COLUMNS :: "column list" where
  "ENROLLMENT_COLUMNS = [C_lea_id, C_student_id, C_class_id, C_begin_date, C_end_date, C_deleted_at]"

definition LEA_COLUMNS :: "column list" where
  "LEA_COLUMNS = [C_name, C_lea_type, C_state, C_nces_lea_id, C_deleted_at]"

definition sync_worker_statements :: "statement list" where
  "sync_worker_statements =
     [SelectFrom CursorState, SelectFrom Students, SelectFrom SyncJobs] @
     map SelectFrom SNAPSHOT_TABLES @
     [InsertInto SyncJobs, InsertInto SyncValidationResults,
      UpdateSet SyncJobs [C_status, C_completed_at, C_error_count, C_warning_count, C_error_summary],
      UpdateSet SyncJobs [C_status, C_completed_at, C_event_count, C_error_count, C_warning_count,
        C_cursor_after],
      InsertOrUpdate CursorState CURSOR_COLUMNS, InsertInto Quarantine, InsertOrIgnore Leas] @
     map (\<lambda>t. UpdateSet t SUPERSESSION) SNAPSHOT_TABLES @ map InsertInto SNAPSHOT_TABLES @
     [InsertOrUpdate Students STUDENT_COLUMNS, InsertOrUpdate Enrollments ENROLLMENT_COLUMNS,
      InsertOrUpdate Leas LEA_COLUMNS]"

definition integration_status_statements :: "statement list" where
  "integration_status_statements = [UpdateSet ConnectorAuthorization STATUS_COLUMNS]"

definition revert_statements :: "statement list" where
  "revert_statements =
     [SelectFrom SyncJobs, InsertInto SyncJobs] @ map SelectFrom SNAPSHOT_TABLES @
     map (\<lambda>t. UpdateSet t SUPERSESSION) SNAPSHOT_TABLES @ map (\<lambda>t. UpdateSet t [C_deleted_at]) CANONICAL_TABLES @
     [UpdateSet Students STUDENT_COLUMNS, UpdateSet Enrollments ENROLLMENT_COLUMNS,
      UpdateSet Leas LEA_COLUMNS, InsertInto RevertActions]"

definition retry_statements :: "statement list" where
  "retry_statements =
     [SelectFrom SyncJobs, InsertOrUpdate CursorState [C_last_event_id, C_last_event_at, C_updated_at],
      InsertInto RetryActions]"

definition list_quarantine_statements :: "statement list" where
  "list_quarantine_statements = [SelectFrom Quarantine]"

definition release_statements :: "statement list" where
  "release_statements =
     [SelectForUpdate Quarantine, SelectFrom Students, InsertInto SyncJobs,
      InsertInto EnrollmentSnapshots, InsertOrUpdate Enrollments ENROLLMENT_COLUMNS,
      UpdateSet Quarantine [C_resolved_at, C_resolution_status, C_resolution_operator]]"

definition reject_statements :: "statement list" where
  "reject_statements =
     [SelectFrom Quarantine,
      UpdateSet Quarantine [C_resolved_at, C_resolution_status, C_resolution_operator, C_reason]]"

definition create_lea_statements :: "statement list" where
  "create_lea_statements = [InsertInto Leas, InsertInto AuditLog]"

definition set_status_statements :: "statement list" where
  "set_status_statements = [SelectFrom Leas, UpdateSet Leas [C_status], InsertInto AuditLog]"

definition connector_authz_statements :: "statement list" where
  "connector_authz_statements =
     [SelectFrom Leas, SelectFrom Operator, SelectFrom ConnectorAuthorization,
      InsertInto ConnectorAuthorization,
      UpdateSet ConnectorAuthorization [C_status, C_authorized_at, C_authorized_by,
        C_poll_interval_seconds, C_notes],
      UpdateSet ConnectorAuthorization [C_status, C_revoked_at, C_revoked_by],
      UpdateSet ConnectorAuthorization [C_poll_interval_seconds], InsertInto AuditLog]"

definition authentication_statements :: "statement list" where
  "authentication_statements =
     [SelectFrom Operator, InsertInto Operator, UpdateSet Operator [C_last_seen_at],
      SelectFrom OperatorRole, SelectFrom Leas, SelectFrom OperatorLeaGrant]"

definition idempotency_statements :: "statement list" where
  "idempotency_statements =
     [InsertOrIgnore IdempotencyKeys, SelectFrom IdempotencyKeys,
      UpdateSet IdempotencyKeys [C_response_status, C_response_body, C_completed_at],
      DeleteFrom IdempotencyKeys]"

definition reconciliation_statements :: "statement list" where
  "reconciliation_statements =
     map SelectFrom [Students, Enrollments, Classes, AcademicSessions, Schools,
       CursorState, ConnectorAuthorization] @ [InsertInto ReconciliationRuns]"

definition timeline_statements :: "statement list" where
  "timeline_statements =
     map SelectFrom [AuditLog, Operator, SyncJobs, RevertActions, RetryActions,
       Quarantine, ReconciliationRuns]"

definition set_cursor_statements :: "statement list" where
  "set_cursor_statements =
     [InsertOrUpdate CursorState [C_last_event_id, C_last_event_at, C_updated_at]]"

section \<open>What the roles may not do\<close>


lemma secret_ref_granted_again:
  assumes "x \<in> set es" and "apply_ddl (DropColumn ConnectorAuthorization C_secret_ref) es = filter (\<lambda>e. e \<noteq> x) es"
    and "x = (EDLINK_OPS, MAY_UPDATE, ConnectorAuthorization, Some C_secret_ref)"
  shows "set (run_ddl (upgrade_ddl 12 @ downgrade_ddl 12) es) = set es"
proof -
  have "run_ddl (upgrade_ddl 12 @ downgrade_ddl 12) es = filter (\<lambda>e. e \<noteq> x) es @ [x]"
    unfolding run_ddl_def upgrade_ddl_def downgrade_ddl_def assms(2) [symmetric] by (simp add: assms(3))
  then show ?thesis using assms(1) by auto
qed

text \<open>
  Every downgrade takes back exactly what its upgrade did to the privileges, at the place in the
  chain where it runs.
\<close>

theorem downgrade_restores_privileges:
  "list_all (\<lambda>n. set (run_ddl (upgrade_ddl n @ downgrade_ddl n) (privileges_at (n - 1))) = set (privileges_at (n - 1)))
     [1..<Suc HEAD]"
proof -
  have "list_all (\<lambda>n. run_ddl (upgrade_ddl n @ downgrade_ddl n) (privileges_at (n - 1)) = privileges_at (n - 1)) [1..<12]"
    by code_simp
  then have early: "set (run_ddl (upgrade_ddl n @ downgrade_ddl n) (privileges_at (n - 1))) = set (privileges_at (n - 1))"
    if "n \<in> set [1..<12]" for n
    using that unfolding list_all_iff by metis
  let ?x = "(EDLINK_OPS, MAY_UPDATE, ConnectorAuthorization, Some C_secret_ref)"
  have "?x \<in> set (privileges_at 11)" by code_simp
  moreover have "apply_ddl (DropColumn ConnectorAuthorization C_secret_ref) (privileges_at 11) =
      filter (\<lambda>e. e \<noteq> ?x) (privileges_at 11)" by code_simp
  ultimately have "set (run_ddl (upgrade_ddl 12 @ downgrade_ddl 12) (privileges_at 11)) = set (privileges_at 11)"
    using secret_ref_granted_again by blast
  then have "set (run_ddl (upgrade_ddl n @ downgrade_ddl n) (privileges_at (n - 1))) = set (privileges_at (n - 1))"
    if "n = 12" for n using that by simp
  moreover have "n \<in> set [1..<12] \<or> n = 12" if "n \<in> set [1..<Suc HEAD]" for n
    using that by (auto simp: HEAD_def)
  ultimately show ?thesis unfolding list_all_iff using early by blast
qed

end
