(* ===== verification/BulkLoad.thy ===== *)
theory BulkLoad
  imports RevertProperties
begin

text \<open>
  The cold-start bulk load, \<open>services/bulk_load.py\<close>: the partner's current students and
  enrollments are written as one generation, each entity type in a transaction of its own, an
  entry whose live snapshot has the same content is skipped, and the cursor moves to the partner's
  latest event. The partner's snapshot, its latest cursor, the fresh job id and the clock
  (\<open>clock i\<close> for the \<open>i\<close>-th reading) are arguments; so are the text of a float, the
  text of an exception and the date the database reads from a string, \<open>pg_date\<close>.
\<close>

section \<open>The plan\<close>

definition bulk_columns :: "entity_type \<Rightarrow> string list" where
  "bulk_columns t = (if t = STUDENT
     then [''id'', ''lea_id'', ''given_name'', ''family_name'', ''grade'', ''preferred_first_name'',
           ''primary_school_id'']
     else [''id'', ''lea_id'', ''student_id'', ''class_id'', ''begin_date'', ''end_date''])"

definition plan_name :: "entity_type \<Rightarrow> string" where
  "plan_name t = (if t = STUDENT then ''students'' else ''enrollments'')"

text \<open>The columns of the plan, the LEA forced to the target.\<close>

definition bulk_row :: "lea_id \<Rightarrow> entity_type \<Rightarrow> dict \<Rightarrow> dict" where
  "bulk_row l t entry =
     dict_set (map (\<lambda>c. (c, dict_get entry c)) (bulk_columns t)) ''lea_id'' (JStr l)"

definition bulk_key :: "(rat \<Rightarrow> string) \<Rightarrow> dict \<Rightarrow> string" where
  "bulk_key ft row = py_str ft (dict_get row ''id'')"

section \<open>Writes of one entry\<close>

definition read_current_snapshot_payload :: "db \<Rightarrow> entity_type \<Rightarrow> lea_id \<Rightarrow> string \<Rightarrow> dict option" where
  "read_current_snapshot_payload db t l nk = map_option sn_payload (live_row db l t nk)"

definition supersede_prior_snapshot ::
  "uuid \<Rightarrow> lea_id \<Rightarrow> entity_type \<Rightarrow> string \<Rightarrow> timestamp \<Rightarrow> db \<Rightarrow> exn + db" where
  "supersede_prior_snapshot job l t nk now =
     supersede_where t (\<lambda>sn. for_key l nk sn \<and> live sn) (Some job) (Some now)"

definition bulk_event_id :: "uuid \<Rightarrow> string" where
  "bulk_event_id job = ''bulk-load-'' @ uuid_str job"

definition insert_bulk_snapshot ::
  "uuid \<Rightarrow> lea_id \<Rightarrow> entity_type \<Rightarrow> string \<Rightarrow> dict \<Rightarrow> timestamp \<Rightarrow> db \<Rightarrow> exn + db" where
  "insert_bulk_snapshot job l t nk payload now =
     insert_snapshot_row t
       \<lparr>sn_id = 0, sn_key = nk, sn_lea_id = l, sn_generation = job, sn_superseded_by = None,
        sn_superseded_at = None, sn_deleted_upstream = False,
        sn_source_event_id = Some (bulk_event_id job), sn_source_event_at = Some now,
        sn_created_at = now, sn_payload = payload\<rparr>"

text \<open>On a conflict a student keeps its \<open>external_ids\<close>; both tables clear \<open>deleted_at\<close>.\<close>

definition merge_bulk_student :: "student_row \<Rightarrow> student_row \<Rightarrow> student_row" where
  "merge_bulk_student old new = new\<lparr>sr_external_ids := sr_external_ids old\<rparr>"

definition pg_date_param :: "(string \<Rightarrow> date option) \<Rightarrow> json \<Rightarrow> exn + date option" where
  "pg_date_param pg v = (case v of
      JNull \<Rightarrow> Inr None
    | JStr s \<Rightarrow> (case pg s of None \<Rightarrow> Inl ValueError | Some d \<Rightarrow> Inr (Some d))
    | _ \<Rightarrow> Inl TypeError)"

definition upsert_bulk_student :: "dict \<Rightarrow> db \<Rightarrow> exn + db" where
  "upsert_bulk_student row db =
     res_bind (text_param (dict_get row ''id'')) (\<lambda>i.
     res_bind (text_param (dict_get row ''lea_id'')) (\<lambda>lea.
     res_bind (text_param (dict_get row ''given_name'')) (\<lambda>given.
     res_bind (text_param (dict_get row ''family_name'')) (\<lambda>family.
     res_bind (text_param (dict_get row ''grade'')) (\<lambda>grade.
     res_bind (text_param (dict_get row ''preferred_first_name'')) (\<lambda>preferred.
     res_bind (text_param (dict_get row ''primary_school_id'')) (\<lambda>school.
     res_bind (not_null ''id'' i) (\<lambda>i.
     res_bind (not_null ''lea_id'' lea) (\<lambda>lea.
     res_bind (not_null ''given_name'' given) (\<lambda>given.
     res_bind (not_null ''family_name'' family) (\<lambda>family.
       write_student merge_bulk_student
         \<lparr>sr_id = i, sr_lea_id = lea, sr_given_name = given, sr_family_name = family,
          sr_grade = grade, sr_preferred = preferred, sr_school = school,
          sr_external_ids = JObj [], sr_deleted_at = None\<rparr> db)))))))))))"

definition upsert_bulk_enrollment :: "(string \<Rightarrow> date option) \<Rightarrow> dict \<Rightarrow> db \<Rightarrow> exn + db" where
  "upsert_bulk_enrollment pg row db =
     res_bind (text_param (dict_get row ''id'')) (\<lambda>i.
     res_bind (text_param (dict_get row ''lea_id'')) (\<lambda>lea.
     res_bind (text_param (dict_get row ''student_id'')) (\<lambda>stu.
     res_bind (text_param (dict_get row ''class_id'')) (\<lambda>cls.
     res_bind (pg_date_param pg (dict_get row ''begin_date'')) (\<lambda>b.
     res_bind (pg_date_param pg (dict_get row ''end_date'')) (\<lambda>f.
     res_bind (not_null ''id'' i) (\<lambda>i.
     res_bind (not_null ''lea_id'' lea) (\<lambda>lea.
     res_bind (not_null ''student_id'' stu) (\<lambda>stu.
     res_bind (not_null ''class_id'' cls) (\<lambda>cls.
     res_bind (not_null ''begin_date'' b) (\<lambda>b.
       write_enrollment (\<lambda>_ new. new)
         \<lparr>er_id = i, er_lea_id = lea, er_student_id = stu, er_class_id = cls, er_begin = b,
          er_end = f, er_deleted_at = None\<rparr> db)))))))))))"

definition upsert_canonical_row ::
  "(string \<Rightarrow> date option) \<Rightarrow> entity_type \<Rightarrow> dict \<Rightarrow> db \<Rightarrow> exn + db" where
  "upsert_canonical_row pg t row =
     (case t of STUDENT \<Rightarrow> upsert_bulk_student row | ENROLLMENT \<Rightarrow> upsert_bulk_enrollment pg row
      | LEA \<Rightarrow> (\<lambda>_. Inl BulkLoadError))"

definition write_bulk_row ::
  "(rat \<Rightarrow> string) \<Rightarrow> (string \<Rightarrow> date option) \<Rightarrow> uuid \<Rightarrow> lea_id \<Rightarrow> entity_type \<Rightarrow> timestamp \<Rightarrow>
   dict \<Rightarrow> db \<Rightarrow> exn + db" where
  "write_bulk_row ft pg job l t now row db =
     res_bind (supersede_prior_snapshot job l t (bulk_key ft row) now db) (\<lambda>db1.
     res_bind (insert_bulk_snapshot job l t (bulk_key ft row) row now db1)
       (upsert_canonical_row pg t row))"

text \<open>One entry: whether a snapshot was written, and the database after it.\<close>

definition unchanged_entry ::
  "(rat \<Rightarrow> string) \<Rightarrow> lea_id \<Rightarrow> entity_type \<Rightarrow> dict \<Rightarrow> db \<Rightarrow> bool" where
  "unchanged_entry ft l t row db =
     (case read_current_snapshot_payload db t l (bulk_key ft row) of
        None \<Rightarrow> False | Some p \<Rightarrow> dict_eq p row)"

definition apply_entry ::
  "(rat \<Rightarrow> string) \<Rightarrow> (string \<Rightarrow> date option) \<Rightarrow> uuid \<Rightarrow> lea_id \<Rightarrow> entity_type \<Rightarrow> timestamp \<Rightarrow>
   dict \<Rightarrow> nat \<times> db \<Rightarrow> exn + (nat \<times> db)" where
  "apply_entry ft pg job l t now entry = (\<lambda>(n, db).
     let row = bulk_row l t entry in
     if dict_get row ''id'' = JNull then Inl BulkLoadError
     else if unchanged_entry ft l t row db then Inr (n, db)
     else res_bind (write_bulk_row ft pg job l t now row db) (\<lambda>db'. Inr (Suc n, db')))"

definition apply_entity_type ::
  "(rat \<Rightarrow> string) \<Rightarrow> (string \<Rightarrow> date option) \<Rightarrow> uuid \<Rightarrow> lea_id \<Rightarrow> entity_type \<Rightarrow> timestamp \<Rightarrow>
   dict list \<Rightarrow> db \<Rightarrow> db \<times> (exn + nat)" where
  "apply_entity_type ft pg job l t now entries =
     transaction (\<lambda>db. fold_res (apply_entry ft pg job l t now) entries (0, db))"

section \<open>The load\<close>

definition bulk_job_row :: "uuid \<Rightarrow> lea_id \<Rightarrow> string \<Rightarrow> timestamp \<Rightarrow> sync_job" where
  "bulk_job_row job l partner now =
     \<lparr>sj_id = job, sj_lea_id = l, sj_partner = partner, sj_status = ''bulk_load'',
      sj_started_at = now, sj_completed_at = None, sj_event_count = 0, sj_error_count = 0,
      sj_warning_count = 0, sj_cursor_before = Some [], sj_cursor_after = None,
      sj_error_summary = None\<rparr>"

definition mark_bulk_success :: "uuid \<Rightarrow> timestamp \<Rightarrow> string \<Rightarrow> nat \<Rightarrow> db \<Rightarrow> db" where
  "mark_bulk_success job now cursor_after n =
     update_sync_job job (\<lambda>j. j\<lparr>sj_status := ''success'', sj_completed_at := Some now,
       sj_event_count := int n, sj_cursor_after := Some cursor_after\<rparr>)"

definition mark_bulk_failed :: "uuid \<Rightarrow> timestamp \<Rightarrow> string \<Rightarrow> db \<Rightarrow> db" where
  "mark_bulk_failed job now summary =
     update_sync_job job (\<lambda>j. j\<lparr>sj_status := ''failed'', sj_completed_at := Some now,
       sj_error_summary := Some summary\<rparr>)"

definition advance_cursor :: "lea_id \<Rightarrow> string \<Rightarrow> cursor \<Rightarrow> timestamp \<Rightarrow> db \<Rightarrow> db" where
  "advance_cursor l partner c now =
     write_cursor (\<lambda>_ new. new)
       \<lparr>cs_lea_id = l, cs_partner = partner,
        cs_last_event_id = (if cur_value c = [] then None else Some (cur_value c)),
        cs_last_event_at = cur_observed_at c, cs_last_poll_at = Some now,
        cs_cold_start_required = False, cs_updated_at = now\<rparr>"

record bulk_load_report =
  bl_sync_job_id :: uuid
  bl_lea_id :: lea_id
  bl_partner :: string
  bl_status :: string
  bl_students :: nat
  bl_enrollments :: nat
  bl_students_written :: nat
  bl_enrollments_written :: nat
  bl_cursor_after :: string
  bl_cold_start_cleared :: bool

type_synonym partner_payload = "(string \<times> dict list) list"

definition payload_entries :: "partner_payload \<Rightarrow> entity_type \<Rightarrow> dict list" where
  "payload_entries payload t = (case map_of payload (plan_name t) of None \<Rightarrow> [] | Some es \<Rightarrow> es)"

text \<open>The \<open>try\<close> block: its result and the database of the transactions committed so far.\<close>

definition bulk_try ::
  "(rat \<Rightarrow> string) \<Rightarrow> (string \<Rightarrow> date option) \<Rightarrow> string \<Rightarrow> (lea_id \<Rightarrow> exn + partner_payload) \<Rightarrow>
   (lea_id \<Rightarrow> exn + cursor) \<Rightarrow> lea_id \<Rightarrow> uuid \<Rightarrow> (nat \<Rightarrow> timestamp) \<Rightarrow> db \<Rightarrow> db \<times> (exn + bulk_load_report)" where
  "bulk_try ft pg partner fetch latest l job clock db =
     (case fetch l of
        Inl e \<Rightarrow> (db, Inl e)
      | Inr payload \<Rightarrow>
          (let students = payload_entries payload STUDENT;
               enrollments = payload_entries payload ENROLLMENT in
           case apply_entity_type ft pg job l STUDENT (clock 1) students (ensure_lea_exists l db) of
             (db1, Inl e) \<Rightarrow> (db1, Inl e)
           | (db1, Inr n) \<Rightarrow>
               (case apply_entity_type ft pg job l ENROLLMENT (clock 2) enrollments db1 of
                  (db2, Inl e) \<Rightarrow> (db2, Inl e)
                | (db2, Inr m) \<Rightarrow>
                    (case latest l of
                       Inl e \<Rightarrow> (db2, Inl e)
                     | Inr c \<Rightarrow>
                         (mark_bulk_success job (clock 4) (cur_value c) (n + m)
                            (advance_cursor l partner c (clock 3) db2),
                          Inr \<lparr>bl_sync_job_id = job, bl_lea_id = l, bl_partner = partner,
                            bl_status = ''success'', bl_students = length students,
                            bl_enrollments = length enrollments, bl_students_written = n,
                            bl_enrollments_written = m, bl_cursor_after = cur_value c,
                            bl_cold_start_cleared = True\<rparr>)))))"

definition bulk_load_lea ::
  "(rat \<Rightarrow> string) \<Rightarrow> (string \<Rightarrow> date option) \<Rightarrow> (exn \<Rightarrow> string) \<Rightarrow> string \<Rightarrow>
   (lea_id \<Rightarrow> exn + partner_payload) \<Rightarrow> (lea_id \<Rightarrow> exn + cursor) \<Rightarrow> lea_id \<Rightarrow> uuid \<Rightarrow>
   (nat \<Rightarrow> timestamp) \<Rightarrow> db \<Rightarrow> db \<times> (exn + bulk_load_report)" where
  "bulk_load_lea ft pg err partner fetch latest l job clock db =
     (case insert_sync_job (bulk_job_row job l partner (clock 0)) db of
        Inl e \<Rightarrow> (db, Inl e)
      | Inr db0 \<Rightarrow>
          (case bulk_try ft pg partner fetch latest l job clock db0 of
             (db1, Inr report) \<Rightarrow> (db1, Inr report)
           | (db1, Inl e) \<Rightarrow>
               (mark_bulk_failed job (clock 5) (''bulk_load_failed: '' @ err e) db1,
                Inl BulkLoadError)))"

section \<open>The second writer of snapshots\<close>

lemma upsert_bulk_student_Inr:
  assumes "upsert_bulk_student row db = Inr db'"
  obtains x where "write_student merge_bulk_student x db = Inr db'"
  using assms by (auto simp: upsert_bulk_student_def res_simps)

lemma upsert_bulk_enrollment_Inr:
  assumes "upsert_bulk_enrollment pg row db = Inr db'"
  obtains x where "write_enrollment (\<lambda>_ new. new) x db = Inr db'"
  using assms by (auto simp: upsert_bulk_enrollment_def res_simps)

lemma upsert_canonical_row_frame:
  assumes "upsert_canonical_row pg t row db = Inr db'"
  shows "clear_canonical db' = clear_canonical db"
  using assms
  by (cases t) (auto simp: upsert_canonical_row_def clear_canonical_def
      elim!: upsert_bulk_student_Inr upsert_bulk_enrollment_Inr dest!: write_student_frame write_enrollment_frame)

definition bulk_value :: "uuid \<Rightarrow> dict \<Rightarrow> snapshot_value" where
  "bulk_value job row = (Some (bulk_event_id job), row, False)"

lemma write_bulk_row_parts:
  assumes "write_bulk_row ft pg job l t now row db = Inr db'"
  shows "\<exists>sn. live sn \<and> for_key l (bulk_key ft row) sn \<and> sn_id sn = db_next_id db \<and>
      snapshot_value sn = bulk_value job row \<and>
      db_snapshots db' = (db_snapshots db)(t :=
        supersede_live l (bulk_key ft row) job now (db_snapshots db t) @ [sn])"
    and "db_next_id db' = Suc (db_next_id db)" and "job \<in> job_ids db"
    and "db_sync_jobs db' = db_sync_jobs db" and "db_cursors db' = db_cursors db"
proof -
  let ?k = "bulk_key ft row"
  from assms obtain db1 db2 where
    1: "supersede_prior_snapshot job l t ?k now db = Inr db1"
    and 2: "insert_bulk_snapshot job l t ?k row now db1 = Inr db2"
    and 3: "upsert_canonical_row pg t row db2 = Inr db'"
    by (auto simp: write_bulk_row_def res_simps)
  from 1 have db1: "db1 = set_snapshots t (supersede_live l ?k job now (db_snapshots db t)) db"
    by (auto simp: supersede_prior_snapshot_def supersede_where_def supersede_live_def split: if_splits)
  let ?sn = "\<lparr>sn_id = db_next_id db, sn_key = ?k, sn_lea_id = l, sn_generation = job,
    sn_superseded_by = None, sn_superseded_at = None, sn_deleted_upstream = False,
    sn_source_event_id = Some (bulk_event_id job), sn_source_event_at = Some now,
    sn_created_at = now, sn_payload = row\<rparr>"
  from 2 have db2: "db2 = (set_snapshots t (supersede_live l ?k job now (db_snapshots db t) @ [?sn]) db)
      \<lparr>db_next_id := Suc (db_next_id db)\<rparr>" and job: "job \<in> job_ids db"
    by (auto simp: insert_bulk_snapshot_def insert_snapshot_row_def db1 set_snapshots_def job_ids_def
        split: if_splits)
  note fr = clear_canonicalD [OF upsert_canonical_row_frame [OF 3]]
  show "\<exists>sn. live sn \<and> for_key l (bulk_key ft row) sn \<and> sn_id sn = db_next_id db \<and>
      snapshot_value sn = bulk_value job row \<and>
      db_snapshots db' = (db_snapshots db)(t :=
        supersede_live l (bulk_key ft row) job now (db_snapshots db t) @ [sn])"
    by (rule exI [of _ ?sn])
      (simp add: live_def for_key_def snapshot_value_def bulk_value_def fr(1) db2)
  show "db_next_id db' = Suc (db_next_id db)" "job \<in> job_ids db"
    "db_sync_jobs db' = db_sync_jobs db" "db_cursors db' = db_cursors db"
    using job by (simp_all add: fr db2 set_snapshots_def)
qed

interpretation bulk_writer: snapshot_writer "write_bulk_row ft pg job l t now" "\<lambda>_. True" "\<lambda>_. t"
  "\<lambda>_. l" "bulk_key ft" "bulk_value job" for ft pg job l t now
proof
  fix row db db'
  assume w: "write_bulk_row ft pg job l t now row db = Inr db'"
  show "db_next_id db' = Suc (db_next_id db)" by (rule write_bulk_row_parts [OF w])
  show "\<exists>gen ts sn. live sn \<and> (True \<longrightarrow> for_key l (bulk_key ft row) sn) \<and> sn_id sn = db_next_id db \<and>
      snapshot_value sn = bulk_value job row \<and>
      db_snapshots db' = (db_snapshots db)(t :=
        supersede_live l (bulk_key ft row) gen ts (db_snapshots db t) @ [sn])"
    using write_bulk_row_parts(1) [OF w] by blast
qed

section \<open>The load refines a fold over the abstract store\<close>

text \<open>An entry with the content of the current value changes nothing; any other replaces it.\<close>

definition bulk_step ::
  "(rat \<Rightarrow> string) \<Rightarrow> uuid \<Rightarrow> lea_id \<Rightarrow> entity_type \<Rightarrow> dict \<Rightarrow>
   (lea_id \<times> entity_type \<times> string \<Rightarrow> snapshot_value option) \<Rightarrow>
   lea_id \<times> entity_type \<times> string \<Rightarrow> snapshot_value option" where
  "bulk_step ft job l t entry m =
     (let row = bulk_row l t entry; k = (l, t, bulk_key ft row) in
      case m k of
        Some (_, p, _) \<Rightarrow> if dict_eq p row then m else m(k \<mapsto> bulk_value job row)
      | None \<Rightarrow> m(k \<mapsto> bulk_value job row))"

lemma unchanged_entry_store:
  "unchanged_entry ft l t row db \<longleftrightarrow>
     (\<exists>i p del. store db (l, t, bulk_key ft row) = Some (i, p, del) \<and> dict_eq p row)"
  by (auto simp: unchanged_entry_def read_current_snapshot_payload_def store_def snapshot_value_def
      split: option.splits)

lemma apply_entry_cases:
  assumes "apply_entry ft pg job l t now entry (n, db) = Inr (n', db')"
  obtains (same) "unchanged_entry ft l t (bulk_row l t entry) db" "n' = n" "db' = db"
    | (written) "\<not> unchanged_entry ft l t (bulk_row l t entry) db" "n' = Suc n"
      "write_bulk_row ft pg job l t now (bulk_row l t entry) db = Inr db'"
  using assms by (auto simp: apply_entry_def Let_def res_simps split: if_splits)

lemma apply_entry_refines:
  assumes "apply_entry ft pg job l t now entry (n, db) = Inr (n', db')"
  shows "store db' = bulk_step ft job l t entry (store db) \<and> (snapshots_ok db \<longrightarrow> snapshots_ok db') \<and>
    append_only db db' \<and> db_sync_jobs db' = db_sync_jobs db \<and> db_cursors db' = db_cursors db"
  using assms
proof (cases rule: apply_entry_cases)
  case same
  then show ?thesis by (auto simp: unchanged_entry_store bulk_step_def Let_def)
next
  case written
  note w = written(3)
  have "store db' = (store db)((l, t, bulk_key ft (bulk_row l t entry)) \<mapsto> bulk_value job (bulk_row l t entry))"
    using bulk_writer.put_store [OF w] by simp
  then have "store db' = bulk_step ft job l t entry (store db)"
    using written(1) by (auto simp: bulk_step_def Let_def unchanged_entry_store split: option.splits prod.splits)
  then show ?thesis
    using bulk_writer.put_append_only [OF w] bulk_writer.put_ok [OF w] write_bulk_row_parts(4,5) [OF w] by simp
qed

lemma entries_refine:
  assumes "fold_res (apply_entry ft pg job l t now) entries (n, db) = Inr (n', db')"
  shows "store db' = fold (bulk_step ft job l t) entries (store db) \<and>
    (snapshots_ok db \<longrightarrow> snapshots_ok db') \<and> append_only db db' \<and>
    db_sync_jobs db' = db_sync_jobs db \<and> db_cursors db' = db_cursors db"
  using assms
proof (induction entries arbitrary: n db)
  case (Cons entry entries)
  then obtain n1 db1 where 1: "apply_entry ft pg job l t now entry (n, db) = Inr (n1, db1)"
    and 2: "fold_res (apply_entry ft pg job l t now) entries (n1, db1) = Inr (n', db')"
    by (auto simp: res_simps)
  from apply_entry_refines [OF 1] Cons.IH [OF 2] append_only_trans [of db db1 db']
  show ?case by auto
qed simp

lemma apply_entity_type_Inr:
  "apply_entity_type ft pg job l t now entries db = (db', Inr n) \<longleftrightarrow>
     fold_res (apply_entry ft pg job l t now) entries (0, db) = Inr (n, db')"
  by (simp add: apply_entity_type_def transaction_Inr)

lemma apply_entity_type_Inl:
  "apply_entity_type ft pg job l t now entries db = (db', Inl e) \<Longrightarrow> db' = db"
  by (simp add: apply_entity_type_def transaction_Inl)

lemma bulk_load_success:
  assumes "bulk_load_lea ft pg err p fetch latest l job clock db = (db', Inr report)"
  obtains payload c n m db1 db2 where "job \<notin> job_ids db" and "fetch l = Inr payload" and "latest l = Inr c"
    and "fold_res (apply_entry ft pg job l STUDENT (clock 1)) (payload_entries payload STUDENT)
      (0, ensure_lea_exists l (db\<lparr>db_sync_jobs := db_sync_jobs db @ [bulk_job_row job l p (clock 0)]\<rparr>)) = Inr (n, db1)"
    and "fold_res (apply_entry ft pg job l ENROLLMENT (clock 2)) (payload_entries payload ENROLLMENT)
      (0, db1) = Inr (m, db2)"
    and "db' = mark_bulk_success job (clock 4) (cur_value c) (n + m) (advance_cursor l p c (clock 3) db2)"
    and "bl_students_written report = n" and "bl_enrollments_written report = m"
    and "bl_cursor_after report = cur_value c"
proof -
  let ?db0 = "db\<lparr>db_sync_jobs := db_sync_jobs db @ [bulk_job_row job l p (clock 0)]\<rparr>"
  have fresh: "job \<notin> job_ids db"
    using assms by (auto simp: bulk_load_lea_def insert_sync_job_def bulk_job_row_def split: if_splits)
  then have "insert_sync_job (bulk_job_row job l p (clock 0)) db = Inr ?db0"
    by (simp add: insert_sync_job_def bulk_job_row_def)
  with assms have "bulk_try ft pg p fetch latest l job clock ?db0 = (db', Inr report)"
    by (simp add: bulk_load_lea_def split: prod.splits sum.splits)
  with fresh show thesis
    by (auto simp: bulk_try_def Let_def apply_entity_type_Inr split: sum.splits prod.splits intro!: that)
qed

lemma cursor_after_load:
  "db_cursors (mark_bulk_success job now v n db) = db_cursors db"
  "db_snapshots (mark_bulk_success job now v n db) = db_snapshots db"
  "db_students (mark_bulk_success job now v n db) = db_students db"
  "db_enrollments (mark_bulk_success job now v n db) = db_enrollments db"
  "db_leas (mark_bulk_success job now v n db) = db_leas db"
  "db_next_id (mark_bulk_success job now v n db) = db_next_id db"
  by (simp_all add: mark_bulk_success_def update_sync_job_def)

lemma advance_cursor_sel [simp]:
  "db_snapshots (advance_cursor l p c now db) = db_snapshots db"
  "db_students (advance_cursor l p c now db) = db_students db"
  "db_enrollments (advance_cursor l p c now db) = db_enrollments db"
  "db_leas (advance_cursor l p c now db) = db_leas db"
  "db_next_id (advance_cursor l p c now db) = db_next_id db"
  "db_sync_jobs (advance_cursor l p c now db) = db_sync_jobs db"
  by (simp_all add: advance_cursor_def write_cursor_def)

lemma cursor_of_advance:
  "cursor_of (advance_cursor l p c now db) l p = Some
     \<lparr>cs_lea_id = l, cs_partner = p,
      cs_last_event_id = (if cur_value c = [] then None else Some (cur_value c)),
      cs_last_event_at = cur_observed_at c, cs_last_poll_at = Some now,
      cs_cold_start_required = False, cs_updated_at = now\<rparr>"
  using cursor_table.lookup_upsert_same [of "\<lparr>cs_lea_id = l, cs_partner = p,
      cs_last_event_id = (if cur_value c = [] then None else Some (cur_value c)),
      cs_last_event_at = cur_observed_at c, cs_last_poll_at = Some now,
      cs_cold_start_required = False, cs_updated_at = now\<rparr>" "db_cursors db"]
  by (simp add: cursor_of_def advance_cursor_def write_cursor_def cursor_key_def split: option.splits)

lemma cursor_of_advance_other:
  "(l', p') \<noteq> (l, p) \<Longrightarrow> cursor_of (advance_cursor l p c now db) l' p' = cursor_of db l' p'"
  by (simp add: cursor_of_def advance_cursor_def write_cursor_def cursor_table.lookup_upsert_other
      cursor_key_def)

lemma read_cursor_of: "read_cursor db l p = (case cursor_of db l p of
      None \<Rightarrow> \<lparr>cur_value = [], cur_observed_at = None\<rparr>
    | Some r \<Rightarrow> \<lparr>cur_value = opt_or (cs_last_event_id r) [], cur_observed_at = cs_last_event_at r\<rparr>)"
  by (simp add: read_cursor_def)

lemma read_cursor_advance: "read_cursor (advance_cursor l p c now db) l p = c"
  by (simp add: read_cursor_of cursor_of_advance opt_or_def)

lemma read_cursor_cong: "db_cursors a = db_cursors b \<Longrightarrow> read_cursor a l p = read_cursor b l p"
  by (simp add: read_cursor_def cursor_of_def)

section \<open>Properties\<close>

text \<open>
  C10. A successful bulk load refines a fold over the partner's entries, students before
  enrollments: an entry whose content is the current value of its key changes nothing, any other
  becomes the current value. One live snapshot per key is kept, no snapshot is lost, and the
  cursor of the LEA and partner, and no other, is at the partner's latest event with the cold
  start cleared.
\<close>

theorem bulk_load_refines:
  assumes "bulk_load_lea ft pg err p fetch latest l job clock db = (db', Inr report)"
    and "fetch l = Inr payload" and "latest l = Inr c"
  shows "store db' = fold (bulk_step ft job l ENROLLMENT) (payload_entries payload ENROLLMENT)
      (fold (bulk_step ft job l STUDENT) (payload_entries payload STUDENT) (store db)) \<and>
    (snapshots_ok db \<longrightarrow> snapshots_ok db') \<and> append_only db db' \<and>
    read_cursor db' l p = c \<and> (\<exists>r. cursor_of db' l p = Some r \<and> \<not> cs_cold_start_required r) \<and>
    (\<forall>l' p'. (l', p') \<noteq> (l, p) \<longrightarrow> read_cursor db' l' p' = read_cursor db l' p')"
  using assms(1)
proof (rule bulk_load_success)
  fix pl c' n m db1 db2
  let ?db0 = "ensure_lea_exists l (db\<lparr>db_sync_jobs := db_sync_jobs db @ [bulk_job_row job l p (clock 0)]\<rparr>)"
  let ?last = "mark_bulk_success job (clock 4) (cur_value c') (n + m) (advance_cursor l p c' (clock 3) db2)"
  assume io: "fetch l = Inr pl" "latest l = Inr c'"
    and 1: "fold_res (apply_entry ft pg job l STUDENT (clock 1)) (payload_entries pl STUDENT) (0, ?db0) = Inr (n, db1)"
    and 2: "fold_res (apply_entry ft pg job l ENROLLMENT (clock 2)) (payload_entries pl ENROLLMENT) (0, db1) = Inr (m, db2)"
    and db': "db' = ?last"
  have eq: "pl = payload" "c' = c" using io assms(2,3) by simp_all
  note r1 = entries_refine [OF 1] and r2 = entries_refine [OF 2]
  have start: "store ?db0 = store db" "snapshots_ok db \<longrightarrow> snapshots_ok ?db0" "append_only db ?db0"
    by (auto intro: store_same append_only_same elim: snapshots_ok_same)
  have fin: "store db' = store db2" "snapshots_ok db2 \<longrightarrow> snapshots_ok db'" "append_only db2 db'"
    by (auto simp: db' cursor_after_load intro!: store_same append_only_same elim: snapshots_ok_same)
  have app: "append_only db db'"
    using append_only_trans [OF append_only_trans [OF append_only_trans [OF start(3)]]] r1 r2 fin(3) by blast
  have cur: "read_cursor db' l' p' = read_cursor (advance_cursor l p c (clock 3) db2) l' p'" for l' p'
    by (rule read_cursor_cong) (simp add: db' eq cursor_after_load)
  have "cursor_of db' l p = cursor_of (advance_cursor l p c (clock 3) db2) l p"
    by (simp add: cursor_of_def db' eq cursor_after_load)
  then have cold: "\<exists>r. cursor_of db' l p = Some r \<and> \<not> cs_cold_start_required r"
    by (simp add: cursor_of_advance)
  have dbc: "db_cursors db2 = db_cursors db" using r1 r2 by (simp add: ensure_lea_exists_def)
  have others: "read_cursor db' l' p' = read_cursor db l' p'" if "(l', p') \<noteq> (l, p)" for l' p'
  proof -
    have "cursor_of db' l' p' = cursor_of db l' p'"
      using cursor_of_advance_other [OF that, of c "clock 3" db2]
      by (simp add: cursor_of_def db' eq cursor_after_load dbc)
    then show ?thesis by (simp add: read_cursor_of)
  qed
  from r1 r2 start fin app cold others show ?thesis by (simp add: eq cur read_cursor_advance)
qed

text \<open>
  A bulk load that fails after its job row is written leaves the cursors as they were, marks
  its own job failed, loses no snapshot and reports \<open>BulkLoadError\<close>; a load whose job id is
  taken changes nothing.
\<close>

theorem bulk_load_failure:
  assumes "bulk_load_lea ft pg err p fetch latest l job clock db = (db', Inl e)"
  shows "db_cursors db' = db_cursors db \<and> append_only db db' \<and>
    (if job \<in> job_ids db then db' = db
     else e = BulkLoadError \<and> (\<exists>j. db_sync_jobs db' = db_sync_jobs db @ [j] \<and> sj_id j = job \<and>
            sj_status j = ''failed'' \<and> sj_event_count j = 0))"
proof (cases "job \<in> job_ids db")
  case True
  with assms show ?thesis by (simp add: bulk_load_lea_def insert_sync_job_def bulk_job_row_def)
next
  case False
  let ?j = "bulk_job_row job l p (clock 0)"
  let ?db0 = "db\<lparr>db_sync_jobs := db_sync_jobs db @ [?j]\<rparr>"
  have "insert_sync_job ?j db = Inr ?db0"
    using False by (simp add: insert_sync_job_def bulk_job_row_def)
  with assms obtain db1 e1 where tr: "bulk_try ft pg p fetch latest l job clock ?db0 = (db1, Inl e1)"
    and db': "db' = mark_bulk_failed job (clock 5) (''bulk_load_failed: '' @ err e1) db1" "e = BulkLoadError"
    by (auto simp: bulk_load_lea_def split: prod.splits sum.splits)
  have "db_cursors db1 = db_cursors db \<and> append_only db db1 \<and> db_sync_jobs db1 = db_sync_jobs ?db0"
  proof -
    let ?start = "ensure_lea_exists l ?db0"
    have refl: "append_only db ?db0" "append_only db ?start" by (simp_all add: append_only_same)
    from tr consider "db1 = ?db0" | "db1 = ?start"
      | payload n where "fold_res (apply_entry ft pg job l STUDENT (clock 1))
          (payload_entries payload STUDENT) (0, ?start) = Inr (n, db1)"
      | payload n m dba where "fold_res (apply_entry ft pg job l STUDENT (clock 1))
          (payload_entries payload STUDENT) (0, ?start) = Inr (n, dba)"
          "fold_res (apply_entry ft pg job l ENROLLMENT (clock 2))
          (payload_entries payload ENROLLMENT) (0, dba) = Inr (m, db1)"
      by (auto simp: bulk_try_def Let_def apply_entity_type_Inr split: sum.splits prod.splits
          dest!: apply_entity_type_Inl)
    then show ?thesis
    proof cases
      case 1
      with refl show ?thesis by simp
    next
      case 2
      with refl show ?thesis by simp
    next
      case 3
      with entries_refine [OF 3] append_only_trans [OF refl(2)] show ?thesis by simp
    next
      case 4
      with entries_refine [OF 4(1)] entries_refine [OF 4(2)] append_only_trans [OF refl(2)]
        append_only_trans [of db dba db1] show ?thesis by simp
    qed
  qed
  moreover have "update_where (\<lambda>j. sj_id j = job) f (db_sync_jobs db @ [?j]) = db_sync_jobs db @ [f ?j]" for f
    using False by (force simp: update_where_def job_ids_def bulk_job_row_def intro: map_idI)
  moreover have "append_only db1 db'" by (rule append_only_same) (simp add: db' mark_bulk_failed_def update_sync_job_def)
  ultimately show ?thesis
    using False append_only_trans [of db db1 db']
    by (simp add: db' mark_bulk_failed_def update_sync_job_def bulk_job_row_def)
qed

section \<open>Loading twice\<close>

definition settled ::
  "(rat \<Rightarrow> string) \<Rightarrow> lea_id \<Rightarrow> entity_type \<Rightarrow>
   (lea_id \<times> entity_type \<times> string \<Rightarrow> snapshot_value option) \<Rightarrow> dict \<Rightarrow> bool" where
  "settled ft l t m entry \<longleftrightarrow> (\<exists>i p del. m (l, t, bulk_key ft (bulk_row l t entry)) = Some (i, p, del) \<and>
     dict_eq p (bulk_row l t entry))"

definition payload_key :: "(rat \<Rightarrow> string) \<Rightarrow> lea_id \<Rightarrow> entity_type \<Rightarrow> dict \<Rightarrow> string" where
  "payload_key ft l t entry = bulk_key ft (bulk_row l t entry)"

text \<open>The values of the plan's columns have no repeated keys, as Python values.\<close>

definition entry_wf :: "entity_type \<Rightarrow> dict \<Rightarrow> bool" where
  "entry_wf t entry \<longleftrightarrow> list_all (\<lambda>c. json_wf (dict_get entry c)) (bulk_columns t)"

lemma bulk_row_refl:
  assumes "entry_wf t entry"
  shows "dict_eq (bulk_row l t entry) (bulk_row l t entry)"
proof -
  have "json_wf (JObj (bulk_row l t entry))"
    using assms by (cases "t = STUDENT") (simp_all add: entry_wf_def bulk_row_def bulk_columns_def
        dict_set_def upsert_def update_where_def)
  then show ?thesis unfolding dict_eq_def by (rule json_eq_refl)
qed

lemma step_settles: "entry_wf t entry \<Longrightarrow> settled ft l t (bulk_step ft job l t entry m) entry"
  by (auto simp: settled_def bulk_step_def Let_def bulk_value_def bulk_row_refl split: option.splits prod.splits)

lemma step_keeps_settled:
  assumes "settled ft l t m x" and "payload_key ft l t x \<noteq> payload_key ft l t' y \<or> t \<noteq> t'"
  shows "settled ft l t (bulk_step ft job l t' y m) x"
  using assms by (auto simp: settled_def bulk_step_def Let_def payload_key_def split: option.splits prod.splits)

lemma fold_keeps_settled:
  assumes "settled ft l t m x" and "\<And>y. y \<in> set ys \<Longrightarrow> payload_key ft l t x \<noteq> payload_key ft l t' y \<or> t \<noteq> t'"
  shows "settled ft l t (fold (bulk_step ft job l t') ys m) x"
  using assms
proof (induction ys arbitrary: m)
  case (Cons y ys)
  then have "settled ft l t (bulk_step ft job l t' y m) x" by (intro step_keeps_settled) auto
  then have "settled ft l t (fold (bulk_step ft job l t') ys (bulk_step ft job l t' y m)) x"
    by (rule Cons.IH) (rule Cons.prems(2), simp)
  then show ?case by simp
qed simp

lemma fold_settles:
  assumes "x \<in> set xs" and "distinct (map (payload_key ft l t) xs)" and "entry_wf t x"
  shows "settled ft l t (fold (bulk_step ft job l t) xs m) x"
  using assms
proof (induction xs arbitrary: m)
  case (Cons y ys)
  show ?case
  proof (cases "x \<in> set ys")
    case True
    with Cons show ?thesis by simp
  next
    case False
    with Cons.prems(1) have "x = y" by simp
    with Cons.prems(2,3) show ?thesis
      by (auto intro!: fold_keeps_settled step_settles)
  qed
qed simp

lemma entries_have_ids:
  assumes "fold_res (apply_entry ft pg job l t now) entries s = Inr s'" and "x \<in> set entries"
  shows "dict_get (bulk_row l t x) ''id'' \<noteq> JNull"
  using assms
proof (induction entries arbitrary: s)
  case (Cons y ys)
  then show ?case by (cases s) (auto simp: res_simps apply_entry_def Let_def split: if_splits)
qed simp

lemma entries_all_same:
  assumes "\<And>x. x \<in> set entries \<Longrightarrow> settled ft l t (store db) x \<and> dict_get (bulk_row l t x) ''id'' \<noteq> JNull"
  shows "fold_res (apply_entry ft pg job l t now) entries (n, db) = Inr (n, db)"
  using assms
proof (induction entries)
  case (Cons y ys)
  then have "unchanged_entry ft l t (bulk_row l t y) db"
    by (simp add: unchanged_entry_store settled_def)
  with Cons show ?case by (simp add: apply_entry_def Let_def)
qed simp

text \<open>
  Loading the same partner state twice: when no two entries of a type share an id, a second
  bulk load succeeds, writes no snapshot and no canonical row, and still moves the cursor to the
  partner's latest event.
\<close>

theorem bulk_load_twice:
  assumes "bulk_load_lea ft pg err p fetch latest l job clock db = (db1, Inr report)"
    and "fetch l = Inr payload" and "fetch' l = Inr payload" and "latest' l = Inr c"
    and "\<forall>t \<in> {STUDENT, ENROLLMENT}. distinct (map (payload_key ft l t) (payload_entries payload t)) \<and>
      (\<forall>x \<in> set (payload_entries payload t). entry_wf t x)"
    and "job' \<notin> job_ids db1"
  shows "\<exists>db2 report'. bulk_load_lea ft pg err p fetch' latest' l job' clock' db1 = (db2, Inr report') \<and>
    bl_students_written report' = 0 \<and> bl_enrollments_written report' = 0 \<and>
    db_snapshots db2 = db_snapshots db1 \<and> db_students db2 = db_students db1 \<and>
    db_enrollments db2 = db_enrollments db1 \<and> read_cursor db2 l p = c"
  using assms(1)
proof (rule bulk_load_success)
  fix pl c' n m dba dbb
  assume io: "fetch l = Inr pl"
    and 1: "fold_res (apply_entry ft pg job l STUDENT (clock 1)) (payload_entries pl STUDENT)
      (0, ensure_lea_exists l (db\<lparr>db_sync_jobs := db_sync_jobs db @ [bulk_job_row job l p (clock 0)]\<rparr>)) = Inr (n, dba)"
    and 2: "fold_res (apply_entry ft pg job l ENROLLMENT (clock 2)) (payload_entries pl ENROLLMENT)
      (0, dba) = Inr (m, dbb)"
    and db1: "db1 = mark_bulk_success job (clock 4) (cur_value c') (n + m) (advance_cursor l p c' (clock 3) dbb)"
  have pl: "pl = payload" using io assms(2) by simp
  let ?S = "payload_entries payload STUDENT" and ?E = "payload_entries payload ENROLLMENT"
  have st: "store db1 = fold (bulk_step ft job l ENROLLMENT) ?E (store dba)"
    using entries_refine [OF 2] store_same [of db1 dbb] by (simp add: db1 cursor_after_load pl)
  have sa: "store dba = fold (bulk_step ft job l STUDENT) ?S (store (ensure_lea_exists l
      (db\<lparr>db_sync_jobs := db_sync_jobs db @ [bulk_job_row job l p (clock 0)]\<rparr>)))"
    using entries_refine [OF 1] by (simp add: pl)
  have "settled ft l STUDENT (store dba) x" if "x \<in> set ?S" for x
    unfolding sa by (rule fold_settles [OF that]) (use assms(5) that in auto)
  then have S: "settled ft l STUDENT (store db1) x" if "x \<in> set ?S" for x
    unfolding st using that by (intro fold_keeps_settled) simp_all
  have E: "settled ft l ENROLLMENT (store db1) x" if "x \<in> set ?E" for x
    unfolding st by (rule fold_settles [OF that]) (use assms(5) that in auto)
  let ?j = "bulk_job_row job' l p (clock' 0)"
  let ?db0 = "db1\<lparr>db_sync_jobs := db_sync_jobs db1 @ [?j]\<rparr>"
  let ?start = "ensure_lea_exists l ?db0"
  have ins: "insert_sync_job ?j db1 = Inr ?db0"
    using assms(6) by (simp add: insert_sync_job_def bulk_job_row_def)
  have st0: "store ?start = store db1" by (rule store_same) simp
  have again: "apply_entity_type ft pg job' l STUDENT (clock' 1) ?S ?start = (?start, Inr 0)"
    "apply_entity_type ft pg job' l ENROLLMENT (clock' 2) ?E ?start = (?start, Inr 0)"
    unfolding apply_entity_type_Inr
    by (rule entries_all_same; use S E st0 entries_have_ids [OF 1] entries_have_ids [OF 2] pl in simp)+
  let ?last = "mark_bulk_success job' (clock' 4) (cur_value c) (0 + 0) (advance_cursor l p c (clock' 3) ?start)"
  have "bulk_load_lea ft pg err p fetch' latest' l job' clock' db1 = (?last,
      Inr \<lparr>bl_sync_job_id = job', bl_lea_id = l, bl_partner = p, bl_status = ''success'',
        bl_students = length ?S, bl_enrollments = length ?E, bl_students_written = 0,
        bl_enrollments_written = 0, bl_cursor_after = cur_value c, bl_cold_start_cleared = True\<rparr>)"
    by (simp add: bulk_load_lea_def ins bulk_try_def assms(3,4) Let_def
        again del: One_nat_def)
  moreover have "read_cursor ?last l p = c"
    using read_cursor_cong [of ?last "advance_cursor l p c (clock' 3) ?start" l p]
    by (simp add: cursor_after_load read_cursor_advance)
  ultimately show ?thesis by (simp add: cursor_after_load)
qed

text \<open>
  C37. The source id of a bulk-load snapshot takes part in the deduplication of events: after an
  entry is written, an event of the same entity whose id is not larger than
  \<open>bulk-load-<job>\<close> in string order counts as already applied and is skipped, however new it
  is. Ids that start with a digit or an upper-case letter are of this kind.
\<close>

theorem bulk_load_shadows_events:
  assumes "write_bulk_row ft pg job l t now row db = Inr db'"
    and "ev_entity_type ev = t" and "natural_key ev = bulk_key ft row"
    and "ev_source_event_id ev \<le> bulk_event_id job"
  shows "apply_event job' l now' ev db' = Inr (False, db')"
proof -
  obtain sn where "snapshot_value sn = bulk_value job row"
    and "filter (\<lambda>sn. for_key l (bulk_key ft row) sn \<and> live sn) (db_snapshots db' t) = [sn]"
    using bulk_writer.put_live [OF assms(1) TrueI, of l "bulk_key ft row" t] by auto
  then have "latest_live_source_event_id db' l t (bulk_key ft row) = Some (bulk_event_id job)"
    by (simp add: latest_live_source_event_id_def max_string_def List.map_filter_def snapshot_value_def
        bulk_value_def)
  then show ?thesis using assms(2-4) by (simp add: apply_event_def already_applied_def)
qed

section \<open>Witnesses\<close>

definition s_partner :: partner_payload where
  "s_partner =
     [(''students'', [[(''id'', JStr ''stu-1''), (''given_name'', JStr ''Alex''),
        (''family_name'', JStr ''Morgan''), (''grade'', JStr ''05'')]]),
      (''enrollments'', [[(''id'', JStr ''enr-1''), (''student_id'', JStr ''stu-1''),
        (''class_id'', JStr ''cls-A''), (''begin_date'', JStr ''2026-01-05'')]])]"

definition s_pg_date :: "string \<Rightarrow> date option" where
  "s_pg_date s = (case fromisoformat s of Inl _ \<Rightarrow> None | Inr d \<Rightarrow> Some d)"

definition s_partner_state :: "lea_id \<Rightarrow> exn + partner_payload" where
  "s_partner_state l = Inr s_partner"

definition s_latest :: "lea_id \<Rightarrow> exn + cursor" where
  "s_latest l = Inr \<lparr>cur_value = ''evt_9'', cur_observed_at = Some 90\<rparr>"

definition s_clock :: "nat \<Rightarrow> timestamp" where
  "s_clock i = 100 + int i"

definition s_load :: "db \<times> (exn + bulk_load_report)" where
  "s_load = bulk_load_lea (\<lambda>_. []) s_pg_date (\<lambda>_. []) ''edlink'' s_partner_state s_latest ''lea-1'' 1
     s_clock empty_db"

lemma s_load_eval:
  "case s_load of
     (db, Inr r) \<Rightarrow> bl_students_written r = 1 \<and> bl_enrollments_written r = 1 \<and>
       map sj_id (db_sync_jobs db) = [1]
   | _ \<Rightarrow> False"
  by code_simp

lemma s_load_facts:
  "bulk_load_lea (\<lambda>_. []) s_pg_date (\<lambda>_. []) ''edlink'' s_partner_state s_latest ''lea-1'' 1 s_clock empty_db =
     (fst s_load, Inr (projr (snd s_load)))"
  "job_ids (fst s_load) = {1}"
proof -
  obtain db x where dx: "s_load = (db, x)" by (cases s_load)
  from s_load_eval [unfolded dx] obtain r where x: "x = Inr r" by (cases x) auto
  note eq = dx [unfolded x]
  from s_load_eval [unfolded eq] have "map sj_id (db_sync_jobs db) = [1]" by simp
  moreover have "job_ids db = set (map sj_id (db_sync_jobs db))" by (simp add: job_ids_def)
  ultimately show "job_ids (fst s_load) = {1}" by (simp add: eq)
  show "bulk_load_lea (\<lambda>_. []) s_pg_date (\<lambda>_. []) ''edlink'' s_partner_state s_latest ''lea-1'' 1 s_clock empty_db =
     (fst s_load, Inr (projr (snd s_load)))" using eq by (simp add: s_load_def)
qed

lemma s_partner_run: "s_partner_state l = Inr s_partner"
  by (simp add: s_partner_state_def)

theorem bulk_load_refines_witness:
  "snapshots_ok (fst s_load) \<and> read_cursor (fst s_load) ''lea-1'' ''edlink'' =
     \<lparr>cur_value = ''evt_9'', cur_observed_at = Some 90\<rparr>"
  using bulk_load_refines [OF s_load_facts(1) s_partner_run s_latest_def] empty_db_ok by blast

theorem bulk_load_failure_witness:
  "db_cursors (fst (bulk_load_lea (\<lambda>_. []) s_pg_date (\<lambda>_. []) ''edlink'' (\<lambda>_. Inl (PartnerError ''down''))
     s_latest ''lea-1'' 1 s_clock empty_db)) = []"
proof -
  let ?run = "bulk_load_lea (\<lambda>_. []) s_pg_date (\<lambda>_. []) ''edlink'' (\<lambda>_. Inl (PartnerError ''down''))
     s_latest ''lea-1'' 1 s_clock empty_db"
  have "snd ?run = Inl BulkLoadError" by code_simp
  then have "?run = (fst ?run, Inl BulkLoadError)" by (metis prod.collapse)
  from bulk_load_failure [OF this] show ?thesis by (simp add: empty_db_def)
qed

theorem bulk_load_twice_witness:
  "\<exists>db r. bulk_load_lea (\<lambda>_. []) s_pg_date (\<lambda>_. []) ''edlink'' s_partner_state s_latest ''lea-1'' 2 s_clock
     (fst s_load) = (db, Inr r) \<and> bl_students_written r = 0 \<and> db_snapshots db = db_snapshots (fst s_load)"
proof -
  have "\<forall>t \<in> {STUDENT, ENROLLMENT}. distinct (map (payload_key (\<lambda>_. []) ''lea-1'' t) (payload_entries s_partner t)) \<and>
      (\<forall>x \<in> set (payload_entries s_partner t). entry_wf t x)"
    by code_simp
  moreover have "2 \<notin> job_ids (fst s_load)" by (simp add: s_load_facts(2))
  ultimately show ?thesis
    using bulk_load_twice [where fetch' = s_partner_state and latest' = s_latest and clock' = s_clock,
        OF s_load_facts(1) s_partner_run s_partner_run s_latest_def] by blast
qed

text \<open>An event of the student of the first page, with an id that starts with a digit.\<close>

definition s_late_event :: normalized_event where
  "s_late_event = s_ev_student\<lparr>ev_source_event_id := ''01HZX''\<rparr>"

theorem bulk_load_shadows_events_witness:
  "\<exists>db. write_bulk_row (\<lambda>_. []) s_pg_date 1 ''lea-1'' STUDENT 100
      (bulk_row ''lea-1'' STUDENT (hd (payload_entries s_partner STUDENT))) s_db1 = Inr db \<and>
     apply_event 2 ''lea-1'' 200 s_late_event db = Inr (False, db)"
proof -
  let ?row = "bulk_row ''lea-1'' STUDENT (hd (payload_entries s_partner STUDENT))"
  let ?run = "write_bulk_row (\<lambda>_. []) s_pg_date 1 ''lea-1'' STUDENT 100 ?row s_db1"
  have "\<not> isl ?run" by code_simp
  then have run: "?run = Inr (projr ?run)" by (metis sum.collapse(2))
  have "ev_entity_type s_late_event = STUDENT" "natural_key s_late_event = bulk_key (\<lambda>_. []) ?row"
    "ev_source_event_id s_late_event \<le> bulk_event_id 1"
    by code_simp+
  from bulk_load_shadows_events [OF run this] run show ?thesis by blast
qed

end
