(* ===== verification/Migrations.thy ===== *)
theory Migrations
  imports BulkLoad Retry Quarantine
begin

text \<open>
  What the migrations add to the tables beyond their constraints: the trigger that keeps snapshots
  immutable (\<open>2026_05_21_0003\<close>), the rename of the roles (\<open>2026_05_28_0011\<close>) and the bootstrap of
  the first operators (\<open>2026_05_22_0004\<close>).
\<close>

section \<open>Immutable snapshots\<close>

text \<open>
  \<open>enforce_snapshot_immutability\<close>, before each update of a row: the two supersession columns may
  change and no other. \<open>core\<close> is a row without them.
\<close>

definition snapshot_trigger :: "string \<Rightarrow> snapshot \<Rightarrow> snapshot \<Rightarrow> string + snapshot" where
  "snapshot_trigger table old new =
     (if core new \<noteq> core old then
        Inl (''snapshot rows only allow UPDATE of superseded_by_generation_id and superseded_at '' @
             ''(attempted to change another column on '' @ table @ '')'')
      else Inr new)"

text \<open>Every row of a table is still there, at its place, and the trigger accepts what became of it.\<close>

definition trigger_accepts :: "db \<Rightarrow> db \<Rightarrow> bool" where
  "trigger_accepts a b \<longleftrightarrow> (\<forall>t. length (db_snapshots a t) \<le> length (db_snapshots b t) \<and>
     (\<forall>i < length (db_snapshots a t). \<forall>name.
        snapshot_trigger name (db_snapshots a t ! i) (db_snapshots b t ! i) = Inr (db_snapshots b t ! i)))"

lemma append_only_trigger:
  assumes "append_only a b"
  shows "trigger_accepts a b"
  unfolding trigger_accepts_def
proof (intro allI conjI impI)
  fix t i name
  let ?a = "db_snapshots a t" and ?b = "db_snapshots b t"
  obtain zs where zs: "map core ?b = map core ?a @ zs" using append_onlyD [OF assms, of t] by (auto simp: prefix_def)
  then have len: "length ?b = length ?a + length zs" by (metis length_append length_map)
  then show "length ?a \<le> length ?b" by simp
  assume i: "i < length ?a"
  have "core (?b ! i) = map core ?b ! i" using i len by simp
  also have "\<dots> = core (?a ! i)" unfolding zs using i by (simp add: nth_append)
  finally show "snapshot_trigger name (?a ! i) (?b ! i) = Inr (?b ! i)" by (simp add: snapshot_trigger_def)
qed

text \<open>The operations that touch snapshots, and the operator's other actions on a sync or an event.\<close>

inductive service_step :: "db \<Rightarrow> db \<Rightarrow> bool" where
  drained: "service_step db (fst (drain_lea None alerts max_pages p fetch ids clock l db))"
| loaded: "service_step db (fst (bulk_load_lea ft pg err p fetch_state latest l job clock db))"
| reverted: "service_step db (fst (revert ft job operator reason gen now db))"
| retried: "service_step db (fst (retry job operator reason forced now db))"
| released: "service_step db (fst (release ft q operator gen now db))"
| rejected: "service_step db (fst (reject q operator reason now db))"

lemma transaction_append_only:
  assumes "\<And>a db'. body db = Inr (a, db') \<Longrightarrow> append_only db db'"
  shows "append_only db (fst (transaction body db))"
proof (cases "body db")
  case (Inl e)
  then show ?thesis by (simp add: transaction_def)
next
  case (Inr r)
  obtain a db' where r: "r = (a, db')" by (cases r)
  have "append_only db db'" by (rule assms) (simp add: Inr r)
  then show ?thesis by (simp add: transaction_def Inr r)
qed

lemma revert_type_append_only:
  assumes "revert_type ft job gen now t (n, db) = Inr (n', db')"
  shows "append_only db db'"
proof -
  have "append_only db (snd (n', db'))"
  proof (rule fold_res_invariant [where P = "\<lambda>s. append_only db (snd s)"])
    show "fold_res (revert_row ft job gen now t) (live_of_job db t job) (n, db) = Inr (n', db')"
      using assms by (simp add: revert_type_def)
    fix x s u assume "append_only db (snd s)" "revert_row ft job gen now t x s = Inr u"
    moreover from this(2) have "append_only (snd s) (snd u)"
      using revert_row_append_only [of ft job gen now t x "fst s" "snd s" "fst u" "snd u"] by simp
    ultimately show "append_only db (snd u)" by (blast intro: append_only_trans)
  qed simp
  then show ?thesis by simp
qed

lemma revert_type_loop:
  assumes "append_only a (snd s)" and "revert_type ft job gen now t s = Inr u"
  shows "append_only a (snd u)"
  using assms revert_type_append_only [of ft job gen now t "fst s" "snd s" "fst u" "snd u"]
  by (auto intro: append_only_trans)

lemma revert_append_only: "append_only db (fst (revert ft job operator reason gen now db))"
  unfolding revert_def
proof (rule transaction_append_only)
  fix out db' assume run: "revert_body ft job operator reason gen now db = Inr (out, db')"
  then obtain target db1 n db2 where
    1: "insert_sync_job (revert_job_row gen job target now) db = Inr db1"
    and 2: "fold_res (revert_type ft job gen now) [STUDENT, ENROLLMENT, LEA]
      (\<lparr>rt_restored = 0, rt_updated = 0, rt_soft_deleted = 0\<rparr>, db1) = Inr (n, db2)"
    and 3: "db' = insert_revert_action job gen operator reason now (rt_restored n) db2"
    by (auto simp: revert_body_def res_simps split: option.splits)
  have "append_only db1 (snd (n, db2))"
    by (rule fold_res_invariant [where P = "\<lambda>s. append_only db1 (snd s)", OF 2])
      (use revert_type_loop in \<open>simp_all\<close>)
  moreover have "append_only db db1"
    using 1 by (intro append_only_same) (auto simp: insert_sync_job_def split: if_splits)
  moreover have "append_only db2 db'" by (intro append_only_same) (simp add: 3)
  ultimately show "append_only db db'" by (auto intro: append_only_trans)
qed

lemma retry_append_only: "append_only db (fst (retry job operator reason forced now db))"
  unfolding retry_def
  by (rule transaction_append_only, rule append_only_same)
    (auto simp: retry_body_def res_simps Let_def insert_retry_action_def rewind_cursor_def write_cursor_def
      split: if_splits)

lemma reject_append_only: "append_only db (fst (reject q operator reason now db))"
  unfolding reject_def
  by (rule transaction_append_only, rule append_only_same) (auto simp: reject_body_def res_simps mark_resolved_def)

lemma release_append_only: "append_only db (fst (release ft q operator gen now db))"
proof (cases "release ft q operator gen now db")
  case (Pair db' r)
  show ?thesis
  proof (cases r)
    case (Inl e)
    with Pair have "db' = db" by (simp add: release_def transaction_Inl)
    with Pair show ?thesis by simp
  next
    case (Inr out)
    with Pair have "release ft q operator gen now db = (db', Inr out)" by simp
    from release_effect [OF this] obtain sn where
      "db_snapshots db' = (db_snapshots db)(ENROLLMENT := db_snapshots db ENROLLMENT @ [sn])" by blast
    then have "append_only db db'" by (auto intro!: append_onlyI)
    with Pair show ?thesis by simp
  qed
qed

lemma drain_keeps_snapshots: "append_only db (fst (drain_lea None alerts max_pages p fetch ids clock l db))"
  using drain_append_only [where poller = None] by simp

lemma bulk_load_append_only: "append_only db (fst (bulk_load_lea ft pg err p fetch latest l job clock db))"
proof (cases "bulk_load_lea ft pg err p fetch latest l job clock db")
  case (Pair db' r)
  have "append_only db db'"
  proof (cases r)
    case (Inl e)
    with Pair bulk_load_failure show ?thesis by blast
  next
    case (Inr report)
    with Pair have "bulk_load_lea ft pg err p fetch latest l job clock db = (db', Inr report)" by simp
    then show ?thesis
    proof (rule bulk_load_success)
      fix payload c n m db1 db2
      let ?db0 = "ensure_lea_exists l (db\<lparr>db_sync_jobs := db_sync_jobs db @ [bulk_job_row job l p (clock 0)]\<rparr>)"
      assume 1: "fold_res (apply_entry ft pg job l STUDENT (clock 1)) (payload_entries payload STUDENT) (0, ?db0) = Inr (n, db1)"
        and 2: "fold_res (apply_entry ft pg job l ENROLLMENT (clock 2)) (payload_entries payload ENROLLMENT) (0, db1) = Inr (m, db2)"
        and db': "db' = mark_bulk_success job (clock 4) (cur_value c) (n + m) (advance_cursor l p c (clock 3) db2)"
      have "append_only db ?db0" "append_only db2 db'" by (auto simp: db' cursor_after_load intro!: append_only_same)
      moreover have "append_only ?db0 db1" "append_only db1 db2"
        using entries_refine [OF 1] entries_refine [OF 2] by simp_all
      ultimately show "append_only db db'" using append_only_trans by blast
    qed
  qed
  with Pair show ?thesis by simp
qed

lemma service_step_append_only: "service_step a b \<Longrightarrow> append_only a b"
  by (induction rule: service_step.induct)
    (simp_all add: drain_keeps_snapshots bulk_load_append_only revert_append_only retry_append_only
      release_append_only reject_append_only)

text \<open>
  C5. No operation of the services ever trips the trigger, and no snapshot is ever lost: after any
  sequence of drains, bulk loads, reverts, retries, releases and rejections, refused and failed
  ones included, every snapshot row is still at its place, and the trigger accepts the difference.
\<close>

theorem services_respect_trigger:
  assumes "service_step\<^sup>*\<^sup>* a b"
  shows "trigger_accepts a b"
proof -
  from assms have "append_only a b"
    by (induction rule: rtranclp_induct) (auto dest: service_step_append_only intro: append_only_trans)
  then show ?thesis by (rule append_only_trigger)
qed

theorem services_respect_trigger_witness:
  "trigger_accepts empty_db (fst (revert (\<lambda>_. []) 1 ''op'' ''why'' 9 70
     (fst (drain_lea None True 5 ''edlink'' (\<lambda>_. s_fetch) (\<lambda>i. i + 1) (\<lambda>_. 100) ''lea-1'' empty_db))))"
proof -
  let ?a = "fst (drain_lea None True 5 ''edlink'' (\<lambda>_. s_fetch) (\<lambda>i. i + 1) (\<lambda>_. 100) ''lea-1'' empty_db)"
  have "service_step empty_db ?a" by (rule service_step.drained)
  moreover have "service_step ?a (fst (revert (\<lambda>_. []) 1 ''op'' ''why'' 9 70 ?a))" by (rule service_step.reverted)
  ultimately have "service_step\<^sup>*\<^sup>* empty_db (fst (revert (\<lambda>_. []) 1 ''op'' ''why'' 9 70 ?a))" by simp
  then show ?thesis by (rule services_respect_trigger)
qed

section \<open>The rename of the roles\<close>

text \<open>The check constraint is dropped, the rows are renamed, and the constraint of the new names is added.\<close>

definition rename_role :: "(string \<times> string) list \<Rightarrow> string \<Rightarrow> string" where
  "rename_role renames role = fold (\<lambda>(old, new) x. if x = old then new else x) renames role"

definition migrate_roles :: "(string \<times> string) list \<Rightarrow> string list \<Rightarrow> db \<Rightarrow> exn + db" where
  "migrate_roles renames allowed db =
     (let rows = map (\<lambda>r. r\<lparr>ol_role := rename_role renames (ol_role r)\<rparr>) (db_roles db) in
      if list_all (\<lambda>r. ol_role r \<in> set allowed) rows then Inr (db\<lparr>db_roles := rows\<rparr>)
      else Inl (CheckViolation ''ck_operator_role_value''))"

definition OLD_ROLES :: "string list" where
  "OLD_ROLES = [''operator'', ''connector_admin'', ''founder_admin'', ''auditor'']"

definition NEW_ROLES :: "string list" where
  "NEW_ROLES = [''operator'', ''admin'', ''owner'', ''auditor'']"

definition NEW_NAMES :: "(string \<times> string) list" where
  "NEW_NAMES = [(''founder_admin'', ''owner''), (''connector_admin'', ''admin'')]"

definition OLD_NAMES :: "(string \<times> string) list" where
  "OLD_NAMES = [(''owner'', ''founder_admin''), (''admin'', ''connector_admin'')]"

definition upgrade_roles :: "db \<Rightarrow> exn + db" where "upgrade_roles = migrate_roles NEW_NAMES NEW_ROLES"

definition downgrade_roles :: "db \<Rightarrow> exn + db" where "downgrade_roles = migrate_roles OLD_NAMES OLD_ROLES"

lemma rename_back:
  "role \<in> set OLD_ROLES \<Longrightarrow> rename_role NEW_NAMES role \<in> set NEW_ROLES \<and>
     rename_role OLD_NAMES (rename_role NEW_NAMES role) = role"
  by (auto simp: OLD_ROLES_def NEW_ROLES_def OLD_NAMES_def NEW_NAMES_def rename_role_def)

text \<open>
  The rename can be taken back: from any table that satisfies the old constraint the upgrade
  succeeds, and the downgrade gives the table from before.
\<close>

lemma roles_round_trip:
  assumes "\<forall>r \<in> set (db_roles db). ol_role r \<in> set OLD_ROLES"
  shows "\<exists>db'. upgrade_roles db = Inr db' \<and> downgrade_roles db' = Inr db"
proof -
  let ?db = "db\<lparr>db_roles := map (\<lambda>r. r\<lparr>ol_role := rename_role NEW_NAMES (ol_role r)\<rparr>) (db_roles db)\<rparr>"
  have up: "upgrade_roles db = Inr ?db"
    using assms rename_back by (auto simp: upgrade_roles_def migrate_roles_def Let_def list_all_iff)
  have inverse: "map (\<lambda>r. r\<lparr>ol_role := rename_role OLD_NAMES (ol_role r)\<rparr>) (db_roles ?db) = db_roles db"
    using assms rename_back by (auto simp: comp_def intro!: map_idI)
  moreover have "list_all (\<lambda>r. ol_role r \<in> set OLD_ROLES) (db_roles db)" using assms by (simp add: list_all_iff)
  ultimately have "downgrade_roles ?db = Inr (?db\<lparr>db_roles := db_roles db\<rparr>)"
    unfolding downgrade_roles_def migrate_roles_def Let_def inverse by simp
  with up show ?thesis by simp
qed

end
