(* ===== verification/RetentionDrift.thy ===== *)
theory RetentionDrift
  imports PyStd "HOL-Library.Sublist"
begin

text \<open>
  The retention-drift check (\<open>services/retention_drift.py\<close>): the claims of a snapshot file, one per
  paragraph, must occur in the partner's documentation page after both are normalized. A text is
  the text that \<open>read_text\<close> and the fetcher give, with characters up to U+00FF.
\<close>

section \<open>Texts\<close>

text \<open>\<open>str.isspace\<close>, which is also \<open>\s\<close>, and the line breaks of \<open>str.splitlines\<close>.\<close>

definition py_space :: "char \<Rightarrow> bool" where
  "py_space c = (let n = of_char c :: nat in 9 \<le> n \<and> n \<le> 13 \<or> 28 \<le> n \<and> n \<le> 32 \<or> n = 133 \<or> n = 160)"

definition line_break :: "char \<Rightarrow> bool" where
  "line_break c = (let n = of_char c :: nat in 10 \<le> n \<and> n \<le> 13 \<or> 28 \<le> n \<and> n \<le> 30 \<or> n = 133)"

fun skip_lf :: "string \<Rightarrow> string" where
  "skip_lf [] = []"
| "skip_lf (c # cs) = (if c = CHR 0x0A then cs else c # cs)"

lemma length_skip_lf [simp]: "length (skip_lf cs) \<le> length cs"
  by (cases cs) simp_all

text \<open>A carriage return with the line feed after it is one break; the last line may be without one.\<close>

function splitlines_from :: "string \<Rightarrow> string \<Rightarrow> string list" where
  "splitlines_from acc [] = (if acc = [] then [] else [rev acc])"
| "splitlines_from acc (c # cs) =
     (if line_break c then rev acc # splitlines_from [] (if c = CHR 0x0D then skip_lf cs else cs)
      else splitlines_from (c # acc) cs)"
  by pat_completeness auto
termination by (relation "measure (\<lambda>(_, s). length s)") (auto simp: less_Suc_eq_le)

definition splitlines :: "string \<Rightarrow> string list" where
  "splitlines s = splitlines_from [] s"

definition lstrip :: "string \<Rightarrow> string" where "lstrip s = dropWhile py_space s"

definition strip :: "string \<Rightarrow> string" where "strip s = rev (dropWhile py_space (rev (dropWhile py_space s)))"

definition lower :: "string \<Rightarrow> string" where "lower s = map py_lower_char s"

text \<open>\<open>re.sub(r"\s+", " ", s)\<close>.\<close>

function collapse :: "string \<Rightarrow> string" where
  "collapse [] = []"
| "collapse (c # cs) =
     (if py_space c then CHR '' '' # collapse (dropWhile py_space cs) else c # collapse cs)"
  by pat_completeness auto
termination by (relation "measure length") (auto simp: less_Suc_eq_le length_dropWhile_le)

text \<open>\<open>s.split("\n\n")\<close>: the first argument is the piece read so far, reversed.\<close>

fun split_blank :: "string \<Rightarrow> string \<Rightarrow> string list" where
  "split_blank acc (a # b # cs) =
     (if a = CHR 0x0A \<and> b = CHR 0x0A then rev acc # split_blank [] cs else split_blank (a # acc) (b # cs))"
| "split_blank acc cs = [rev acc @ cs]"

section \<open>The check\<close>

definition drop_comments :: "string \<Rightarrow> string" where
  "drop_comments s =
     join_with [CHR 0x0A] (filter (\<lambda>line. take 1 (lstrip line) \<noteq> ''#'') (splitlines s))"

definition normalize :: "string \<Rightarrow> string" where
  "normalize s = strip (collapse (lower (drop_comments s)))"

definition load_snapshot_phrases :: "string \<Rightarrow> string list" where
  "load_snapshot_phrases raw =
     (let paragraphs = map strip (filter (\<lambda>p. strip p \<noteq> []) (split_blank [] (drop_comments raw)))
      in map (\<lambda>p. strip (collapse (lower p))) paragraphs)"

record drift_report =
  df_drifted :: bool
  df_snapshot_phrases :: "string list"
  df_fetched_normalized :: string
  df_missing_phrases :: "string list"

definition check_drift :: "string \<Rightarrow> string \<Rightarrow> drift_report" where
  "check_drift raw fetched =
     (let phrases = load_snapshot_phrases raw;
          page = normalize fetched;
          missing = filter (\<lambda>p. \<not> sublist p page) phrases in
      \<lparr>df_drifted = (missing \<noteq> []), df_snapshot_phrases = phrases,
       df_fetched_normalized = page, df_missing_phrases = missing\<rparr>)"

section \<open>Normalized texts\<close>

text \<open>A text that neither begins nor ends with white space.\<close>

definition trimmed :: "string \<Rightarrow> bool" where
  "trimmed s \<longleftrightarrow> s = [] \<or> \<not> py_space (hd s) \<and> \<not> py_space (last s)"

lemma py_space_lower [simp]: "py_space (py_lower_char c) = py_space c"
  by (auto simp: py_space_def py_lower_char_def Let_def of_char_of)

lemma dropWhile_lower: "dropWhile py_space (lower s) = lower (dropWhile py_space s)"
  by (simp add: lower_def dropWhile_map comp_def)

lemma lower_append: "lower (a @ b) = lower a @ lower b"
  by (simp add: lower_def)

lemma trimmed_strip: "trimmed (strip s)"
proof -
  let ?l = "dropWhile py_space s"
  have "hd (strip s) = hd ?l \<and> ?l \<noteq> []" if "strip s \<noteq> []"
  proof -
    obtain w where "rev ?l = w @ rev (strip s)"
      by (metis rev_rev_ident strip_def takeWhile_dropWhile_id)
    then have "?l = strip s @ rev w" by (metis rev_append rev_rev_ident)
    with that show ?thesis by simp
  qed
  then show ?thesis
    by (auto simp: trimmed_def hd_dropWhile)
      (auto simp: strip_def last_rev hd_dropWhile)
qed

lemma strip_parts: "\<exists>a b. s = a @ strip s @ b \<and> (\<forall>c \<in> set (a @ b). py_space c)"
proof -
  let ?l = "dropWhile py_space s"
  have "s = takeWhile py_space s @ ?l" by simp
  moreover have "?l = strip s @ rev (takeWhile py_space (rev ?l))"
    by (metis rev_append rev_rev_ident strip_def takeWhile_dropWhile_id)
  ultimately show ?thesis
    by (intro exI [of _ "takeWhile py_space s"] exI [of _ "rev (takeWhile py_space (rev ?l))"])
      (auto dest: set_takeWhileD)
qed

lemma strip_ends:
  assumes "\<forall>c \<in> set a. py_space c" and "\<forall>c \<in> set b. py_space c" and "trimmed m"
  shows "strip (a @ m @ b) = m"
proof (cases "m = []")
  case True
  with assms show ?thesis by (simp add: strip_def) (auto simp: dropWhile_eq_Nil_conv dest: set_dropWhileD)
next
  case False
  have "dropWhile py_space (a @ m @ b) = dropWhile py_space (m @ b)"
    by (rule dropWhile_append2) (use assms(1) in blast)
  then have "dropWhile py_space (a @ m @ b) = m @ b"
    using assms(3) False by (cases m) (simp_all add: trimmed_def)
  moreover have "\<And>c. c \<in> set (rev b) \<Longrightarrow> py_space c" using assms(2) by simp
  then have "dropWhile py_space (rev b @ rev m) = dropWhile py_space (rev m)" by (rule dropWhile_append2)
  moreover have "dropWhile py_space (rev m) = rev m"
    using assms(3) False by (cases m rule: rev_cases) (simp_all add: trimmed_def)
  ultimately show ?thesis by (simp add: strip_def)
qed

lemma collapse_append:
  "y = [] \<or> \<not> py_space (hd y) \<Longrightarrow> collapse (x @ y) = collapse x @ collapse y"
proof (induction x rule: collapse.induct)
  case (2 c cs)
  have "dropWhile py_space (cs @ y) = dropWhile py_space cs @ y"
    using 2(3) by (cases y) (auto simp: dropWhile_append)
  with 2 show ?case by simp
qed simp

lemma collapse_hd: "x \<noteq> [] \<Longrightarrow> collapse x \<noteq> [] \<and> (\<not> py_space (hd x) \<longrightarrow> hd (collapse x) = hd x)"
  by (cases x) auto

lemma collapse_last: "x \<noteq> [] \<Longrightarrow> \<not> py_space (last x) \<Longrightarrow> last (collapse x) = last x"
proof -
  assume x: "x \<noteq> []" "\<not> py_space (last x)"
  then obtain y c where "x = y @ [c]" "\<not> py_space c" by (cases x rule: rev_cases) auto
  then show ?thesis by (simp add: collapse_append)
qed

lemma trimmed_collapse: "trimmed x \<Longrightarrow> trimmed (collapse x)"
  using collapse_hd [of x] collapse_last [of x] by (cases "x = []") (auto simp: trimmed_def)

lemma trimmed_lower: "trimmed x \<Longrightarrow> trimmed (lower x)"
  by (cases x rule: rev_cases) (auto simp: trimmed_def lower_def hd_append hd_map split: if_splits)

text \<open>White space after a text only adds blanks to what it collapses to.\<close>

lemma collapse_suffix: "\<exists>w. collapse (x @ y) = collapse x @ w"
proof (induction x rule: collapse.induct)
  case (2 c cs)
  show ?case
  proof (cases "py_space c")
    case True
    show ?thesis
    proof (cases "dropWhile py_space cs = []")
      case True
      then show ?thesis using \<open>py_space c\<close> by (simp del: dropWhile_eq_Nil_conv)
    next
      case False
      then have "dropWhile py_space (cs @ y) = dropWhile py_space cs @ y"
        by (auto simp: dropWhile_append dropWhile_eq_Nil_conv)
      with 2(1) [OF True] True show ?thesis by auto
    qed
  next
    case False
    with 2(2) show ?thesis by auto
  qed
qed simp

lemma collapse_infix:
  assumes "trimmed m"
  shows "sublist (collapse m) (collapse (a @ m @ b))"
proof (cases "m = []")
  case False
  then have "collapse (a @ m @ b) = collapse a @ collapse (m @ b)"
    using assms by (intro collapse_append) (simp add: trimmed_def)
  moreover obtain w where "collapse (m @ b) = collapse m @ w" using collapse_suffix by blast
  ultimately show ?thesis by (auto simp: sublist_def)
qed simp

text \<open>A text without white space at its ends is found after the trim when it was there before.\<close>

lemma sublist_behind_spaces:
  assumes "sublist m (a @ s)" and "\<forall>c \<in> set a. py_space c" and "m \<noteq> []" and "\<not> py_space (hd m)"
  shows "sublist m s"
  using assms(1,2)
proof (induction a)
  case (Cons c a)
  from Cons.prems assms(3,4) have "\<not> prefix m (c # a @ s)" by (cases m) auto
  with Cons show ?case by (simp add: sublist_Cons_right)
qed simp

lemma sublist_strip:
  assumes "trimmed m" and "sublist m s"
  shows "sublist m (strip s)"
proof (cases "m = []")
  case False
  with assms(1) have ends: "\<not> py_space (hd m)" "\<not> py_space (hd (rev m))"
    by (simp_all add: trimmed_def hd_rev)
  obtain a b where s: "s = a @ strip s @ b" "\<forall>c \<in> set (a @ b). py_space c" using strip_parts by blast
  then have "sublist m (a @ strip s @ b)" using assms(2) by simp
  then have "sublist m (strip s @ b)"
    by (rule sublist_behind_spaces) (use s(2) False ends in auto)
  then have "sublist (rev m) (rev b @ rev (strip s))" by (metis rev_append sublist_rev)
  then have "sublist (rev m) (rev (strip s))"
    by (rule sublist_behind_spaces) (use s(2) False ends in auto)
  then show ?thesis by simp
qed simp

text \<open>The form both sides of the check bring a piece of text to.\<close>

definition normal_form :: "string \<Rightarrow> string" where "normal_form s = strip (collapse (lower s))"

lemma normal_form_infix:
  assumes "trimmed m"
  shows "sublist (normal_form m) (normal_form (a @ m @ b))"
proof -
  have m: "trimmed (collapse (lower m))" using assms by (intro trimmed_collapse trimmed_lower)
  then have "normal_form m = collapse (lower m)"
    using strip_ends [of "[]" "[]" "collapse (lower m)"] by (simp add: normal_form_def)
  moreover have "sublist (collapse (lower m)) (collapse (lower (a @ m @ b)))"
    unfolding lower_append by (intro collapse_infix trimmed_lower assms)
  ultimately show ?thesis using sublist_strip [OF m] by (simp add: normal_form_def)
qed

text \<open>Text that is added after a text keeps every phrase.\<close>

lemma normal_form_suffix: "sublist (normal_form s) (normal_form (s @ t))"
proof -
  obtain w where "collapse (lower (s @ t)) = collapse (lower s) @ w"
    using collapse_suffix [of "lower s" "lower t"] by (auto simp: lower_append)
  moreover obtain a b where "collapse (lower s) = a @ normal_form s @ b"
    using strip_parts [of "collapse (lower s)"] by (auto simp: normal_form_def)
  ultimately have "sublist (normal_form s) (collapse (lower (s @ t)))" by (auto simp: sublist_def)
  then show ?thesis unfolding normal_form_def by (intro sublist_strip trimmed_strip) 
qed

lemma split_blank_piece:
  "p \<in> set (split_blank acc s) \<Longrightarrow> sublist p (rev acc @ s)"
proof (induction acc s rule: split_blank.induct)
  case (1 acc a b cs)
  show ?case
  proof (cases "a = CHR 0x0A \<and> b = CHR 0x0A")
    case True
    with 1(3) have "p = rev acc \<or> p \<in> set (split_blank [] cs)" by simp
    with 1(1) [OF True] show ?thesis by (auto simp: sublist_def) (metis append.assoc append_Cons append_Nil)
  next
    case False
    with 1 show ?thesis by simp
  qed
qed (auto simp: sublist_def)

section \<open>What fires\<close>

lemma splitlines_from_more: "\<exists>rest. splitlines_from acc (a @ CHR 0x0A # b) = splitlines_from acc a @ rest"
proof (induction acc a rule: splitlines_from.induct)
  case (1 acc)
  have "line_break (CHR 0x0A)" by code_simp
  then show ?case by simp
next
  case (2 acc c cs)
  show ?case
  proof (cases "line_break c")
    case True
    have "(if c = CHR 0x0D then skip_lf (cs @ CHR 0x0A # b) else cs @ CHR 0x0A # b) =
        (if c = CHR 0x0D then skip_lf cs else cs) @ CHR 0x0A # b \<or> c = CHR 0x0D \<and> cs = []"
      by (cases cs) auto
    with 2(1) [OF True] True show ?thesis by auto
  next
    case False
    with 2(2) [OF False] show ?thesis by simp
  qed
qed

lemma join_with_append: "\<exists>w. join_with sep (xs @ ys) = join_with sep xs @ w"
  by (simp add: join_with_def enumerate_append_eq)

lemma drop_comments_more: "\<exists>w. drop_comments (a @ CHR 0x0A # b) = drop_comments a @ w"
proof -
  obtain rest where "splitlines (a @ CHR 0x0A # b) = splitlines a @ rest"
    using splitlines_from_more [of "[]" a b] by (auto simp: splitlines_def)
  then show ?thesis by (simp add: drop_comments_def join_with_append)
qed

lemma phrase_in_snapshot:
  assumes "p \<in> set (load_snapshot_phrases raw)"
  shows "sublist p (normalize raw)"
proof -
  obtain q where q: "q \<in> set (split_blank [] (drop_comments raw))" "p = normal_form (strip q)"
    using assms by (auto simp: load_snapshot_phrases_def Let_def normal_form_def)
  obtain u v where "drop_comments raw = u @ q @ v"
    using split_blank_piece [OF q(1)] by (auto simp: sublist_def)
  moreover obtain a b where "q = a @ strip q @ b" using strip_parts by blast
  ultimately have "drop_comments raw = (u @ a) @ strip q @ (b @ v)" by (metis append.assoc)
  then show ?thesis
    using normal_form_infix [OF trimmed_strip] q(2) by (metis normalize_def normal_form_def)
qed

lemma normalize_more: "sublist (normalize a) (normalize (a @ CHR 0x0A # b))"
proof -
  obtain w where "drop_comments (a @ CHR 0x0A # b) = drop_comments a @ w" using drop_comments_more by blast
  then show ?thesis
    using normal_form_suffix [of "drop_comments a" w] by (simp add: normalize_def normal_form_def)
qed

text \<open>
  Only a claim that disappears fires. The snapshot never drifts against itself, and lines
  added below a page never make a claim go missing, whatever they say: a page that keeps the old
  sentence and contradicts it in the next one passes the check.
\<close>

theorem additions_never_drift:
  "\<not> df_drifted (check_drift raw raw) \<and>
   set (df_missing_phrases (check_drift raw (page @ CHR 0x0A # extra))) \<subseteq> set (df_missing_phrases (check_drift raw page))"
proof
  show "\<not> df_drifted (check_drift raw raw)"
    by (auto simp: check_drift_def Let_def filter_empty_conv phrase_in_snapshot)
  show "set (df_missing_phrases (check_drift raw (page @ CHR 0x0A # extra))) \<subseteq> set (df_missing_phrases (check_drift raw page))"
    using sublist_order.order_trans [OF _ normalize_more] by (auto simp: check_drift_def Let_def)
qed

end
