(* ===== verification/Bootstrap.thy ===== *)
theory Bootstrap
  imports Migrations RetentionDrift ApiProperties
begin

text \<open>
  The first operators (\<open>2026_05_22_0004\<close>, \<open>_bootstrap_founder_operators\<close>): three comma-separated
  environment variables name the founders, who get the role \<open>founder_admin\<close>, which the later
  migration renames to \<open>owner\<close>. The ids of the new rows are given by their position.
\<close>

section \<open>The environment\<close>

text \<open>\<open>s.split(c)\<close>: the second argument is the piece read so far, reversed.\<close>

fun split_char :: "char \<Rightarrow> string \<Rightarrow> string \<Rightarrow> string list" where
  "split_char c acc [] = [rev acc]"
| "split_char c acc (x # xs) = (if x = c then rev acc # split_char c [] xs else split_char c (x # acc) xs)"

definition split_env :: "(string \<Rightarrow> string option) \<Rightarrow> string \<Rightarrow> string list" where
  "split_env environ name =
     (let raw = strip (opt_or (environ name) []) in
      if raw = [] then [] else filter (\<lambda>p. p \<noteq> []) (map strip (split_char CHR '','' [] raw)))"

section \<open>The rows\<close>

datatype bootstrap_error = BootstrapRuntimeError string | BootstrapDatabaseError exn

definition insert_founder ::
  "(nat \<Rightarrow> uuid) \<Rightarrow> (nat \<Rightarrow> string) \<Rightarrow> (nat \<Rightarrow> string) \<Rightarrow> (nat \<Rightarrow> string) \<Rightarrow> timestamp \<Rightarrow> nat \<Rightarrow> db \<Rightarrow> exn + db" where
  "insert_founder ids subject email name now k db =
     (if subject k \<in> op_subject ` set (db_operators db) then Inr db
      else if ids k \<in> op_id ` set (db_operators db) then Inl (UniqueViolation ''operator_pkey'')
      else if sql_lower (email k) \<in> (\<lambda>r. sql_lower (op_email r)) ` set (db_operators db) then
        Inl (UniqueViolation ''uq_operator_email_ci'')
      else Inr (db\<lparr>db_operators := db_operators db @
        [\<lparr>op_id = ids k, op_subject = subject k, op_display_name = name k, op_email = email k,
          op_status = ''active'', op_created_at = now, op_last_seen_at = None\<rparr>]\<rparr>))"

definition insert_founder_role ::
  "(nat \<Rightarrow> uuid) \<Rightarrow> (nat \<Rightarrow> uuid) \<Rightarrow> timestamp \<Rightarrow> nat \<Rightarrow> db \<Rightarrow> exn + db" where
  "insert_founder_role ids role_ids now k db =
     (if role_ids k \<in> ol_id ` set (db_roles db) \<or>
         (\<exists>r \<in> set (db_roles db). ol_operator_id r = ids k \<and> ol_revoked_at r = None) then Inr db
      else if ids k \<notin> op_id ` set (db_operators db) then
        Inl (ForeignKeyViolation ''operator_role_operator_id_fkey'')
      else Inr (db\<lparr>db_roles := db_roles db @
        [\<lparr>ol_id = role_ids k, ol_operator_id = ids k, ol_role = ''founder_admin'', ol_granted_at = now,
          ol_granted_by = ids k, ol_revoked_at = None, ol_revoked_by = None, ol_reason = ''bootstrap''\<rparr>]\<rparr>))"

definition founder_name :: "string list \<Rightarrow> string list \<Rightarrow> nat \<Rightarrow> string" where
  "founder_name emails names k =
     (if names \<noteq> [] then names ! k else fst (str_partition CHR ''@'' (emails ! k)))"

definition bootstrap_founder_operators ::
  "(string \<Rightarrow> string option) \<Rightarrow> (nat \<Rightarrow> uuid) \<Rightarrow> (nat \<Rightarrow> uuid) \<Rightarrow> timestamp \<Rightarrow> db \<Rightarrow> bootstrap_error + db" where
  "bootstrap_founder_operators environ ids role_ids now db =
     (let subjects = split_env environ ''BOOTSTRAP_OPERATOR_SUBJECTS'';
          emails = split_env environ ''BOOTSTRAP_OPERATOR_EMAILS'';
          names = split_env environ ''BOOTSTRAP_OPERATOR_NAMES'' in
      if subjects = [] then Inr db
      else if length emails \<noteq> length subjects \<or> names \<noteq> [] \<and> length names \<noteq> length subjects then
        Inl (BootstrapRuntimeError (''BOOTSTRAP_OPERATOR_* env vars must be parallel '' @
          ''comma-separated lists; lengths disagree.''))
      else (case res_bind
          (fold_res (insert_founder ids (\<lambda>k. subjects ! k) (\<lambda>k. emails ! k) (founder_name emails names) now)
            [0..<length subjects] db)
          (fold_res (insert_founder_role ids role_ids now) [0..<length subjects]) of
        Inl e \<Rightarrow> Inl (BootstrapDatabaseError e)
      | Inr db' \<Rightarrow> Inr db'))"

section \<open>The founders can log in\<close>

definition founder_row ::
  "(nat \<Rightarrow> uuid) \<Rightarrow> (nat \<Rightarrow> string) \<Rightarrow> (nat \<Rightarrow> string) \<Rightarrow> (nat \<Rightarrow> string) \<Rightarrow> timestamp \<Rightarrow> nat \<Rightarrow> operator_row" where
  "founder_row ids subject email name now k =
     \<lparr>op_id = ids k, op_subject = subject k, op_display_name = name k, op_email = email k,
      op_status = ''active'', op_created_at = now, op_last_seen_at = None\<rparr>"

definition founder_role :: "(nat \<Rightarrow> uuid) \<Rightarrow> (nat \<Rightarrow> uuid) \<Rightarrow> timestamp \<Rightarrow> string \<Rightarrow> nat \<Rightarrow> role_row" where
  "founder_role ids role_ids now role k =
     \<lparr>ol_id = role_ids k, ol_operator_id = ids k, ol_role = role, ol_granted_at = now,
      ol_granted_by = ids k, ol_revoked_at = None, ol_revoked_by = None, ol_reason = ''bootstrap''\<rparr>"

lemma inj_fresh: "inj_on f {..<n::nat} \<Longrightarrow> m < n \<Longrightarrow> f m \<notin> f ` {0..<m}"
proof
  assume "inj_on f {..<n}" "m < n" "f m \<in> f ` {0..<m}"
  then obtain k where "k < m" "f m = f k" by auto
  moreover from this(1) \<open>m < n\<close> have "k < n" by simp
  ultimately show False
    using inj_onD [OF \<open>inj_on f {..<n}\<close>, of m k] \<open>m < n\<close> by simp
qed

lemma founders_inserted:
  assumes "db_operators db = []" and "inj_on subject {..<n}" and "inj_on ids {..<n}"
    and "inj_on (\<lambda>k. sql_lower (email k)) {..<n}" and "m \<le> n"
  shows "fold_res (insert_founder ids subject email name now) [0..<m] db =
    Inr (db\<lparr>db_operators := map (founder_row ids subject email name now) [0..<m]\<rparr>)"
  using assms(5)
proof (induction m)
  case 0
  then show ?case using assms(1) by simp
next
  case (Suc m)
  have "subject m \<notin> subject ` {0..<m}" "ids m \<notin> ids ` {0..<m}"
    "sql_lower (email m) \<notin> (\<lambda>k. sql_lower (email k)) ` {0..<m}"
    using assms(2-4) Suc.prems inj_fresh [of _ n m] by simp_all
  then show ?case
    using Suc by (simp add: fold_res_append insert_founder_def founder_row_def image_image)
qed

lemma roles_inserted:
  assumes "db_roles db = []" and "inj_on ids {..<n}" and "inj_on role_ids {..<n}"
    and "\<forall>k < n. ids k \<in> op_id ` set (db_operators db)" and "m \<le> n"
  shows "fold_res (insert_founder_role ids role_ids now) [0..<m] db =
    Inr (db\<lparr>db_roles := map (founder_role ids role_ids now ''founder_admin'') [0..<m]\<rparr>)"
  using assms(5)
proof (induction m)
  case 0
  then show ?case using assms(1) by simp
next
  case (Suc m)
  have "ids m \<notin> ids ` {0..<m}" "role_ids m \<notin> role_ids ` {0..<m}"
    using assms(2,3) Suc.prems inj_fresh [of _ n m] by simp_all
  then have "\<not> (\<exists>k < m. ids k = ids m)" "\<not> (\<exists>k < m. role_ids k = role_ids m)" by (metis atLeastLessThan_iff image_eqI le0)+
  moreover have "ids m \<in> op_id ` set (db_operators db)" using assms(4) Suc.prems by simp
  ultimately have "insert_founder_role ids role_ids now m
      (db\<lparr>db_roles := map (founder_role ids role_ids now ''founder_admin'') [0..<m]\<rparr>) =
    Inr (db\<lparr>db_roles := map (founder_role ids role_ids now ''founder_admin'') [0..<Suc m]\<rparr>)"
    unfolding insert_founder_role_def by (fastforce simp: founder_role_def)
  then show ?case using Suc by (simp add: fold_res_append)
qed

lemma upgraded_founders:
  assumes "db_roles db = map (founder_role ids role_ids now ''founder_admin'') ks"
  shows "upgrade_roles db = Inr (db\<lparr>db_roles := map (founder_role ids role_ids now ''owner'') ks\<rparr>)"
  using assms
  by (simp add: upgrade_roles_def migrate_roles_def Let_def list_all_iff founder_role_def rename_role_def
      NEW_NAMES_def NEW_ROLES_def comp_def)

lemma lookup_map_inj:
  assumes "inj_on (\<lambda>k. key (row k)) {..<n}" and "k < n"
  shows "lookup_by key (key (row k)) (map row [0..<n]) = Some (row k)"
proof -
  have "distinct (map key (map row [0..<n]))"
    using assms(1) by (simp add: distinct_map comp_def atLeast_upt lessThan_atLeast0)
  then show ?thesis using assms(2) by (simp add: lookup_by_Some_iff_distinct)
qed

lemma bootstrapped:
  assumes "split_env environ ''BOOTSTRAP_OPERATOR_SUBJECTS'' = subjects"
    and "split_env environ ''BOOTSTRAP_OPERATOR_EMAILS'' = emails"
    and "split_env environ ''BOOTSTRAP_OPERATOR_NAMES'' = names"
    and "length emails = length subjects" and "names = [] \<or> length names = length subjects"
    and "distinct subjects" and "distinct (map sql_lower emails)" and "inj ids" and "inj role_ids"
    and "db_operators db = []" and "db_roles db = []"
  shows "bootstrap_founder_operators environ ids role_ids t db = Inr (db\<lparr>
     db_operators := map (founder_row ids (\<lambda>k. subjects ! k) (\<lambda>k. emails ! k) (founder_name emails names) t) [0..<length subjects],
     db_roles := map (founder_role ids role_ids t ''founder_admin'') [0..<length subjects]\<rparr>)"
proof (cases "subjects = []")
  case True
  with assms show ?thesis by (simp add: bootstrap_founder_operators_def)
next
  case False
  let ?n = "length subjects"
  let ?db0 = "db\<lparr>db_operators := map (founder_row ids (\<lambda>k. subjects ! k) (\<lambda>k. emails ! k)
    (founder_name emails names) t) [0..<?n]\<rparr>"
  let ?db1 = "?db0\<lparr>db_roles := map (founder_role ids role_ids t ''founder_admin'') [0..<?n]\<rparr>"
  have "inj_on (\<lambda>k. subjects ! k) {..<?n}" using assms(6) by (simp add: inj_on_nth)
  moreover have "inj_on (\<lambda>k. sql_lower (emails ! k)) {..<?n}"
    using inj_on_nth [OF assms(7), of "{..<?n}"] assms(4) by (simp add: inj_on_def)
  moreover have "inj_on ids {..<?n}" "inj_on role_ids {..<?n}"
    using assms(8,9) by (auto intro: inj_on_subset)
  moreover have "\<forall>k < ?n. ids k \<in> op_id ` set (db_operators ?db0)"
    by (auto simp: image_iff founder_row_def)
  ultimately have operators: "fold_res (insert_founder ids (\<lambda>k. subjects ! k) (\<lambda>k. emails ! k) (founder_name emails names) t)
      [0..<?n] db = Inr ?db0" and roles: "fold_res (insert_founder_role ids role_ids t) [0..<?n] ?db0 = Inr ?db1"
    using founders_inserted [OF assms(10), of "\<lambda>k. subjects ! k" ?n ids "\<lambda>k. emails ! k" ?n]
      roles_inserted [of ?db0 ids ?n role_ids ?n] assms(11) by simp_all
  show ?thesis
    unfolding bootstrap_founder_operators_def Let_def assms(1-3) operators
    using False assms(4,5) roles by simp
qed

text \<open>
  The first login: on a database without operators, the bootstrap of distinct subjects and e-mails
  and the later rename of the roles succeed, and then every founder whose token is accepted is an
  owner of every LEA that is not deleted.
\<close>

theorem founders_log_in:
  assumes "split_env environ ''BOOTSTRAP_OPERATOR_SUBJECTS'' = subjects"
    and "split_env environ ''BOOTSTRAP_OPERATOR_EMAILS'' = emails"
    and "split_env environ ''BOOTSTRAP_OPERATOR_NAMES'' = names"
    and "length emails = length subjects" and "names = [] \<or> length names = length subjects"
    and "distinct subjects" and "distinct (map sql_lower emails)" and "inj ids" and "inj role_ids"
    and "db_operators db = []" and "db_roles db = []"
    and "subject \<in> set subjects" and "decode token = Inr claims" and "token \<noteq> []"
    and "token_identity ft claims = (subject, email, name)"
  shows "\<exists>db1 db2 db3 oper. bootstrap_founder_operators environ ids role_ids t db = Inr db1 \<and>
    upgrade_roles db1 = Inr db2 \<and> current_operator ft decode (Some token) i now db2 = (db3, Inr oper) \<and>
    oper_role oper = ''owner'' \<and> (\<forall>l. l \<in> oper_authorized_leas oper \<longleftrightarrow> lea_undeleted db l)"
proof -
  let ?n = "length subjects"
  let ?row = "founder_row ids (\<lambda>k. subjects ! k) (\<lambda>k. emails ! k) (founder_name emails names) t"
  let ?db1 = "db\<lparr>db_operators := map ?row [0..<?n], db_roles := map (founder_role ids role_ids t ''founder_admin'') [0..<?n]\<rparr>"
  let ?db2 = "?db1\<lparr>db_roles := map (founder_role ids role_ids t ''owner'') [0..<?n]\<rparr>"
  have "subject \<noteq> []" using assms(1,12) by (auto simp: split_env_def Let_def split: if_splits)
  have boot: "bootstrap_founder_operators environ ids role_ids t db = Inr ?db1"
    using assms(1-11) by (rule bootstrapped)
  have up: "upgrade_roles ?db1 = Inr ?db2" by (rule upgraded_founders) simp
  obtain k where k: "k < ?n" "subject = subjects ! k" using assms(12) by (metis in_set_conv_nth)
  have "inj_on (\<lambda>k. op_subject (?row k)) {..<?n}" using assms(6) by (simp add: inj_on_nth founder_row_def)
  from lookup_map_inj [where key = op_subject and row = ?row, OF this k(1)] have found:
    "lookup_by op_subject subject (db_operators ?db2) = Some (?row k)" by (simp add: founder_row_def k(2))
  have "op_id \<circ> ?row = ids" "ol_operator_id \<circ> founder_role ids role_ids t ''owner'' = ids"
    by (simp_all add: fun_eq_iff founder_row_def founder_role_def)
  then have owned: "roles_owned ?db2" by (simp add: roles_owned_def image_comp)
  have one: "one_active_role ?db2"
    using assms(8) by (auto simp: one_active_role_def founder_role_def inj_def)
  let ?oper = "\<lparr>oper_id = ids k, oper_subject = subject, oper_email = email, oper_display_name = name,
    oper_role = ''owner'', oper_status = ''active'', oper_authorized_leas = {l. lea_undeleted db l}\<rparr>"
  have role: "load_active_role (op_id (?row k)) ?db2 = Some (oper_role ?oper)"
    unfolding load_active_role_iff [OF one] using k(1) by (auto simp: founder_role_def founder_row_def)
  have "\<exists>db3. current_operator ft decode (Some token) i now ?db2 = (db3, Inr ?oper)"
    unfolding authentication_found [OF owned]
    using assms(13-15) found role \<open>subject \<noteq> []\<close> by (auto simp: founder_row_def lea_undeleted_def)
  with boot up show ?thesis by fastforce
qed

text \<open>
  A subject named twice breaks the bootstrap: the second row is ignored, but the role of its new id
  is inserted all the same, and refers to no operator.
\<close>

definition s_environ :: "string \<Rightarrow> string option" where
  "s_environ name =
     (if name = ''BOOTSTRAP_OPERATOR_SUBJECTS'' then Some ''ada, bo''
      else if name = ''BOOTSTRAP_OPERATOR_EMAILS'' then Some ''ada@x.org,bo@x.org'' else None)"

definition s_twice :: "string \<Rightarrow> string option" where
  "s_twice name =
     (if name = ''BOOTSTRAP_OPERATOR_SUBJECTS'' then Some ''ada,ada''
      else if name = ''BOOTSTRAP_OPERATOR_EMAILS'' then Some ''ada@x.org,ada@x.org'' else None)"

lemma subject_twice_refused:
  "(case bootstrap_founder_operators s_twice (\<lambda>k. k) (\<lambda>k. k) 0 empty_db of
      Inl (BootstrapDatabaseError (ForeignKeyViolation c)) \<Rightarrow> c = ''operator_role_operator_id_fkey'' | _ \<Rightarrow> False)"
  by code_simp

theorem founders_log_in_witness:
  "\<exists>db1 db2 db3 oper. bootstrap_founder_operators s_environ (\<lambda>k. k) (\<lambda>k. k) 0 empty_db = Inr db1 \<and>
    upgrade_roles db1 = Inr db2 \<and>
    current_operator (\<lambda>_. []) (\<lambda>_. Inr [(''sub'', JStr ''bo'')]) (Some ''token'') 7 1 db2 = (db3, Inr oper) \<and>
    oper_role oper = ''owner''"
proof -
  have env: "split_env s_environ ''BOOTSTRAP_OPERATOR_SUBJECTS'' = [''ada'', ''bo'']"
    "split_env s_environ ''BOOTSTRAP_OPERATOR_EMAILS'' = [''ada@x.org'', ''bo@x.org'']"
    "split_env s_environ ''BOOTSTRAP_OPERATOR_NAMES'' = []"
    by code_simp+
  have rest: "distinct (map sql_lower [''ada@x.org'', ''bo@x.org''])" "db_operators empty_db = []" "db_roles empty_db = []"
    by code_simp+
  have identity: "token_identity (\<lambda>_. []) [(''sub'', JStr ''bo'')] = (''bo'', [], ''bo'')" by code_simp
  have ids: "inj (\<lambda>k::nat. k)" by (simp add: inj_def)
  have login: "(\<lambda>_. Inr [(''sub'', JStr ''bo'')]) ''token'' = Inr [(''sub'', JStr ''bo'')]" by simp
  from founders_log_in [where decode = "\<lambda>_. Inr [(''sub'', JStr ''bo'')]" and token = "''token''",
      OF env _ _ _ rest(1) ids ids rest(2,3) _ _ _ identity, of 0 7 1]
  show ?thesis by fastforce
qed

end
