(* ===== verification/Seed.thy ===== *)
theory Seed
  imports Bootstrap
begin

text \<open>
  The seed of the development database (\<open>dev/seed.py\<close>): five LEAs in five operational states, six
  operators, and the rows of sync history around them, written by one transaction of upserts. The
  ids are version 5 UUIDs of a text; the digest is a function of the environment, as is the clock.
  \<open>se_now\<close> is the time the seed reads first, \<open>se_txn\<close> the start of the transaction, which the
  defaults of the tables use, and \<open>se_clock\<close> what the clock says when the cursor of an LEA is
  written.
\<close>

section \<open>Personas, LEAs and ids\<close>

record seeded_lea =
  sl_id :: lea_id
  sl_name :: string
  sl_type :: string
  sl_state :: string
  sl_nces :: "string option"
  sl_note :: string
  sl_status :: string
  sl_timezone :: string
  sl_integration :: "string option"

record seeded_operator =
  sp_subject :: string
  sp_email :: string
  sp_display_name :: string
  sp_role :: string
  sp_leas :: "lea_id list option"

record seed_env =
  se_uuid5 :: "string \<Rightarrow> uuid"
  se_now :: timestamp
  se_txn :: timestamp
  se_clock :: "lea_id \<Rightarrow> timestamp"

definition SEEDED_OPERATORS :: "seeded_operator list" where
  "SEEDED_OPERATORS =
     [\<lparr>sp_subject = ''stephen-dev-001'', sp_email = ''stephen@edlink.test'',
       sp_display_name = ''Stephen Staker'', sp_role = ''owner'', sp_leas = None\<rparr>,
      \<lparr>sp_subject = ''admin-dev-001'', sp_email = ''admin@edlink.test'',
       sp_display_name = ''Admin User'', sp_role = ''owner'', sp_leas = None\<rparr>,
      \<lparr>sp_subject = ''qa-dev-001'', sp_email = ''qa@edlink.test'',
       sp_display_name = ''QA Dev'', sp_role = ''admin'', sp_leas = None\<rparr>,
      \<lparr>sp_subject = ''lakewood-ops-001'', sp_email = ''lakewood@edlink.test'',
       sp_display_name = ''Lakewood Ops'', sp_role = ''operator'', sp_leas = Some [''lea-lakewood-usd'']\<rparr>,
      \<lparr>sp_subject = ''district-ops-001'', sp_email = ''ops@edlink.test'',
       sp_display_name = ''District Ops'', sp_role = ''operator'', sp_leas = Some [''lea-riverside-usd'']\<rparr>,
      \<lparr>sp_subject = ''auditor-001'', sp_email = ''auditor@edlink.test'',
       sp_display_name = ''Read-only Auditor'', sp_role = ''auditor'', sp_leas = None\<rparr>]"

definition SEEDED_LEAS :: "seeded_lea list" where
  "SEEDED_LEAS =
     [\<lparr>sl_id = ''lea-lakewood-usd'', sl_name = ''Lakewood Unified School District'',
       sl_type = ''traditional_district'', sl_state = ''CA'', sl_nces = Some ''0600001'',
       sl_note = ''happy path; full sync history for Layer 5 baseline'',
       sl_status = ''active'', sl_timezone = ''America/Los_Angeles'',
       sl_integration = Some ''edlink-int-lakewood-usd''\<rparr>,
      \<lparr>sl_id = ''lea-northridge-sd'', sl_name = ''Northridge School District'',
       sl_type = ''traditional_district'', sl_state = ''WA'', sl_nces = Some ''5300001'',
       sl_note = ''happy path with one reverted sync in history'',
       sl_status = ''active'', sl_timezone = ''America/Los_Angeles'',
       sl_integration = Some ''edlink-int-northridge-sd''\<rparr>,
      \<lparr>sl_id = ''lea-valley-charter'', sl_name = ''Valley Charter'',
       sl_type = ''charter_lea'', sl_state = ''CA'', sl_nces = Some ''0600002'',
       sl_note = ''latest sync failed; drives sync_failure alert'',
       sl_status = ''active'', sl_timezone = ''America/Los_Angeles'',
       sl_integration = Some ''edlink-int-valley-charter''\<rparr>,
      \<lparr>sl_id = ''lea-hillcrest-usd'', sl_name = ''Hillcrest USD'',
       sl_type = ''charter_lea'', sl_state = ''CA'', sl_nces = Some ''0600003'',
       sl_note = ''quarantine backlog; drives quarantine_growth alert'',
       sl_status = ''onboarding'', sl_timezone = ''America/Los_Angeles'',
       sl_integration = Some ''edlink-int-hillcrest-usd''\<rparr>,
      \<lparr>sl_id = ''lea-riverside-usd'', sl_name = ''Riverside Unified School District'',
       sl_type = ''traditional_district'', sl_state = ''CA'', sl_nces = Some ''0600004'',
       sl_note = ''stale cursor; drives cursor_lag_20_day alert'',
       sl_status = ''active'', sl_timezone = ''America/Los_Angeles'',
       sl_integration = Some ''edlink-int-riverside-usd''\<rparr>]"

definition seed_uuid :: "seed_env \<Rightarrow> string \<Rightarrow> string \<Rightarrow> uuid" where
  "seed_uuid e namespace key = se_uuid5 e (namespace @ '':'' @ key)"

definition minutes_us :: "int \<Rightarrow> int" where
  "minutes_us m = m * 60000000"

section \<open>LEAs\<close>

definition seed_lea_row :: "seeded_lea \<Rightarrow> lea_row" where
  "seed_lea_row s =
     \<lparr>lr_id = sl_id s, lr_name = sl_name s, lr_type = sl_type s, lr_state = sl_state s,
      lr_nces = sl_nces s, lr_status = sl_status s, lr_timezone = sl_timezone s,
      lr_integration = sl_integration s, lr_deleted_at = None\<rparr>"

text \<open>Every column but \<open>deleted_at\<close> is taken from EXCLUDED; the integration id is unique.\<close>

definition merge_seed_lea :: "lea_row \<Rightarrow> lea_row \<Rightarrow> lea_row" where
  "merge_seed_lea old new = new\<lparr>lr_deleted_at := lr_deleted_at old\<rparr>"

definition seed_lea :: "seeded_lea \<Rightarrow> db \<Rightarrow> exn + db" where
  "seed_lea s db =
     (if sl_integration s \<noteq> None \<and>
         (\<exists>r \<in> set (db_leas db). lr_id r \<noteq> sl_id s \<and> lr_integration r = sl_integration s) then
        Inl (UniqueViolation ''uq_leas_edlink_integration_id'')
      else Inr (db\<lparr>db_leas := upsert lr_id merge_seed_lea (seed_lea_row s) (db_leas db)\<rparr>))"

definition seed_leas :: "db \<Rightarrow> exn + db" where
  "seed_leas = fold_res seed_lea SEEDED_LEAS"

section \<open>Canonical rows of an LEA\<close>

text \<open>
  \<open>lea_id.removeprefix("lea-") or lea_id\<close>, \<open>str.upper\<close> and \<open>str.title\<close>, for characters up to
  U+007F.
\<close>

definition lea_suffix :: "lea_id \<Rightarrow> string" where
  "lea_suffix l =
     (let s = (if take 4 l = ''lea-'' then drop 4 l else l) in if s = [] then l else s)"

definition upper_char :: "char \<Rightarrow> char" where
  "upper_char c = (let n = of_char c :: nat in if 97 \<le> n \<and> n \<le> 122 then char_of (n - 32) else c)"

definition is_letter :: "char \<Rightarrow> bool" where
  "is_letter c \<longleftrightarrow> (let n = of_char c :: nat in 65 \<le> n \<and> n \<le> 90 \<or> 97 \<le> n \<and> n \<le> 122)"

fun title_from :: "bool \<Rightarrow> string \<Rightarrow> string" where
  "title_from inside [] = []"
| "title_from inside (c # s) = (if inside then lower_char c else upper_char c) # title_from (is_letter c) s"

definition seed_school_row :: "lea_id \<Rightarrow> school_row" where
  "seed_school_row l =
     (let suffix = lea_suffix l in
      \<lparr>so_id = ''sch-'' @ suffix, so_lea_id = l,
       so_name = title_from False (map (\<lambda>c. if c = CHR ''-'' then CHR '' '' else c) suffix) @ '' Primary'',
       so_code = Some (map upper_char suffix), so_parent = Some l, so_deleted_at = None\<rparr>)"

definition seed_term_row :: "lea_id \<Rightarrow> session_row" where
  "seed_term_row l =
     \<lparr>ac_id = ''term-'' @ lea_suffix l @ ''-2026-fall'', ac_lea_id = l, ac_title = ''Fall 2026'',
      ac_type = Some ''term'', ac_school_year = Some ''2026'',
      ac_start = Some \<lparr>d_year = 2026, d_month = 8, d_day = 15\<rparr>,
      ac_end = Some \<lparr>d_year = 2026, d_month = 12, d_day = 19\<rparr>, ac_deleted_at = None\<rparr>"

definition class_title_for :: "string \<Rightarrow> string" where
  "class_title_for class_id = ''Class '' @ last (split_char CHR ''-'' [] class_id)"

definition seed_class_row :: "lea_id \<Rightarrow> string \<Rightarrow> class_row" where
  "seed_class_row l c =
     \<lparr>cl_id = c, cl_lea_id = l, cl_title = class_title_for c, cl_course_code = Some (map upper_char c),
      cl_school = Some (so_id (seed_school_row l)), cl_term = Some (ac_id (seed_term_row l)),
      cl_deleted_at = None\<rparr>"

definition seed_student_row :: "lea_id \<Rightarrow> string \<times> string \<times> string \<times> string \<Rightarrow> student_row" where
  "seed_student_row l = (\<lambda>(i, given, family, grade).
     \<lparr>sr_id = i, sr_lea_id = l, sr_given_name = given, sr_family_name = family, sr_grade = Some grade,
      sr_preferred = None, sr_school = Some (so_id (seed_school_row l)), sr_external_ids = JObj [],
      sr_deleted_at = None\<rparr>)"

definition seed_enrollment_row :: "lea_id \<Rightarrow> string \<times> string \<times> string \<Rightarrow> enrollment_row" where
  "seed_enrollment_row l = (\<lambda>(i, s, c).
     \<lparr>er_id = i, er_lea_id = l, er_student_id = s, er_class_id = c,
      er_begin = \<lparr>d_year = 2026, d_month = 8, d_day = 15\<rparr>,
      er_end = Some \<lparr>d_year = 2027, d_month = 6, d_day = 12\<rparr>, er_deleted_at = None\<rparr>)"

text \<open>The columns of \<open>DO UPDATE SET\<close>; the ones it does not name keep their value.\<close>

definition merge_seed_school :: "school_row \<Rightarrow> school_row \<Rightarrow> school_row" where
  "merge_seed_school old new = new\<lparr>so_deleted_at := so_deleted_at old\<rparr>"

definition merge_seed_term :: "session_row \<Rightarrow> session_row \<Rightarrow> session_row" where
  "merge_seed_term old new = new\<lparr>ac_deleted_at := ac_deleted_at old\<rparr>"

definition merge_seed_class :: "class_row \<Rightarrow> class_row \<Rightarrow> class_row" where
  "merge_seed_class old new = new\<lparr>cl_deleted_at := cl_deleted_at old\<rparr>"

definition merge_seed_student :: "student_row \<Rightarrow> student_row \<Rightarrow> student_row" where
  "merge_seed_student old new =
     old\<lparr>sr_lea_id := sr_lea_id new, sr_given_name := sr_given_name new,
       sr_family_name := sr_family_name new, sr_grade := sr_grade new, sr_school := sr_school new\<rparr>"

definition merge_seed_enrollment :: "enrollment_row \<Rightarrow> enrollment_row \<Rightarrow> enrollment_row" where
  "merge_seed_enrollment old new =
     old\<lparr>er_lea_id := er_lea_id new, er_student_id := er_student_id new, er_class_id := er_class_id new\<rparr>"

definition seed_school :: "lea_id \<Rightarrow> db \<Rightarrow> exn + db" where
  "seed_school l db =
     (if \<not> lea_exists db l then Inl (ForeignKeyViolation ''schools_lea_id_fkey'')
      else Inr (db\<lparr>db_schools := upsert so_id merge_seed_school (seed_school_row l) (db_schools db)\<rparr>))"

definition seed_term :: "lea_id \<Rightarrow> db \<Rightarrow> exn + db" where
  "seed_term l db =
     (if \<not> lea_exists db l then Inl (ForeignKeyViolation ''academic_sessions_lea_id_fkey'')
      else Inr (db\<lparr>db_sessions := upsert ac_id merge_seed_term (seed_term_row l) (db_sessions db)\<rparr>))"

definition seed_class :: "lea_id \<Rightarrow> string \<Rightarrow> db \<Rightarrow> exn + db" where
  "seed_class l c db =
     (if \<not> lea_exists db l then Inl (ForeignKeyViolation ''classes_lea_id_fkey'')
      else Inr (db\<lparr>db_classes := upsert cl_id merge_seed_class (seed_class_row l c) (db_classes db)\<rparr>))"

text \<open>The loop over the enrollments; the set of the classes seen so far is a list.\<close>

fun seed_enrollments ::
  "lea_id \<Rightarrow> string list \<Rightarrow> (string \<times> string \<times> string) list \<Rightarrow> db \<Rightarrow> exn + db" where
  "seed_enrollments l seen [] db = Inr db"
| "seed_enrollments l seen ((i, s, c) # rest) db =
     res_bind (if c \<in> set seen then Inr db else seed_class l c db) (\<lambda>db.
     res_bind (write_enrollment merge_seed_enrollment (seed_enrollment_row l (i, s, c)) db) (\<lambda>db.
       seed_enrollments l (if c \<in> set seen then seen else c # seen) rest db))"

definition seed_canonical ::
  "lea_id \<Rightarrow> (string \<times> string \<times> string \<times> string) list \<Rightarrow> (string \<times> string \<times> string) list \<Rightarrow> db \<Rightarrow> exn + db" where
  "seed_canonical l students enrollments db =
     res_bind (seed_school l db) (\<lambda>db.
     res_bind (seed_term l db) (\<lambda>db.
     res_bind (fold_res (\<lambda>s. write_student merge_seed_student (seed_student_row l s)) students db) (\<lambda>db.
       seed_enrollments l [] enrollments db)))"

section \<open>Jobs, issues, quarantine and cursors\<close>

definition seed_job ::
  "uuid \<Rightarrow> lea_id \<Rightarrow> string \<Rightarrow> timestamp \<Rightarrow> int \<Rightarrow> string option \<Rightarrow> string option \<Rightarrow> string option \<Rightarrow>
   int \<Rightarrow> int \<Rightarrow> sync_job" where
  "seed_job i l status started_at events cursor_before cursor_after summary errors warnings =
     \<lparr>sj_id = i, sj_lea_id = l, sj_partner = ''edlink'', sj_status = status, sj_started_at = started_at,
      sj_completed_at = (if status \<noteq> ''running'' then Some (started_at + 2000000) else None),
      sj_event_count = events, sj_error_count = errors, sj_warning_count = warnings,
      sj_cursor_before = cursor_before, sj_cursor_after = cursor_after, sj_error_summary = summary\<rparr>"

definition merge_seed_job :: "sync_job \<Rightarrow> sync_job \<Rightarrow> sync_job" where
  "merge_seed_job old new = new\<lparr>sj_lea_id := sj_lea_id old, sj_partner := sj_partner old\<rparr>"

definition write_seed_job :: "sync_job \<Rightarrow> db \<Rightarrow> db" where
  "write_seed_job j db = db\<lparr>db_sync_jobs := upsert sj_id merge_seed_job j (db_sync_jobs db)\<rparr>"

text \<open>
  \<open>ON CONFLICT (id) DO NOTHING\<close>. The table of the model has no id column; the id is the digest of
  job, layer and code, so a row with the same three stands for a row with this id.
\<close>

definition same_issue :: "validation_result \<Rightarrow> uuid \<times> nat \<times> string" where
  "same_issue v = (vr_sync_job_id v, vr_layer v, vr_code v)"

definition write_seed_issue :: "validation_result \<Rightarrow> db \<Rightarrow> exn + db" where
  "write_seed_issue v db =
     (if same_issue v \<notin> same_issue ` set (db_validation_results db) \<and> vr_sync_job_id v \<notin> job_ids db then
        Inl (ForeignKeyViolation ''sync_validation_results_sync_job_id_fkey'')
      else Inr (db\<lparr>db_validation_results :=
        insert_if_absent same_issue v (db_validation_results db)\<rparr>))"

definition write_seed_quarantine :: "quarantine_row \<Rightarrow> db \<Rightarrow> exn + db" where
  "write_seed_quarantine q db =
     (if qr_id q \<notin> qr_id ` set (db_quarantine db) \<and> qr_sync_job_id q \<notin> job_ids db then
        Inl (ForeignKeyViolation ''quarantine_sync_job_id_fkey'')
      else Inr (db\<lparr>db_quarantine := insert_if_absent qr_id q (db_quarantine db)\<rparr>))"

definition seed_cursor_row :: "seed_env \<Rightarrow> lea_id \<Rightarrow> string \<Rightarrow> timestamp \<Rightarrow> timestamp \<Rightarrow> cursor_row" where
  "seed_cursor_row e l event event_at poll_at =
     \<lparr>cs_lea_id = l, cs_partner = ''edlink'', cs_last_event_id = Some event, cs_last_event_at = Some event_at,
      cs_last_poll_at = Some poll_at, cs_cold_start_required = False, cs_updated_at = se_clock e l\<rparr>"

definition merge_seed_cursor :: "cursor_row \<Rightarrow> cursor_row \<Rightarrow> cursor_row" where
  "merge_seed_cursor old new = new\<lparr>cs_cold_start_required := cs_cold_start_required old\<rparr>"

definition upsert_seed_cursor :: "cursor_row \<Rightarrow> db \<Rightarrow> db" where
  "upsert_seed_cursor = write_cursor merge_seed_cursor"

section \<open>The five LEAs\<close>

definition LAKEWOOD :: lea_id where "LAKEWOOD = ''lea-lakewood-usd''"
definition NORTHRIDGE :: lea_id where "NORTHRIDGE = ''lea-northridge-sd''"
definition VALLEY :: lea_id where "VALLEY = ''lea-valley-charter''"
definition HILLCREST :: lea_id where "HILLCREST = ''lea-hillcrest-usd''"
definition RIVERSIDE :: lea_id where "RIVERSIDE = ''lea-riverside-usd''"

definition lakewood_students :: "(string \<times> string \<times> string \<times> string) list" where
  "lakewood_students =
     [(''stu-lkw-001'', ''Aiko'', ''Tanaka'', ''07''), (''stu-lkw-002'', ''Benjamin'', ''Cohen'', ''07''),
      (''stu-lkw-003'', ''Chloe'', ''Wright'', ''08''), (''stu-lkw-004'', ''Diego'', ''Hernandez'', ''08''),
      (''stu-lkw-005'', ''Emma'', ''Patel'', ''06''), (''stu-lkw-006'', ''Felix'', ''Nguyen'', ''06''),
      (''stu-lkw-007'', ''Grace'', ''Kim'', ''07''), (''stu-lkw-008'', ''Henry'', ''Lopez'', ''07'')]"

definition lakewood_enrollments :: "(string \<times> string \<times> string) list" where
  "lakewood_enrollments =
     [(''enr-lkw-001'', ''stu-lkw-001'', ''cls-math-7a''), (''enr-lkw-002'', ''stu-lkw-002'', ''cls-math-7a''),
      (''enr-lkw-003'', ''stu-lkw-003'', ''cls-math-8a''), (''enr-lkw-004'', ''stu-lkw-004'', ''cls-math-8a''),
      (''enr-lkw-005'', ''stu-lkw-007'', ''cls-math-7b''), (''enr-lkw-006'', ''stu-lkw-008'', ''cls-math-7b'')]"

definition lakewood_job :: "seed_env \<Rightarrow> nat \<times> nat \<Rightarrow> sync_job" where
  "lakewood_job e = (\<lambda>(k, n).
     seed_job (seed_uuid e ''lakewood-sync'' (string_of_nat k)) LAKEWOOD ''success''
       (se_now e - hours_us (int k * 24)) (int n)
       (Some (''evt_'' @ pad_digits 5 (1000 + k * n))) (Some (''evt_'' @ pad_digits 5 (1000 + k * n + n)))
       None 0 0)"

definition lakewood_jobs :: "seed_env \<Rightarrow> sync_job list" where
  "lakewood_jobs e = map (lakewood_job e) (enumerate 0 [14, 12, 15, 11, 13])"

definition lakewood_cursor :: "seed_env \<Rightarrow> cursor_row" where
  "lakewood_cursor e =
     seed_cursor_row e LAKEWOOD ''evt_01065'' (se_now e - minutes_us 12) (se_now e - minutes_us 4)"

definition seed_lakewood :: "seed_env \<Rightarrow> db \<Rightarrow> exn + db" where
  "seed_lakewood e db =
     res_bind (seed_canonical LAKEWOOD lakewood_students lakewood_enrollments db) (\<lambda>db.
       Inr (upsert_seed_cursor (lakewood_cursor e) (fold write_seed_job (lakewood_jobs e) db)))"

definition northridge_students :: "(string \<times> string \<times> string \<times> string) list" where
  "northridge_students =
     [(''stu-nrd-001'', ''Iris'', ''Anderson'', ''05''), (''stu-nrd-002'', ''Jamie'', ''Brooks'', ''05''),
      (''stu-nrd-003'', ''Kai'', ''Chen'', ''06''), (''stu-nrd-004'', ''Liam'', ''Davies'', ''06''),
      (''stu-nrd-005'', ''Mira'', ''Singh'', ''07'')]"

definition northridge_enrollments :: "(string \<times> string \<times> string) list" where
  "northridge_enrollments =
     [(''enr-nrd-001'', ''stu-nrd-001'', ''cls-nrd-5a''), (''enr-nrd-002'', ''stu-nrd-002'', ''cls-nrd-5a''),
      (''enr-nrd-003'', ''stu-nrd-003'', ''cls-nrd-6a''), (''enr-nrd-004'', ''stu-nrd-005'', ''cls-nrd-7a'')]"

definition northridge_timeline :: "(string \<times> int \<times> int) list" where
  "northridge_timeline =
     [(''success'', 12, 6), (''success'', 10, 5), (''success'', 8, 4), (''revert'', 0, 3),
      (''success'', 11, 2), (''success'', 9, 1)]"

definition northridge_job :: "seed_env \<Rightarrow> nat \<times> string \<times> int \<times> int \<Rightarrow> sync_job" where
  "northridge_job e = (\<lambda>(k, status, n, hours_ago).
     seed_job (seed_uuid e ''northridge-sync'' (string_of_nat k)) NORTHRIDGE status
       (se_now e - hours_us (hours_ago * 6)) n
       (Some (''evt_nrd_'' @ pad_digits 3 k @ ''_before''))
       (if status = ''success'' then Some (''evt_nrd_'' @ pad_digits 3 k @ ''_after'') else None)
       (if status = ''revert'' then Some ''revert of sync_job earlier-001'' else None) 0 0)"

definition northridge_jobs :: "seed_env \<Rightarrow> sync_job list" where
  "northridge_jobs e = map (northridge_job e) (enumerate 0 northridge_timeline)"

definition northridge_cursor :: "seed_env \<Rightarrow> cursor_row" where
  "northridge_cursor e =
     seed_cursor_row e NORTHRIDGE ''evt_nrd_005_after'' (se_now e - hours_us 5) (se_now e - minutes_us 5)"

definition seed_northridge :: "seed_env \<Rightarrow> db \<Rightarrow> exn + db" where
  "seed_northridge e db =
     res_bind (seed_canonical NORTHRIDGE northridge_students northridge_enrollments db) (\<lambda>db.
       Inr (upsert_seed_cursor (northridge_cursor e) (fold write_seed_job (northridge_jobs e) db)))"

definition valley_students :: "(string \<times> string \<times> string \<times> string) list" where
  "valley_students =
     [(''stu-val-001'', ''Noah'', ''Roberts'', ''09''), (''stu-val-002'', ''Olivia'', ''Sanchez'', ''09''),
      (''stu-val-003'', ''Parker'', ''Thompson'', ''10'')]"

definition valley_enrollments :: "(string \<times> string \<times> string) list" where
  "valley_enrollments =
     [(''enr-val-001'', ''stu-val-001'', ''cls-val-9a''), (''enr-val-002'', ''stu-val-002'', ''cls-val-9a'')]"

definition valley_failed :: "seed_env \<Rightarrow> uuid" where
  "valley_failed e = seed_uuid e ''valley-sync'' ''failed''"

definition valley_jobs :: "seed_env \<Rightarrow> sync_job list" where
  "valley_jobs e =
     [seed_job (seed_uuid e ''valley-sync'' ''ok'') VALLEY ''success'' (se_now e - hours_us 14) 8
        (Some ''evt_val_pre'') (Some ''evt_val_post'') None 0 0,
      seed_job (valley_failed e) VALLEY ''failed'' (se_now e - minutes_us 22) 0
        (Some ''evt_val_post'') None (Some ''L2:SCHEMA_MISSING_FIELD@evt_val_010'') 3 0]"

definition valley_issue :: "seed_env \<Rightarrow> validation_result" where
  "valley_issue e =
     \<lparr>vr_sync_job_id = valley_failed e, vr_layer = 2, vr_code = ''SCHEMA_MISSING_FIELD'',
      vr_payload_reference = Some ''evt_val_010'',
      vr_detail = [(''field'', JStr ''givenName''), (''entity_type'', JStr ''student''),
        (''severity'', JStr ''error'')],
      vr_created_at = se_now e - minutes_us 22\<rparr>"

definition valley_cursor :: "seed_env \<Rightarrow> cursor_row" where
  "valley_cursor e =
     seed_cursor_row e VALLEY ''evt_val_post'' (se_now e - hours_us 14) (se_now e - minutes_us 22)"

definition seed_valley :: "seed_env \<Rightarrow> db \<Rightarrow> exn + db" where
  "seed_valley e db =
     res_bind (seed_canonical VALLEY valley_students valley_enrollments db) (\<lambda>db.
     res_bind (write_seed_issue (valley_issue e) (fold write_seed_job (valley_jobs e) db)) (\<lambda>db.
       Inr (upsert_seed_cursor (valley_cursor e) db)))"

definition hillcrest_students :: "(string \<times> string \<times> string \<times> string) list" where
  "hillcrest_students =
     [(''stu-hcr-001'', ''Quinn'', ''Ortiz'', ''11''), (''stu-hcr-002'', ''Riley'', ''Park'', ''11'')]"

definition hillcrest_enrollments :: "(string \<times> string \<times> string) list" where
  "hillcrest_enrollments =
     [(''enr-hcr-001'', ''stu-hcr-001'', ''cls-hcr-11a''), (''enr-hcr-002'', ''stu-hcr-002'', ''cls-hcr-11a'')]"

definition hillcrest_job_id :: "seed_env \<Rightarrow> uuid" where
  "hillcrest_job_id e = seed_uuid e ''hillcrest-sync'' ''ok''"

definition hillcrest_job :: "seed_env \<Rightarrow> sync_job" where
  "hillcrest_job e =
     seed_job (hillcrest_job_id e) HILLCREST ''success'' (se_now e - hours_us 2) 4
       (Some ''evt_hcr_pre'') (Some ''evt_hcr_post'') None 0 30"

definition hillcrest_orphan :: "seed_env \<Rightarrow> nat \<Rightarrow> quarantine_row" where
  "hillcrest_orphan e k =
     \<lparr>qr_id = seed_uuid e ''hillcrest-quar'' (string_of_nat k), qr_sync_job_id = hillcrest_job_id e,
      qr_lea_id = HILLCREST, qr_entity_type = ''enrollment'',
      qr_entity_id = ''enr-hcr-orph-'' @ pad_digits 3 k,
      qr_reason = ''Layer 4: referential dependency unresolved'',
      qr_raw_payload = JObj [(''id'', JStr (''enr-hcr-orph-'' @ pad_digits 3 k)), (''lea_id'', JStr HILLCREST),
        (''student_id'', JStr (''stu-hcr-missing-'' @ pad_digits 3 k)), (''class_id'', JStr ''cls-hcr-11a''),
        (''begin_date'', JStr (isoformat \<lparr>d_year = 2026, d_month = 8, d_day = 15\<rparr>)), (''end_date'', JNull),
        (''source_event_id'', JStr (''evt_hcr_orph_'' @ pad_digits 3 k))],
      qr_created_at = se_now e - minutes_us (120 - int k), qr_resolved_at = None,
      qr_resolution_status = None, qr_resolution_operator = None\<rparr>"

definition hillcrest_cursor :: "seed_env \<Rightarrow> cursor_row" where
  "hillcrest_cursor e =
     seed_cursor_row e HILLCREST ''evt_hcr_post'' (se_now e - hours_us 2) (se_now e - minutes_us 5)"

definition seed_hillcrest :: "seed_env \<Rightarrow> db \<Rightarrow> exn + db" where
  "seed_hillcrest e db =
     res_bind (seed_canonical HILLCREST hillcrest_students hillcrest_enrollments db) (\<lambda>db.
     res_bind (fold_res (\<lambda>k. write_seed_quarantine (hillcrest_orphan e k)) [0..<30]
         (write_seed_job (hillcrest_job e) db)) (\<lambda>db.
       Inr (upsert_seed_cursor (hillcrest_cursor e) db)))"

definition riverside_students :: "(string \<times> string \<times> string \<times> string) list" where
  "riverside_students =
     [(''stu-rvs-001'', ''Sage'', ''Underwood'', ''03''), (''stu-rvs-002'', ''Theo'', ''Vasquez'', ''03''),
      (''stu-rvs-003'', ''Uma'', ''Walker'', ''04'')]"

definition riverside_enrollments :: "(string \<times> string \<times> string) list" where
  "riverside_enrollments =
     [(''enr-rvs-001'', ''stu-rvs-001'', ''cls-rvs-3a''), (''enr-rvs-002'', ''stu-rvs-002'', ''cls-rvs-3a'')]"

definition riverside_job :: "seed_env \<Rightarrow> sync_job" where
  "riverside_job e =
     seed_job (seed_uuid e ''riverside-sync'' ''last'') RIVERSIDE ''success'' (se_now e - days_us 25) 11
       (Some ''evt_rvs_pre'') (Some ''evt_rvs_post'') None 0 0"

definition riverside_cursor :: "seed_env \<Rightarrow> cursor_row" where
  "riverside_cursor e =
     seed_cursor_row e RIVERSIDE ''evt_rvs_post'' (se_now e - days_us 25) (se_now e - days_us 25)"

text \<open>The upsert of the stale cursor, and the UPDATE after it, which sets the same two columns.\<close>

definition stale_cursor :: "seed_env \<Rightarrow> db \<Rightarrow> db" where
  "stale_cursor e db =
     db\<lparr>db_cursors := update_where (\<lambda>c. cs_lea_id c = RIVERSIDE \<and> cs_partner c = ''edlink'')
       (\<lambda>c. c\<lparr>cs_last_event_at := Some (se_now e - days_us 25), cs_last_poll_at := Some (se_now e - days_us 25)\<rparr>)
       (db_cursors db)\<rparr>"

definition seed_riverside :: "seed_env \<Rightarrow> db \<Rightarrow> exn + db" where
  "seed_riverside e db =
     res_bind (seed_canonical RIVERSIDE riverside_students riverside_enrollments db) (\<lambda>db.
       Inr (stale_cursor e (upsert_seed_cursor (riverside_cursor e) (write_seed_job (riverside_job e) db))))"

section \<open>Sync activity of the last day\<close>

definition activity_leas :: "lea_id list" where
  "activity_leas = [LAKEWOOD, NORTHRIDGE, HILLCREST, VALLEY]"

definition activity_start :: "seed_env \<Rightarrow> nat \<Rightarrow> nat \<Rightarrow> timestamp" where
  "activity_start e k i = se_now e - hours_us 24 + minutes_us (int i * 90) + minutes_us (int k * 20)"

text \<open>The outcome of a slot: status, errors, warnings, events, summary.\<close>

definition activity_outcome :: "nat \<Rightarrow> nat \<Rightarrow> string \<times> int \<times> int \<times> int \<times> string option" where
  "activity_outcome k i =
     (let slot = (k * 16 + i) mod 20 in
      if slot = 17 then (''failed'', 2, 0, 3, Some ''L3:HTTP_INTEGRITY_FAILED@evt_act_err'')
      else if slot \<in> {5, 11, 14} then (''success'', 0, 2, 8 + int (i mod 5), None)
      else (''success'', 0, 0, 10 + int (i mod 7), None))"

definition activity_job :: "seed_env \<Rightarrow> nat \<Rightarrow> nat \<Rightarrow> sync_job" where
  "activity_job e k i =
     (let l = activity_leas ! k; (status, errors, warnings, events, summary) = activity_outcome k i in
      seed_job (seed_uuid e ''activity'' (l @ '':'' @ string_of_nat i)) l status (activity_start e k i) events
        (Some (''evt_act_'' @ pad_digits 2 k @ ''_'' @ pad_digits 2 i @ ''_pre''))
        (if status \<noteq> ''failed'' then Some (''evt_act_'' @ pad_digits 2 k @ ''_'' @ pad_digits 2 i @ ''_post'') else None)
        summary errors warnings)"

text \<open>The inner loop stops at the first start in the future.\<close>

definition activity_jobs :: "seed_env \<Rightarrow> nat \<Rightarrow> sync_job list" where
  "activity_jobs e k = map (activity_job e k) (takeWhile (\<lambda>i. activity_start e k i \<le> se_now e) [0..<16])"

definition seed_sync_activity_history :: "seed_env \<Rightarrow> db \<Rightarrow> exn + db" where
  "seed_sync_activity_history e db =
     Inr (fold (\<lambda>k. fold write_seed_job (activity_jobs e k)) [0..<length activity_leas] db)"

section \<open>Operators, roles, authorizations and grants\<close>

text \<open>\<open>ON CONFLICT (subject) DO UPDATE\<close>: an operator that exists keeps its id.\<close>

definition seed_operator_row :: "seed_env \<Rightarrow> seeded_operator \<Rightarrow> operator_row" where
  "seed_operator_row e s =
     \<lparr>op_id = seed_uuid e ''operator'' (sp_subject s), op_subject = sp_subject s,
      op_display_name = sp_display_name s, op_email = sp_email s, op_status = ''active'',
      op_created_at = se_txn e, op_last_seen_at = None\<rparr>"

definition merge_seed_operator :: "operator_row \<Rightarrow> operator_row \<Rightarrow> operator_row" where
  "merge_seed_operator old new =
     old\<lparr>op_display_name := op_display_name new, op_email := op_email new, op_status := op_status new\<rparr>"

definition upsert_seed_operator :: "operator_row \<Rightarrow> db \<Rightarrow> exn + db" where
  "upsert_seed_operator row db =
     (if op_subject row \<notin> op_subject ` set (db_operators db) \<and> op_id row \<in> op_id ` set (db_operators db) then
        Inl (UniqueViolation ''operator_pkey'')
      else if (\<exists>r \<in> set (db_operators db). op_subject r \<noteq> op_subject row \<and>
          sql_lower (op_email r) = sql_lower (op_email row)) then
        Inl (UniqueViolation ''uq_operator_email_ci'')
      else Inr (db\<lparr>db_operators := upsert op_subject merge_seed_operator row (db_operators db)\<rparr>))"

definition load_operator_ids_by_subject :: "db \<Rightarrow> (string \<times> uuid) list" where
  "load_operator_ids_by_subject db =
     map (\<lambda>r. (op_subject r, op_id r))
       (filter (\<lambda>r. op_subject r \<in> set (map sp_subject SEEDED_OPERATORS)) (db_operators db))"

definition id_of_subject :: "(string \<times> uuid) list \<Rightarrow> string \<Rightarrow> exn + uuid" where
  "id_of_subject ids s = (case map_of ids s of None \<Rightarrow> Inl (KeyError s) | Some i \<Rightarrow> Inr i)"

definition seed_role_row :: "seed_env \<Rightarrow> seeded_operator \<Rightarrow> uuid \<Rightarrow> uuid \<Rightarrow> role_row" where
  "seed_role_row e s operator granted_by =
     \<lparr>ol_id = seed_uuid e ''operator-role'' (sp_subject s @ '':'' @ sp_role s), ol_operator_id = operator,
      ol_role = sp_role s, ol_granted_at = se_txn e, ol_granted_by = granted_by, ol_revoked_at = None,
      ol_revoked_by = None, ol_reason = ''dev seed bootstrap''\<rparr>"

definition merge_seed_role :: "role_row \<Rightarrow> role_row \<Rightarrow> role_row" where
  "merge_seed_role old new =
     old\<lparr>ol_operator_id := ol_operator_id new, ol_role := ol_role new, ol_granted_by := ol_granted_by new,
       ol_reason := ol_reason new, ol_revoked_at := None\<rparr>"

definition upsert_seed_role :: "role_row \<Rightarrow> db \<Rightarrow> exn + db" where
  "upsert_seed_role row db =
     (if (\<exists>r \<in> set (db_roles db). ol_id r \<noteq> ol_id row \<and> ol_operator_id r = ol_operator_id row \<and>
          ol_revoked_at r = None) then Inl (UniqueViolation ''uq_operator_role_active'')
      else if ol_operator_id row \<notin> op_id ` set (db_operators db) then
        Inl (ForeignKeyViolation ''operator_role_operator_id_fkey'')
      else if ol_granted_by row \<notin> op_id ` set (db_operators db) then
        Inl (ForeignKeyViolation ''operator_role_granted_by_fkey'')
      else Inr (db\<lparr>db_roles := upsert ol_id merge_seed_role row (db_roles db)\<rparr>))"

definition seed_role :: "seed_env \<Rightarrow> (string \<times> uuid) list \<Rightarrow> uuid \<Rightarrow> seeded_operator \<Rightarrow> db \<Rightarrow> exn + db" where
  "seed_role e ids bootstrap s db =
     res_bind (id_of_subject ids (sp_subject s)) (\<lambda>operator.
       upsert_seed_role (seed_role_row e s operator (if operator = bootstrap then operator else bootstrap)) db)"

definition seed_operators :: "seed_env \<Rightarrow> db \<Rightarrow> exn + db" where
  "seed_operators e db =
     res_bind (fold_res (\<lambda>s. upsert_seed_operator (seed_operator_row e s)) SEEDED_OPERATORS db) (\<lambda>db.
       let ids = load_operator_ids_by_subject db in
       (case find (\<lambda>s. sp_role s = ''owner'') SEEDED_OPERATORS of
          None \<Rightarrow> Inl AssertionError
        | Some first \<Rightarrow>
            res_bind (id_of_subject ids (sp_subject first)) (\<lambda>bootstrap.
              fold_res (seed_role e ids bootstrap) SEEDED_OPERATORS db)))"

definition seed_authorization_row :: "seed_env \<Rightarrow> uuid \<Rightarrow> lea_id \<Rightarrow> authorization_row" where
  "seed_authorization_row e by l =
     \<lparr>au_id = seed_uuid e ''connector-authz'' (l @ '':edlink''), au_lea_id = l, au_partner = ''edlink'',
      au_status = ''active'', au_authorized_at = Some (se_now e), au_authorized_by = Some by,
      au_revoked_at = None, au_revoked_by = None, au_poll_interval = 300,
      au_notes = Some ''dev seed; edlink mock connector'', au_integration_status = ''active'',
      au_sharing_scope = None, au_status_observed_at = None\<rparr>"

definition merge_seed_authorization :: "authorization_row \<Rightarrow> authorization_row \<Rightarrow> authorization_row" where
  "merge_seed_authorization old new =
     old\<lparr>au_status := au_status new, au_authorized_at := au_authorized_at new,
       au_authorized_by := au_authorized_by new, au_poll_interval := au_poll_interval new,
       au_notes := au_notes new\<rparr>"

text \<open>The update changes no column of the partial unique index, so only a new row can violate it.\<close>

definition upsert_seed_authorization :: "authorization_row \<Rightarrow> db \<Rightarrow> exn + db" where
  "upsert_seed_authorization row db =
     (if au_id row \<notin> au_id ` set (db_authorizations db) \<and>
         (\<exists>a \<in> set (db_authorizations db). live_authorization (au_lea_id row) (au_partner row) a) then
        Inl (UniqueViolation ''uq_connector_authorization_live'')
      else if au_id row \<notin> au_id ` set (db_authorizations db) \<and> \<not> lea_exists db (au_lea_id row) then
        Inl (ForeignKeyViolation ''connector_authorization_lea_id_fkey'')
      else if au_authorized_by row \<noteq> None \<and> the (au_authorized_by row) \<notin> op_id ` set (db_operators db) then
        Inl (ForeignKeyViolation ''connector_authorization_authorized_by_fkey'')
      else Inr (db\<lparr>db_authorizations := upsert au_id merge_seed_authorization row (db_authorizations db)\<rparr>))"

definition seed_connector_authorizations :: "seed_env \<Rightarrow> db \<Rightarrow> exn + db" where
  "seed_connector_authorizations e db =
     res_bind (id_of_subject (load_operator_ids_by_subject db) ''stephen-dev-001'') (\<lambda>by.
       fold_res (\<lambda>s. upsert_seed_authorization (seed_authorization_row e by (sl_id s))) SEEDED_LEAS db)"

definition seed_grant_row :: "seed_env \<Rightarrow> string \<Rightarrow> uuid \<Rightarrow> uuid \<Rightarrow> lea_id \<Rightarrow> grant_row" where
  "seed_grant_row e subject operator by l =
     \<lparr>og_id = seed_uuid e ''operator-lea-grant'' (subject @ '':'' @ l), og_operator_id = operator, og_lea_id = l,
      og_granted_at = se_txn e, og_granted_by = by, og_revoked_at = None, og_revoked_by = None,
      og_reason = ''dev seed: single-LEA operator scope''\<rparr>"

definition merge_seed_grant :: "grant_row \<Rightarrow> grant_row \<Rightarrow> grant_row" where
  "merge_seed_grant old new =
     old\<lparr>og_operator_id := og_operator_id new, og_granted_by := og_granted_by new,
       og_reason := og_reason new, og_revoked_at := None\<rparr>"

definition upsert_seed_grant :: "grant_row \<Rightarrow> db \<Rightarrow> exn + db" where
  "upsert_seed_grant row db =
     (let l = (case lookup_by og_id (og_id row) (db_grants db) of None \<Rightarrow> og_lea_id row | Some old \<Rightarrow> og_lea_id old) in
      if (\<exists>g \<in> set (db_grants db). og_id g \<noteq> og_id row \<and> og_operator_id g = og_operator_id row \<and>
          og_lea_id g = l \<and> og_revoked_at g = None) then Inl (UniqueViolation ''uq_operator_lea_grant_active'')
      else if og_operator_id row \<notin> op_id ` set (db_operators db) then
        Inl (ForeignKeyViolation ''operator_lea_grant_operator_id_fkey'')
      else if og_granted_by row \<notin> op_id ` set (db_operators db) then
        Inl (ForeignKeyViolation ''operator_lea_grant_granted_by_fkey'')
      else if og_id row \<notin> og_id ` set (db_grants db) \<and> \<not> lea_exists db l then
        Inl (ForeignKeyViolation ''operator_lea_grant_lea_id_fkey'')
      else Inr (db\<lparr>db_grants := upsert og_id merge_seed_grant row (db_grants db)\<rparr>))"

definition seed_grants_of :: "seed_env \<Rightarrow> (string \<times> uuid) list \<Rightarrow> uuid \<Rightarrow> seeded_operator \<Rightarrow> db \<Rightarrow> exn + db" where
  "seed_grants_of e ids by s db =
     (if sp_role s \<noteq> ''operator'' \<or> sp_leas s = None then Inr db
      else res_bind (id_of_subject ids (sp_subject s)) (\<lambda>operator.
        fold_res (\<lambda>l. upsert_seed_grant (seed_grant_row e (sp_subject s) operator by l)) (the (sp_leas s)) db))"

definition seed_operator_lea_grants :: "seed_env \<Rightarrow> db \<Rightarrow> exn + db" where
  "seed_operator_lea_grants e db =
     (let ids = load_operator_ids_by_subject db in
      res_bind (id_of_subject ids ''stephen-dev-001'') (\<lambda>by.
        fold_res (seed_grants_of e ids by) SEEDED_OPERATORS db))"

section \<open>Reconciliation runs\<close>

definition lakewood_run :: "seed_env \<Rightarrow> reconciliation_row" where
  "lakewood_run e =
     \<lparr>rr_id = seed_uuid e ''reconciliation'' ''lea-lakewood-usd:matched'', rr_lea_id = LAKEWOOD,
      rr_partner = ''edlink'', rr_started_at = se_now e - hours_us 22,
      rr_completed_at = Some (se_now e - (hours_us 22 - minutes_us 2)), rr_status = ''matched'',
      rr_canonical_root_hash = replicate 64 CHR ''0'', rr_partner_root_hash = Some (replicate 64 CHR ''0''),
      rr_drift_summary = [], rr_error_message = None\<rparr>"

definition northridge_run :: "seed_env \<Rightarrow> reconciliation_row" where
  "northridge_run e =
     \<lparr>rr_id = seed_uuid e ''reconciliation'' ''lea-northridge-sd:drift'', rr_lea_id = NORTHRIDGE,
      rr_partner = ''edlink'', rr_started_at = se_now e - hours_us 10,
      rr_completed_at = Some (se_now e - (hours_us 10 - minutes_us 3)), rr_status = ''drift_detected'',
      rr_canonical_root_hash = replicate 64 CHR ''c'', rr_partner_root_hash = Some (replicate 64 CHR ''d''),
      rr_drift_summary =
        [[(''entity_type'', JStr ''enrollments''),
          (''canonical_only_ids'', JArr [JStr ''enr-nrd-canonical-only-001'']),
          (''partner_only_ids'', JArr [JStr ''enr-nrd-partner-only-001'']),
          (''canonical_mid_hash'', JStr (replicate 64 CHR ''a'')),
          (''partner_mid_hash'', JStr (replicate 64 CHR ''b''))]],
      rr_error_message = None\<rparr>"

definition merge_seed_run :: "reconciliation_row \<Rightarrow> reconciliation_row \<Rightarrow> reconciliation_row" where
  "merge_seed_run old new =
     old\<lparr>rr_started_at := rr_started_at new, rr_completed_at := rr_completed_at new, rr_status := rr_status new\<rparr>"

definition upsert_seed_run :: "reconciliation_row \<Rightarrow> db \<Rightarrow> exn + db" where
  "upsert_seed_run r db =
     (if rr_id r \<notin> rr_id ` set (db_reconciliation_runs db) \<and> \<not> lea_exists db (rr_lea_id r) then
        Inl (ForeignKeyViolation ''reconciliation_runs_lea_id_fkey'')
      else Inr (db\<lparr>db_reconciliation_runs := upsert rr_id merge_seed_run r (db_reconciliation_runs db)\<rparr>))"

definition seed_reconciliation_runs :: "seed_env \<Rightarrow> db \<Rightarrow> exn + db" where
  "seed_reconciliation_runs e db =
     res_bind (upsert_seed_run (lakewood_run e) db) (upsert_seed_run (northridge_run e))"

section \<open>The seed\<close>

definition seed_steps :: "seed_env \<Rightarrow> (db \<Rightarrow> exn + db) list" where
  "seed_steps e =
     [seed_leas, seed_lakewood e, seed_northridge e, seed_valley e, seed_hillcrest e, seed_riverside e,
      seed_sync_activity_history e, seed_operators e, seed_connector_authorizations e,
      seed_operator_lea_grants e, seed_reconciliation_runs e]"

definition seed_realistic_state :: "seed_env \<Rightarrow> db \<Rightarrow> db \<times> (exn + unit)" where
  "seed_realistic_state e =
     transaction (\<lambda>db. res_bind (fold_res (\<lambda>step. step) (seed_steps e) db) (\<lambda>db. Inr ((), db)))"

end
