(* ===== verification/SeedEffect.thy ===== *)
theory SeedEffect
  imports Seed
begin

text \<open>
  The effect of the seed: on every database where its ids and unique columns are not taken by other
  rows each statement succeeds, and the result is every table with the rows of the seed upserted.
  The laws of many upserts are proved once for the interface of a keyed table.
\<close>

section \<open>Upserting many rows\<close>

context keyed_table
begin

text \<open>Rows with distinct keys: the old rows merge with the new row of their key, the others follow.\<close>

lemma upserts_closed:
  assumes "distinct (map key rows)"
  shows "fold (upsert key merge) rows tbl =
    map (\<lambda>x. case lookup_by key (key x) rows of None \<Rightarrow> x | Some n \<Rightarrow> merge x n) tbl @
      filter (\<lambda>n. key n \<notin> key ` set tbl) rows"
  using assms
proof (induction rows arbitrary: tbl)
  case Nil
  then show ?case by (simp add: lookup_by_def)
next
  case (Cons r rows)
  have fresh: "key r \<notin> key ` set rows" using Cons.prems by simp
  have skip: "lookup_by key k (r # rows) = (if k = key r then Some r else lookup_by key k rows)" for k
    by (auto simp: lookup_by_def)
  have none: "lookup_by key (key r) rows = None" using fresh by (simp add: lookup_by_None_iff)
  have keys: "filter (\<lambda>n. key n \<notin> insert (key r) K) rows = filter (\<lambda>n. key n \<notin> K) rows" for K
    using fresh by (intro filter_cong) (auto simp: image_iff)
  note IH = Cons.IH [of "upsert key merge r tbl", unfolded keys_upsert keys]
  show ?case
  proof (cases "key r \<in> key ` set tbl")
    case True
    then show ?thesis
      using Cons.prems IH none
      by (auto simp: upsert_def update_where_def skip key_merge comp_def insert_absorb cong: option.case_cong)
  next
    case False
    then have "map (\<lambda>x. case lookup_by key (key x) rows of None \<Rightarrow> x | Some n \<Rightarrow> merge x n) tbl =
      map (\<lambda>x. case lookup_by key (key x) (r # rows) of None \<Rightarrow> x | Some n \<Rightarrow> merge x n) tbl"
      by (intro map_cong) (auto simp: skip image_iff)
    with False show ?thesis using Cons.prems IH none by (simp add: upsert_def)
  qed
qed

lemma upserts_fresh: "distinct (map key rows) \<Longrightarrow> fold (upsert key merge) rows [] = rows"
  by (simp add: upserts_closed lookup_by_def)

lemma upsert_same_key:
  assumes "r \<in> set (upsert key merge new tbl)" and "key r = key new"
  shows "r = new \<or> (\<exists>x \<in> set tbl. key x = key new \<and> r = merge x new)"
  using assms by (auto simp: upsert_def set_update_where image_iff split: if_splits)

lemma keys_upserts: "key ` set (fold (upsert key merge) rows tbl) = key ` set rows \<union> key ` set tbl"
  by (induction rows arbitrary: tbl) (simp_all add: keys_upsert)

lemma upserts_memD:
  assumes "r \<in> set (fold (upsert key merge) rows tbl)" and "distinct (map key rows)"
  shows "r \<in> set rows \<or> (r \<in> set tbl \<and> key r \<notin> key ` set rows) \<or>
    (\<exists>x \<in> set tbl. \<exists>n \<in> set rows. key x = key n \<and> r = merge x n)"
proof -
  let ?f = "\<lambda>x. case lookup_by key (key x) rows of None \<Rightarrow> x | Some n \<Rightarrow> merge x n"
  from assms(1) consider "r \<in> set rows" | x where "x \<in> set tbl" "r = ?f x"
    unfolding upserts_closed [OF assms(2)] by auto
  then show ?thesis
  proof cases
    case (2 x)
    show ?thesis
    proof (cases "lookup_by key (key x) rows")
      case None
      with 2 show ?thesis by (simp add: lookup_by_None_iff)
    next
      case (Some n)
      with 2 have "n \<in> set rows" "key x = key n" "r = merge x n" by (auto dest: lookup_by_SomeD)
      with 2(1) show ?thesis by blast
    qed
  qed blast
qed

text \<open>A second run with the same keys: what the merge ignores stays, what it takes over is refreshed.\<close>

lemma second_lookup:
  assumes "map key rows1 = map key rows2" and "distinct (map key rows1)"
  shows "lookup_by key k rows1 = None \<and> lookup_by key k rows2 = None \<or>
    (\<exists>i < length rows1. lookup_by key k rows1 = Some (rows1 ! i) \<and> lookup_by key k rows2 = Some (rows2 ! i) \<and>
       key (rows1 ! i) = k)"
proof (cases "k \<in> key ` set rows1")
  case True
  then obtain i where i: "i < length rows1" "key (rows1 ! i) = k" by (auto simp: in_set_conv_nth)
  have len: "length rows2 = length rows1" using assms(1) by (metis length_map)
  have "map key rows1 ! i = map key rows2 ! i" using assms(1) by simp
  with i len have "key (rows2 ! i) = k" by simp
  with i len assms show ?thesis by (auto simp: lookup_by_Some_iff_distinct)
next
  case False
  moreover have "key ` set rows1 = key ` set rows2" using assms(1) by (metis set_map)
  ultimately show ?thesis by (simp add: lookup_by_None_iff)
qed

lemma upserts_stay:
  assumes keys: "map key rows1 = map key rows2" and dist: "distinct (map key rows1)"
    and new: "\<And>i. i < length rows1 \<Longrightarrow> merge (rows1 ! i) (rows2 ! i) = rows1 ! i"
    and old: "\<And>x i. i < length rows1 \<Longrightarrow> merge (merge x (rows1 ! i)) (rows2 ! i) = merge x (rows1 ! i)"
  shows "fold (upsert key merge) rows2 (fold (upsert key merge) rows1 tbl) = fold (upsert key merge) rows1 tbl"
proof -
  let ?g = "\<lambda>x. case lookup_by key (key x) rows2 of None \<Rightarrow> x | Some n \<Rightarrow> merge x n"
  let ?f = "\<lambda>x. case lookup_by key (key x) rows1 of None \<Rightarrow> x | Some n \<Rightarrow> merge x n"
  have dist2: "distinct (map key rows2)" using keys dist by simp
  have key_f: "key (?f x) = key x" for x
    by (auto split: option.splits dest!: lookup_by_SomeD simp: key_merge)
  have "?g (?f x) = ?f x" for x
    using second_lookup [OF keys dist, of "key x"] by (auto simp: key_f old key_merge)
  moreover have "?g r = r" if "r \<in> set rows1" for r
  proof -
    from that obtain i where i: "i < length rows1" "r = rows1 ! i" by (auto simp: in_set_conv_nth)
    have "lookup_by key (key r) rows1 = Some r" using dist that by (simp add: lookup_by_Some_iff_distinct)
    with second_lookup [OF keys dist, of "key r"] obtain j where
      j: "j < length rows1" "r = rows1 ! j" "lookup_by key (key r) rows2 = Some (rows2 ! j)" by auto
    then show ?thesis using new by simp
  qed
  moreover have "filter (\<lambda>n. key n \<notin> key ` set (fold (upsert key merge) rows1 tbl)) rows2 = []"
    using keys by (auto simp: keys_upserts filter_empty_conv) (metis image_eqI set_map)
  ultimately show ?thesis
    unfolding upserts_closed [OF dist2] unfolding upserts_closed [OF dist] by (auto intro!: map_idI)
qed

lemma upserts_refresh:
  assumes keys: "map key rows1 = map key rows2" and dist: "distinct (map key rows1)"
    and new: "\<And>i. i < length rows1 \<Longrightarrow> merge (rows1 ! i) (rows2 ! i) = rows2 ! i"
    and old: "\<And>x i. i < length rows1 \<Longrightarrow> merge (merge x (rows1 ! i)) (rows2 ! i) = merge x (rows2 ! i)"
  shows "fold (upsert key merge) rows2 (fold (upsert key merge) rows1 tbl) = fold (upsert key merge) rows2 tbl"
proof -
  let ?g = "\<lambda>x. case lookup_by key (key x) rows2 of None \<Rightarrow> x | Some n \<Rightarrow> merge x n"
  let ?f = "\<lambda>x. case lookup_by key (key x) rows1 of None \<Rightarrow> x | Some n \<Rightarrow> merge x n"
  let ?fresh = "\<lambda>n. key n \<notin> key ` set tbl"
  have dist2: "distinct (map key rows2)" using keys dist by simp
  have key_f: "key (?f x) = key x" and key_g: "key (?g x) = key x" for x
    by (auto split: option.splits dest!: lookup_by_SomeD simp: key_merge)
  have "?g (?f x) = ?g x" for x
    using second_lookup [OF keys dist, of "key x"] by (auto simp: key_f old key_merge)
  moreover have "map ?g rows1 = rows2"
  proof (rule nth_equalityI)
    show len: "length (map ?g rows1) = length rows2" using keys by (metis length_map)
    fix i assume "i < length (map ?g rows1)"
    then have i: "i < length rows1" "i < length rows2" using len by simp_all
    have "map key rows1 ! i = map key rows2 ! i" using keys by simp
    with i have "key (rows1 ! i) = key (rows2 ! i)" by simp
    then have "lookup_by key (key (rows1 ! i)) rows2 = Some (rows2 ! i)"
      using i dist2 by (simp add: lookup_by_Some_iff_distinct)
    then show "map ?g rows1 ! i = rows2 ! i" using i new by simp
  qed
  then have "map ?g (filter ?fresh rows1) = filter ?fresh rows2"
    using filter_map [of ?fresh ?g rows1] by (simp add: comp_def key_g)
  moreover have "filter (\<lambda>n. key n \<notin> key ` set (fold (upsert key merge) rows1 tbl)) rows2 = []"
    using keys by (auto simp: keys_upserts filter_empty_conv) (metis image_eqI set_map)
  ultimately show ?thesis
    unfolding upserts_closed [OF dist2] unfolding upserts_closed [OF dist] by simp
qed

end

lemma insert_if_absent_upsert: "insert_if_absent key new tbl = upsert key (\<lambda>old _. old) new tbl"
  by (simp add: insert_if_absent_def upsert_def update_where_def)

interpretation seed_leas: keyed_table lr_id merge_seed_lea
  by unfold_locales (simp add: merge_seed_lea_def)

interpretation seed_schools: keyed_table so_id merge_seed_school
  by unfold_locales (simp add: merge_seed_school_def)

interpretation seed_terms: keyed_table ac_id merge_seed_term
  by unfold_locales (simp add: merge_seed_term_def)

interpretation seed_classes: keyed_table cl_id merge_seed_class
  by unfold_locales (simp add: merge_seed_class_def)

interpretation seed_students: keyed_table sr_id merge_seed_student
  by unfold_locales (simp add: merge_seed_student_def)

interpretation seed_enrolled: keyed_table er_id merge_seed_enrollment
  by unfold_locales (simp add: merge_seed_enrollment_def)

interpretation seed_jobs: keyed_table sj_id merge_seed_job
  by unfold_locales (simp add: merge_seed_job_def)

interpretation seed_issues: keyed_table same_issue "\<lambda>old _. old"
  by unfold_locales simp

interpretation seed_orphans: keyed_table qr_id "\<lambda>old _. old"
  by unfold_locales simp

interpretation seed_cursors: keyed_table cursor_key merge_seed_cursor
  by unfold_locales (simp add: merge_seed_cursor_def cursor_key_def)

interpretation seed_ops: keyed_table op_subject merge_seed_operator
  by unfold_locales (simp add: merge_seed_operator_def)

interpretation seed_roles: keyed_table ol_id merge_seed_role
  by unfold_locales (simp add: merge_seed_role_def)

interpretation seed_authz: keyed_table au_id merge_seed_authorization
  by unfold_locales (simp add: merge_seed_authorization_def)

interpretation seed_grants: keyed_table og_id merge_seed_grant
  by unfold_locales (simp add: merge_seed_grant_def)

interpretation seed_runs: keyed_table rr_id merge_seed_run
  by unfold_locales (simp add: merge_seed_run_def)

section \<open>Canonical rows\<close>

text \<open>The LEA that each seeded student belongs to; a database fits when it has them nowhere else.\<close>

definition SEED_STUDENTS :: "(lea_id \<times> (string \<times> string \<times> string \<times> string) list) list" where
  "SEED_STUDENTS =
     [(LAKEWOOD, lakewood_students), (NORTHRIDGE, northridge_students), (VALLEY, valley_students),
      (HILLCREST, hillcrest_students), (RIVERSIDE, riverside_students)]"

definition SEED_ENROLLMENTS :: "(lea_id \<times> (string \<times> string \<times> string) list) list" where
  "SEED_ENROLLMENTS =
     [(LAKEWOOD, lakewood_enrollments), (NORTHRIDGE, northridge_enrollments), (VALLEY, valley_enrollments),
      (HILLCREST, hillcrest_enrollments), (RIVERSIDE, riverside_enrollments)]"

definition student_leas :: "(string \<times> lea_id) list" where
  "student_leas = concat (map (\<lambda>(l, xs). map (\<lambda>s. (fst s, l)) xs) SEED_STUDENTS)"

definition students_fit :: "db \<Rightarrow> bool" where
  "students_fit db \<longleftrightarrow>
     (\<forall>r \<in> set (db_students db). \<forall>l. map_of student_leas (sr_id r) = Some l \<longrightarrow> sr_lea_id r = l)"

text \<open>The classes of a list of enrollments, each at its first occurrence.\<close>

fun new_classes :: "string list \<Rightarrow> (string \<times> string \<times> string) list \<Rightarrow> string list" where
  "new_classes seen [] = []"
| "new_classes seen ((i, s, c) # rest) =
     (if c \<in> set seen then new_classes seen rest else c # new_classes (c # seen) rest)"

text \<open>The rows of an LEA, without the checks.\<close>

definition put_canonical ::
  "lea_id \<Rightarrow> (string \<times> string \<times> string \<times> string) list \<Rightarrow> (string \<times> string \<times> string) list \<Rightarrow> db \<Rightarrow> db" where
  "put_canonical l students enrollments db =
     db\<lparr>db_schools := upsert so_id merge_seed_school (seed_school_row l) (db_schools db),
        db_sessions := upsert ac_id merge_seed_term (seed_term_row l) (db_sessions db),
        db_students := fold (upsert sr_id merge_seed_student) (map (seed_student_row l) students) (db_students db),
        db_classes := fold (upsert cl_id merge_seed_class)
          (map (seed_class_row l) (new_classes [] enrollments)) (db_classes db),
        db_enrollments := fold (upsert er_id merge_seed_enrollment)
          (map (seed_enrollment_row l) enrollments) (db_enrollments db)\<rparr>"

lemma seed_student_row_sel [simp]:
  "sr_id (seed_student_row l s) = fst s" "sr_lea_id (seed_student_row l s) = l"
  by (simp_all add: seed_student_row_def split: prod.splits)

lemma seed_enrollment_row_sel [simp]:
  "er_id (seed_enrollment_row l x) = fst x" "er_lea_id (seed_enrollment_row l x) = l"
  "er_student_id (seed_enrollment_row l x) = fst (snd x)"
  by (simp_all add: seed_enrollment_row_def split: prod.splits)

lemma fit_upsert:
  assumes "\<forall>r \<in> set tbl. \<forall>l. map_of student_leas (sr_id r) = Some l \<longrightarrow> sr_lea_id r = l"
    and "map_of student_leas (fst s) = Some l"
  shows "\<forall>r \<in> set (upsert sr_id merge_seed_student (seed_student_row l s) tbl).
    \<forall>l. map_of student_leas (sr_id r) = Some l \<longrightarrow> sr_lea_id r = l"
  using assms by (auto dest!: seed_students.upsert_memD simp: merge_seed_student_def)

lemma seed_students_effect:
  assumes "lea_exists db l" and "students_fit db" and "\<forall>s \<in> set xs. map_of student_leas (fst s) = Some l"
  shows "fold_res (\<lambda>s. write_student merge_seed_student (seed_student_row l s)) xs db =
      Inr (db\<lparr>db_students := fold (upsert sr_id merge_seed_student) (map (seed_student_row l) xs) (db_students db)\<rparr>) \<and>
    students_fit (db\<lparr>db_students := fold (upsert sr_id merge_seed_student) (map (seed_student_row l) xs) (db_students db)\<rparr>)"
  using assms
proof (induction xs arbitrary: db)
  case (Cons s xs)
  let ?db = "db\<lparr>db_students := upsert sr_id merge_seed_student (seed_student_row l s) (db_students db)\<rparr>"
  have "\<not> student_move_blocked db (seed_student_row l s)"
    using Cons.prems(2,3) by (auto simp: student_move_blocked_def students_fit_def)
  then have "write_student merge_seed_student (seed_student_row l s) db = Inr ?db"
    using Cons.prems(1) by (simp add: write_student_def)
  moreover have "students_fit ?db"
    using fit_upsert [of "db_students db" s l] Cons.prems(2,3) by (simp add: students_fit_def)
  moreover have "lea_exists ?db l" using Cons.prems(1) by (simp add: lea_exists_def)
  ultimately show ?case using Cons.IH [of ?db] Cons.prems(3) by simp
qed simp

lemma seed_enrollments_effect:
  assumes "lea_exists db l" and "\<forall>x \<in> set xs. student_in_lea db l (fst (snd x))"
  shows "seed_enrollments l seen xs db =
    Inr (db\<lparr>db_classes := fold (upsert cl_id merge_seed_class) (map (seed_class_row l) (new_classes seen xs)) (db_classes db),
      db_enrollments := fold (upsert er_id merge_seed_enrollment) (map (seed_enrollment_row l) xs) (db_enrollments db)\<rparr>)"
  using assms
proof (induction l seen xs db rule: seed_enrollments.induct)
  case (2 l seen i s c rest db)
  let ?db1 = "if c \<in> set seen then db else db\<lparr>db_classes := upsert cl_id merge_seed_class (seed_class_row l c) (db_classes db)\<rparr>"
  let ?db2 = "?db1\<lparr>db_enrollments := upsert er_id merge_seed_enrollment (seed_enrollment_row l (i, s, c)) (db_enrollments db)\<rparr>"
  have 1: "(if c \<in> set seen then Inr db else seed_class l c db) = Inr ?db1"
    using 2(2) by (simp add: seed_class_def)
  have 3: "write_enrollment merge_seed_enrollment (seed_enrollment_row l (i, s, c)) ?db1 = Inr ?db2"
    using 2(2,3) by (simp add: write_enrollment_def lea_exists_def student_in_lea_def)
  have "lea_exists ?db2 l" "\<forall>x \<in> set rest. student_in_lea ?db2 l (fst (snd x))"
    using 2(2,3) by (simp_all add: lea_exists_def student_in_lea_def)
  with 2(1) [of ?db2] 1 3 show ?case by simp
qed simp

lemma seed_canonical_effect:
  assumes "lea_exists db l" and "students_fit db" and known: "\<forall>s \<in> set xs. map_of student_leas (fst s) = Some l"
    and "\<forall>x \<in> set ys. fst (snd x) \<in> fst ` set xs"
  shows "seed_canonical l xs ys db = Inr (put_canonical l xs ys db) \<and> students_fit (put_canonical l xs ys db)"
proof -
  let ?db1 = "db\<lparr>db_schools := upsert so_id merge_seed_school (seed_school_row l) (db_schools db),
    db_sessions := upsert ac_id merge_seed_term (seed_term_row l) (db_sessions db)\<rparr>"
  let ?db2 = "?db1\<lparr>db_students := fold (upsert sr_id merge_seed_student) (map (seed_student_row l) xs) (db_students db)\<rparr>"
  have start: "lea_exists ?db1 l" "students_fit ?db1"
    using assms(1,2) by (simp_all add: lea_exists_def students_fit_def)
  have students: "fold_res (\<lambda>s. write_student merge_seed_student (seed_student_row l s)) xs ?db1 = Inr ?db2"
    and fit: "students_fit ?db2"
    using seed_students_effect [OF start known] by simp_all
  have "student_in_lea ?db2 l i" if "i \<in> fst ` set xs" for i
  proof -
    have "i \<in> sr_id ` set (db_students ?db2)"
      using that by (simp add: seed_students.keys_upserts image_image)
    with fit known that show ?thesis by (fastforce simp: students_fit_def student_in_lea_def)
  qed
  then have "\<forall>x \<in> set ys. student_in_lea ?db2 l (fst (snd x))" using assms(4) by simp
  moreover have "lea_exists ?db2 l" using assms(1) by (simp add: lea_exists_def)
  ultimately have "seed_enrollments l [] ys ?db2 = Inr (put_canonical l xs ys db)"
    by (simp add: seed_enrollments_effect put_canonical_def)
  then show ?thesis
    using assms(1) fit students
    by (simp add: seed_canonical_def seed_school_def seed_term_def lea_exists_def students_fit_def put_canonical_def)
qed

lemma seed_students_known:
  "(l, xs) \<in> set SEED_STUDENTS \<Longrightarrow> \<forall>s \<in> set xs. map_of student_leas (fst s) = Some l"
  "(l, xs) \<in> set SEED_STUDENTS \<Longrightarrow> (l, ys) \<in> set SEED_ENROLLMENTS \<Longrightarrow>
     \<forall>x \<in> set ys. fst (snd x) \<in> fst ` set xs"
proof -
  have 1: "\<forall>(l, xs) \<in> set SEED_STUDENTS. \<forall>s \<in> set xs. map_of student_leas (fst s) = Some l"
    by code_simp
  have 2: "\<forall>(l, xs) \<in> set SEED_STUDENTS. \<forall>(l', ys) \<in> set SEED_ENROLLMENTS. l = l' \<longrightarrow>
      (\<forall>x \<in> set ys. fst (snd x) \<in> fst ` set xs)"
    by code_simp
  show "(l, xs) \<in> set SEED_STUDENTS \<Longrightarrow> \<forall>s \<in> set xs. map_of student_leas (fst s) = Some l" using 1 by auto
  show "(l, xs) \<in> set SEED_STUDENTS \<Longrightarrow> (l, ys) \<in> set SEED_ENROLLMENTS \<Longrightarrow>
     \<forall>x \<in> set ys. fst (snd x) \<in> fst ` set xs" using 2 by fastforce
qed

section \<open>Loops that never raise\<close>

lemma fold_res_pure:
  assumes "P s" and "\<And>x s. x \<in> set xs \<Longrightarrow> P s \<Longrightarrow> f x s = Inr (g x s) \<and> P (g x s)"
  shows "fold_res f xs s = Inr (fold g xs s) \<and> P (fold g xs s)"
  using assms
proof (induction xs arbitrary: s)
  case (Cons x xs)
  then have "f x s = Inr (g x s)" "P (g x s)" by simp_all
  with Cons show ?case by simp
qed simp

lemma fold_tables:
  "fold (\<lambda>x db. db\<lparr>db_leas := upsert lr_id merge_seed_lea (f1 x) (db_leas db)\<rparr>) xs db =
     db\<lparr>db_leas := fold (upsert lr_id merge_seed_lea) (map f1 xs) (db_leas db)\<rparr>"
  "fold write_seed_job js db = db\<lparr>db_sync_jobs := fold (upsert sj_id merge_seed_job) js (db_sync_jobs db)\<rparr>"
  "fold (\<lambda>x db. db\<lparr>db_quarantine := insert_if_absent qr_id (f2 x) (db_quarantine db)\<rparr>) ys db =
     db\<lparr>db_quarantine := fold (upsert qr_id (\<lambda>old _. old)) (map f2 ys) (db_quarantine db)\<rparr>"
  "fold (\<lambda>x db. db\<lparr>db_operators := upsert op_subject merge_seed_operator (f3 x) (db_operators db)\<rparr>) zs db =
     db\<lparr>db_operators := fold (upsert op_subject merge_seed_operator) (map f3 zs) (db_operators db)\<rparr>"
  "fold (\<lambda>x db. db\<lparr>db_roles := upsert ol_id merge_seed_role (f4 x) (db_roles db)\<rparr>) zs db =
     db\<lparr>db_roles := fold (upsert ol_id merge_seed_role) (map f4 zs) (db_roles db)\<rparr>"
  "fold (\<lambda>x db. db\<lparr>db_authorizations := upsert au_id merge_seed_authorization (f5 x) (db_authorizations db)\<rparr>) xs db =
     db\<lparr>db_authorizations := fold (upsert au_id merge_seed_authorization) (map f5 xs) (db_authorizations db)\<rparr>"
  by (induction xs arbitrary: db, simp_all) [1]
    (induction js arbitrary: db, simp_all add: write_seed_job_def,
     induction ys arbitrary: db, simp_all add: insert_if_absent_upsert,
     induction zs arbitrary: db, simp_all,
     induction zs arbitrary: db, simp_all,
     induction xs arbitrary: db, simp_all)

section \<open>LEAs, operators and what hangs on them\<close>

definition leas_free :: "db \<Rightarrow> bool" where
  "leas_free db \<longleftrightarrow>
     (\<forall>s \<in> set SEEDED_LEAS. \<forall>r \<in> set (db_leas db). lr_integration r = sl_integration s \<longrightarrow> lr_id r = sl_id s)"

definition operators_free :: "seed_env \<Rightarrow> db \<Rightarrow> bool" where
  "operators_free e db \<longleftrightarrow>
     distinct (map op_id (db_operators db)) \<and> distinct (map op_subject (db_operators db)) \<and>
     (\<forall>s \<in> set SEEDED_OPERATORS. \<forall>r \<in> set (db_operators db).
        op_id r = op_id (seed_operator_row e s) \<or> sql_lower (op_email r) = sql_lower (sp_email s) \<longrightarrow>
        op_subject r = sp_subject s)"

definition role_id :: "seed_env \<Rightarrow> seeded_operator \<Rightarrow> uuid" where
  "role_id e s = seed_uuid e ''operator-role'' (sp_subject s @ '':'' @ sp_role s)"

definition roles_free :: "seed_env \<Rightarrow> db \<Rightarrow> bool" where
  "roles_free e db \<longleftrightarrow>
     (\<forall>r \<in> set (db_roles db). ol_revoked_at r = None \<longrightarrow> ol_operator_id r \<in> op_id ` set (db_operators db)) \<and>
     (\<forall>s \<in> set SEEDED_OPERATORS. \<forall>p \<in> set (db_operators db). \<forall>r \<in> set (db_roles db).
        op_subject p = sp_subject s \<and> ol_operator_id r = op_id p \<and> ol_revoked_at r = None \<longrightarrow>
        ol_id r = role_id e s)"

definition grant_id :: "seed_env \<Rightarrow> string \<Rightarrow> lea_id \<Rightarrow> uuid" where
  "grant_id e subject l = seed_uuid e ''operator-lea-grant'' (subject @ '':'' @ l)"

definition seeded_grants :: "(string \<times> lea_id) list" where
  "seeded_grants = [(''lakewood-ops-001'', ''lea-lakewood-usd''), (''district-ops-001'', ''lea-riverside-usd'')]"

definition grants_free :: "seed_env \<Rightarrow> db \<Rightarrow> bool" where
  "grants_free e db \<longleftrightarrow>
     (\<forall>g \<in> set (db_grants db). og_revoked_at g = None \<longrightarrow> og_operator_id g \<in> op_id ` set (db_operators db)) \<and>
     (\<forall>(s, l) \<in> set seeded_grants. \<forall>g \<in> set (db_grants db). og_id g = grant_id e s l \<longrightarrow> og_lea_id g = l) \<and>
     (\<forall>(s, l) \<in> set seeded_grants. \<forall>p \<in> set (db_operators db). \<forall>g \<in> set (db_grants db).
        op_subject p = s \<and> og_operator_id g = op_id p \<and> og_lea_id g = l \<and> og_revoked_at g = None \<longrightarrow>
        og_id g = grant_id e s l)"

lemma grants_freeI:
  assumes "\<And>g. g \<in> set (db_grants db) \<Longrightarrow> og_revoked_at g = None \<Longrightarrow> og_operator_id g \<in> op_id ` set (db_operators db)"
    and "\<And>s l g. (s, l) \<in> set seeded_grants \<Longrightarrow> g \<in> set (db_grants db) \<Longrightarrow> og_id g = grant_id e s l \<Longrightarrow> og_lea_id g = l"
    and "\<And>s l p g. (s, l) \<in> set seeded_grants \<Longrightarrow> p \<in> set (db_operators db) \<Longrightarrow> g \<in> set (db_grants db) \<Longrightarrow>
      op_subject p = s \<Longrightarrow> og_operator_id g = op_id p \<Longrightarrow> og_lea_id g = l \<Longrightarrow> og_revoked_at g = None \<Longrightarrow>
      og_id g = grant_id e s l"
  shows "grants_free e db"
  using assms unfolding grants_free_def by blast

definition authorizations_free :: "seed_env \<Rightarrow> db \<Rightarrow> bool" where
  "authorizations_free e db \<longleftrightarrow>
     (\<forall>s \<in> set SEEDED_LEAS. \<forall>a \<in> set (db_authorizations db). live_authorization (sl_id s) ''edlink'' a \<longrightarrow>
        au_id a = seed_uuid e ''connector-authz'' (sl_id s @ '':edlink''))"

text \<open>Nothing but the seed's own rows is in its way.\<close>

definition seed_ready :: "seed_env \<Rightarrow> db \<Rightarrow> bool" where
  "seed_ready e db \<longleftrightarrow> leas_free db \<and> students_fit db \<and> operators_free e db \<and> roles_free e db \<and>
     grants_free e db \<and> authorizations_free e db"

lemma integration_lea:
  "s \<in> set SEEDED_LEAS \<Longrightarrow> s' \<in> set SEEDED_LEAS \<Longrightarrow> sl_integration s = sl_integration s' \<Longrightarrow> sl_id s = sl_id s'"
proof -
  have "\<forall>s \<in> set SEEDED_LEAS. \<forall>s' \<in> set SEEDED_LEAS. sl_integration s = sl_integration s' \<longrightarrow> sl_id s = sl_id s'"
    by code_simp
  then show "s \<in> set SEEDED_LEAS \<Longrightarrow> s' \<in> set SEEDED_LEAS \<Longrightarrow> sl_integration s = sl_integration s' \<Longrightarrow>
    sl_id s = sl_id s'" by blast
qed

lemma seed_leas_effect:
  assumes "leas_free db"
  shows "seed_leas db = Inr (db\<lparr>db_leas := fold (upsert lr_id merge_seed_lea) (map seed_lea_row SEEDED_LEAS) (db_leas db)\<rparr>) \<and>
    leas_free (db\<lparr>db_leas := fold (upsert lr_id merge_seed_lea) (map seed_lea_row SEEDED_LEAS) (db_leas db)\<rparr>)"
proof -
  let ?g = "\<lambda>s db. db\<lparr>db_leas := upsert lr_id merge_seed_lea (seed_lea_row s) (db_leas db)\<rparr>"
  have "fold_res seed_lea SEEDED_LEAS db = Inr (fold ?g SEEDED_LEAS db) \<and> leas_free (fold ?g SEEDED_LEAS db)"
  proof (rule fold_res_pure [where P = leas_free])
    fix s db assume s: "s \<in> set SEEDED_LEAS" and free: "leas_free db"
    have "lr_id r = sl_id s'"
      if "r \<in> set (db_leas (?g s db))" "s' \<in> set SEEDED_LEAS" "lr_integration r = sl_integration s'" for r s'
      using that(1) seed_leas.upsert_memD [of r "seed_lea_row s" "db_leas db"] free s that(2,3)
        integration_lea [OF s that(2)]
      by (auto simp: leas_free_def seed_lea_row_def merge_seed_lea_def)
    moreover have "seed_lea s db = Inr (?g s db)"
      using free s by (auto simp: seed_lea_def leas_free_def)
    ultimately show "seed_lea s db = Inr (?g s db) \<and> leas_free (?g s db)"
      unfolding leas_free_def by blast
  qed (rule assms)
  then show ?thesis by (simp add: seed_leas_def fold_tables)
qed

text \<open>The ids the seed computes do not collide within a table.\<close>

definition seed_activity :: "seed_env \<Rightarrow> sync_job list" where
  "seed_activity e = concat (map (activity_jobs e) [0..<4])"

definition seed_orphans :: "seed_env \<Rightarrow> quarantine_row list" where
  "seed_orphans e = map (hillcrest_orphan e) [0..<30]"

definition seed_jobs :: "seed_env \<Rightarrow> sync_job list" where
  "seed_jobs e = lakewood_jobs e @ northridge_jobs e @ valley_jobs e @ [hillcrest_job e, riverside_job e] @
     seed_activity e"

definition seed_ids_ok :: "seed_env \<Rightarrow> bool" where
  "seed_ids_ok e \<longleftrightarrow>
     distinct (map sj_id (seed_jobs e)) \<and>
     distinct (map qr_id (seed_orphans e)) \<and>
     distinct (map (\<lambda>s. op_id (seed_operator_row e s)) SEEDED_OPERATORS) \<and>
     distinct (map (role_id e) SEEDED_OPERATORS) \<and>
     distinct (map (\<lambda>s. seed_uuid e ''connector-authz'' (sl_id s @ '':edlink'')) SEEDED_LEAS) \<and>
     distinct (map (\<lambda>(s, l). grant_id e s l) seeded_grants) \<and>
     rr_id (lakewood_run e) \<noteq> rr_id (northridge_run e)"

lemma seeded_subjects: "distinct (map sp_subject SEEDED_OPERATORS)"
  and seeded_emails: "distinct (map (\<lambda>s. sql_lower (sp_email s)) SEEDED_OPERATORS)"
  by code_simp+

lemma distinct_map_same: "distinct (map f xs) \<Longrightarrow> x \<in> set xs \<Longrightarrow> y \<in> set xs \<Longrightarrow> f x = f y \<Longrightarrow> x = y"
  by (simp add: distinct_map inj_on_def)

abbreviation put_operator :: "seed_env \<Rightarrow> seeded_operator \<Rightarrow> db \<Rightarrow> db" where
  "put_operator e s db \<equiv> db\<lparr>db_operators :=
     upsert op_subject merge_seed_operator (seed_operator_row e s) (db_operators db)\<rparr>"

lemma seed_operator_row_sel [simp]:
  "op_subject (seed_operator_row e s) = sp_subject s" "op_email (seed_operator_row e s) = sp_email s"
  by (simp_all add: seed_operator_row_def)

text \<open>An operator of the table keeps its id and subject; a new one has an id nobody had.\<close>

lemma new_operator_id:
  assumes "operators_free e db" and "s \<in> set SEEDED_OPERATORS"
    and "sp_subject s \<notin> op_subject ` set (db_operators db)"
  shows "op_id (seed_operator_row e s) \<notin> op_id ` set (db_operators db)"
proof
  assume "op_id (seed_operator_row e s) \<in> op_id ` set (db_operators db)"
  then obtain r where "r \<in> set (db_operators db)" "op_id r = op_id (seed_operator_row e s)" by auto
  with assms(1,2) have "op_subject r = sp_subject s" by (simp add: operators_free_def)
  with \<open>r \<in> set (db_operators db)\<close> assms(3) show False by force
qed

lemma map_op_id_put:
  "map op_id (db_operators (put_operator e s db)) = map op_id (db_operators db) @
     (if sp_subject s \<in> op_subject ` set (db_operators db) then [] else [op_id (seed_operator_row e s)])"
proof -
  have "map op_id (update_where (\<lambda>r. op_subject r = sp_subject s)
      (\<lambda>old. merge_seed_operator old (seed_operator_row e s)) (db_operators db)) = map op_id (db_operators db)"
    by (rule map_update_where) (simp add: merge_seed_operator_def)
  then show ?thesis by (simp add: upsert_def)
qed

lemma put_operator_memD:
  assumes "r \<in> set (db_operators (put_operator e s db))"
  shows "(\<exists>x \<in> set (db_operators db). op_id x = op_id r \<and> op_subject x = op_subject r) \<or>
    sp_subject s \<notin> op_subject ` set (db_operators db) \<and> r = seed_operator_row e s"
  using assms by (force simp: upsert_def set_update_where merge_seed_operator_def split: if_splits)

lemma put_operator_free:
  assumes free: "operators_free e db" and s: "s \<in> set SEEDED_OPERATORS" and ids: "seed_ids_ok e"
  shows "operators_free e (put_operator e s db)"
  unfolding operators_free_def
proof (intro conjI ballI impI)
  show "distinct (map op_id (db_operators (put_operator e s db)))"
    unfolding map_op_id_put using free new_operator_id [OF free s] by (simp add: operators_free_def)
  show "distinct (map op_subject (db_operators (put_operator e s db)))"
    using free by (simp add: operators_free_def seed_ops.distinct_upsert)
  fix s' r
  assume s': "s' \<in> set SEEDED_OPERATORS" and r: "r \<in> set (db_operators (put_operator e s db))"
    and same: "op_id r = op_id (seed_operator_row e s') \<or> sql_lower (op_email r) = sql_lower (sp_email s')"
  have uids: "op_id (seed_operator_row e s) = op_id (seed_operator_row e s') \<Longrightarrow> s = s'"
    using distinct_map_same [OF _ s s', of "\<lambda>s. op_id (seed_operator_row e s)"] ids by (simp add: seed_ids_ok_def)
  have mails: "sql_lower (sp_email s) = sql_lower (sp_email s') \<Longrightarrow> s = s'"
    using distinct_map_same [OF seeded_emails s s'] .
  show "op_subject r = sp_subject s'"
    using seed_ops.upsert_memD [of r "seed_operator_row e s" "db_operators db"] r same free s' uids mails
    unfolding operators_free_def by (auto simp: merge_seed_operator_def)
qed

lemma put_operator_effect:
  assumes free: "operators_free e db" and s: "s \<in> set SEEDED_OPERATORS"
  shows "upsert_seed_operator (seed_operator_row e s) db = Inr (put_operator e s db)"
proof -
  have "op_subject r = sp_subject s" if "r \<in> set (db_operators db)" "sql_lower (op_email r) = sql_lower (sp_email s)" for r
    using that free s by (simp add: operators_free_def)
  then show ?thesis using new_operator_id [OF assms] by (auto simp: upsert_seed_operator_def)
qed

lemma put_operator_roles:
  assumes free: "operators_free e db" and s: "s \<in> set SEEDED_OPERATORS" and roles: "roles_free e db"
  shows "roles_free e (put_operator e s db)"
  unfolding roles_free_def
proof (intro conjI ballI impI)
  fix r assume "r \<in> set (db_roles (put_operator e s db))" "ol_revoked_at r = None"
  then have "ol_operator_id r \<in> set (map op_id (db_operators db))" using roles by (simp add: roles_free_def)
  then show "ol_operator_id r \<in> op_id ` set (db_operators (put_operator e s db))"
    using arg_cong [OF map_op_id_put, of set e s db] by simp
next
  fix s' p r
  assume s': "s' \<in> set SEEDED_OPERATORS" and p: "p \<in> set (db_operators (put_operator e s db))"
    and r: "r \<in> set (db_roles (put_operator e s db))"
    and own: "op_subject p = sp_subject s' \<and> ol_operator_id r = op_id p \<and> ol_revoked_at r = None"
  from r have "r \<in> set (db_roles db)" by simp
  with own roles have "ol_operator_id r \<in> op_id ` set (db_operators db)" unfolding roles_free_def by blast
  with put_operator_memD [OF p] own new_operator_id [OF free s]
  obtain x where "x \<in> set (db_operators db)" "op_id x = op_id p" "op_subject x = op_subject p" by auto
  with roles s' r own show "ol_id r = role_id e s'" by (auto simp: roles_free_def)
qed

lemma put_operator_grants:
  assumes free: "operators_free e db" and s: "s \<in> set SEEDED_OPERATORS" and grants: "grants_free e db"
  shows "grants_free e (put_operator e s db)"
proof -
  have "og_operator_id g \<in> op_id ` set (db_operators (put_operator e s db))"
    if "g \<in> set (db_grants db)" "og_revoked_at g = None" for g
  proof -
    have "og_operator_id g \<in> set (map op_id (db_operators db))" using that grants by (simp add: grants_free_def)
    then show ?thesis using arg_cong [OF map_op_id_put, of set e s db] by simp
  qed
  moreover have "og_id g = grant_id e u l"
    if "(u, l) \<in> set seeded_grants" "p \<in> set (db_operators (put_operator e s db))" "g \<in> set (db_grants db)"
      "op_subject p = u" "og_operator_id g = op_id p" "og_lea_id g = l" "og_revoked_at g = None" for u l p g
  proof -
    from that grants have "og_operator_id g \<in> op_id ` set (db_operators db)" unfolding grants_free_def by blast
    with put_operator_memD [OF that(2)] that(5) new_operator_id [OF free s]
    obtain x where "x \<in> set (db_operators db)" "op_id x = op_id p" "op_subject x = op_subject p" by auto
    with grants that show ?thesis by (auto simp: grants_free_def)
  qed
  ultimately show ?thesis using grants by (auto simp: grants_free_def)
qed

text \<open>The ids read back by subject.\<close>

definition operator_id :: "db \<Rightarrow> string \<Rightarrow> uuid" where
  "operator_id db s = the (map_of (load_operator_ids_by_subject db) s)"

definition subjects_loaded :: "db \<Rightarrow> bool" where
  "subjects_loaded db \<longleftrightarrow> sp_subject ` set SEEDED_OPERATORS \<subseteq> op_subject ` set (db_operators db)"

lemma operator_id_same: "db_operators b = db_operators a \<Longrightarrow> operator_id b = operator_id a"
  by (simp add: operator_id_def load_operator_ids_by_subject_def fun_eq_iff)

lemma loaded_operator:
  assumes free: "operators_free e db" and "subjects_loaded db" and s: "s \<in> set SEEDED_OPERATORS"
  shows "id_of_subject (load_operator_ids_by_subject db) (sp_subject s) = Inr (operator_id db (sp_subject s)) \<and>
    (\<exists>p \<in> set (db_operators db). op_subject p = sp_subject s \<and> op_id p = operator_id db (sp_subject s))"
proof -
  have "sp_subject s \<in> op_subject ` set (db_operators db)" using assms(2) s unfolding subjects_loaded_def by blast
  then obtain p where p: "p \<in> set (db_operators db)" "op_subject p = sp_subject s" by auto
  have "distinct (map op_subject (db_operators db))" using free by (simp add: operators_free_def)
  then have "distinct (map fst (load_operator_ids_by_subject db))"
    by (simp add: load_operator_ids_by_subject_def comp_def distinct_map inj_on_def)
  moreover have "(sp_subject s, op_id p) \<in> set (load_operator_ids_by_subject db)"
    using p s by (auto simp: load_operator_ids_by_subject_def intro!: image_eqI [of _ _ p])
  ultimately have "map_of (load_operator_ids_by_subject db) (sp_subject s) = Some (op_id p)"
    by (rule map_of_is_SomeI)
  with p show ?thesis by (auto simp: id_of_subject_def operator_id_def)
qed

lemma operator_of_id:
  assumes free: "operators_free e db" and "subjects_loaded db" and s: "s \<in> set SEEDED_OPERATORS"
    and "p \<in> set (db_operators db)" and "op_id p = operator_id db (sp_subject s)"
  shows "op_subject p = sp_subject s"
proof -
  from loaded_operator [OF assms(1-3)] obtain x where
    "x \<in> set (db_operators db)" "op_subject x = sp_subject s" "op_id x = operator_id db (sp_subject s)" by blast
  moreover have "distinct (map op_id (db_operators db))" using free by (simp add: operators_free_def)
  ultimately have "x = p" using assms(4,5) distinct_map_same [of op_id "db_operators db" x p] by simp
  with \<open>op_subject x = sp_subject s\<close> show ?thesis by simp
qed

section \<open>Roles, authorizations, grants and runs\<close>

definition put_role :: "seed_env \<Rightarrow> db \<Rightarrow> seeded_operator \<Rightarrow> role_row" where
  "put_role e db s =
     seed_role_row e s (operator_id db (sp_subject s)) (operator_id db ''stephen-dev-001'')"

lemma put_role_sel [simp]:
  "ol_id (put_role e db s) = role_id e s" "ol_operator_id (put_role e db s) = operator_id db (sp_subject s)"
  "ol_granted_by (put_role e db s) = operator_id db ''stephen-dev-001''" "ol_revoked_at (put_role e db s) = None"
  by (simp_all add: put_role_def seed_role_row_def role_id_def)

lemma first_owner: "find (\<lambda>s. sp_role s = ''owner'') SEEDED_OPERATORS = Some (hd SEEDED_OPERATORS)"
  "sp_subject (hd SEEDED_OPERATORS) = ''stephen-dev-001''" "hd SEEDED_OPERATORS \<in> set SEEDED_OPERATORS"
  by (simp_all add: SEEDED_OPERATORS_def)

lemma role_step:
  assumes free: "operators_free e db" and loaded: "subjects_loaded db" and s: "s \<in> set SEEDED_OPERATORS"
    and roles: "roles_free e db'" and same: "db_operators db' = db_operators db"
  shows "upsert_seed_role (put_role e db s) db' =
      Inr (db'\<lparr>db_roles := upsert ol_id merge_seed_role (put_role e db s) (db_roles db')\<rparr>) \<and>
    roles_free e (db'\<lparr>db_roles := upsert ol_id merge_seed_role (put_role e db s) (db_roles db')\<rparr>)"
proof
  obtain p where p: "p \<in> set (db_operators db)" "op_subject p = sp_subject s" "op_id p = operator_id db (sp_subject s)"
    using loaded_operator [OF free loaded s] by blast
  have stephen: "operator_id db ''stephen-dev-001'' \<in> op_id ` set (db_operators db)"
    using loaded_operator [OF free loaded first_owner(3)] unfolding first_owner(2) by force
  have only: "ol_id r = role_id e s"
    if "r \<in> set (db_roles db')" "ol_operator_id r = operator_id db (sp_subject s)" "ol_revoked_at r = None" for r
    using roles that p s same unfolding roles_free_def by (metis (no_types, lifting))
  show "upsert_seed_role (put_role e db s) db' =
      Inr (db'\<lparr>db_roles := upsert ol_id merge_seed_role (put_role e db s) (db_roles db')\<rparr>)"
  proof -
    have "operator_id db (sp_subject s) \<in> op_id ` set (db_operators db)" using p by force
    moreover have "\<not> (\<exists>r \<in> set (db_roles db'). ol_id r \<noteq> role_id e s \<and>
        ol_operator_id r = operator_id db (sp_subject s) \<and> ol_revoked_at r = None)" using only by blast
    ultimately show ?thesis using stephen same unfolding upsert_seed_role_def by simp
  qed
  have own: "operator_id db (sp_subject s) \<in> op_id ` set (db_operators db')" using p same by force
  let ?db = "db'\<lparr>db_roles := upsert ol_id merge_seed_role (put_role e db s) (db_roles db')\<rparr>"
  have rows: "r \<in> set (db_roles db') \<or> ol_id r = role_id e s \<and> ol_operator_id r = operator_id db (sp_subject s)"
    if "r \<in> set (db_roles ?db)" for r
    using that by (auto dest!: seed_roles.upsert_memD simp: merge_seed_role_def)
  show "roles_free e ?db"
    unfolding roles_free_def
  proof (intro conjI ballI impI)
    fix r assume "r \<in> set (db_roles ?db)" and active: "ol_revoked_at r = None"
    from rows [OF this(1)] have "ol_operator_id r \<in> op_id ` set (db_operators db')"
    proof
      assume "r \<in> set (db_roles db')"
      with active roles show ?thesis unfolding roles_free_def by blast
    qed (simp add: own)
    then show "ol_operator_id r \<in> op_id ` set (db_operators ?db)" by simp
  next
    fix s' q r
    assume s': "s' \<in> set SEEDED_OPERATORS" and q: "q \<in> set (db_operators ?db)" and r: "r \<in> set (db_roles ?db)"
      and own: "op_subject q = sp_subject s' \<and> ol_operator_id r = op_id q \<and> ol_revoked_at r = None"
    from rows [OF r] show "ol_id r = role_id e s'"
    proof
      assume "r \<in> set (db_roles db')"
      with roles s' q own show ?thesis by (auto simp: roles_free_def)
    next
      assume new: "ol_id r = role_id e s \<and> ol_operator_id r = operator_id db (sp_subject s)"
      then have "op_subject q = sp_subject s"
        using operator_of_id [OF free loaded s, of q] q own same by simp
      then have "s' = s" using own distinct_map_same [OF seeded_subjects s' s] by simp
      with new show ?thesis by simp
    qed
  qed
qed

lemma roles_effect:
  assumes free: "operators_free e db" and loaded: "subjects_loaded db" and roles: "roles_free e db"
  shows "fold_res (seed_role e (load_operator_ids_by_subject db) (operator_id db ''stephen-dev-001'')) SEEDED_OPERATORS db =
      Inr (db\<lparr>db_roles := fold (upsert ol_id merge_seed_role) (map (put_role e db) SEEDED_OPERATORS) (db_roles db)\<rparr>) \<and>
    roles_free e (db\<lparr>db_roles := fold (upsert ol_id merge_seed_role) (map (put_role e db) SEEDED_OPERATORS) (db_roles db)\<rparr>)"
proof -
  let ?g = "\<lambda>s db'. db'\<lparr>db_roles := upsert ol_id merge_seed_role (put_role e db s) (db_roles db')\<rparr>"
  let ?P = "\<lambda>db'. db_operators db' = db_operators db \<and> roles_free e db'"
  have "fold_res (seed_role e (load_operator_ids_by_subject db) (operator_id db ''stephen-dev-001'')) SEEDED_OPERATORS db =
      Inr (fold ?g SEEDED_OPERATORS db) \<and> ?P (fold ?g SEEDED_OPERATORS db)"
  proof (rule fold_res_pure [where P = ?P])
    fix s db' assume s: "s \<in> set SEEDED_OPERATORS" and P: "?P db'"
    have "seed_role e (load_operator_ids_by_subject db) (operator_id db ''stephen-dev-001'') s db' =
        upsert_seed_role (put_role e db s) db'"
      using loaded_operator [OF free loaded s] by (simp add: seed_role_def put_role_def)
    then show "seed_role e (load_operator_ids_by_subject db) (operator_id db ''stephen-dev-001'') s db' = Inr (?g s db') \<and>
        ?P (?g s db')"
      using role_step [OF free loaded s] P by simp
  qed (simp add: roles)
  then show ?thesis by (simp add: fold_tables)
qed

definition put_authorization :: "seed_env \<Rightarrow> db \<Rightarrow> seeded_lea \<Rightarrow> authorization_row" where
  "put_authorization e db s = seed_authorization_row e (operator_id db ''stephen-dev-001'') (sl_id s)"

lemma put_authorization_sel [simp]:
  "au_id (put_authorization e db s) = seed_uuid e ''connector-authz'' (sl_id s @ '':edlink'')"
  "au_lea_id (put_authorization e db s) = sl_id s" "au_partner (put_authorization e db s) = ''edlink''"
  "au_authorized_by (put_authorization e db s) = Some (operator_id db ''stephen-dev-001'')"
  by (simp_all add: put_authorization_def seed_authorization_row_def)

lemma authorization_step:
  assumes stephen: "operator_id db ''stephen-dev-001'' \<in> op_id ` set (db_operators db')"
    and s: "s \<in> set SEEDED_LEAS" and lea: "lea_exists db' (sl_id s)" and auths: "authorizations_free e db'"
  shows "upsert_seed_authorization (put_authorization e db s) db' =
      Inr (db'\<lparr>db_authorizations := upsert au_id merge_seed_authorization (put_authorization e db s) (db_authorizations db')\<rparr>) \<and>
    authorizations_free e
      (db'\<lparr>db_authorizations := upsert au_id merge_seed_authorization (put_authorization e db s) (db_authorizations db')\<rparr>)"
proof
  have "seed_uuid e ''connector-authz'' (sl_id s @ '':edlink'') \<in> au_id ` set (db_authorizations db')"
    if "a \<in> set (db_authorizations db')" "live_authorization (sl_id s) ''edlink'' a" for a
    using auths s that by (force simp: authorizations_free_def)
  then show "upsert_seed_authorization (put_authorization e db s) db' =
      Inr (db'\<lparr>db_authorizations := upsert au_id merge_seed_authorization (put_authorization e db s) (db_authorizations db')\<rparr>)"
    using stephen lea unfolding upsert_seed_authorization_def by auto
  show "authorizations_free e
      (db'\<lparr>db_authorizations := upsert au_id merge_seed_authorization (put_authorization e db s) (db_authorizations db')\<rparr>)"
    unfolding authorizations_free_def
  proof (intro ballI impI)
    fix s' a
    assume s': "s' \<in> set SEEDED_LEAS" and live: "live_authorization (sl_id s') ''edlink'' a"
      and a: "a \<in> set (db_authorizations (db'\<lparr>db_authorizations :=
        upsert au_id merge_seed_authorization (put_authorization e db s) (db_authorizations db')\<rparr>))"
    have old: "au_id x = seed_uuid e ''connector-authz'' (sl_id s' @ '':edlink'')"
      if "x \<in> set (db_authorizations db')" "live_authorization (sl_id s') ''edlink'' x" for x
      using auths s' that by (auto simp: authorizations_free_def)
    from a show "au_id a = seed_uuid e ''connector-authz'' (sl_id s' @ '':edlink'')"
      using live old seed_authz.upsert_memD [of a "put_authorization e db s" "db_authorizations db'"]
      by (auto simp: live_authorization_def merge_seed_authorization_def put_authorization_def seed_authorization_row_def)
  qed
qed

lemma authorizations_effect:
  assumes free: "operators_free e db" and loaded: "subjects_loaded db" and auths: "authorizations_free e db"
    and leas: "\<forall>s \<in> set SEEDED_LEAS. lea_exists db (sl_id s)"
  shows "seed_connector_authorizations e db =
      Inr (db\<lparr>db_authorizations := fold (upsert au_id merge_seed_authorization)
        (map (put_authorization e db) SEEDED_LEAS) (db_authorizations db)\<rparr>) \<and>
    authorizations_free e (db\<lparr>db_authorizations := fold (upsert au_id merge_seed_authorization)
        (map (put_authorization e db) SEEDED_LEAS) (db_authorizations db)\<rparr>)"
proof -
  let ?g = "\<lambda>s db'. db'\<lparr>db_authorizations :=
    upsert au_id merge_seed_authorization (put_authorization e db s) (db_authorizations db')\<rparr>"
  let ?P = "\<lambda>db'. db_operators db' = db_operators db \<and> db_leas db' = db_leas db \<and> authorizations_free e db'"
  from loaded_operator [OF free loaded first_owner(3)]
  have ids: "id_of_subject (load_operator_ids_by_subject db) ''stephen-dev-001'' = Inr (operator_id db ''stephen-dev-001'')"
    and stephen: "operator_id db ''stephen-dev-001'' \<in> op_id ` set (db_operators db)"
    unfolding first_owner(2) by force+
  have "fold_res (\<lambda>s. upsert_seed_authorization (put_authorization e db s)) SEEDED_LEAS db =
      Inr (fold ?g SEEDED_LEAS db) \<and> ?P (fold ?g SEEDED_LEAS db)"
  proof (rule fold_res_pure [where P = ?P])
    fix s db' assume s: "s \<in> set SEEDED_LEAS" and P: "?P db'"
    with leas have "lea_exists db' (sl_id s)" by (simp add: lea_exists_def)
    with authorization_step [of db db' s e] P s stephen
    show "upsert_seed_authorization (put_authorization e db s) db' = Inr (?g s db') \<and> ?P (?g s db')" by simp
  qed (simp add: auths)
  then show ?thesis
    by (simp add: fold_tables seed_connector_authorizations_def ids put_authorization_def [abs_def])
qed

definition put_grant :: "seed_env \<Rightarrow> db \<Rightarrow> string \<times> lea_id \<Rightarrow> grant_row" where
  "put_grant e db = (\<lambda>(s, l). seed_grant_row e s (operator_id db s) (operator_id db ''stephen-dev-001'') l)"

lemma put_grant_sel [simp]:
  "og_id (put_grant e db (s, l)) = grant_id e s l" "og_lea_id (put_grant e db (s, l)) = l"
  "og_operator_id (put_grant e db (s, l)) = operator_id db s"
  "og_granted_by (put_grant e db (s, l)) = operator_id db ''stephen-dev-001''"
  by (simp_all add: put_grant_def seed_grant_row_def grant_id_def)

lemma grant_subject:
  "(s, l) \<in> set seeded_grants \<Longrightarrow> \<exists>x \<in> set SEEDED_OPERATORS. sp_subject x = s"
  by (auto simp: seeded_grants_def SEEDED_OPERATORS_def)

lemma grant_step:
  assumes free: "operators_free e db" and loaded: "subjects_loaded db" and ids: "seed_ids_ok e"
    and sl: "(s, l) \<in> set seeded_grants" and grants: "grants_free e db'"
    and same: "db_operators db' = db_operators db" and lea: "lea_exists db' l"
  shows "upsert_seed_grant (put_grant e db (s, l)) db' =
      Inr (db'\<lparr>db_grants := upsert og_id merge_seed_grant (put_grant e db (s, l)) (db_grants db')\<rparr>) \<and>
    grants_free e (db'\<lparr>db_grants := upsert og_id merge_seed_grant (put_grant e db (s, l)) (db_grants db')\<rparr>)"
proof
  obtain x where x: "x \<in> set SEEDED_OPERATORS" "sp_subject x = s" using grant_subject [OF sl] by blast
  obtain p where p: "p \<in> set (db_operators db)" "op_subject p = s" "op_id p = operator_id db s"
    using loaded_operator [OF free loaded x(1)] x(2) by blast
  have stephen: "operator_id db ''stephen-dev-001'' \<in> op_id ` set (db_operators db)"
    using loaded_operator [OF free loaded first_owner(3)] unfolding first_owner(2) by force
  have own: "operator_id db s \<in> op_id ` set (db_operators db)" using p by force
  have where_l: "(case lookup_by og_id (grant_id e s l) (db_grants db') of None \<Rightarrow> l | Some old \<Rightarrow> og_lea_id old) = l"
    using grants sl by (auto simp: grants_free_def split: option.splits dest!: lookup_by_SomeD)
  have only: "og_id g = grant_id e s l"
    if "g \<in> set (db_grants db')" "og_operator_id g = operator_id db s" "og_lea_id g = l" "og_revoked_at g = None" for g
    using grants that p sl same by (auto simp: grants_free_def)
  then have "\<not> (\<exists>g \<in> set (db_grants db'). og_id g \<noteq> grant_id e s l \<and> og_operator_id g = operator_id db s \<and>
      og_lea_id g = l \<and> og_revoked_at g = None)" by blast
  then show "upsert_seed_grant (put_grant e db (s, l)) db' =
      Inr (db'\<lparr>db_grants := upsert og_id merge_seed_grant (put_grant e db (s, l)) (db_grants db')\<rparr>)"
    using stephen own lea same unfolding upsert_seed_grant_def Let_def put_grant_sel where_l by simp
  let ?db = "db'\<lparr>db_grants := upsert og_id merge_seed_grant (put_grant e db (s, l)) (db_grants db')\<rparr>"
  have rows: "g \<in> set (db_grants db') \<or> og_id g = grant_id e s l \<and> og_lea_id g = l \<and> og_operator_id g = operator_id db s"
    if "g \<in> set (db_grants ?db)" for g
    using that grants sl by (auto dest!: seed_grants.upsert_memD simp: merge_seed_grant_def grants_free_def)
  have "og_operator_id g \<in> op_id ` set (db_operators ?db)" if "g \<in> set (db_grants ?db)" "og_revoked_at g = None" for g
    using rows [OF that(1)] that(2) own same grants by (auto simp: grants_free_def)
  moreover have same_pair: "(s', l') = (s, l)" if "(s', l') \<in> set seeded_grants" "grant_id e s' l' = grant_id e s l" for s' l'
    using distinct_map_same [of "\<lambda>(s, l). grant_id e s l" seeded_grants "(s', l')" "(s, l)"] ids sl that
    by (simp add: seed_ids_ok_def)
  then have "og_lea_id g = l'" if "(s', l') \<in> set seeded_grants" "g \<in> set (db_grants ?db)" "og_id g = grant_id e s' l'" for s' l' g
    using rows [OF that(2)] that grants by (auto simp: grants_free_def)
  moreover have "og_id g = grant_id e s' l'"
    if "(s', l') \<in> set seeded_grants" "q \<in> set (db_operators ?db)" "g \<in> set (db_grants ?db)"
      "op_subject q = s'" "og_operator_id g = op_id q" "og_lea_id g = l'" "og_revoked_at g = None" for s' l' q g
    using rows [OF that(3)]
  proof
    assume "g \<in> set (db_grants db')"
    with grants that same show ?thesis by (auto simp: grants_free_def)
  next
    assume new: "og_id g = grant_id e s l \<and> og_lea_id g = l \<and> og_operator_id g = operator_id db s"
    then have "op_subject q = s"
      using operator_of_id [OF free loaded x(1), of q] x(2) that(2,5) same by simp
    with new that show ?thesis by simp
  qed
  ultimately show "grants_free e ?db" by (rule grants_freeI)
qed

lemma grants_effect:
  assumes free: "operators_free e db" and loaded: "subjects_loaded db" and ids: "seed_ids_ok e"
    and grants: "grants_free e db" and leas: "\<forall>s \<in> set SEEDED_LEAS. lea_exists db (sl_id s)"
  shows "seed_operator_lea_grants e db =
      Inr (db\<lparr>db_grants := fold (upsert og_id merge_seed_grant) (map (put_grant e db) seeded_grants) (db_grants db)\<rparr>) \<and>
    grants_free e (db\<lparr>db_grants := fold (upsert og_id merge_seed_grant) (map (put_grant e db) seeded_grants) (db_grants db)\<rparr>)"
proof -
  let ?g = "\<lambda>x db'. db'\<lparr>db_grants := upsert og_id merge_seed_grant (put_grant e db x) (db_grants db')\<rparr>"
  let ?P = "\<lambda>db'. db_operators db' = db_operators db \<and> db_leas db' = db_leas db \<and> grants_free e db'"
  let ?ids = "load_operator_ids_by_subject db"
  have subject: "id_of_subject ?ids (sp_subject s) = Inr (operator_id db (sp_subject s))" if "s \<in> set SEEDED_OPERATORS" for s
    using loaded_operator [OF free loaded that] by simp
  have known: "id_of_subject ?ids ''stephen-dev-001'' = Inr (operator_id db ''stephen-dev-001'')"
    "id_of_subject ?ids ''lakewood-ops-001'' = Inr (operator_id db ''lakewood-ops-001'')"
    "id_of_subject ?ids ''district-ops-001'' = Inr (operator_id db ''district-ops-001'')"
    using subject [of "SEEDED_OPERATORS ! 0"] subject [of "SEEDED_OPERATORS ! 3"] subject [of "SEEDED_OPERATORS ! 4"]
    by (simp_all add: SEEDED_OPERATORS_def)
  have loop: "seed_operator_lea_grants e db = fold_res (\<lambda>x. upsert_seed_grant (put_grant e db x)) seeded_grants db"
  proof (cases "upsert_seed_grant (put_grant e db (''lakewood-ops-001'', ''lea-lakewood-usd'')) db")
    case (Inr b)
    then show ?thesis
      by (cases "upsert_seed_grant (put_grant e db (''district-ops-001'', ''lea-riverside-usd'')) b")
        (simp_all add: seed_operator_lea_grants_def known SEEDED_OPERATORS_def seed_grants_of_def seeded_grants_def
          put_grant_def)
  qed (simp add: seed_operator_lea_grants_def known SEEDED_OPERATORS_def seed_grants_of_def seeded_grants_def put_grant_def)
  have "fold_res (\<lambda>x. upsert_seed_grant (put_grant e db x)) seeded_grants db =
      Inr (fold ?g seeded_grants db) \<and> ?P (fold ?g seeded_grants db)"
  proof (rule fold_res_pure [where P = ?P])
    fix x db' assume x: "x \<in> set seeded_grants" and P: "?P db'"
    obtain s l where sl: "x = (s, l)" by (cases x)
    have "\<exists>s \<in> set SEEDED_LEAS. sl_id s = l" using x sl by (auto simp: seeded_grants_def SEEDED_LEAS_def)
    then have "lea_exists db' l" using leas P by (auto simp: lea_exists_def)
    with grant_step [OF free loaded ids, of s l db'] x sl P
    show "upsert_seed_grant (put_grant e db x) db' = Inr (?g x db') \<and> ?P (?g x db')" by simp
  qed (simp add: grants)
  moreover have "fold ?g xs db = db\<lparr>db_grants := fold (upsert og_id merge_seed_grant) (map (put_grant e db) xs) (db_grants db)\<rparr>"
    for xs :: "(string \<times> lea_id) list"
  proof -
    have "fold ?g xs d = d\<lparr>db_grants := fold (upsert og_id merge_seed_grant) (map (put_grant e db) xs) (db_grants d)\<rparr>" for d
      by (induction xs arbitrary: d) simp_all
    then show ?thesis .
  qed
  ultimately show ?thesis using loop by simp
qed

section \<open>The whole seed\<close>

abbreviation put_cursor :: "cursor_row \<Rightarrow> cursor_row list \<Rightarrow> cursor_row list" where
  "put_cursor \<equiv> upsert cursor_key merge_seed_cursor"

lemma stale_cursor_same:
  "stale_cursor e (upsert_seed_cursor (riverside_cursor e) db) = upsert_seed_cursor (riverside_cursor e) db"
proof -
  have "c\<lparr>cs_last_event_at := Some (se_now e - days_us 25), cs_last_poll_at := Some (se_now e - days_us 25)\<rparr> = c"
    if "c \<in> set (put_cursor (riverside_cursor e) (db_cursors db))" "cs_lea_id c = RIVERSIDE" "cs_partner c = ''edlink''" for c
  proof -
    have "cursor_key c = cursor_key (riverside_cursor e)"
      using that by (simp add: cursor_key_def riverside_cursor_def seed_cursor_row_def)
    with seed_cursors.upsert_same_key [OF that(1)]
    have "cs_last_event_at c = Some (se_now e - days_us 25)" "cs_last_poll_at c = Some (se_now e - days_us 25)"
      by (auto simp: merge_seed_cursor_def riverside_cursor_def seed_cursor_row_def)
    then show ?thesis by simp
  qed
  then show ?thesis
    by (auto simp: stale_cursor_def upsert_seed_cursor_def write_cursor_def update_where_def intro!: map_idI db.equality)
qed

definition seed_lea_ids :: "lea_id list" where
  "seed_lea_ids = [LAKEWOOD, NORTHRIDGE, VALLEY, HILLCREST, RIVERSIDE]"

definition seed_students :: "student_row list" where
  "seed_students = concat (map (\<lambda>(l, xs). map (seed_student_row l) xs) SEED_STUDENTS)"

definition seed_classes :: "class_row list" where
  "seed_classes = concat (map (\<lambda>(l, ys). map (seed_class_row l) (new_classes [] ys)) SEED_ENROLLMENTS)"

definition seed_enrolled :: "enrollment_row list" where
  "seed_enrolled = concat (map (\<lambda>(l, ys). map (seed_enrollment_row l) ys) SEED_ENROLLMENTS)"

definition seed_cursor_rows :: "seed_env \<Rightarrow> cursor_row list" where
  "seed_cursor_rows e =
     [lakewood_cursor e, northridge_cursor e, valley_cursor e, hillcrest_cursor e, riverside_cursor e]"

text \<open>The tables before those that need the ids of the operators, and all of them.\<close>

definition seed_tables :: "seed_env \<Rightarrow> db \<Rightarrow> db" where
  "seed_tables e db = db\<lparr>
     db_leas := fold (upsert lr_id merge_seed_lea) (map seed_lea_row SEEDED_LEAS) (db_leas db),
     db_schools := fold (upsert so_id merge_seed_school) (map seed_school_row seed_lea_ids) (db_schools db),
     db_sessions := fold (upsert ac_id merge_seed_term) (map seed_term_row seed_lea_ids) (db_sessions db),
     db_students := fold (upsert sr_id merge_seed_student) seed_students (db_students db),
     db_classes := fold (upsert cl_id merge_seed_class) seed_classes (db_classes db),
     db_enrollments := fold (upsert er_id merge_seed_enrollment) seed_enrolled (db_enrollments db),
     db_sync_jobs := fold (upsert sj_id merge_seed_job) (seed_jobs e) (db_sync_jobs db),
     db_validation_results := upsert same_issue (\<lambda>old _. old) (valley_issue e) (db_validation_results db),
     db_quarantine := fold (upsert qr_id (\<lambda>old _. old)) (seed_orphans e) (db_quarantine db),
     db_cursors := fold put_cursor (seed_cursor_rows e) (db_cursors db),
     db_operators := fold (upsert op_subject merge_seed_operator) (map (seed_operator_row e) SEEDED_OPERATORS)
       (db_operators db)\<rparr>"

definition seed_result :: "seed_env \<Rightarrow> db \<Rightarrow> db" where
  "seed_result e db = (seed_tables e db)\<lparr>
     db_roles := fold (upsert ol_id merge_seed_role) (map (put_role e (seed_tables e db)) SEEDED_OPERATORS) (db_roles db),
     db_authorizations := fold (upsert au_id merge_seed_authorization)
       (map (put_authorization e (seed_tables e db)) SEEDED_LEAS) (db_authorizations db),
     db_grants := fold (upsert og_id merge_seed_grant) (map (put_grant e (seed_tables e db)) seeded_grants) (db_grants db),
     db_reconciliation_runs := fold (upsert rr_id merge_seed_run) [lakewood_run e, northridge_run e]
       (db_reconciliation_runs db)\<rparr>"

text \<open>The five LEAs: no foreign key is missing.\<close>

lemma put_canonical_same [simp]:
  "db_leas (put_canonical l xs ys db) = db_leas db" "db_sync_jobs (put_canonical l xs ys db) = db_sync_jobs db"
  "db_cursors (put_canonical l xs ys db) = db_cursors db"
  "db_quarantine (put_canonical l xs ys db) = db_quarantine db"
  "db_validation_results (put_canonical l xs ys db) = db_validation_results db"
  by (simp_all add: put_canonical_def)

lemma canonical_of_lea:
  assumes "lea_exists db l" and "students_fit db" and "(l, xs) \<in> set SEED_STUDENTS" and "(l, ys) \<in> set SEED_ENROLLMENTS"
  shows "seed_canonical l xs ys db = Inr (put_canonical l xs ys db)" and "students_fit (put_canonical l xs ys db)"
  using seed_canonical_effect [OF assms(1,2) seed_students_known(1) [OF assms(3)] seed_students_known(2) [OF assms(3,4)]]
  by simp_all

lemmas lea_lists = SEED_STUDENTS_def SEED_ENROLLMENTS_def

text \<open>What the five functions share: the canonical rows, the jobs and the cursor.\<close>

definition put_lea ::
  "lea_id \<Rightarrow> (string \<times> string \<times> string \<times> string) list \<Rightarrow> (string \<times> string \<times> string) list \<Rightarrow> sync_job list \<Rightarrow>
   cursor_row \<Rightarrow> db \<Rightarrow> db" where
  "put_lea l xs ys jobs c db = upsert_seed_cursor c (fold write_seed_job jobs (put_canonical l xs ys db))"

lemma put_lea_sel [simp]:
  "db_leas (put_lea l xs ys jobs c db) = db_leas db"
  "db_schools (put_lea l xs ys jobs c db) = upsert so_id merge_seed_school (seed_school_row l) (db_schools db)"
  "db_sessions (put_lea l xs ys jobs c db) = upsert ac_id merge_seed_term (seed_term_row l) (db_sessions db)"
  "db_students (put_lea l xs ys jobs c db) =
     fold (upsert sr_id merge_seed_student) (map (seed_student_row l) xs) (db_students db)"
  "db_classes (put_lea l xs ys jobs c db) =
     fold (upsert cl_id merge_seed_class) (map (seed_class_row l) (new_classes [] ys)) (db_classes db)"
  "db_enrollments (put_lea l xs ys jobs c db) =
     fold (upsert er_id merge_seed_enrollment) (map (seed_enrollment_row l) ys) (db_enrollments db)"
  "db_sync_jobs (put_lea l xs ys jobs c db) = fold (upsert sj_id merge_seed_job) jobs (db_sync_jobs db)"
  "db_cursors (put_lea l xs ys jobs c db) = put_cursor c (db_cursors db)"
  "db_snapshots (put_lea l xs ys jobs c db) = db_snapshots db"
  "db_validation_results (put_lea l xs ys jobs c db) = db_validation_results db"
  "db_quarantine (put_lea l xs ys jobs c db) = db_quarantine db"
  "db_operators (put_lea l xs ys jobs c db) = db_operators db"
  "db_roles (put_lea l xs ys jobs c db) = db_roles db"
  "db_grants (put_lea l xs ys jobs c db) = db_grants db"
  "db_authorizations (put_lea l xs ys jobs c db) = db_authorizations db"
  "db_reconciliation_runs (put_lea l xs ys jobs c db) = db_reconciliation_runs db"
  "db_revert_actions (put_lea l xs ys jobs c db) = db_revert_actions db"
  "db_retry_actions (put_lea l xs ys jobs c db) = db_retry_actions db"
  "db_audit_log (put_lea l xs ys jobs c db) = db_audit_log db"
  "db_idempotency (put_lea l xs ys jobs c db) = db_idempotency db"
  "db_next_id (put_lea l xs ys jobs c db) = db_next_id db"
  "db.more (put_lea l xs ys jobs c db) = db.more db"
  by (simp_all add: put_lea_def put_canonical_def upsert_seed_cursor_def write_cursor_def fold_tables)

lemmas put_lea_steps = put_lea_def upsert_seed_cursor_def write_cursor_def fold_tables write_seed_job_def

lemma seed_lakewood_effect:
  assumes "lea_exists db LAKEWOOD" and "students_fit db"
  shows "seed_lakewood e db =
    Inr (put_lea LAKEWOOD lakewood_students lakewood_enrollments (lakewood_jobs e) (lakewood_cursor e) db)"
  using canonical_of_lea [OF assms] by (simp add: seed_lakewood_def lea_lists put_lea_def)

lemma seed_northridge_effect:
  assumes "lea_exists db NORTHRIDGE" and "students_fit db"
  shows "seed_northridge e db =
    Inr (put_lea NORTHRIDGE northridge_students northridge_enrollments (northridge_jobs e) (northridge_cursor e) db)"
  using canonical_of_lea [OF assms] by (simp add: seed_northridge_def lea_lists put_lea_def)

lemma seed_valley_effect:
  assumes "lea_exists db VALLEY" and "students_fit db"
  shows "seed_valley e db =
    Inr ((put_lea VALLEY valley_students valley_enrollments (valley_jobs e) (valley_cursor e) db)
      \<lparr>db_validation_results := upsert same_issue (\<lambda>old _. old) (valley_issue e) (db_validation_results db)\<rparr>)"
proof -
  let ?db = "fold write_seed_job (valley_jobs e) (put_canonical VALLEY valley_students valley_enrollments db)"
  have "valley_failed e \<in> job_ids ?db"
    unfolding job_ids_def fold_tables
    by (simp add: seed_jobs.keys_upserts) (simp add: valley_jobs_def seed_job_def)
  then have "write_seed_issue (valley_issue e) ?db =
      Inr (?db\<lparr>db_validation_results := upsert same_issue (\<lambda>old _. old) (valley_issue e) (db_validation_results db)\<rparr>)"
    by (simp add: write_seed_issue_def valley_issue_def insert_if_absent_upsert fold_tables)
  then show ?thesis using canonical_of_lea [OF assms] by (simp add: seed_valley_def lea_lists put_lea_steps)
qed

lemma seed_hillcrest_effect:
  assumes "lea_exists db HILLCREST" and "students_fit db"
  shows "seed_hillcrest e db =
    Inr ((put_lea HILLCREST hillcrest_students hillcrest_enrollments [hillcrest_job e] (hillcrest_cursor e) db)
      \<lparr>db_quarantine := fold (upsert qr_id (\<lambda>old _. old)) (seed_orphans e) (db_quarantine db)\<rparr>)"
proof -
  let ?db = "write_seed_job (hillcrest_job e) (put_canonical HILLCREST hillcrest_students hillcrest_enrollments db)"
  let ?g = "\<lambda>k d. d\<lparr>db_quarantine := insert_if_absent qr_id (hillcrest_orphan e k) (db_quarantine d)\<rparr>"
  have "hillcrest_job_id e \<in> job_ids ?db"
    by (simp add: job_ids_def write_seed_job_def seed_jobs.keys_upsert) (simp add: hillcrest_job_def seed_job_def)
  then have "fold_res (\<lambda>k. write_seed_quarantine (hillcrest_orphan e k)) [0..<30] ?db = Inr (fold ?g [0..<30] ?db) \<and>
      hillcrest_job_id e \<in> job_ids (fold ?g [0..<30] ?db)"
    by (rule fold_res_pure) (simp add: write_seed_quarantine_def hillcrest_orphan_def job_ids_def)
  then show ?thesis
    using canonical_of_lea [OF assms] by (simp add: seed_hillcrest_def lea_lists put_lea_steps seed_orphans_def)
qed

lemma seed_riverside_effect:
  assumes "lea_exists db RIVERSIDE" and "students_fit db"
  shows "seed_riverside e db =
    Inr (put_lea RIVERSIDE riverside_students riverside_enrollments [riverside_job e] (riverside_cursor e) db)"
  using canonical_of_lea [OF assms] by (simp add: seed_riverside_def lea_lists stale_cursor_same put_lea_def)

lemma put_lea_fit:
  assumes "lea_exists db l" and "students_fit db" and "(l, xs) \<in> set SEED_STUDENTS" and "(l, ys) \<in> set SEED_ENROLLMENTS"
    and "db_students d = fold (upsert sr_id merge_seed_student) (map (seed_student_row l) xs) (db_students db)"
  shows "students_fit d"
  using canonical_of_lea(2) [OF assms(1-4)] assms(5) by (simp add: students_fit_def put_canonical_def)

lemma fit_same: "db_students b = db_students a \<Longrightarrow> students_fit b = students_fit a"
  by (simp add: students_fit_def)

lemma exists_same: "db_leas b = db_leas a \<Longrightarrow> lea_exists b l = lea_exists a l"
  by (simp add: lea_exists_def)

lemma seed_history_effect:
  "seed_sync_activity_history e db = Inr (fold write_seed_job (seed_activity e) db)"
  by (simp add: seed_sync_activity_history_def activity_leas_def seed_activity_def upt_rec)

lemma seed_operators_effect:
  assumes free: "operators_free e db" and roles: "roles_free e db" and grants: "grants_free e db" and ids: "seed_ids_ok e"
  defines "d \<equiv> db\<lparr>db_operators := fold (upsert op_subject merge_seed_operator)
    (map (seed_operator_row e) SEEDED_OPERATORS) (db_operators db)\<rparr>"
  shows "operators_free e d" and "subjects_loaded d" and "grants_free e d"
    and "seed_operators e db = Inr (d\<lparr>db_roles := fold (upsert ol_id merge_seed_role)
      (map (put_role e d) SEEDED_OPERATORS) (db_roles db)\<rparr>)"
    and "roles_free e (d\<lparr>db_roles := fold (upsert ol_id merge_seed_role)
      (map (put_role e d) SEEDED_OPERATORS) (db_roles db)\<rparr>)"
proof -
  let ?P = "\<lambda>db. operators_free e db \<and> roles_free e db \<and> grants_free e db"
  have "fold_res (\<lambda>s. upsert_seed_operator (seed_operator_row e s)) SEEDED_OPERATORS db =
      Inr (fold (put_operator e) SEEDED_OPERATORS db) \<and> ?P (fold (put_operator e) SEEDED_OPERATORS db)"
    by (rule fold_res_pure [where P = ?P])
      (simp_all add: free roles grants put_operator_effect put_operator_free ids put_operator_roles put_operator_grants)
  then have step: "fold_res (\<lambda>s. upsert_seed_operator (seed_operator_row e s)) SEEDED_OPERATORS db = Inr d"
    and inv: "operators_free e d" "roles_free e d" "grants_free e d"
    by (simp_all add: fold_tables d_def)
  have loaded: "subjects_loaded d"
    by (auto simp: subjects_loaded_def d_def seed_ops.keys_upserts image_image)
  have first: "id_of_subject (load_operator_ids_by_subject d) ''stephen-dev-001'' = Inr (operator_id d ''stephen-dev-001'')"
    using loaded_operator [OF inv(1) loaded first_owner(3)] by (simp add: first_owner(2))
  have same: "db_roles d = db_roles db" by (simp add: d_def)
  show "operators_free e d" "subjects_loaded d" "grants_free e d" by (rule inv loaded)+
  show "seed_operators e db = Inr (d\<lparr>db_roles := fold (upsert ol_id merge_seed_role)
      (map (put_role e d) SEEDED_OPERATORS) (db_roles db)\<rparr>)"
    using roles_effect [OF inv(1) loaded inv(2)] step first
    by (simp add: seed_operators_def first_owner Let_def same)
  show "roles_free e (d\<lparr>db_roles := fold (upsert ol_id merge_seed_role)
      (map (put_role e d) SEEDED_OPERATORS) (db_roles db)\<rparr>)"
    using roles_effect [OF inv(1) loaded inv(2)] by (simp add: same)
qed

text \<open>The part before the operators.\<close>

lemma seed_leas_part:
  assumes "leas_free db" and "students_fit db"
  obtains d where "fold_res (\<lambda>step. step) (take 7 (seed_steps e)) db = Inr d"
    and "students_fit d" and "leas_free d" and "\<forall>s \<in> set SEEDED_LEAS. lea_exists d (sl_id s)"
    and "d\<lparr>db_operators := fold (upsert op_subject merge_seed_operator) (map (seed_operator_row e) SEEDED_OPERATORS)
      (db_operators d)\<rparr> = seed_tables e db"
    and "db_operators d = db_operators db" "db_roles d = db_roles db" "db_grants d = db_grants db"
      "db_authorizations d = db_authorizations db" "db_reconciliation_runs d = db_reconciliation_runs db"
proof -
  define d1 where "d1 = db\<lparr>db_leas := fold (upsert lr_id merge_seed_lea) (map seed_lea_row SEEDED_LEAS) (db_leas db)\<rparr>"
  define d2 where "d2 = put_lea LAKEWOOD lakewood_students lakewood_enrollments (lakewood_jobs e) (lakewood_cursor e) d1"
  define d3 where "d3 =
    put_lea NORTHRIDGE northridge_students northridge_enrollments (northridge_jobs e) (northridge_cursor e) d2"
  define d4 where "d4 = (put_lea VALLEY valley_students valley_enrollments (valley_jobs e) (valley_cursor e) d3)
    \<lparr>db_validation_results := upsert same_issue (\<lambda>old _. old) (valley_issue e) (db_validation_results d3)\<rparr>"
  define d5 where "d5 = (put_lea HILLCREST hillcrest_students hillcrest_enrollments [hillcrest_job e] (hillcrest_cursor e) d4)
    \<lparr>db_quarantine := fold (upsert qr_id (\<lambda>old _. old)) (seed_orphans e) (db_quarantine d4)\<rparr>"
  define d6 where "d6 = put_lea RIVERSIDE riverside_students riverside_enrollments [riverside_job e] (riverside_cursor e) d5"
  define d7 where "d7 = fold write_seed_job (seed_activity e) d6"
  note d_defs = d2_def d3_def d4_def d5_def d6_def d7_def
  have leas: "db_leas d2 = db_leas d1" "db_leas d3 = db_leas d1" "db_leas d4 = db_leas d1" "db_leas d5 = db_leas d1"
    "db_leas d6 = db_leas d1" "db_leas d7 = db_leas d1"
    by (simp_all add: d_defs fold_tables)
  have exists1: "\<forall>s \<in> set SEEDED_LEAS. lea_exists d1 (sl_id s)"
    by (auto simp: lea_exists_def d1_def seed_leas.keys_upserts image_image seed_lea_row_def)
  then have "lea_exists d1 l" if "l \<in> set seed_lea_ids" for l
    using that by (auto simp: seed_lea_ids_def SEEDED_LEAS_def LAKEWOOD_def NORTHRIDGE_def VALLEY_def HILLCREST_def RIVERSIDE_def)
  then have exists: "lea_exists d1 LAKEWOOD" "lea_exists d2 NORTHRIDGE" "lea_exists d3 VALLEY" "lea_exists d4 HILLCREST"
    "lea_exists d5 RIVERSIDE"
    using leas(1-4) [THEN exists_same] by (simp_all add: seed_lea_ids_def)
  have fit1: "students_fit d1" using assms(2) by (simp add: students_fit_def d1_def)
  have fit2: "students_fit d2"
    using put_lea_fit [OF exists(1) fit1, of lakewood_students lakewood_enrollments d2] by (simp add: d2_def lea_lists)
  have fit3: "students_fit d3"
    using put_lea_fit [OF exists(2) fit2, of northridge_students northridge_enrollments d3] by (simp add: d3_def lea_lists)
  have fit4: "students_fit d4"
    using put_lea_fit [OF exists(3) fit3, of valley_students valley_enrollments d4] by (simp add: d4_def lea_lists)
  have fit5: "students_fit d5"
    using put_lea_fit [OF exists(4) fit4, of hillcrest_students hillcrest_enrollments d5] by (simp add: d5_def lea_lists)
  have fit6: "students_fit d6"
    using put_lea_fit [OF exists(5) fit5, of riverside_students riverside_enrollments d6] by (simp add: d6_def lea_lists)
  have steps: "seed_leas db = Inr d1" "seed_lakewood e d1 = Inr d2" "seed_northridge e d2 = Inr d3"
    "seed_valley e d3 = Inr d4" "seed_hillcrest e d4 = Inr d5" "seed_riverside e d5 = Inr d6"
    "seed_sync_activity_history e d6 = Inr d7"
    using seed_leas_effect [OF assms(1)] seed_lakewood_effect [OF exists(1) fit1, of e]
      seed_northridge_effect [OF exists(2) fit2, of e] seed_valley_effect [OF exists(3) fit3, of e]
      seed_hillcrest_effect [OF exists(4) fit4, of e] seed_riverside_effect [OF exists(5) fit5, of e]
      seed_history_effect [of e d6]
    unfolding d1_def [symmetric] d_defs [symmetric] by simp_all
  show thesis
  proof (rule that [of d7])
    show "fold_res (\<lambda>step. step) (take 7 (seed_steps e)) db = Inr d7"
      by (simp add: seed_steps_def steps)
    show "students_fit d7" using fit6 fit_same [of d7 d6] by (simp add: d7_def fold_tables)
    show "leas_free d7" using seed_leas_effect [OF assms(1)] by (simp add: leas_free_def leas d1_def)
    show "\<forall>s \<in> set SEEDED_LEAS. lea_exists d7 (sl_id s)" using exists1 exists_same [OF leas(6)] by simp
    show "d7\<lparr>db_operators := fold (upsert op_subject merge_seed_operator) (map (seed_operator_row e) SEEDED_OPERATORS)
      (db_operators d7)\<rparr> = seed_tables e db"
      by (rule db.equality, simp_all add: d7_def fold_tables seed_tables_def, simp_all add: d6_def, simp_all add: d5_def,
          simp_all add: d4_def, simp_all add: d3_def, simp_all add: d2_def, simp_all add: d1_def)
        (simp_all add: seed_lea_ids_def seed_students_def seed_classes_def seed_enrolled_def seed_jobs_def
          seed_cursor_rows_def lea_lists)
  qed (simp_all add: d7_def d6_def d5_def d4_def d3_def d2_def d1_def fold_tables)
qed

lemma put_row_same:
  "db_operators b = db_operators a \<Longrightarrow> put_role e b = put_role e a"
  "db_operators b = db_operators a \<Longrightarrow> put_authorization e b = put_authorization e a"
  "db_operators b = db_operators a \<Longrightarrow> put_grant e b = put_grant e a"
  by (auto simp: put_role_def put_authorization_def put_grant_def fun_eq_iff dest: operator_id_same)

lemma free_same:
  "db_operators b = db_operators a \<Longrightarrow> operators_free e b = operators_free e a"
  "db_operators b = db_operators a \<Longrightarrow> subjects_loaded b = subjects_loaded a"
  "db_operators b = db_operators a \<Longrightarrow> db_roles b = db_roles a \<Longrightarrow> roles_free e b = roles_free e a"
  "db_operators b = db_operators a \<Longrightarrow> db_grants b = db_grants a \<Longrightarrow> grants_free e b = grants_free e a"
  "db_authorizations b = db_authorizations a \<Longrightarrow> authorizations_free e b = authorizations_free e a"
  "db_leas b = db_leas a \<Longrightarrow> leas_free b = leas_free a"
  by (simp_all add: operators_free_def subjects_loaded_def roles_free_def grants_free_def authorizations_free_def leas_free_def)

lemma seed_effect:
  assumes "seed_ready e db" and ids: "seed_ids_ok e"
  shows "seed_realistic_state e db = (seed_result e db, Inr ())" and "seed_ready e (seed_result e db)"
proof -
  from assms(1) have ready: "leas_free db" "students_fit db" "operators_free e db" "roles_free e db" "grants_free e db"
    "authorizations_free e db" by (simp_all add: seed_ready_def)
  obtain d where run: "fold_res (\<lambda>step. step) (take 7 (seed_steps e)) db = Inr d"
    and fit: "students_fit d" and leas: "leas_free d" "\<forall>s \<in> set SEEDED_LEAS. lea_exists d (sl_id s)"
    and tables: "d\<lparr>db_operators := fold (upsert op_subject merge_seed_operator) (map (seed_operator_row e) SEEDED_OPERATORS)
      (db_operators d)\<rparr> = seed_tables e db"
    and same: "db_operators d = db_operators db" "db_roles d = db_roles db" "db_grants d = db_grants db"
      "db_authorizations d = db_authorizations db" "db_reconciliation_runs d = db_reconciliation_runs db"
    using seed_leas_part [OF ready(1,2)] .
  define t where "t = seed_tables e db"
  define roles where "roles = fold (upsert ol_id merge_seed_role) (map (put_role e t) SEEDED_OPERATORS) (db_roles db)"
  define auths where "auths = fold (upsert au_id merge_seed_authorization) (map (put_authorization e t) SEEDED_LEAS)
    (db_authorizations db)"
  define grants where "grants = fold (upsert og_id merge_seed_grant) (map (put_grant e t) seeded_grants) (db_grants db)"
  define runs where "runs = fold (upsert rr_id merge_seed_run) [lakewood_run e, northridge_run e] (db_reconciliation_runs db)"
  have t: "db_roles t = db_roles db" "db_grants t = db_grants db" "db_authorizations t = db_authorizations db"
    "db_reconciliation_runs t = db_reconciliation_runs db"
    by (simp_all add: t_def seed_tables_def)
  have "db_leas t = db_leas d" "db_students t = db_students d"
    using arg_cong [OF tables, of db_leas] arg_cong [OF tables, of db_students] by (simp_all add: t_def)
  then have leas_t: "leas_free t" "\<forall>s \<in> set SEEDED_LEAS. lea_exists t (sl_id s)" and fit_t: "students_fit t"
    using leas fit free_same(6) [of t d] fit_same [of t d] exists_same [of t d] by auto
  have at_d: "operators_free e d" "roles_free e d" "grants_free e d"
    using ready(3-5) free_same(1,3,4) [of d db e] same by simp_all
  note ops = seed_operators_effect [OF at_d ids, unfolded tables, folded t_def, unfolded same, folded roles_def]
  have 1: "operators_free e (t\<lparr>db_roles := roles\<rparr>)" "subjects_loaded (t\<lparr>db_roles := roles\<rparr>)"
    using ops(1,2) free_same(1,2) [of "t\<lparr>db_roles := roles\<rparr>" t] by simp_all
  have "authorizations_free e (t\<lparr>db_roles := roles\<rparr>)" "\<forall>s \<in> set SEEDED_LEAS. lea_exists (t\<lparr>db_roles := roles\<rparr>) (sl_id s)"
    using ready(6) free_same(5) [of "t\<lparr>db_roles := roles\<rparr>" db e] t leas_t(2) by (simp_all add: lea_exists_def)
  note auth = authorizations_effect [OF 1 this, unfolded put_row_same(2) [of "t\<lparr>db_roles := roles\<rparr>" t, simplified], simplified, unfolded t,
    folded auths_def]
  let ?b = "t\<lparr>db_roles := roles, db_authorizations := auths\<rparr>"
  have 2: "operators_free e ?b" "subjects_loaded ?b" "grants_free e ?b" "\<forall>s \<in> set SEEDED_LEAS. lea_exists ?b (sl_id s)"
    using ops(1-3) free_same(1,2,4) [of ?b t] leas_t(2) by (simp_all add: lea_exists_def)
  note grant = grants_effect [OF 2(1,2) ids 2(3,4), unfolded put_row_same(3) [of ?b t, simplified], simplified, unfolded t,
    folded grants_def]
  let ?c = "t\<lparr>db_roles := roles, db_authorizations := auths, db_grants := grants\<rparr>"
  have "lea_exists ?c LAKEWOOD" "lea_exists ?c NORTHRIDGE"
    using leas_t(2) by (simp_all add: SEEDED_LEAS_def LAKEWOOD_def NORTHRIDGE_def lea_exists_def)
  then have last: "seed_reconciliation_runs e ?c = Inr (?c\<lparr>db_reconciliation_runs := runs\<rparr>)"
    by (simp add: seed_reconciliation_runs_def upsert_seed_run_def lakewood_run_def northridge_run_def lea_exists_def runs_def t)
  have result: "seed_result e db = ?c\<lparr>db_reconciliation_runs := runs\<rparr>"
    by (simp add: seed_result_def t_def roles_def auths_def grants_def runs_def)
  have "fold_res (\<lambda>step. step) (take 7 (seed_steps e) @ drop 7 (seed_steps e)) db = Inr (seed_result e db)"
    unfolding fold_res_append run using ops(4) auth grant last
    by (simp add: seed_steps_def result)
  then show "seed_realistic_state e db = (seed_result e db, Inr ())"
    by (simp add: seed_realistic_state_def transaction_def)
  have "roles_free e (t\<lparr>db_roles := roles\<rparr>)" by (rule ops(5))
  then show "seed_ready e (seed_result e db)"
    using leas_t(1) fit_t 1 auth grant unfolding seed_ready_def result
    by (simp add: leas_free_def students_fit_def operators_free_def roles_free_def grants_free_def authorizations_free_def)
qed

end
