(* ===== verification/SeedProperties.thy ===== *)
theory SeedProperties
  imports SeedEffect "HOL-Library.Countable"
begin

text \<open>
  What the seed promises: a second run changes the date-sensitive tables only, the five LEAs raise
  the alerts they are made for, and the seed takes back what an operator did to its rows.
\<close>

section \<open>A second run\<close>

lemma activity_all: "k < 4 \<Longrightarrow> activity_jobs e k = map (activity_job e k) [0..<16]"
proof -
  assume "k < 4"
  then have "\<forall>i \<in> set [0..<16]. activity_start e k i \<le> se_now e"
    by (auto simp: activity_start_def hours_us_def minutes_us_def)
  then have "takeWhile (\<lambda>i. activity_start e k i \<le> se_now e) [0..<16] = [0..<16]"
    unfolding takeWhile_eq_all_conv .
  then show ?thesis unfolding activity_jobs_def by (rule arg_cong)
qed

definition job_key :: "sync_job \<Rightarrow> uuid \<times> lea_id \<times> string" where
  "job_key j = (sj_id j, sj_lea_id j, sj_partner j)"

lemma job_key_seed_job: "job_key (seed_job i l st t n cb ca er w sm) = (i, l, ''edlink'')"
  by (simp add: job_key_def seed_job_def)

lemma job_keys_same:
  assumes "se_uuid5 e2 = se_uuid5 e1"
  shows "map job_key (seed_jobs e2) = map job_key (seed_jobs e1)"
proof -
  have u: "seed_uuid e2 = seed_uuid e1" using assms by (simp add: seed_uuid_def fun_eq_iff)
  have "map job_key (activity_jobs e2 k) = map job_key (activity_jobs e1 k)" if "k < 4" for k
    using that by (simp add: activity_all activity_job_def Let_def job_key_seed_job u split: prod.splits)
  then have "map (\<lambda>k. map job_key (activity_jobs e2 k)) [0..<4] = map (\<lambda>k. map job_key (activity_jobs e1 k)) [0..<4]"
    by (rule map_cong [OF refl]) simp
  then have "map job_key (seed_activity e2) = map job_key (seed_activity e1)"
    unfolding seed_activity_def map_concat map_map comp_def by (rule arg_cong)
  moreover have "map job_key (lakewood_jobs e2) = map job_key (lakewood_jobs e1)"
    "map job_key (northridge_jobs e2) = map job_key (northridge_jobs e1)"
    by (simp_all add: lakewood_jobs_def lakewood_job_def northridge_jobs_def northridge_job_def job_key_seed_job u
        case_prod_beta)
  moreover have "map job_key (valley_jobs e2) = map job_key (valley_jobs e1)"
    "job_key (hillcrest_job e2) = job_key (hillcrest_job e1)" "job_key (riverside_job e2) = job_key (riverside_job e1)"
    by (simp_all add: valley_jobs_def valley_failed_def hillcrest_job_def hillcrest_job_id_def riverside_job_def
        job_key_seed_job u)
  ultimately show ?thesis by (simp add: seed_jobs_def)
qed

lemma static_keys:
  "distinct (map lr_id (map seed_lea_row SEEDED_LEAS))"
  "distinct (map so_id (map seed_school_row seed_lea_ids))"
  "distinct (map ac_id (map seed_term_row seed_lea_ids))"
  "distinct (map sr_id seed_students)" "distinct (map cl_id seed_classes)" "distinct (map er_id seed_enrolled)"
  by code_simp+

text \<open>The ids of the operators after a run do not depend on when it ran.\<close>

lemma loaded_pairs:
  "map (\<lambda>r. (op_subject r, op_id r)) (fold (upsert op_subject merge_seed_operator)
      (map (seed_operator_row e) SEEDED_OPERATORS) tbl) =
    map (\<lambda>r. (op_subject r, op_id r)) tbl @
      map (\<lambda>s. (sp_subject s, seed_uuid e ''operator'' (sp_subject s)))
        (filter (\<lambda>s. sp_subject s \<notin> op_subject ` set tbl) SEEDED_OPERATORS)"
proof -
  have dist: "distinct (map op_subject (map (seed_operator_row e) SEEDED_OPERATORS))"
    using seeded_subjects by (simp add: comp_def)
  have "(op_subject (case m of None \<Rightarrow> x | Some n \<Rightarrow> merge_seed_operator x n),
      op_id (case m of None \<Rightarrow> x | Some n \<Rightarrow> merge_seed_operator x n)) = (op_subject x, op_id x)" for x m
    by (cases m) (simp_all add: merge_seed_operator_def)
  then show ?thesis
    unfolding seed_ops.upserts_closed [OF dist]
    by (simp add: comp_def filter_map) (simp add: seed_operator_row_def)
qed

lemma operator_id_pairs:
  assumes "map (\<lambda>r. (op_subject r, op_id r)) (db_operators b) = map (\<lambda>r. (op_subject r, op_id r)) (db_operators a)"
  shows "operator_id b = operator_id a"
proof -
  have "load_operator_ids_by_subject d = filter (\<lambda>p. fst p \<in> set (map sp_subject SEEDED_OPERATORS))
      (map (\<lambda>r. (op_subject r, op_id r)) (db_operators d))" for d
    by (simp add: load_operator_ids_by_subject_def filter_map comp_def)
  then show ?thesis using assms by (simp add: operator_id_def fun_eq_iff)
qed

lemma stay_same:
  assumes "keyed_table key merge" and "distinct (map key rows)"
    and "\<And>r. r \<in> set rows \<Longrightarrow> merge r r = r" and "\<And>x r. r \<in> set rows \<Longrightarrow> merge (merge x r) r = merge x r"
  shows "fold (upsert key merge) rows (fold (upsert key merge) rows tbl) = fold (upsert key merge) rows tbl"
  using assms(2-4) by (intro keyed_table.upserts_stay [OF assms(1)]) simp_all

lemma stay_rows:
  "merge_seed_lea r r = r" "merge_seed_lea (merge_seed_lea x r) r = merge_seed_lea x r"
  "merge_seed_school c c = c" "merge_seed_school (merge_seed_school y c) c = merge_seed_school y c"
  "merge_seed_term d d = d" "merge_seed_term (merge_seed_term z d) d = merge_seed_term z d"
  "merge_seed_class f f = f" "merge_seed_class (merge_seed_class w f) f = merge_seed_class w f"
  "merge_seed_student g g = g" "merge_seed_student (merge_seed_student v g) g = merge_seed_student v g"
  "merge_seed_enrollment h h = h" "merge_seed_enrollment (merge_seed_enrollment u h) h = merge_seed_enrollment u h"
  by (simp_all add: merge_seed_lea_def merge_seed_school_def merge_seed_term_def merge_seed_class_def
      merge_seed_student_def merge_seed_enrollment_def)

lemma static_tables_stay:
  "fold (upsert lr_id merge_seed_lea) (map seed_lea_row SEEDED_LEAS)
     (fold (upsert lr_id merge_seed_lea) (map seed_lea_row SEEDED_LEAS) t1) =
   fold (upsert lr_id merge_seed_lea) (map seed_lea_row SEEDED_LEAS) t1"
  "fold (upsert so_id merge_seed_school) (map seed_school_row seed_lea_ids)
     (fold (upsert so_id merge_seed_school) (map seed_school_row seed_lea_ids) t2) =
   fold (upsert so_id merge_seed_school) (map seed_school_row seed_lea_ids) t2"
  "fold (upsert ac_id merge_seed_term) (map seed_term_row seed_lea_ids)
     (fold (upsert ac_id merge_seed_term) (map seed_term_row seed_lea_ids) t3) =
   fold (upsert ac_id merge_seed_term) (map seed_term_row seed_lea_ids) t3"
  "fold (upsert sr_id merge_seed_student) seed_students (fold (upsert sr_id merge_seed_student) seed_students t4) =
   fold (upsert sr_id merge_seed_student) seed_students t4"
  "fold (upsert cl_id merge_seed_class) seed_classes (fold (upsert cl_id merge_seed_class) seed_classes t5) =
   fold (upsert cl_id merge_seed_class) seed_classes t5"
  "fold (upsert er_id merge_seed_enrollment) seed_enrolled (fold (upsert er_id merge_seed_enrollment) seed_enrolled t6) =
   fold (upsert er_id merge_seed_enrollment) seed_enrolled t6"
  using stay_same [OF seed_leas.keyed_table_axioms static_keys(1) stay_rows(1,2)]
    stay_same [OF seed_schools.keyed_table_axioms static_keys(2) stay_rows(3,4)]
    stay_same [OF seed_terms.keyed_table_axioms static_keys(3) stay_rows(5,6)]
    stay_same [OF seed_students.keyed_table_axioms static_keys(4) stay_rows(9,10)]
    stay_same [OF seed_classes.keyed_table_axioms static_keys(5) stay_rows(7,8)]
    stay_same [OF seed_enrolled.keyed_table_axioms static_keys(6) stay_rows(11,12)]
  by simp_all

text \<open>The rows of two runs, table by table.\<close>

lemma jobs_refresh:
  assumes u: "se_uuid5 e2 = se_uuid5 e1" and ok: "seed_ids_ok e1"
  shows "fold (upsert sj_id merge_seed_job) (seed_jobs e2) (fold (upsert sj_id merge_seed_job) (seed_jobs e1) tbl) =
    fold (upsert sj_id merge_seed_job) (seed_jobs e2) tbl"
proof (rule seed_jobs.upserts_refresh)
  note keys = job_keys_same [OF u]
  show "map sj_id (seed_jobs e1) = map sj_id (seed_jobs e2)"
    using arg_cong [OF keys, of "map fst"] by (simp add: comp_def job_key_def)
  show "distinct (map sj_id (seed_jobs e1))" using ok by (simp add: seed_ids_ok_def)
  fix i assume i: "i < length (seed_jobs e1)"
  then have "job_key (seed_jobs e2 ! i) = job_key (seed_jobs e1 ! i)"
    using keys map_eq_imp_length_eq [OF keys] by (metis nth_map)
  then show "merge_seed_job (seed_jobs e1 ! i) (seed_jobs e2 ! i) = seed_jobs e2 ! i"
    by (simp add: merge_seed_job_def job_key_def)
  show "merge_seed_job (merge_seed_job x (seed_jobs e1 ! i)) (seed_jobs e2 ! i) = merge_seed_job x (seed_jobs e2 ! i)" for x
    by (simp add: merge_seed_job_def)
qed

lemma operators_stay:
  assumes u: "se_uuid5 e2 = se_uuid5 e1"
  shows "fold (upsert op_subject merge_seed_operator) (map (seed_operator_row e2) SEEDED_OPERATORS)
      (fold (upsert op_subject merge_seed_operator) (map (seed_operator_row e1) SEEDED_OPERATORS) tbl) =
    fold (upsert op_subject merge_seed_operator) (map (seed_operator_row e1) SEEDED_OPERATORS) tbl"
proof (rule seed_ops.upserts_stay)
  show "distinct (map op_subject (map (seed_operator_row e1) SEEDED_OPERATORS))"
    using seeded_subjects by (simp add: comp_def)
qed (simp_all add: comp_def merge_seed_operator_def seed_operator_row_def)

lemma roles_stay:
  assumes u: "se_uuid5 e2 = se_uuid5 e1" and ok: "seed_ids_ok e1" and same: "operator_id b = operator_id a"
  shows "fold (upsert ol_id merge_seed_role) (map (put_role e2 b) SEEDED_OPERATORS)
      (fold (upsert ol_id merge_seed_role) (map (put_role e1 a) SEEDED_OPERATORS) tbl) =
    fold (upsert ol_id merge_seed_role) (map (put_role e1 a) SEEDED_OPERATORS) tbl"
proof (rule seed_roles.upserts_stay)
  show "map ol_id (map (put_role e1 a) SEEDED_OPERATORS) = map ol_id (map (put_role e2 b) SEEDED_OPERATORS)"
    using u by (simp add: role_id_def seed_uuid_def)
  show "distinct (map ol_id (map (put_role e1 a) SEEDED_OPERATORS))"
    using ok by (simp add: seed_ids_ok_def comp_def role_id_def [abs_def])
qed (simp_all add: merge_seed_role_def put_role_def seed_role_row_def same)

lemma grants_stay:
  assumes u: "se_uuid5 e2 = se_uuid5 e1" and ok: "seed_ids_ok e1" and same: "operator_id b = operator_id a"
  shows "fold (upsert og_id merge_seed_grant) (map (put_grant e2 b) seeded_grants)
      (fold (upsert og_id merge_seed_grant) (map (put_grant e1 a) seeded_grants) tbl) =
    fold (upsert og_id merge_seed_grant) (map (put_grant e1 a) seeded_grants) tbl"
proof (rule seed_grants.upserts_stay)
  show "map og_id (map (put_grant e1 a) seeded_grants) = map og_id (map (put_grant e2 b) seeded_grants)"
    using u by (simp add: put_grant_def seed_grant_row_def seed_uuid_def case_prod_beta)
  show "distinct (map og_id (map (put_grant e1 a) seeded_grants))"
    using ok by (simp add: seed_ids_ok_def seeded_grants_def)
qed (simp_all add: merge_seed_grant_def put_grant_def seed_grant_row_def same case_prod_beta)

lemma authorizations_refresh:
  assumes u: "se_uuid5 e2 = se_uuid5 e1" and ok: "seed_ids_ok e1"
  shows "fold (upsert au_id merge_seed_authorization) (map (put_authorization e2 b) SEEDED_LEAS)
      (fold (upsert au_id merge_seed_authorization) (map (put_authorization e1 a) SEEDED_LEAS) tbl) =
    fold (upsert au_id merge_seed_authorization) (map (put_authorization e2 b) SEEDED_LEAS) tbl"
proof (rule seed_authz.upserts_refresh)
  show "map au_id (map (put_authorization e1 a) SEEDED_LEAS) = map au_id (map (put_authorization e2 b) SEEDED_LEAS)"
    using u by (simp add: seed_uuid_def)
  show "distinct (map au_id (map (put_authorization e1 a) SEEDED_LEAS))"
    using ok by (simp add: seed_ids_ok_def comp_def)
qed (simp_all add: merge_seed_authorization_def put_authorization_def seed_authorization_row_def seed_uuid_def u)

lemma cursors_refresh:
  "fold put_cursor (seed_cursor_rows e2) (fold put_cursor (seed_cursor_rows e1) tbl) =
    fold put_cursor (seed_cursor_rows e2) tbl"
proof (rule seed_cursors.upserts_refresh)
  note rows = seed_cursor_rows_def lakewood_cursor_def northridge_cursor_def valley_cursor_def hillcrest_cursor_def
    riverside_cursor_def seed_cursor_row_def
  show "map cursor_key (seed_cursor_rows e1) = map cursor_key (seed_cursor_rows e2)"
    by (simp add: rows cursor_key_def)
  show "distinct (map cursor_key (seed_cursor_rows e1))"
    by (simp add: rows cursor_key_def LAKEWOOD_def NORTHRIDGE_def VALLEY_def HILLCREST_def RIVERSIDE_def)
  fix i assume "i < length (seed_cursor_rows e1)"
  then have "i \<in> {0, 1, 2, 3, 4}" by (auto simp: seed_cursor_rows_def)
  then show "merge_seed_cursor (seed_cursor_rows e1 ! i) (seed_cursor_rows e2 ! i) = seed_cursor_rows e2 ! i"
    by (auto simp: rows merge_seed_cursor_def)
qed (simp add: merge_seed_cursor_def)

lemma runs_refresh:
  assumes u: "se_uuid5 e2 = se_uuid5 e1" and ok: "seed_ids_ok e1"
  shows "fold (upsert rr_id merge_seed_run) [lakewood_run e2, northridge_run e2]
      (fold (upsert rr_id merge_seed_run) [lakewood_run e1, northridge_run e1] tbl) =
    fold (upsert rr_id merge_seed_run) [lakewood_run e2, northridge_run e2] tbl"
proof (rule seed_runs.upserts_refresh)
  show "map rr_id [lakewood_run e1, northridge_run e1] = map rr_id [lakewood_run e2, northridge_run e2]"
    using u by (simp add: lakewood_run_def northridge_run_def seed_uuid_def)
  show "distinct (map rr_id [lakewood_run e1, northridge_run e1])" using ok by (simp add: seed_ids_ok_def)
  fix i assume "i < length [lakewood_run e1, northridge_run e1]"
  then have i: "i = 0 \<or> i = 1" by auto
  then show "merge_seed_run ([lakewood_run e1, northridge_run e1] ! i) ([lakewood_run e2, northridge_run e2] ! i) =
      [lakewood_run e2, northridge_run e2] ! i"
    using u by (auto simp: merge_seed_run_def lakewood_run_def northridge_run_def seed_uuid_def)
  show "merge_seed_run (merge_seed_run x ([lakewood_run e1, northridge_run e1] ! i)) ([lakewood_run e2, northridge_run e2] ! i) =
      merge_seed_run x ([lakewood_run e2, northridge_run e2] ! i)" for x
    by (simp add: merge_seed_run_def)
qed

lemma orphans_stay:
  assumes u: "se_uuid5 e2 = se_uuid5 e1" and ok: "seed_ids_ok e1"
  shows "fold (upsert qr_id (\<lambda>old _. old)) (seed_orphans e2) (fold (upsert qr_id (\<lambda>old _. old)) (seed_orphans e1) tbl) =
    fold (upsert qr_id (\<lambda>old _. old)) (seed_orphans e1) tbl"
proof (rule seed_orphans.upserts_stay)
  show "map qr_id (seed_orphans e1) = map qr_id (seed_orphans e2)"
    using u by (simp add: seed_orphans_def hillcrest_orphan_def seed_uuid_def)
  show "distinct (map qr_id (seed_orphans e1))" using ok by (simp add: seed_ids_ok_def)
qed simp_all

lemma issue_stays:
  assumes "se_uuid5 e2 = se_uuid5 e1"
  shows "upsert same_issue (\<lambda>old _. old) (valley_issue e2) (upsert same_issue (\<lambda>old _. old) (valley_issue e1) tbl) =
    upsert same_issue (\<lambda>old _. old) (valley_issue e1) tbl"
proof -
  have "same_issue (valley_issue e2) = same_issue (valley_issue e1)"
    using assms by (simp add: same_issue_def valley_issue_def valley_failed_def seed_uuid_def)
  then have "fold (upsert same_issue (\<lambda>old _. old)) [valley_issue e2] (fold (upsert same_issue (\<lambda>old _. old)) [valley_issue e1] tbl) =
      fold (upsert same_issue (\<lambda>old _. old)) [valley_issue e1] tbl"
    by (intro seed_issues.upserts_stay) simp_all
  then show ?thesis by simp
qed

lemma seed_ids_same:
  assumes u: "se_uuid5 e2 = se_uuid5 e1"
  shows "seed_ids_ok e2 = seed_ids_ok e1" and "seed_ready e2 db = seed_ready e1 db"
proof -
  have uuid: "seed_uuid e2 = seed_uuid e1" using u by (simp add: seed_uuid_def fun_eq_iff)
  have jobs: "map sj_id (seed_jobs e2) = map sj_id (seed_jobs e1)"
    using arg_cong [OF job_keys_same [OF u], of "map fst"] by (simp add: comp_def job_key_def)
  have orphans: "map qr_id (seed_orphans e2) = map qr_id (seed_orphans e1)"
    by (simp add: seed_orphans_def hillcrest_orphan_def uuid)
  have ops: "op_id (seed_operator_row e2 s) = op_id (seed_operator_row e1 s)" for s
    by (simp add: seed_operator_row_def uuid)
  have roles: "role_id e2 = role_id e1" and grants: "grant_id e2 = grant_id e1"
    by (simp_all add: role_id_def grant_id_def uuid fun_eq_iff)
  have runs: "rr_id (lakewood_run e2) = rr_id (lakewood_run e1)" "rr_id (northridge_run e2) = rr_id (northridge_run e1)"
    by (simp_all add: lakewood_run_def northridge_run_def uuid)
  show "seed_ids_ok e2 = seed_ids_ok e1"
    unfolding seed_ids_ok_def jobs orphans ops roles grants runs uuid ..
  show "seed_ready e2 db = seed_ready e1 db"
    unfolding seed_ready_def operators_free_def roles_free_def grants_free_def authorizations_free_def ops roles grants uuid ..
qed

lemma seed_result_twice:
  fixes db :: db
  assumes u: "se_uuid5 e2 = se_uuid5 e1" and ok: "seed_ids_ok e1"
  defines "once \<equiv> seed_result e2 db" and "r \<equiv> seed_result e1 db"
  shows "seed_result e2 r = r\<lparr>db_sync_jobs := db_sync_jobs once, db_cursors := db_cursors once,
    db_authorizations := db_authorizations once, db_reconciliation_runs := db_reconciliation_runs once\<rparr>"
proof -
  have ops: "db_operators (seed_tables e2 r) = db_operators r"
    by (simp add: r_def seed_result_def seed_tables_def operators_stay [OF u])
  then have ids: "operator_id (seed_tables e2 r) = operator_id (seed_tables e1 db)"
    by (intro operator_id_same) (simp add: r_def seed_result_def)
  have "map (\<lambda>r. (op_subject r, op_id r)) (db_operators (seed_tables e2 db)) =
      map (\<lambda>r. (op_subject r, op_id r)) (db_operators (seed_tables e1 db))"
    using u by (simp add: seed_tables_def loaded_pairs seed_uuid_def)
  then have once_ids: "operator_id (seed_tables e2 db) = operator_id (seed_tables e1 db)" by (rule operator_id_pairs)
  have auth_rows: "put_authorization e2 (seed_tables e2 r) = put_authorization e2 (seed_tables e2 db)"
    by (simp add: put_authorization_def fun_eq_iff ids once_ids)
  note stays = static_tables_stay operators_stay [OF u] orphans_stay [OF u ok] issue_stays [OF u]
    roles_stay [OF u ok ids] grants_stay [OF u ok ids]
  note refreshed = jobs_refresh [OF u ok] cursors_refresh authorizations_refresh [OF u ok] runs_refresh [OF u ok]
  have tables: "seed_tables e2 r = r\<lparr>db_sync_jobs := db_sync_jobs once, db_cursors := db_cursors once\<rparr>"
    by (rule db.equality) (simp_all add: r_def once_def seed_result_def seed_tables_def stays refreshed)
  have roles: "db_roles (seed_result e2 r) = db_roles r" and grants: "db_grants (seed_result e2 r) = db_grants r"
    using roles_stay [OF u ok ids] grants_stay [OF u ok ids] by (simp_all add: r_def seed_result_def)
  have auths: "db_authorizations (seed_result e2 r) = db_authorizations once"
    using authorizations_refresh [OF u ok] auth_rows by (simp add: r_def once_def seed_result_def)
  have runs: "db_reconciliation_runs (seed_result e2 r) = db_reconciliation_runs once"
    using runs_refresh [OF u ok] by (simp add: r_def once_def seed_result_def del: fold_simps)
  have "seed_result e2 r = (seed_tables e2 r)\<lparr>db_roles := db_roles r, db_authorizations := db_authorizations once,
      db_grants := db_grants r, db_reconciliation_runs := db_reconciliation_runs once\<rparr>"
    using roles grants auths runs by (simp add: seed_result_def)
  then show ?thesis unfolding tables by simp
qed

section \<open>Ids that do not collide\<close>

definition seed_job_names :: "string list" where
  "seed_job_names =
     map (\<lambda>k. ''lakewood-sync:'' @ string_of_nat k) [0..<5] @
     map (\<lambda>k. ''northridge-sync:'' @ string_of_nat k) [0..<6] @
     [''valley-sync:ok'', ''valley-sync:failed'', ''hillcrest-sync:ok'', ''riverside-sync:last''] @
     concat (map (\<lambda>k. map (\<lambda>i. ''activity:'' @ activity_leas ! k @ '':'' @ string_of_nat i) [0..<16]) [0..<4])"

lemma seed_job_names_distinct: "distinct seed_job_names"
  by code_simp

lemma sj_id_activity_job [simp]:
  "sj_id (activity_job e k i) = se_uuid5 e (''activity:'' @ activity_leas ! k @ '':'' @ string_of_nat i)"
  by (simp add: activity_job_def seed_job_def seed_uuid_def Let_def split: prod.splits)

lemma sj_id_seed_jobs: "map sj_id (seed_jobs e) = map (se_uuid5 e) seed_job_names"
proof -
  have "map (\<lambda>k. map sj_id (activity_jobs e k)) [0..<4] =
    map (\<lambda>k. map (se_uuid5 e) (map (\<lambda>i. ''activity:'' @ activity_leas ! k @ '':'' @ string_of_nat i) [0..<16])) [0..<4]"
    by (rule map_cong [OF refl]) (simp add: activity_all comp_def)
  then have activity: "map sj_id (seed_activity e) = map (se_uuid5 e)
      (concat (map (\<lambda>k. map (\<lambda>i. ''activity:'' @ activity_leas ! k @ '':'' @ string_of_nat i) [0..<16]) [0..<4]))"
    unfolding seed_activity_def map_concat map_map comp_def by (rule arg_cong)
  have "map sj_id (lakewood_jobs e) = map (se_uuid5 e) (map (\<lambda>k. ''lakewood-sync:'' @ string_of_nat k) [0..<5])"
    "map sj_id (northridge_jobs e) = map (se_uuid5 e) (map (\<lambda>k. ''northridge-sync:'' @ string_of_nat k) [0..<6])"
    by (simp_all add: lakewood_jobs_def lakewood_job_def northridge_jobs_def northridge_job_def northridge_timeline_def
        seed_job_def seed_uuid_def upt_rec)
  moreover have "map sj_id (valley_jobs e @ [hillcrest_job e, riverside_job e]) =
      map (se_uuid5 e) [''valley-sync:ok'', ''valley-sync:failed'', ''hillcrest-sync:ok'', ''riverside-sync:last'']"
    by (simp add: valley_jobs_def valley_failed_def hillcrest_job_def hillcrest_job_id_def riverside_job_def
        seed_job_def seed_uuid_def)
  ultimately show ?thesis using activity unfolding seed_jobs_def seed_job_names_def by simp
qed

lemma seed_other_names:
  "distinct (map (\<lambda>k. ''hillcrest-quar:'' @ string_of_nat k) [0..<30])"
  "distinct (map (\<lambda>s. ''operator:'' @ sp_subject s) SEEDED_OPERATORS)"
  "distinct (map (\<lambda>s. ''operator-role:'' @ sp_subject s @ '':'' @ sp_role s) SEEDED_OPERATORS)"
  "distinct (map (\<lambda>s. ''connector-authz:'' @ sl_id s @ '':edlink'') SEEDED_LEAS)"
  by code_simp+

lemma seed_ids_ok_inj:
  assumes "inj (se_uuid5 e)"
  shows "seed_ids_ok e"
proof -
  have image: "distinct (map (\<lambda>x. se_uuid5 e (f x)) xs)" if "distinct (map f xs)" for f :: "'a \<Rightarrow> string" and xs
    using that assms by (auto simp: distinct_map inj_on_def inj_def)
  have "distinct (map sj_id (seed_jobs e))"
    using assms seed_job_names_distinct by (simp add: sj_id_seed_jobs distinct_map inj_on_def inj_def)
  moreover have "distinct (map qr_id (seed_orphans e))"
    using image [OF seed_other_names(1)] by (simp add: seed_orphans_def hillcrest_orphan_def seed_uuid_def comp_def)
  moreover have "distinct (map (\<lambda>s. op_id (seed_operator_row e s)) SEEDED_OPERATORS)"
    using image [OF seed_other_names(2)] by (simp add: seed_operator_row_def seed_uuid_def)
  moreover have "distinct (map (role_id e) SEEDED_OPERATORS)"
    using image [OF seed_other_names(3)] by (simp add: role_id_def [abs_def] seed_uuid_def)
  moreover have "distinct (map (\<lambda>s. seed_uuid e ''connector-authz'' (sl_id s @ '':edlink'')) SEEDED_LEAS)"
    using image [OF seed_other_names(4)] by (simp add: seed_uuid_def)
  moreover have "distinct (map (\<lambda>(s, l). grant_id e s l) seeded_grants)"
    using assms by (simp add: seeded_grants_def grant_id_def seed_uuid_def inj_eq)
  moreover have "rr_id (lakewood_run e) \<noteq> rr_id (northridge_run e)"
    using assms by (simp add: lakewood_run_def northridge_run_def seed_uuid_def inj_eq)
  ultimately show ?thesis unfolding seed_ids_ok_def by blast
qed

lemma empty_db_ready: "seed_ready e empty_db"
  by (simp add: seed_ready_def leas_free_def students_fit_def operators_free_def roles_free_def grants_free_def
      authorizations_free_def empty_db_def case_prod_beta)

section \<open>A seeded empty database\<close>

lemma seeded_fresh:
  assumes ok: "seed_ids_ok e"
  shows "db_leas (seed_result e empty_db) = map seed_lea_row SEEDED_LEAS"
    and "db_sync_jobs (seed_result e empty_db) = seed_jobs e"
    and "db_quarantine (seed_result e empty_db) = seed_orphans e"
    and "db_cursors (seed_result e empty_db) = seed_cursor_rows e"
    and "db_operators (seed_result e empty_db) = map (seed_operator_row e) SEEDED_OPERATORS"
    and "db_authorizations (seed_result e empty_db) = map (put_authorization e (seed_tables e empty_db)) SEEDED_LEAS"
    and "db_reconciliation_runs (seed_result e empty_db) = [lakewood_run e, northridge_run e]"
proof -
  have ops: "distinct (map op_subject (map (seed_operator_row e) SEEDED_OPERATORS))"
    using seeded_subjects by (simp add: comp_def)
  have auths: "distinct (map au_id (map (put_authorization e d) SEEDED_LEAS))" for d
    using ok by (simp add: seed_ids_ok_def comp_def)
  have runs: "distinct (map rr_id [lakewood_run e, northridge_run e])" using ok by (simp add: seed_ids_ok_def)
  have cursors: "distinct (map cursor_key (seed_cursor_rows e))"
    by (simp add: seed_cursor_rows_def lakewood_cursor_def northridge_cursor_def valley_cursor_def hillcrest_cursor_def
        riverside_cursor_def seed_cursor_row_def cursor_key_def LAKEWOOD_def NORTHRIDGE_def VALLEY_def HILLCREST_def
        RIVERSIDE_def)
  note fresh = seed_leas.upserts_fresh [OF static_keys(1)] seed_ops.upserts_fresh [OF ops]
    seed_authz.upserts_fresh [OF auths] seed_runs.upserts_fresh [OF runs] seed_cursors.upserts_fresh [OF cursors]
  show "db_leas (seed_result e empty_db) = map seed_lea_row SEEDED_LEAS"
    "db_cursors (seed_result e empty_db) = seed_cursor_rows e"
    "db_operators (seed_result e empty_db) = map (seed_operator_row e) SEEDED_OPERATORS"
    "db_authorizations (seed_result e empty_db) = map (put_authorization e (seed_tables e empty_db)) SEEDED_LEAS"
    by (simp_all add: seed_result_def seed_tables_def empty_db_def fresh)
  show "db_sync_jobs (seed_result e empty_db) = seed_jobs e" "db_quarantine (seed_result e empty_db) = seed_orphans e"
    using ok seed_jobs.upserts_fresh [of "seed_jobs e"] seed_orphans.upserts_fresh [of "seed_orphans e"]
    by (simp_all add: seed_result_def seed_tables_def empty_db_def seed_ids_ok_def)
  show "db_reconciliation_runs (seed_result e empty_db) = [lakewood_run e, northridge_run e]"
    unfolding seed_result_def using fresh(4) by (simp add: empty_db_def del: fold_simps)
qed

section \<open>The alerts of the seeded LEAs\<close>

lemma orphan_sel [simp]:
  "qr_lea_id (hillcrest_orphan e k) = HILLCREST" "qr_resolved_at (hillcrest_orphan e k) = None"
  "qr_created_at (hillcrest_orphan e k) = se_now e - minutes_us (120 - int k)"
  by (simp_all add: hillcrest_orphan_def)

lemma recent_orphans:
  "filter (recent_unresolved t 24) (seed_orphans e) =
     map (hillcrest_orphan e) (filter (\<lambda>k. t - se_now e \<le> minutes_us (1320 + int k)) [0..<30])"
  by (simp add: seed_orphans_def filter_map comp_def recent_unresolved_def hours_us_def minutes_us_def algebra_simps)

lemma remdups_const: "xs \<noteq> [] \<Longrightarrow> \<forall>x \<in> set xs. f x = c \<Longrightarrow> remdups (map f xs) = [c]"
proof (induction xs)
  case (Cons x xs)
  then show ?case by (cases xs) auto
qed simp

text \<open>The backlog of Hillcrest is above the threshold for 22 hours after the seed wrote it, and for 4 minutes more.\<close>

lemma orphans_above:
  assumes "db_quarantine db = seed_orphans e" and "t - se_now e \<le> minutes_us 1320"
  shows "map ar_dedup_key (evaluate_quarantine_growth 25 24 t db) = [''alert.quarantine_growth:lea-hillcrest-usd'']"
proof -
  have all: "filter (\<lambda>k. t - se_now e \<le> minutes_us (1320 + int k)) [0..<30] = [0..<30]"
    using assms(2) by (intro filter_True) (auto simp: minutes_us_def)
  have recent: "filter (recent_unresolved t 24) (seed_orphans e) = map (hillcrest_orphan e) [0..<30]"
    unfolding recent_orphans all ..
  have leas: "remdups (map qr_lea_id (map (hillcrest_orphan e) [0..<30])) = [HILLCREST]"
    by (rule remdups_const) simp_all
  have "filter (\<lambda>q. recent_unresolved t 24 q \<and> qr_lea_id q = HILLCREST) (seed_orphans e) =
      filter (\<lambda>q. qr_lea_id q = HILLCREST) (filter (recent_unresolved t 24) (seed_orphans e))"
    unfolding filter_filter ..
  then have "quarantine_count t 24 (seed_orphans e) HILLCREST = 30"
    unfolding quarantine_count_def count_where_def recent by (simp add: filter_map comp_def)
  then show ?thesis
    unfolding evaluate_quarantine_growth_def Let_def assms(1) recent leas by simp (simp add: HILLCREST_def)
qed

lemma orphans_below:
  assumes "db_quarantine db = seed_orphans e" and "minutes_us 1324 < t - se_now e"
  shows "evaluate_quarantine_growth 25 24 t db = []"
proof -
  have "quarantine_count t 24 (seed_orphans e) l \<le> 25" for l
  proof -
    have "length (filter (\<lambda>q. recent_unresolved t 24 q \<and> qr_lea_id q = l) (seed_orphans e)) \<le>
        length (filter (recent_unresolved t 24) (seed_orphans e))"
      unfolding filter_filter [symmetric] by (rule length_filter_le)
    also have "\<dots> = card {k. k < 30 \<and> t - se_now e \<le> minutes_us (1320 + int k)}"
      unfolding recent_orphans length_map by (simp add: length_filter_conv_card cong: conj_cong)
    also have "\<dots> \<le> card {5..<30::nat}"
      using assms(2) by (intro card_mono) (auto simp: minutes_us_def)
    finally show ?thesis by (simp add: quarantine_count_def count_where_def)
  qed
  then have "\<not> 25 < quarantine_count t 24 (seed_orphans e) l" for l by (simp add: not_less)
  then show ?thesis by (simp add: evaluate_quarantine_growth_def Let_def assms(1))
qed

lemma lag_of_seed:
  assumes "db_cursors db = seed_cursor_rows e" and "0 \<le> t - se_now e" and "t - se_now e \<le> days_us 19"
  shows "map ar_dedup_key (evaluate_cursor_lag fmt 20 t db) = [''alert.cursor_lag_20_day:lea-riverside-usd:edlink'']"
proof -
  have "filter (\<lambda>c. case cs_last_event_at c of None \<Rightarrow> False | Some u \<Rightarrow> u < t - days_us 20) (seed_cursor_rows e) =
      [riverside_cursor e]"
    using assms(2,3)
    by (auto simp: seed_cursor_rows_def lakewood_cursor_def northridge_cursor_def valley_cursor_def hillcrest_cursor_def
        riverside_cursor_def seed_cursor_row_def days_us_def hours_us_def minutes_us_def)
  then show ?thesis
    by (simp add: evaluate_cursor_lag_def assms(1) Let_def)
      (simp add: riverside_cursor_def seed_cursor_row_def RIVERSIDE_def)
qed

lemma run_order: "sort (remdups [(''lea-lakewood-usd'', ''edlink''), (''lea-northridge-sd'', ''edlink'')]) =
    [(''lea-lakewood-usd'', ''edlink''), (''lea-northridge-sd'', ''edlink'')]"
  by code_simp

lemma drift_of_seed:
  assumes runs: "db_reconciliation_runs db = [lakewood_run e, northridge_run e]"
    and "0 \<le> t - se_now e" and "t - se_now e \<le> hours_us 2"
  shows "\<exists>a. evaluate_reconciliation_drift fmt ft 24 t db = Inr [a] \<and>
    ar_dedup_key a = ''alert.reconciliation_drift:lea-northridge-sd:edlink''"
proof -
  have window: "in_window t 24 (lakewood_run e)" "in_window t 24 (northridge_run e)"
    using assms(2,3) by (simp_all add: in_window_def lakewood_run_def northridge_run_def hours_us_def minutes_us_def)
  have keys: "rr_key (lakewood_run e) = (''lea-lakewood-usd'', ''edlink'')"
    "rr_key (northridge_run e) = (''lea-northridge-sd'', ''edlink'')"
    by (simp_all add: rr_key_def lakewood_run_def northridge_run_def LAKEWOOD_def NORTHRIDGE_def)
  have "latest_runs t 24 db = [lakewood_run e, northridge_run e]"
    unfolding latest_runs_def runs Let_def
    by (simp add: window keys run_order [simplified] latest_run_def)
  moreover have "rr_status (lakewood_run e) = ''matched''" "rr_status (northridge_run e) = ''drift_detected''"
    by (simp_all add: lakewood_run_def northridge_run_def)
  ultimately have "evaluate_reconciliation_drift fmt ft 24 t db = map_res (drift_alert fmt ft) [northridge_run e]"
    by (simp add: evaluate_reconciliation_drift_def)
  moreover obtain a where "drift_alert fmt ft (northridge_run e) = Inr a"
    "ar_dedup_key a = ''alert.reconciliation_drift:lea-northridge-sd:edlink''"
    by (simp add: drift_alert_def Let_def summed_len_def northridge_run_def dict_get_default_def json_or_def truthy_def
        json_len_def NORTHRIDGE_def)
  ultimately show ?thesis by simp
qed

lemma activity_job_sel:
  "sj_lea_id (activity_job e k i) = activity_leas ! k" "sj_started_at (activity_job e k i) = activity_start e k i"
  by (simp_all add: activity_job_def seed_job_def Let_def split: prod.splits)

lemma valley_last_failed:
  assumes "db_sync_jobs db = seed_jobs e"
  shows "\<exists>j \<in> set (db_sync_jobs db). sj_lea_id j = ''lea-valley-charter'' \<and> sj_status j = ''failed'' \<and>
    (\<forall>i \<in> set (db_sync_jobs db). sj_lea_id i = ''lea-valley-charter'' \<longrightarrow> sj_started_at i \<le> sj_started_at j)"
proof -
  let ?j = "valley_jobs e ! 1"
  have started: "sj_started_at ?j = se_now e - minutes_us 22" by (simp add: valley_jobs_def seed_job_def)
  have "sj_started_at i \<le> se_now e - minutes_us 22"
    if i: "i \<in> set (seed_jobs e)" and l: "sj_lea_id i = ''lea-valley-charter''" for i
  proof -
    from i consider "i \<in> set (lakewood_jobs e) \<union> set (northridge_jobs e) \<union> {hillcrest_job e, riverside_job e}"
      | "i \<in> set (valley_jobs e)" | k n where "k < 4" "n < 16" "i = activity_job e k n"
      by (auto simp: seed_jobs_def seed_activity_def activity_all)
    then show ?thesis
    proof cases
      case 1
      then have "sj_lea_id i \<noteq> ''lea-valley-charter''"
        by (auto simp: lakewood_jobs_def lakewood_job_def northridge_jobs_def northridge_job_def hillcrest_job_def
            riverside_job_def seed_job_def LAKEWOOD_def NORTHRIDGE_def HILLCREST_def RIVERSIDE_def)
      with l show ?thesis by simp
    next
      case 2
      then show ?thesis by (auto simp: valley_jobs_def seed_job_def minutes_us_def hours_us_def)
    next
      case (3 k n)
      then show ?thesis by (simp add: activity_job_sel activity_start_def minutes_us_def hours_us_def)
    qed
  qed
  moreover have "?j \<in> set (seed_jobs e)" by (simp add: seed_jobs_def valley_jobs_def)
  moreover have "sj_lea_id ?j = ''lea-valley-charter''" "sj_status ?j = ''failed''"
    by (simp_all add: valley_jobs_def seed_job_def VALLEY_def)
  ultimately show ?thesis unfolding assms started [symmetric] by blast
qed

section \<open>Revocations\<close>

lemma revoked_ready:
  assumes "seed_ready e db" and "revoke l p who reason now db = (db1, Inr out)"
  shows "seed_ready e db1"
proof -
  from assms(2) obtain a db2 where a: "load_live_row l p db = Some a"
    and log: "write_audit_log who ''connector.revoked'' ''connector_authorization'' (uuid_str (au_id a)) (Some l) reason
      [(''partner'', JStr p), (''previous_status'', JStr (au_status a))] now
      (update_authorization (au_id a) (revoke_row now who) db) = Inr db1"
    by (auto simp: revoke_def transaction_Inr res_simps split: option.splits)
  from log have same: "db_leas db1 = db_leas db" "db_students db1 = db_students db" "db_operators db1 = db_operators db"
    "db_roles db1 = db_roles db" "db_grants db1 = db_grants db"
    and auths: "db_authorizations db1 = update_where (\<lambda>b. au_id b = au_id a) (revoke_row now who) (db_authorizations db)"
    by (auto simp: write_audit_log_def update_authorization_def split: if_splits)
  have "authorizations_free e db1"
    using assms(1) unfolding authorizations_free_def seed_ready_def auths
    by (auto simp: set_update_where revoke_row_def live_authorization_def)
  then show ?thesis
    using assms(1) same free_same [of db1 db] fit_same [of db1 db] by (simp add: seed_ready_def)
qed

text \<open>The row of a seeded LEA is active after a run, with the date of revocation it had.\<close>

lemma seeded_row_active:
  assumes ok: "seed_ids_ok e" and s: "s \<in> set SEEDED_LEAS" and a: "a \<in> set (db_authorizations db)"
    and id: "au_id a = seed_uuid e ''connector-authz'' (sl_id s @ '':edlink'')"
  shows "\<exists>b \<in> set (db_authorizations (seed_result e db)). pair_of b = pair_of a \<and> au_status b = ''active'' \<and>
    au_revoked_at b = au_revoked_at a"
proof -
  let ?rows = "map (put_authorization e (seed_tables e db)) SEEDED_LEAS"
  have dist: "distinct (map au_id ?rows)" using ok by (simp add: seed_ids_ok_def comp_def)
  let ?row = "put_authorization e (seed_tables e db) s"
  have "lookup_by au_id (au_id a) ?rows = Some ?row"
    using dist s id by (simp add: lookup_by_Some_iff_distinct)
  with a have "merge_seed_authorization a ?row \<in> set (db_authorizations (seed_result e db))"
    by (force simp: seed_result_def seed_authz.upserts_closed [OF dist])
  then show ?thesis
    by (intro bexI [of _ "merge_seed_authorization a ?row"])
      (simp_all add: pair_of_def merge_seed_authorization_def put_authorization_def seed_authorization_row_def)
qed

text \<open>On a seeded empty database the authorizations are well formed, and each can be revoked.\<close>

lemma seeded_authz_ok:
  assumes "seed_ids_ok e"
  shows "authz_ok (db_authorizations (seed_result e empty_db))"
proof -
  have live: "live_auth (put_authorization e d s)" for d s
    by (simp add: live_auth_def put_authorization_def seed_authorization_row_def)
  have "distinct (map (\<lambda>s. (sl_id s, ''edlink'')) SEEDED_LEAS)" by (simp add: SEEDED_LEAS_def)
  moreover have "pair_of (put_authorization e d s) = (sl_id s, ''edlink'')" for d s by (simp add: pair_of_def)
  moreover have "row_ok (put_authorization e d s)" for d s
    by (simp add: row_ok_def live put_authorization_def seed_authorization_row_def POLL_INTERVAL_MIN_def
        POLL_INTERVAL_MAX_def live_auth_def)
  moreover have "distinct (map (\<lambda>s. seed_uuid e ''connector-authz'' (sl_id s @ '':edlink'')) SEEDED_LEAS)"
    using assms by (simp add: seed_ids_ok_def)
  ultimately show ?thesis
    by (auto simp: authz_ok_def seeded_fresh(6) [OF assms] comp_def filter_map live)
qed

lemma seeded_revocable:
  assumes "seed_ids_ok e"
  shows "\<exists>db1 out. revoke ''lea-lakewood-usd'' ''edlink'' (op_id (seed_operator_row e (hd SEEDED_OPERATORS))) reason now
    (seed_result e empty_db) = (db1, Inr out)"
proof -
  let ?db = "seed_result e empty_db" and ?who = "op_id (seed_operator_row e (hd SEEDED_OPERATORS))"
  have "?who \<in> op_id ` set (db_operators ?db)"
    unfolding seeded_fresh(5) [OF assms] using first_owner(3) by simp
  moreover have "lea_exists ?db ''lea-lakewood-usd''"
    by (simp add: lea_exists_def seeded_fresh(1) [OF assms] SEEDED_LEAS_def seed_lea_row_def)
  moreover have "load_live_row ''lea-lakewood-usd'' ''edlink'' ?db \<noteq> None"
    by (simp add: load_live_row_def seeded_fresh(6) [OF assms] SEEDED_LEAS_def live_authorization_def
        put_authorization_def seed_authorization_row_def)
  ultimately show ?thesis
    by (auto simp: revoke_def transaction_def known_operator_def ensure_def write_audit_log_def update_authorization_def
        lea_exists_def)
qed

section \<open>Properties\<close>

definition sample_seed :: "timestamp \<Rightarrow> seed_env" where
  "sample_seed t = \<lparr>se_uuid5 = to_nat, se_now = t, se_txn = t, se_clock = (\<lambda>_. t)\<rparr>"

lemma sample_seed_ok: "seed_ids_ok (sample_seed t)"
  by (rule seed_ids_ok_inj) (simp add: sample_seed_def)

text \<open>
  C39. The seed is idempotent. On every database where nothing but its own rows has its ids and
  unique columns it succeeds, and so does a second run, at any later time; the second run
  changes the sync jobs, the cursors, the authorizations and the reconciliation runs, which are
  then what a single run at that time gives, and no other table.
\<close>

theorem seed_idempotent:
  assumes "seed_ready e1 db" and "seed_ids_ok e1" and "se_uuid5 e2 = se_uuid5 e1"
  shows "(let (db1, r1) = seed_realistic_state e1 db; (db2, r2) = seed_realistic_state e2 db1;
      once = fst (seed_realistic_state e2 db) in
    r1 = Inr () \<and> r2 = Inr () \<and>
    db2 = db1\<lparr>db_sync_jobs := db_sync_jobs once, db_cursors := db_cursors once,
      db_authorizations := db_authorizations once, db_reconciliation_runs := db_reconciliation_runs once\<rparr>)"
proof -
  note same = seed_ids_same [OF assms(3)]
  have run: "seed_realistic_state e2 d = (seed_result e2 d, Inr ())" if "seed_ready e1 d" for d
    using seed_effect(1) [of e2 d] same assms(2) that by simp
  show ?thesis
    using seed_result_twice [OF assms(3,2), of db] run [OF assms(1)] run [OF seed_effect(2) [OF assms(1,2)]]
    by (simp add: seed_effect(1) [OF assms(1,2)])
qed

theorem seed_idempotent_witness:
  "(let (db1, r1) = seed_realistic_state (sample_seed 0) empty_db;
      (db2, r2) = seed_realistic_state (sample_seed 86400000000) db1;
      once = fst (seed_realistic_state (sample_seed 86400000000) empty_db) in
    r1 = Inr () \<and> r2 = Inr () \<and>
    db2 = db1\<lparr>db_sync_jobs := db_sync_jobs once, db_cursors := db_cursors once,
      db_authorizations := db_authorizations once, db_reconciliation_runs := db_reconciliation_runs once\<rparr>)"
  by (rule seed_idempotent) (simp_all add: empty_db_ready sample_seed_ok, simp add: sample_seed_def)



text \<open>
  C27. A run of the seed takes back the revocations of operators. After a successful revocation of a
  seeded LEA the daily sweep no longer visits it. When the seed runs again it succeeds, the
  revoked row is active while it still carries its date of revocation, so the invariant of the
  table is broken, and the sweep visits the LEA again.
\<close>

theorem seed_undoes_revocation:
  assumes "authz_ok (db_authorizations db)" and "seed_ready e db" and "seed_ids_ok e"
    and "l \<in> sl_id ` set SEEDED_LEAS" and "revoke l ''edlink'' who reason now db = (db1, Inr out)"
  shows "(l, ''edlink'') \<notin> set (active_authorizations db1) \<and>
    (let (db2, r) = seed_realistic_state e db1 in
      r = Inr () \<and> (l, ''edlink'') \<in> set (active_authorizations db2) \<and> \<not> authz_ok (db_authorizations db2))"
proof -
  obtain s where s: "s \<in> set SEEDED_LEAS" "l = sl_id s" using assms(4) by auto
  from revoke_Inr [OF assms(5)] obtain a where a: "load_live_row l ''edlink'' db = Some a"
    and rows: "db_authorizations db1 =
      update_where (\<lambda>b. au_id b = au_id a) (revoke_row now who) (db_authorizations db)" by blast
  note m = load_live_rowD [OF a]
  then have "live_authorization (sl_id s) ''edlink'' a" using s by (simp add: live_authorization_iff)
  then have id: "au_id a = seed_uuid e ''connector-authz'' (sl_id s @ '':edlink'')"
    using m assms(2) s(1) by (auto simp: seed_ready_def authorizations_free_def)
  let ?a = "revoke_row now who a"
  have "?a \<in> set (db_authorizations db1)" using m by (auto simp: rows set_update_where)
  moreover have "au_id ?a = seed_uuid e ''connector-authz'' (sl_id s @ '':edlink'')" "pair_of ?a = (l, ''edlink'')"
    "au_revoked_at ?a = Some now"
    using id m by (simp_all add: revoke_row_def pair_of_def)
  ultimately obtain b where b: "b \<in> set (db_authorizations (seed_result e db1))" "pair_of b = (l, ''edlink'')"
    "au_status b = ''active''" "au_revoked_at b = Some now"
    using seeded_row_active [OF assms(3) s(1)] by metis
  then have "(l, ''edlink'') \<in> set (active_authorizations (seed_result e db1))" by (auto simp: mem_active)
  moreover have "\<not> row_ok b" using b by (simp add: row_ok_def live_auth_def)
  then have "\<not> authz_ok (db_authorizations (seed_result e db1))" using b(1) by (auto simp: authz_ok_def)
  moreover have "(l, ''edlink'') \<notin> set (active_authorizations db1)"
    using sweep_follows_authorization [where l = l and p = "''edlink''" and who = who and reason = reason and now = now,
        OF assms(1), THEN conjunct2] assms(5) by simp
  ultimately show ?thesis
    using seed_effect(1) [OF revoked_ready [OF assms(2,5)] assms(3)] by simp
qed

theorem seed_undoes_revocation_witness:
  "\<exists>db1 out. revoke ''lea-lakewood-usd'' ''edlink'' (op_id (seed_operator_row (sample_seed 0) (hd SEEDED_OPERATORS)))
      ''paused'' 5 (fst (seed_realistic_state (sample_seed 0) empty_db)) = (db1, Inr out) \<and>
    (''lea-lakewood-usd'', ''edlink'') \<notin> set (active_authorizations db1) \<and>
    (let (db2, r) = seed_realistic_state (sample_seed 0) db1 in
      r = Inr () \<and> (''lea-lakewood-usd'', ''edlink'') \<in> set (active_authorizations db2) \<and>
      \<not> authz_ok (db_authorizations db2))"
proof -
  let ?e = "sample_seed 0" and ?who = "op_id (seed_operator_row (sample_seed 0) (hd SEEDED_OPERATORS))"
  note ok = sample_seed_ok [of 0]
  note seeded = seed_effect [OF empty_db_ready ok]
  obtain db1 out where run: "revoke ''lea-lakewood-usd'' ''edlink'' ?who ''paused'' 5 (seed_result ?e empty_db) = (db1, Inr out)"
    using seeded_revocable [OF ok] by blast
  have "''lea-lakewood-usd'' \<in> sl_id ` set SEEDED_LEAS" by (simp add: SEEDED_LEAS_def)
  from seed_undoes_revocation [OF seeded_authz_ok [OF ok] seeded(2) ok this run] run show ?thesis
    by (auto simp: seeded(1))
qed

end
