(* ===== verification/Spec2Isabelle.thy ===== *)
theory Spec2Isabelle
  imports CommandLine TimelineProperties ServiceBusProperties TestEventsProperties Connectors
    Privileges ApiApplication SeedProperties
begin

text \<open>
  A model of the EdLink rostering backend (the Python package \<open>src/edlink_rostering\<close>) and what it
  promises.

  The program. A partner (EdLink) publishes, per local education agency (LEA), a feed of events
  about people, enrollments and the agency itself. The sync worker polls the feed through a
  connector, one page at a time from a cursor it keeps in Postgres; each page passes a validation
  pipeline of five layers and is then applied in one transaction: the canonical tables hold the
  current rows, the append-only snapshot tables every version ever stored, tagged with the sync
  job (the generation) that wrote it. An enrollment of an unknown student waits in quarantine
  until an operator releases or rejects it. An operator can revert a sync, rewind the cursor to
  retry one, bulk-load the partner's current state after a cold start, and compare both sides by
  reconciliation, which also runs as a daily sweep. Connector authorizations decide which LEAs
  are polled at all. The admin API serves the operators, with roles, grants per LEA, idempotency
  keys and an activity timeline; a command line does the same from a shell. A message broker with
  sessions keyed by the LEA serializes the work, a retry policy wraps calls that may fail, and a
  vault keeps the tokens of the partner.

  How it is translated. The state of the services is the record \<open>db\<close> of Database: one list of rows
  per table, in insertion order, with the snapshot tables indexed by entity type. A function that
  takes a session is a function on \<open>db\<close>; an exception is the left summand (\<open>exn\<close>, one constructor
  per class of exception the code can see), so the foreign keys, unique indexes and check
  constraints that a statement can violate are branches of the model. \<open>transaction\<close> (Prelude) is a
  session with its commit or rollback. A Python dictionary is an association list whose order is
  kept (PyStd), JSON values are the datatype \<open>json\<close>, numbers are unbounded integers and exact
  rationals, dates have the calendar of \<open>datetime.date\<close> (PyDate), timestamps are integers in
  microseconds, row ids are natural numbers.

  The theories, in the order they build on each other.

  Shared: Prelude (results, loops that stop at the first exception, the statements of SQL, and the
  locale \<open>keyed_table\<close> of a table with a primary key, interpreted for every table that is upserted);
  PyStd, PyDate, PyJson (the Python values, the texts of \<open>str\<close>, \<open>repr\<close> and \<open>json.dumps\<close>);
  Canonical (\<open>core/types.py\<close>, \<open>canonical/\<close>, the envelope of an event); Samples (values for
  the witnesses, no code); Database (\<open>infrastructure/db/models.py\<close> and the migrations: rows,
  constraints, the abstract snapshot store, and the locale \<open>snapshot_writer\<close> of an operation that
  supersedes the live snapshot of a key and inserts the next).

  The sync path: Validation (\<open>services/validation/\<close>; the per-event layers interpret the locale
  \<open>event_layer\<close>), SyncWorker, SyncInvariants, SyncProperties (\<open>services/sync_worker.py\<close>: a page,
  a failed page, the drain; an interpretation of \<open>snapshot_writer\<close>; the refinement of a page by a
  last-writer-wins store, replay, isolation of LEAs, the chain of cursors), Revert and
  RevertProperties (\<open>services/revert.py\<close>), Retry (\<open>services/retry.py\<close>), Quarantine
  (\<open>services/quarantine.py\<close>), BulkLoad (\<open>services/bulk_load.py\<close>, the second interpretation of
  \<open>snapshot_writer\<close>), Alerts (\<open>services/alerts.py\<close>), IntegrationStatus
  (\<open>services/integration_status.py\<close>).

  The partner: EdlinkClient (\<open>connectors/edlink/client.py\<close>, whose pages of resources and of events
  both interpret the locale \<open>pager\<close>), EdlinkConnector (\<open>connectors/edlink/connector.py\<close>),
  EdlinkProperties (completeness of polling and of the resource walk, well-formed pages, an event
  nobody can read).

  Reconciliation: Reconciliation and ReconciliationProperties (\<open>services/reconciliation.py\<close>:
  a run matches exactly when both sides hold the same rows, unless the digest collides),
  ReconciliationScheduler (\<open>services/reconciliation_scheduler.py\<close>).

  Administration: Idempotency (\<open>services/idempotency.py\<close>), ConnectorAuthz
  (\<open>services/connector_authz.py\<close>), LeaAdmin (\<open>services/lea_admin.py\<close>), Queries
  (\<open>services/queries/\<close>), Timeline and TimelineProperties (\<open>services/admin_timeline.py\<close>), ApiAuth
  (\<open>api/auth.py\<close>, \<open>api/_lookups.py\<close>, \<open>api/errors.py\<close>), Api (\<open>api/routers/\<close> and the constraints of
  \<open>api/schemas.py\<close>), Tenancy (the locale \<open>scoped_query\<close>: what a read with a scope may depend on,
  interpreted by the five scoped queries), ApiProperties.

  Operation: ServiceBus and ServiceBusProperties (\<open>infrastructure/azure_mocks/service_bus.py\<close> and
  \<open>core/retry.py\<close>; interleavings of threads are sequences of steps of an inductive relation),
  KeyVault (\<open>infrastructure/azure_mocks/key_vault.py\<close>), Onboarding
  (\<open>cli/commands/onboard_lea.py\<close>), CommandLine (the other commands of \<open>cli/commands/\<close> and
  \<open>cli/_snapshot.py\<close>), TestEvents and TestEventsProperties (\<open>services/test_events.py\<close>,
  \<open>api/routers/dev_test_events.py\<close>), Connectors (\<open>connectors/protocol.py\<close> and
  \<open>connectors/null_connector.py\<close>: the locale \<open>connector\<close>, whose law is that a page holds events of
  the LEA asked for; the EdLink connector and the null connector interpret it, and the drain
  keeps LEAs apart through either), RetentionDrift (the check of the retention texts against the
  document they come from).

  Schema and start-up: Migrations (the trigger that guards the snapshot tables, the renaming of
  the roles, the founding operators, up and down), Privileges (the grants to the roles of the
  database, the statements of each service, and which of them the role of its engine is denied),
  Bootstrap (the tables as the migrations leave them, and the first logins), ApiApplication
  (\<open>core/settings.py\<close>, \<open>api/dependencies.py\<close>, \<open>api/middleware.py\<close>, \<open>api/readiness.py\<close>,
  \<open>api/app.py\<close>, \<open>api/routers/dev.py\<close>: settings from the environment, the context of a request,
  readiness, the minting of development tokens), Seed, SeedEffect and SeedProperties
  (\<open>dev/seed.py\<close>: the development data as one transaction of upserts, its effect on every table, a
  second run, the alerts of the seeded LEAs; the laws of many upserts extend the locale
  \<open>keyed_table\<close>, which every seeded table interprets).
\<close>

text \<open>
  What the lemmas show. Of each statement: its frame (which tables it leaves alone) and what it
  keeps (distinct keys, append-only snapshots, at most one live snapshot of a key). Of each
  service: what it does on every branch, the refused ones included. Across services: a page
  refines a fold over the abstract store (\<open>store\<close>: key to live value), so a revert gives back the
  store from before the page and a rewound cursor replays without effect; a released quarantine row
  is what the event would have written; a bulk load stores the partner's state; a scoped read is a
  function of the rows of its LEAs; every operator action is in the timeline and its pages
  cover it; a route answers only an operator that the current tables authorize; a sweep visits the
  active authorizations whatever single runs raise.

  Some theorems state what the program does against its own comments, because the behaviour matters
  to whoever builds on it: a release over a live enrollment leaves two live snapshots, a student
  id that another LEA uses is taken over, an unreadable event stops the polling of its LEA for good,
  a test event with a made-up id hides the feed, abandoning several messages reverses their order
  (\<open>abandon_reverses\<close>), a response is never retried for its status, a token in the
  environment is found for lower-case LEA ids only, the first sync after onboarding skips the feed,
  a retry mutes the lag alert of its LEA (\<open>retry_mutes_lag_alert\<close>), a run of the seed makes a revoked
  authorization active again.

  Parameters of the model: what is not under \<open>src/\<close> or not a function of the state. The text of a
  float (\<open>ft\<close>); the digest (a function on strings; equality of trees needs that it has no collision
  among the texts of the run, which is a hypothesis there); the parsing of timestamps and of
  Postgres dates; the decoder of tokens; the version 5 UUID of a text; the fixture files of the
  partner (a map from names to JSON); the clock and the ids of new rows, handed in by the caller, or as functions of the
  position in a loop; the environment variables; the partner's current state in a bulk load and a
  reconciliation, with \<open>Snapshot\<close> providers as functions that may raise. Each property with a
  hypothesis has a witness that applies it to concrete values.

  Bounds and termination. The drain of an LEA counts down its page cap (\<open>max_pages\<close>). The loops
  that follow a page token and the retry loop may run forever in principle; they are
  \<open>partial_function (option)\<close>, with None for not returning, and the properties show that they
  return: the walks because every page with more to come is not empty, the retry loop because of
  its five attempts. Everything else recurses on its data.

  Not modelled. Logging, telemetry sinks, the engine and its pool, CORS, the wiring of singletons,
  the option parsing and the printing of the command line: I/O and configuration. Indexes other
  than the unique ones, and the columns that the migrations create as such: the rows of Database
  have the final ones. Concurrency of sessions in Postgres: a transaction is one step, the interleavings that matter are those of the broker and of idempotent requests,
  which are sequences of such steps. A background task that dies with its process.
\<close>

end
